(* ===== verification/Prelude.thy ===== *)
theory Prelude
  imports Main "HOL-Library.State_Monad" "HOL-Library.AList"
    "HOL-Library.List_Lexorder" "HOL-Library.Char_ord" "HOL-Library.Sublist"
    "HOL-Library.Multiset"
begin

text \<open>
  What every component of the development shares: Go errors as values, the state monad the
  operations are written in, a weakest-precondition calculus for it with its rule collection
  \<open>wp_rules\<close>, Go maps as association lists, the string helpers of package \<open>strings\<close>
  the code uses, and stable sorting by a \<open>less\<close> function (\<open>sort.SliceStable\<close>).
\<close>

named_theorems wp_rules "weakest-precondition rules, one per operation"

section \<open>Go errors\<close>

text \<open>
  An \<open>error\<close> is a value: \<open>Errf fmt args\<close> stands for \<open>fmt.Errorf(fmt, args...)\<close> with the
  format string of the source and its string arguments (numbers are left out);
  \<open>Wrapf fmt args e\<close> for the same with a wrapped error (\<open>%w\<close>).
\<close>

datatype goerr = Errf string "string list" | Wrapf string "string list" goerr

type_synonym 'a res = "goerr + 'a"

fun err_mentions :: "string \<Rightarrow> goerr \<Rightarrow> bool" where
  "err_mentions t (Errf f as) = (sublist t f \<or> (\<exists>a \<in> set as. sublist t a))"
| "err_mentions t (Wrapf f as e) =
     (sublist t f \<or> (\<exists>a \<in> set as. sublist t a) \<or> err_mentions t e)"

definition is_err :: "'a res \<Rightarrow> bool" where
  "is_err r = (case r of Inl _ \<Rightarrow> True | Inr _ \<Rightarrow> False)"

lemma is_err_simps [simp]: "is_err (Inl e)" "\<not> is_err (Inr a)"
  by (simp_all add: is_err_def)

lemma is_err_iff: "is_err r \<longleftrightarrow> (\<exists>e. r = Inl e)"
  by (cases r) auto

section \<open>Programs: the state monad and its weakest preconditions\<close>

abbreviation ret :: "'a \<Rightarrow> ('s, 'a) state" where
  "ret \<equiv> State_Monad.return"

abbreviation gets :: "('s \<Rightarrow> 'a) \<Rightarrow> ('s, 'a) state" where
  "gets f \<equiv> State (\<lambda>s. (f s, s))"

abbreviation modify :: "('s \<Rightarrow> 's) \<Rightarrow> ('s, unit) state" where
  "modify f \<equiv> State (\<lambda>s. ((), f s))"

text \<open>
  \<open>attempt m h k\<close> is Go's \<open>v, err := m; if err != nil { h(err) } ; k(v)\<close>.
\<close>

definition attempt ::
  "('s, 'a res) state \<Rightarrow> (goerr \<Rightarrow> ('s, 'b) state) \<Rightarrow> ('a \<Rightarrow> ('s, 'b) state) \<Rightarrow> ('s, 'b) state"
where
  "attempt m h k = State (\<lambda>s. case run_state m s of
     (Inl e, s') \<Rightarrow> run_state (h e) s' | (Inr a, s') \<Rightarrow> run_state (k a) s')"

definition wp :: "('s, 'a) state \<Rightarrow> ('a \<Rightarrow> 's \<Rightarrow> bool) \<Rightarrow> 's \<Rightarrow> bool" where
  "wp m Q s = (case run_state m s of (a, s') \<Rightarrow> Q a s')"

lemma wp_ret [wp_rules]: "Q a s \<Longrightarrow> wp (ret a) Q s"
  by (simp add: wp_def)

lemma wp_State [wp_rules]: "(case f s of (a, s') \<Rightarrow> Q a s') \<Longrightarrow> wp (State f) Q s"
  by (simp add: wp_def)

lemma wp_bind [wp_rules]:
  "wp m (\<lambda>a. wp (k a) Q) s \<Longrightarrow> wp (m \<bind> k) Q s"
  by (simp add: wp_def split: prod.splits)

lemma wp_attempt [wp_rules]:
  assumes "wp m (\<lambda>r s'. (\<forall>e. r = Inl e \<longrightarrow> wp (h e) Q s') \<and> (\<forall>a. r = Inr a \<longrightarrow> wp (k a) Q s')) s"
  shows "wp (attempt m h k) Q s"
  using assms by (auto simp: wp_def attempt_def split: prod.splits sum.splits)

lemma wp_if [wp_rules]:
  "(b \<Longrightarrow> wp m Q s) \<Longrightarrow> (\<not> b \<Longrightarrow> wp n Q s) \<Longrightarrow> wp (if b then m else n) Q s"
  by simp

lemma wp_case_option [wp_rules]:
  "(x = None \<Longrightarrow> wp m Q s) \<Longrightarrow> (\<And>a. x = Some a \<Longrightarrow> wp (k a) Q s)
    \<Longrightarrow> wp (case x of None \<Rightarrow> m | Some a \<Rightarrow> k a) Q s"
  by (cases x) auto

lemma wp_case_sum [wp_rules]:
  "(\<And>e. x = Inl e \<Longrightarrow> wp (h e) Q s) \<Longrightarrow> (\<And>a. x = Inr a \<Longrightarrow> wp (k a) Q s)
    \<Longrightarrow> wp (case x of Inl e \<Rightarrow> h e | Inr a \<Rightarrow> k a) Q s"
  by (cases x) auto

lemma wp_case_prod [wp_rules]:
  "(\<And>a b. x = (a, b) \<Longrightarrow> wp (k a b) Q s) \<Longrightarrow> wp (case x of (a, b) \<Rightarrow> k a b) Q s"
  by (cases x) auto

lemma wp_let [wp_rules]: "wp (k x) Q s \<Longrightarrow> wp (let a = x in k a) Q s"
  by simp

lemma wp_weaken: "wp m P s \<Longrightarrow> (\<And>a s'. P a s' \<Longrightarrow> Q a s') \<Longrightarrow> wp m Q s"
  by (auto simp: wp_def split: prod.splits)

lemma wp_conj: "wp m P s \<Longrightarrow> wp m Q s \<Longrightarrow> wp m (\<lambda>a s'. P a s' \<and> Q a s') s"
  by (auto simp: wp_def split: prod.splits)

lemma wp_run: "wp m Q s \<Longrightarrow> run_state m s = (a, s') \<Longrightarrow> Q a s'"
  by (simp add: wp_def)

lemma wp_iff: "wp m Q s \<longleftrightarrow> (\<forall>a s'. run_state m s = (a, s') \<longrightarrow> Q a s')"
  by (auto simp: wp_def split: prod.splits)

lemma run_state_attempt [simp]:
  "run_state (attempt m h k) s = (case run_state m s of
     (Inl e, s') \<Rightarrow> run_state (h e) s' | (Inr a, s') \<Rightarrow> run_state (k a) s')"
  by (simp add: attempt_def)

section \<open>Go maps\<close>

text \<open>
  A Go map is an association list with distinct keys, so that it can be ranged over;
  \<open>m[k] = v\<close> is \<open>AList.update k v m\<close>, \<open>delete(m, k)\<close> is \<open>AList.delete k m\<close> and
  a lookup is \<open>map_of m k\<close>. The order of the list is the order one range over the map
  happens to take; what the code computes from a map must not depend on it.
\<close>

type_synonym env_map = "(string \<times> string) list"

definition wf_map :: "('k \<times> 'v) list \<Rightarrow> bool" where
  "wf_map m = distinct (map fst m)"

lemma wf_map_update [simp]: "wf_map m \<Longrightarrow> wf_map (AList.update k v m)"
  by (simp add: wf_map_def distinct_update)

lemma wf_map_delete [simp]: "wf_map m \<Longrightarrow> wf_map (AList.delete k m)"
  by (simp add: wf_map_def distinct_delete)

lemma wf_map_Nil [simp]: "wf_map []"
  by (simp add: wf_map_def)

lemma wf_map_in: "wf_map m \<Longrightarrow> (k, v) \<in> set m \<longleftrightarrow> map_of m k = Some v"
  by (auto simp: wf_map_def map_of_eq_Some_iff)

lemma set_alist_update: "(j, x) \<in> set (AList.update k v m) \<Longrightarrow> x = v \<or> (j, x) \<in> set m"
  by (induction m) (auto split: if_splits)

section \<open>Strings\<close>

text \<open>\<open>strings.Index\<close>, \<open>strings.Split\<close> on one byte, and \<open>strings.ToLower\<close> on ASCII.\<close>

fun str_index :: "string \<Rightarrow> string \<Rightarrow> nat option" where
  "str_index sub [] = (if sub = [] then Some 0 else None)"
| "str_index sub (c # cs) =
     (if prefix sub (c # cs) then Some 0 else map_option Suc (str_index sub cs))"

fun split_on :: "char \<Rightarrow> string \<Rightarrow> string list" where
  "split_on d [] = [[]]"
| "split_on d (c # cs) =
     (if c = d then [] # split_on d cs
      else case split_on d cs of [] \<Rightarrow> [[c]] | w # ws \<Rightarrow> (c # w) # ws)"

fun join_with :: "string \<Rightarrow> string list \<Rightarrow> string" where
  "join_with sep [] = []"
| "join_with sep [w] = w"
| "join_with sep (w # v # ws) = w @ sep @ join_with sep (v # ws)"

definition is_lower :: "char \<Rightarrow> bool" where
  "is_lower c = (CHR ''a'' \<le> c \<and> c \<le> CHR ''z'')"

definition is_upper :: "char \<Rightarrow> bool" where
  "is_upper c = (CHR ''A'' \<le> c \<and> c \<le> CHR ''Z'')"

definition is_digit :: "char \<Rightarrow> bool" where
  "is_digit c = (CHR ''0'' \<le> c \<and> c \<le> CHR ''9'')"

definition is_alnum :: "char \<Rightarrow> bool" where
  "is_alnum c = (is_lower c \<or> is_upper c \<or> is_digit c)"

text \<open>
  \<open>strings.ToLower\<close>: two runes outside ASCII have an ASCII lower case, U+0130 (i) and the
  Kelvin sign U+212A (k); every other such rune is left as it is here, since its lower case is
  outside ASCII too and is only ever compared with ASCII words.
\<close>

definition lower_char :: "char \<Rightarrow> char" where
  "lower_char c = (if is_upper c then char_of (of_char c + (32::nat)) else c)"

fun to_lower :: "string \<Rightarrow> string" where
  "to_lower [] = []"
| "to_lower (c # cs) =
     (if c = CHR 0xC4 \<and> take 1 cs = [CHR 0xB0] then CHR ''i'' # to_lower (drop 1 cs)
      else if c = CHR 0xE2 \<and> take 2 cs = [CHR 0x84, CHR 0xAA] then CHR ''k'' # to_lower (drop 2 cs)
      else lower_char c # to_lower cs)"

text \<open>\<open>strings.Fields\<close> and \<open>strings.TrimSpace\<close>, on ASCII white space.\<close>

definition is_blank :: "char \<Rightarrow> bool" where
  "is_blank c = (c \<in> {CHR 0x09, CHR 0x0A, CHR 0x0B, CHR 0x0C, CHR 0x0D, CHR '' ''})"

fun words_from :: "string \<Rightarrow> string \<Rightarrow> string list" where
  "words_from w [] = (if w = [] then [] else [w])"
| "words_from w (c # cs) =
     (if is_blank c then (if w = [] then words_from [] cs else w # words_from [] cs) else words_from (w @ [c]) cs)"

definition words_of :: "string \<Rightarrow> string list" where
  "words_of s = words_from [] s"

definition TrimSpace :: "string \<Rightarrow> string" where
  "TrimSpace s = rev (dropWhile is_blank (rev (dropWhile is_blank s)))"

text \<open>\<open>strconv.Itoa\<close>, \<open>strconv.FormatInt(n, 10)\<close> and the verb \<open>%d\<close>.\<close>

fun show_nat :: "nat \<Rightarrow> string" where
  "show_nat n = (if n < 10 then [char_of (48 + n)]
                 else show_nat (n div 10) @ [char_of (48 + n mod 10)])"

declare show_nat.simps [simp del]

definition show_int :: "int \<Rightarrow> string" where
  "show_int i = (if i < 0 then ''-'' @ show_nat (nat (- i)) else show_nat (nat i))"

lemma split_on_nonempty [simp]: "split_on d s \<noteq> []"
  by (cases s) (auto split: list.splits)

lemma split_on_no_sep: "w \<in> set (split_on d s) \<Longrightarrow> d \<notin> set w"
proof (induction s arbitrary: w)
  case Nil
  then show ?case by simp
next
  case (Cons c cs)
  then show ?case by (auto split: list.splits if_splits)
qed

lemma join_split: "join_with [d] (split_on d s) = s"
proof (induction s)
  case Nil
  then show ?case by simp
next
  case (Cons c cs)
  then show ?case
    by (cases "split_on d cs"; cases "tl (split_on d cs)") auto
qed

lemma split_on_append:
  "split_on d (a @ d # b) = split_on d a @ split_on d b"
proof (induction a)
  case (Cons c cs)
  then show ?case by (cases "split_on d cs") (auto simp: split_on_nonempty)
qed simp

lemma split_on_free: "d \<notin> set s \<Longrightarrow> split_on d s = [s]"
  by (induction s) auto

lemma split_join_free:
  "list_all (\<lambda>w. d \<notin> set w) ws \<Longrightarrow> ws \<noteq> [] \<Longrightarrow> split_on d (join_with [d] ws) = ws"
  by (induction "[d]" ws rule: join_with.induct) (simp_all add: split_on_free split_on_append)

lemma takeWhile_until:
  "x \<notin> set p \<Longrightarrow> takeWhile (\<lambda>c. c \<noteq> x) (p @ x # r) = p"
  "x \<notin> set p \<Longrightarrow> dropWhile (\<lambda>c. c \<noteq> x) (p @ x # r) = x # r"
  by (induction p) auto

lemma str_index_Some:
  "str_index sub s = Some i \<Longrightarrow> \<exists>rest. s = take i s @ sub @ rest"
proof (induction sub s arbitrary: i rule: str_index.induct)
  case (1 sub)
  then show ?case by (auto split: if_splits)
next
  case (2 sub c cs)
  then show ?case by (auto simp: prefix_def split: if_splits)
qed

lemma str_index_None: "str_index sub s = None \<longleftrightarrow> \<not> sublist sub s"
  by (induction sub s rule: str_index.induct) (auto simp: sublist_Cons_right)

lemma char_of_digit: "(n::nat) < 10 \<Longrightarrow> is_digit (char_of (48 + n))"
  by (simp add: is_digit_def less_eq_char_def)

lemma show_nat_digits: "c \<in> set (show_nat n) \<Longrightarrow> is_digit c"
proof (induction n arbitrary: c rule: show_nat.induct)
  case (1 n)
  then show ?case
    by (subst (asm) (2) show_nat.simps) (auto simp: char_of_digit split: if_splits)
qed

lemma show_nat_nonempty [simp]: "show_nat n \<noteq> []"
  by (subst show_nat.simps) simp

definition read_int :: "string \<Rightarrow> int" where
  "read_int s = foldl (\<lambda>n c. 10 * n + (int (of_char c) - 48)) 0 s"

lemma read_show_nat: "read_int (show_nat n) = int n"
proof (induction n rule: show_nat.induct)
  case (1 n)
  then show ?case
    by (subst show_nat.simps) (auto simp: of_char_of read_int_def zdiv_int zmod_int)
qed

lemma show_nat_inj [simp]: "show_nat m = show_nat n \<longleftrightarrow> m = n"
  by (metis read_show_nat of_nat_eq_iff)

section \<open>Stable sorting by a \<open>less\<close> function\<close>

fun insert_stable :: "('a \<Rightarrow> 'a \<Rightarrow> bool) \<Rightarrow> 'a \<Rightarrow> 'a list \<Rightarrow> 'a list" where
  "insert_stable lt x [] = [x]"
| "insert_stable lt x (y # ys) =
     (if lt y x then y # insert_stable lt x ys else x # y # ys)"

fun sort_stable :: "('a \<Rightarrow> 'a \<Rightarrow> bool) \<Rightarrow> 'a list \<Rightarrow> 'a list" where
  "sort_stable lt [] = []"
| "sort_stable lt (x # xs) = insert_stable lt x (sort_stable lt xs)"

lemma mset_insert_stable [simp]: "mset (insert_stable lt x xs) = add_mset x (mset xs)"
  by (induction xs) auto

lemma mset_sort_stable [simp]: "mset (sort_stable lt xs) = mset xs"
  by (induction xs) auto

lemma set_sort_stable [simp]: "set (sort_stable lt xs) = set xs"
  by (metis mset_sort_stable set_mset_mset)

lemma sort_stable_Nil_iff [simp]: "sort_stable lt xs = [] \<longleftrightarrow> xs = []"
  by (metis mset_sort_stable mset_zero_iff)

text \<open>
  The interface \<open>sort.Slice\<close> asks of its comparator: a strict weak order. Under it the
  result is ordered, its head is minimal, and, where the order is total on the elements, it
  does not depend on the order of the input.
\<close>

locale weak_order =
  fixes lt :: "'a \<Rightarrow> 'a \<Rightarrow> bool"
  assumes irrefl: "\<not> lt x x"
    and trans: "lt x y \<Longrightarrow> lt y z \<Longrightarrow> lt x z"
    and negtrans: "lt x z \<Longrightarrow> lt x y \<or> lt y z"
begin

lemma asym: "lt x y \<Longrightarrow> \<not> lt y x"
  using irrefl trans by blast

lemma insert_sorted:
  "sorted_wrt (\<lambda>a b. \<not> lt b a) xs \<Longrightarrow> sorted_wrt (\<lambda>a b. \<not> lt b a) (insert_stable lt x xs)"
proof (induction xs)
  case Nil
  then show ?case by simp
next
  case (Cons y ys)
  show ?case
  proof (cases "lt y x")
    case True
    moreover have "set (insert_stable lt x ys) = insert x (set ys)"
      by (metis mset_insert_stable set_mset_add_mset_insert set_mset_mset)
    ultimately show ?thesis using Cons by (auto dest: asym)
  next
    case False
    with Cons.prems show ?thesis by simp (meson negtrans)
  qed
qed

lemma sort_sorted: "sorted_wrt (\<lambda>a b. \<not> lt b a) (sort_stable lt xs)"
  by (induction xs) (auto intro: insert_sorted)

lemma hd_minimal: "y \<in> set xs \<Longrightarrow> \<not> lt y (hd (sort_stable lt xs))"
proof -
  assume y: "y \<in> set xs"
  obtain h t where ht: "sort_stable lt xs = h # t"
    using y by (metis list.exhaust list.set_cases sort_stable_Nil_iff)
  have "y = h \<or> y \<in> set t" using y ht by (metis set_ConsD set_sort_stable)
  moreover have "\<forall>z \<in> set t. \<not> lt z h" using sort_sorted [of xs] ht by simp
  moreover have "hd (sort_stable lt xs) = h" by (simp only: ht list.sel)
  ultimately show ?thesis using irrefl by auto
qed

lemma sorted_unique:
  assumes "mset xs = mset ys" and "sorted_wrt (\<lambda>a b. \<not> lt b a) xs"
    and "sorted_wrt (\<lambda>a b. \<not> lt b a) ys"
    and tot: "\<And>a b. a \<in> set xs \<Longrightarrow> b \<in> set xs \<Longrightarrow> a \<noteq> b \<Longrightarrow> lt a b \<or> lt b a"
  shows "xs = ys"
  using assms
proof (induction xs arbitrary: ys)
  case Nil
  then show ?case by simp
next
  case (Cons x xs)
  then obtain y zs where ys: "ys = y # zs" by (cases ys) auto
  have set_eq: "set (x # xs) = set ys" using Cons.prems(1) by (metis set_mset_mset)
  have "x = y"
  proof (rule ccontr)
    assume ne: "x \<noteq> y"
    with set_eq ys have "x \<in> set zs" "y \<in> set xs" by auto
    with Cons.prems(2,3) ys have "\<not> lt x y" "\<not> lt y x" by auto
    moreover have "lt x y \<or> lt y x" using Cons.prems(4) [of x y] ne \<open>y \<in> set xs\<close> by auto
    ultimately show False by blast
  qed
  with Cons.prems ys have "xs = zs" by (intro Cons.IH) auto
  with \<open>x = y\<close> ys show ?case by simp
qed

lemma sort_perm:
  assumes "mset xs = mset ys"
    and "\<And>a b. a \<in> set xs \<Longrightarrow> b \<in> set xs \<Longrightarrow> a \<noteq> b \<Longrightarrow> lt a b \<or> lt b a"
  shows "sort_stable lt xs = sort_stable lt ys"
  by (rule sorted_unique) (use assms sort_sorted in auto)

end

text \<open>Sorting by a key of a linear order (domains, service and secret names).\<close>

interpretation by_key: weak_order "\<lambda>x y. (key :: 'a \<Rightarrow> 'k::linorder) x < key y"
  for key
  by unfold_locales auto

section \<open>Frames: what a program leaves alone\<close>

text \<open>
  \<open>pres R m\<close>: whatever \<open>m\<close> returns, the state after it is related to the state before it by
  \<open>R\<close>. For a reflexive and transitive \<open>R\<close> the property composes, which the locale states once
  for all frames; the rules go to the collection \<open>pres_rules\<close>.
\<close>

named_theorems pres_rules "what a program leaves alone, one rule per construct"

definition pres :: "('s \<Rightarrow> 's \<Rightarrow> bool) \<Rightarrow> ('s, 'a) state \<Rightarrow> bool" where
  "pres R m = (\<forall>s. R s (snd (run_state m s)))"

lemma presD: "pres R m \<Longrightarrow> run_state m s = (a, s') \<Longrightarrow> R s s'"
  unfolding pres_def by (metis snd_conv)

lemma presI: "(\<And>s a s'. run_state m s = (a, s') \<Longrightarrow> R s s') \<Longrightarrow> pres R m"
  by (metis pres_def prod.collapse)

lemma pres_wp: "pres R m \<Longrightarrow> (\<And>a s'. R s s' \<Longrightarrow> Q a s') \<Longrightarrow> wp m Q s"
  by (auto simp: wp_iff dest: presD)

lemma pres_iff_wp: "pres R m \<longleftrightarrow> (\<forall>s. wp m (\<lambda>_ s'. R s s') s)"
  by (metis presD presI wp_iff)

lemma pres_mono: "pres R m \<Longrightarrow> (\<And>s s'. R s s' \<Longrightarrow> S s s') \<Longrightarrow> pres S m"
  by (simp add: pres_def)

locale frame =
  fixes R :: "'s \<Rightarrow> 's \<Rightarrow> bool"
  assumes refl: "R s s"
    and trans: "R s t \<Longrightarrow> R t u \<Longrightarrow> R s u"
begin

lemma pres_ret [pres_rules]: "pres R (ret a)"
  by (simp add: pres_def refl)

lemma pres_gets [pres_rules]: "pres R (gets f)"
  by (simp add: pres_def refl)

lemma pres_bind [pres_rules]: "pres R m \<Longrightarrow> (\<And>a. pres R (k a)) \<Longrightarrow> pres R (m \<bind> k)"
  by (rule presI) (auto dest!: presD split: prod.splits intro: trans)

lemma pres_attempt [pres_rules]:
  "pres R m \<Longrightarrow> (\<And>e. pres R (h e)) \<Longrightarrow> (\<And>a. pres R (k a)) \<Longrightarrow> pres R (attempt m h k)"
  by (rule presI) (auto dest!: presD split: prod.splits sum.splits intro: trans)

lemma pres_if [pres_rules]: "(b \<Longrightarrow> pres R m) \<Longrightarrow> (\<not> b \<Longrightarrow> pres R n) \<Longrightarrow> pres R (if b then m else n)"
  by simp

lemma pres_let [pres_rules]: "pres R (k x) \<Longrightarrow> pres R (let a = x in k a)"
  by simp

lemma pres_case_option [pres_rules]:
  "pres R m \<Longrightarrow> (\<And>a. pres R (k a)) \<Longrightarrow> pres R (case x of None \<Rightarrow> m | Some a \<Rightarrow> k a)"
  by (cases x) auto

lemma pres_case_sum [pres_rules]:
  "(\<And>e. pres R (h e)) \<Longrightarrow> (\<And>a. pres R (k a)) \<Longrightarrow> pres R (case x of Inl e \<Rightarrow> h e | Inr a \<Rightarrow> k a)"
  by (cases x) auto

lemma pres_case_prod [pres_rules]:
  "(\<And>a b. pres R (k a b)) \<Longrightarrow> pres R (case x of (a, b) \<Rightarrow> k a b)"
  by (cases x) auto

lemma pres_case_list [pres_rules]:
  "pres R m \<Longrightarrow> (\<And>a as. pres R (k a as)) \<Longrightarrow> pres R (case x of [] \<Rightarrow> m | a # as \<Rightarrow> k a as)"
  by (cases x) auto

end

end
