(* ===== verification/NodeTypes.thy ===== *)
theory NodeTypes
  imports Prelude Complex_Main
begin

text \<open>
  The data of package \<open>node\<close> (\<open>src/internal/node/node.go\<close>, \<open>capacity.go\<close>): what a node is
  asked to run, what it reports back, and its capacity.
\<close>

record port_mapping =
  p_host_ip :: string
  p_host_port :: int
  p_container_port :: int

record run_spec =
  r_name :: string
  r_image :: string
  r_env :: env_map
  r_labels :: env_map
  r_port :: int
  r_network :: string
  r_publish :: "port_mapping list"
  r_cmd :: "string list"
  r_cpus :: rat
  r_memory :: int

record container =
  c_id :: string
  c_name :: string
  c_image :: string
  c_state :: string
  c_labels :: env_map
  c_host_port :: int
  c_ip :: string

record health_spec =
  hs_path :: string
  hs_timeout :: int

record capacity =
  k_cores :: int
  k_used :: rat
  k_mem_total :: int
  k_mem_available :: int
  k_disk_total :: int
  k_disk_free :: int
  k_known :: bool

text \<open>The zero value \<open>Capacity{}\<close>.\<close>

definition no_capacity :: capacity where
  "no_capacity = \<lparr>k_cores = 0, k_used = 0, k_mem_total = 0, k_mem_available = 0,
     k_disk_total = 0, k_disk_free = 0, k_known = False\<rparr>"

text \<open>
  A node the controller talks to: the host's own Docker (\<open>Local\<close>), a remote Docker over ssh
  (\<open>NewRemoteSSH\<close>), or a remote agent (\<open>AgentNode\<close>) by its base URL.
\<close>

datatype node_ref = LocalNode | SSHNode string | AgentNode string

end
