(* ===== verification/Scheduler.thy ===== *)
theory Scheduler
  imports NodeTypes
begin

text \<open>
  The placement engine (\<open>src/internal/scheduler/scheduler.go\<close>): \<open>Place\<close> filters the
  candidates of the pool, then those with room, and takes the first of them in the order of
  free memory, free CPU and name.
\<close>

section \<open>Candidates and requirements\<close>

record node_info =
  i_name :: string
  i_pool :: string
  i_reachable :: bool
  i_schedulable :: bool
  i_cap :: capacity

record sched_req =
  sr_cpu :: rat
  sr_mem :: int

definition fits :: "node_info \<Rightarrow> sched_req \<Rightarrow> bool" where
  "fits c req =
     (if \<not> k_known (i_cap c) then True
      else if sr_mem req \<noteq> 0 \<and> k_mem_available (i_cap c) < sr_mem req then False
      else if sr_cpu req \<noteq> 0 \<and> of_int (k_cores (i_cap c)) - k_used (i_cap c) < sr_cpu req then False
      else True)"

definition freeMem :: "node_info \<Rightarrow> int" where
  "freeMem c = (if k_known (i_cap c) then k_mem_available (i_cap c) else k_mem_total (i_cap c))"

definition freeCPU :: "node_info \<Rightarrow> rat" where
  "freeCPU c = (if k_known (i_cap c) then of_int (k_cores (i_cap c)) - k_used (i_cap c)
                else of_int (k_cores (i_cap c)))"

text \<open>The comparator handed to \<open>sort.SliceStable\<close>.\<close>

definition better :: "node_info \<Rightarrow> node_info \<Rightarrow> bool" where
  "better a b =
     (if freeMem a \<noteq> freeMem b then freeMem a > freeMem b
      else if freeCPU a \<noteq> freeCPU b then freeCPU a > freeCPU b
      else i_name a < i_name b)"

definition in_pool :: "string \<Rightarrow> node_info \<Rightarrow> bool" where
  "in_pool pool c = (i_reachable c \<and> i_schedulable c \<and> i_pool c = pool)"

definition Place :: "node_info list \<Rightarrow> string \<Rightarrow> sched_req \<Rightarrow> string res" where
  "Place candidates pool0 req =
     (let pool = (if pool0 = [] then ''default'' else pool0);
          inPool = filter (in_pool pool) candidates;
          fitting = filter (\<lambda>c. fits c req) inPool
      in if inPool = [] then Inl (Errf ''no schedulable node in pool %q'' [pool])
         else if fitting = []
         then Inl (Errf ''no node in pool %q has capacity (need cpu=%.2g memory=%d bytes)'' [pool])
         else Inr (i_name (hd (sort_stable better fitting))))"

text \<open>The nodes a placement may choose.\<close>

definition eligible :: "string \<Rightarrow> sched_req \<Rightarrow> node_info \<Rightarrow> bool" where
  "eligible pool0 req c = (in_pool (if pool0 = [] then ''default'' else pool0) c \<and> fits c req)"

section \<open>The comparator is a strict weak order\<close>

interpretation rank: weak_order better
  by unfold_locales (auto simp: better_def split: if_splits)

lemma better_total: "i_name a \<noteq> i_name b \<Longrightarrow> better a b \<or> better b a"
  by (auto simp: better_def)

lemma filter_eligible:
  "filter (\<lambda>c. fits c req) (filter (in_pool (if pool = [] then ''default'' else pool)) cs)
     = filter (eligible pool req) cs"
  by (induction cs) (auto simp: eligible_def)

lemma Place_alt:
  "Place cs pool req =
     (if \<forall>c \<in> set cs. \<not> in_pool (if pool = [] then ''default'' else pool) c
      then Inl (Errf ''no schedulable node in pool %q'' [if pool = [] then ''default'' else pool])
      else if filter (eligible pool req) cs = []
      then Inl (Errf ''no node in pool %q has capacity (need cpu=%.2g memory=%d bytes)''
             [if pool = [] then ''default'' else pool])
      else Inr (i_name (hd (sort_stable better (filter (eligible pool req) cs)))))"
  unfolding Place_def Let_def filter_eligible by (simp only: filter_empty_conv)

lemma eligible_in_pool [dest]:
  "eligible [] req c \<Longrightarrow> in_pool ''default'' c"
  "pool \<noteq> [] \<Longrightarrow> eligible pool req c \<Longrightarrow> in_pool pool c"
  by (simp_all add: eligible_def)

lemma Place_fitting:
  "Place cs pool req = Inr n \<Longrightarrow>
     \<exists>xs. xs = filter (eligible pool req) cs \<and> xs \<noteq> [] \<and> n = i_name (hd (sort_stable better xs))"
  unfolding Place_alt by (auto split: if_splits)

lemma Place_of_eligible:
  "filter (eligible pool req) cs \<noteq> [] \<Longrightarrow>
     Place cs pool req = Inr (i_name (hd (sort_stable better (filter (eligible pool req) cs))))"
  unfolding Place_alt by (auto simp: filter_empty_conv)

section \<open>What a placement promises\<close>

lemma Place_choice:
  assumes "Place cs pool req = Inr n"
  obtains c where "c \<in> set cs" "i_name c = n" "eligible pool req c"
    "\<And>d. d \<in> set cs \<Longrightarrow> eligible pool req d \<Longrightarrow> \<not> better d c"
proof -
  obtain xs where xs: "xs = filter (eligible pool req) cs" "xs \<noteq> []" "n = i_name (hd (sort_stable better xs))"
    using Place_fitting [OF assms] by auto
  let ?c = "hd (sort_stable better xs)"
  have "?c \<in> set xs" using xs(2) by (metis hd_in_set set_sort_stable sort_stable_Nil_iff)
  then show thesis using that [of ?c] xs rank.hd_minimal [of _ xs] by auto
qed

text \<open>
  C25: the node \<open>Place\<close> returns is one of the candidates: reachable, not cordoned, in the pool
  (\<open>default\<close> for the empty one) and with room, and no other such candidate has more free
  memory, or as much and more free CPU.
\<close>

theorem Place_sound:
  assumes "Place cs pool req = Inr n"
  shows "\<exists>c \<in> set cs. i_name c = n \<and> i_reachable c \<and> i_schedulable c \<and> fits c req \<and>
     i_pool c = (if pool = [] then ''default'' else pool) \<and>
     (\<forall>d \<in> set cs. eligible pool req d \<longrightarrow>
        freeMem d < freeMem c \<or> freeMem d = freeMem c \<and> freeCPU d \<le> freeCPU c)"
proof -
  obtain c where c: "c \<in> set cs" "i_name c = n" "eligible pool req c"
    and min: "\<And>d. d \<in> set cs \<Longrightarrow> eligible pool req d \<Longrightarrow> \<not> better d c"
    using Place_choice [OF assms] by blast
  have "freeMem d < freeMem c \<or> freeMem d = freeMem c \<and> freeCPU d \<le> freeCPU c"
    if "d \<in> set cs" "eligible pool req d" for d
    using min [OF that] by (auto simp: better_def not_less split: if_splits)
  then show ?thesis using c by (intro bexI [of _ c]) (auto simp: eligible_def in_pool_def)
qed

text \<open>
  \<open>Place\<close> fails exactly when no candidate is eligible; it says \<open>no schedulable node\<close>
  when none of the pool is reachable and uncordoned, and \<open>has capacity\<close> otherwise.
\<close>

lemma Place_fails_iff:
  "is_err (Place cs pool req) = list_all (\<lambda>c. \<not> eligible pool req c) cs \<and>
   (Place cs pool req = Inl (Errf ''no schedulable node in pool %q'' [if pool = [] then ''default'' else pool])) =
     list_all (\<lambda>c. \<not> in_pool (if pool = [] then ''default'' else pool) c) cs"
  unfolding Place_alt by (auto simp: filter_empty_conv list_all_iff)

text \<open>
  With distinct node names the placement does not depend on the order in which the
  candidates were gathered.
\<close>

lemma Place_order_independent:
  assumes "mset cs = mset ds" and "distinct (map i_name cs)"
  shows "Place cs pool req = Place ds pool req"
proof -
  let ?f = "filter (eligible pool req)"
  have inj: "a \<in> set cs \<Longrightarrow> b \<in> set cs \<Longrightarrow> a \<noteq> b \<Longrightarrow> i_name a \<noteq> i_name b" for a b
    using assms(2) by (auto simp: distinct_map inj_on_def)
  have srt: "sort_stable better (?f cs) = sort_stable better (?f ds)"
  proof (rule rank.sort_perm)
    show "mset (?f cs) = mset (?f ds)" using assms(1) by simp
    show "better a b \<or> better b a" if "a \<in> set (?f cs)" "b \<in> set (?f cs)" "a \<noteq> b" for a b
      using that inj better_total by auto
  qed
  have sets: "set cs = set ds" using assms(1) by (metis set_mset_mset)
  show ?thesis
  proof (cases "?f cs = []")
    case True
    then have "?f ds = []" using assms(1) by (metis mset_filter mset_zero_iff)
    then show ?thesis using True sets unfolding Place_alt by simp
  next
    case False
    then have "?f ds \<noteq> []" using assms(1) by (metis mset_filter mset_zero_iff)
    then show ?thesis using False srt by (simp add: Place_of_eligible)
  qed
qed

end
