(* ===== verification/AppSpec.thy ===== *)
theory AppSpec
  imports Prelude Complex_Main
begin

text \<open>
  Package \<open>spec\<close> (\<open>src/internal/spec/spec.go\<close>): the \<open>App\<close> every other component
  acts on, \<open>Validate\<close> with its checks in the order of the source, the git remote, ref and path
  gates, and \<open>ParseSize\<close>. A Go \<open>string\<close> is its byte list, an \<open>int\<close> of the document is
  an \<open>int\<close> (no arithmetic on it can overflow), and the \<open>float64\<close> of
  \<open>requirements.cpu\<close> is a rational: rounding of that field and NaN are left out. The TOML decoder
  is a third-party package; what \<open>Parse\<close> does last is \<open>parse_defaults\<close>.
\<close>

section \<open>The App record\<close>

record git =
  g_url :: string
  g_ref :: string
  g_path :: string

record svc =
  v_name :: string
  v_image :: string
  v_command :: string
  v_env :: env_map
  v_secrets :: "string list"
  v_volume :: string

record healthcfg =
  h_path :: string
  h_timeout :: int
  h_raw_timeout :: string

record buildcfg =
  b_context :: string
  b_dockerfile :: string

record requirements =
  q_cpu :: rat
  q_memory :: string

record app =
  a_name :: string
  a_image :: string
  a_domain :: string
  a_port :: int
  a_node :: string
  a_pool :: string
  a_env :: env_map
  a_secrets :: "string list"
  a_health :: healthcfg
  a_replicas :: int
  a_requirements :: "requirements option"
  a_compose :: string
  a_service :: string
  a_git :: "git option"
  a_services :: "svc list"
  a_build :: "buildcfg option"
  a_surfaces :: "string list"

section \<open>The regular expressions\<close>

definition name_char :: "char \<Rightarrow> bool" where
  "name_char c = (is_alnum c \<or> c \<in> {CHR ''_'', CHR ''.'', CHR ''-''})"

definition nameRe :: "string \<Rightarrow> bool" where
  "nameRe s = (case s of [] \<Rightarrow> False | c # cs \<Rightarrow> is_alnum c \<and> list_all name_char cs)"

definition serviceNameRe :: "string \<Rightarrow> bool" where
  "serviceNameRe s = (case s of [] \<Rightarrow> False
     | c # cs \<Rightarrow> (is_lower c \<or> is_digit c)
         \<and> list_all (\<lambda>d. is_lower d \<or> is_digit d \<or> d = CHR ''-'') cs)"

definition secretNameRe :: "string \<Rightarrow> bool" where
  "secretNameRe s = (case s of [] \<Rightarrow> False
     | c # cs \<Rightarrow> (is_lower c \<or> is_upper c \<or> c = CHR ''_'')
         \<and> list_all (\<lambda>d. is_alnum d \<or> d = CHR ''_'') cs)"

definition poolNameRe :: "string \<Rightarrow> bool" where
  "poolNameRe s = (case s of [] \<Rightarrow> False
     | c # cs \<Rightarrow> is_alnum c
         \<and> list_all (\<lambda>d. is_alnum d \<or> d = CHR ''_'' \<or> d = CHR ''-'') cs)"

definition gitRefRe :: "string \<Rightarrow> bool" where
  "gitRefRe s = (case s of [] \<Rightarrow> False
     | c # cs \<Rightarrow> is_alnum c
         \<and> list_all (\<lambda>d. is_alnum d \<or> d \<in> {CHR ''.'', CHR ''_'', CHR ''/'', CHR ''-''}) cs)"

text \<open>
  \<open>user@host:rest\<close>. Neither \<open>@\<close> nor \<open>:\<close> is in the class of the first two parts, so
  the split is forced; \<open>.\<close> of RE2 does not match a newline.
\<close>

definition gitScpLikeRe :: "string \<Rightarrow> bool" where
  "gitScpLikeRe s =
     (let user = takeWhile name_char s; r1 = dropWhile name_char s;
          host = takeWhile name_char (tl r1); r2 = dropWhile name_char (tl r1);
          path = tl r2
      in user \<noteq> [] \<and> r1 \<noteq> [] \<and> hd r1 = CHR ''@''
         \<and> host \<noteq> [] \<and> r2 \<noteq> [] \<and> hd r2 = CHR '':''
         \<and> path \<noteq> [] \<and> hd path \<noteq> CHR '':'' \<and> CHR 0x0A \<notin> set (tl path))"

section \<open>Git remotes, refs and paths\<close>

definition gitAllowedSchemes :: "string list" where
  "gitAllowedSchemes = [''http'', ''https'', ''git'', ''ssh'', ''file'']"

definition validateGitURL :: "string \<Rightarrow> goerr option" where
  "validateGitURL url =
     (if prefix ''-'' url then Some (Errf ''git url %q is invalid: must not start with -'' [url])
      else case str_index ''://'' url of
        Some i \<Rightarrow>
          (if to_lower (take i url) \<notin> set gitAllowedSchemes
           then Some (Errf ''git url %q is invalid: unsupported scheme %q'' [url, take i url])
           else None)
      | None \<Rightarrow>
          (if sublist ''::'' url
           then Some (Errf ''git url %q is invalid: command-executing transports are not allowed'' [url])
           else if gitScpLikeRe url then None
           else Some (Errf ''git url %q is invalid: must be a scheme://... URL or scp-like user@host:path'' [url])))"

definition validateGitRef :: "string \<Rightarrow> goerr option" where
  "validateGitRef ref =
     (if ref = [] then None
      else if \<not> gitRefRe ref
      then Some (Errf ''git ref %q is invalid: must match [A-Za-z0-9][A-Za-z0-9._/-]*'' [ref])
      else None)"

text \<open>
  \<open>filepath.Clean\<close> on a relative path, by segments: empty and \<open>.\<close> segments are dropped, a
  \<open>..\<close> removes the segment before it unless there is none or that is itself a \<open>..\<close>.
  The stack holds the segments in reverse.
\<close>

fun clean_segs :: "string list \<Rightarrow> string list \<Rightarrow> string list" where
  "clean_segs st [] = rev st"
| "clean_segs st (w # ws) =
     (if w = [] \<or> w = ''.'' then clean_segs st ws
      else if w = ''..'' then
        (case st of
           [] \<Rightarrow> clean_segs [''..''] ws
         | t # ts \<Rightarrow> if t = ''..'' then clean_segs (''..'' # st) ws else clean_segs ts ws)
      else clean_segs (w # st) ws)"

definition cleaned_segments :: "string \<Rightarrow> string list" where
  "cleaned_segments path =
     (let segs = clean_segs [] (split_on (CHR ''/'') path)
      in if segs = [] then [''.''] else segs)"

definition validateRelativeNoTraversal :: "string \<Rightarrow> string \<Rightarrow> goerr option" where
  "validateRelativeNoTraversal label path =
     (if path = [] then None
      else if prefix ''/'' path
      then Some (Errf ''%s %q is invalid: must be a relative path'' [label, path])
      else if list_ex (\<lambda>seg. seg = ''..'') (cleaned_segments path)
      then Some (Errf ''%s %q is invalid: must not escape the clone root (no .. segments)'' [label, path])
      else None)"

section \<open>Sizes\<close>

text \<open>
  \<open>strconv.ParseFloat\<close> on a decimal numeral \<open>num / den\<close>: the nearest \<open>m * 2 ^ e\<close> with a
  53-bit \<open>m\<close>, ties to even; \<open>None\<close> is the range error. Subnormals are not treated apart: such
  a value is below one byte whatever its last bits are.
\<close>

definition round_half_even :: "int \<Rightarrow> int \<Rightarrow> int" where
  "round_half_even num den =
     (let q = num div den; r = num mod den
      in if 2 * r < den \<or> 2 * r = den \<and> even q then q else q + 1)"

function excess_bits :: "int \<Rightarrow> nat" where
  "excess_bits q = (if q < 2 ^ 53 then 0 else Suc (excess_bits (q div 2)))"
  by pat_completeness auto
termination
  by (relation "measure nat") auto

declare excess_bits.simps [simp del]

function missing_bits :: "int \<Rightarrow> int \<Rightarrow> nat" where
  "missing_bits num den =
     (if num \<le> 0 \<or> 2 ^ 52 * den \<le> num then 0 else Suc (missing_bits (2 * num) den))"
  by pat_completeness auto
termination
  by (relation "measure (\<lambda>(num, den). nat (2 ^ 52 * den - num))") auto

declare missing_bits.simps [simp del]

definition parse_float :: "int \<Rightarrow> int \<Rightarrow> (int \<times> nat \<times> nat) option" where
  "parse_float num den =
     (let dn = excess_bits (num div den); up = missing_bits num den;
          m = round_half_even (num * 2 ^ up) (den * 2 ^ dn)
      in if dn \<ge> 972 \<or> dn = 971 \<and> m = 2 ^ 53 then None else Some (m, dn, up))"

text \<open>
  \<open>int64(n * float64(factor))\<close>: the product is exact (the factor is a power of two), the
  conversion truncates, and out of range it yields the smallest integer (amd64).
\<close>

definition to_int64 :: "int \<Rightarrow> int" where
  "to_int64 i = (if i < 2 ^ 63 then i else - (2 ^ 63))"

fun float_bytes :: "int \<times> nat \<times> nat \<Rightarrow> int \<Rightarrow> int" where
  "float_bytes (m, dn, up) factor = to_int64 (m * 2 ^ dn * factor div 2 ^ up)"

definition is_space :: "char \<Rightarrow> bool" where
  "is_space c = (c \<in> {CHR 0x09, CHR 0x0A, CHR 0x0C, CHR 0x0D, CHR '' ''})"

definition trim_left :: "string \<Rightarrow> string" where
  "trim_left s = dropWhile is_space s"

definition trim_right :: "string \<Rightarrow> string" where
  "trim_right s = rev (dropWhile is_space (rev s))"

definition sizeUnitFactor :: "(string \<times> int) list" where
  "sizeUnitFactor =
     [([], 1), (''k'', 1024), (''ki'', 1024), (''m'', 1024 ^ 2), (''mi'', 1024 ^ 2),
      (''g'', 1024 ^ 3), (''gi'', 1024 ^ 3), (''t'', 1024 ^ 4), (''ti'', 1024 ^ 4)]"

text \<open>The three groups of \<open>sizeRe\<close>: integer digits, fraction digits, unit.\<close>

definition sizeRe :: "string \<Rightarrow> (string \<times> string \<times> string) option" where
  "sizeRe s =
     (let s1 = trim_left s;
          ds = takeWhile is_digit s1; r1 = dropWhile is_digit s1;
          fs = (if prefix ''.'' r1 then takeWhile is_digit (tl r1) else []);
          r2 = (if fs = [] then r1 else dropWhile is_digit (tl r1));
          u = to_lower (trim_right (trim_left r2))
      in if ds = [] \<or> map_of sizeUnitFactor u = None then None else Some (ds, fs, u))"

definition ParseSize :: "string \<Rightarrow> int res" where
  "ParseSize s =
     (if s = [] then Inr 0
      else case sizeRe s of
        None \<Rightarrow> Inl (Errf ''size %q is invalid: want a number optionally followed by K/M/G/T (or Ki/Mi/Gi/Ti)'' [s])
      | Some (ds, fs, u) \<Rightarrow>
          (case parse_float (read_int (ds @ fs)) (10 ^ length fs) of
             None \<Rightarrow> Inl (Wrapf ''size %q is invalid: %w'' [s] (Errf ''value out of range'' []))
           | Some x \<Rightarrow>
               (let bytes = float_bytes x (the (map_of sizeUnitFactor u)) in Inr bytes)))"

section \<open>Validation\<close>

fun check_secret_names :: "string list \<Rightarrow> goerr option" where
  "check_secret_names [] = None"
| "check_secret_names (n # ns) =
     (if \<not> secretNameRe n
      then Some (Errf ''secret name %q is invalid: must match [A-Za-z_][A-Za-z0-9_]*'' [n])
      else check_secret_names ns)"

text \<open>The loop over the services, \<open>seen\<close> being \<open>seenNames\<close>.\<close>

fun check_services :: "string list \<Rightarrow> svc list \<Rightarrow> goerr option" where
  "check_services seen [] = None"
| "check_services seen (v # vs) =
     (if v_name v = [] then Some (Errf ''service name is required'' [])
      else if \<not> serviceNameRe (v_name v)
      then Some (Errf ''service name %q is invalid: must match [a-z0-9][a-z0-9-]*'' [v_name v])
      else if v_name v \<in> set seen then Some (Errf ''duplicate service name %q'' [v_name v])
      else if v_image v = [] then Some (Errf ''service %q requires an image'' [v_name v])
      else case check_secret_names (v_secrets v) of
        Some e \<Rightarrow> Some e
      | None \<Rightarrow> check_services (v_name v # seen) vs)"

text \<open>\<open>first_err\<close> is a sequence of checks each of which returns its error at once.\<close>

fun first_err :: "goerr option list \<Rightarrow> goerr option" where
  "first_err [] = None"
| "first_err (c # cs) = (case c of Some e \<Rightarrow> Some e | None \<Rightarrow> first_err cs)"

abbreviation fail_if :: "bool \<Rightarrow> string \<Rightarrow> string list \<Rightarrow> goerr option" where
  "fail_if b f as \<equiv> (if b then Some (Errf f as) else None)"

definition check_requirements :: "requirements \<Rightarrow> goerr option" where
  "check_requirements q =
     (if q_cpu q < 0
      then Some (Errf ''requirements.cpu %v is invalid: must not be negative'' [])
      else case ParseSize (q_memory q) of
        Inl e \<Rightarrow> Some (Wrapf ''requirements.memory: %w'' [] e)
      | Inr _ \<Rightarrow> None)"

definition check_git :: "app \<Rightarrow> git \<Rightarrow> goerr option" where
  "check_git a g = first_err
     [fail_if (g_url g = []) ''git url is required'' [],
      validateGitURL (g_url g),
      validateGitRef (g_ref g),
      validateRelativeNoTraversal ''git path'' (g_path g),
      (case a_build a of
         None \<Rightarrow> Some (Errf ''build is required for git apps'' [])
       | Some b \<Rightarrow> first_err
           [validateRelativeNoTraversal ''build context'' (b_context b),
            validateRelativeNoTraversal ''build dockerfile'' (b_dockerfile b)]),
      fail_if (a_image a \<noteq> []) ''cannot mix git and image'' [],
      fail_if (a_compose a \<noteq> []) ''cannot mix git and compose'' [],
      fail_if (a_domain a = []) ''domain is required for git apps'' [],
      fail_if (a_port a = 0) ''port is required for git apps'' []]"

definition check_compose :: "app \<Rightarrow> goerr option" where
  "check_compose a = first_err
     [fail_if (a_service a = []) ''service is required for compose apps'' [],
      fail_if (a_domain a = []) ''domain is required for compose apps'' [],
      fail_if (a_port a = 0) ''port is required for compose apps'' [],
      fail_if (a_image a \<noteq> []) ''cannot mix compose and image'' [],
      fail_if (a_build a \<noteq> None) ''cannot mix compose and build'' [],
      fail_if (a_node a \<noteq> [] \<and> a_node a \<noteq> ''local'')
        ''compose apps on remote nodes are not supported yet (place on local, or use image/git apps with [[services]])'' []]"

definition check_single :: "app \<Rightarrow> goerr option" where
  "check_single a = first_err
     [fail_if (a_build a \<noteq> None) ''build-from-source is not supported yet'' [],
      fail_if (a_image a = []) ''image is required'' [],
      fail_if (a_port a = 0) ''port is required'' []]"

definition Validate :: "app \<Rightarrow> goerr option" where
  "Validate a = first_err
     [fail_if (a_name a = []) ''name is required'' [],
      fail_if (\<not> nameRe (a_name a)) ''name %q is invalid: must match [a-zA-Z0-9][a-zA-Z0-9_.-]*'' [a_name a],
      check_secret_names (a_secrets a),
      fail_if (a_surfaces a \<noteq> []) ''surfaces are not supported yet'' [],
      fail_if (a_pool a \<noteq> [] \<and> \<not> poolNameRe (a_pool a))
        ''pool %q is invalid: must match [A-Za-z0-9][A-Za-z0-9_-]*'' [a_pool a],
      (case a_requirements a of None \<Rightarrow> None | Some q \<Rightarrow> check_requirements q),
      (case a_git a of
         Some g \<Rightarrow> check_git a g
       | None \<Rightarrow> if a_compose a \<noteq> [] then check_compose a else check_single a),
      fail_if (a_replicas a < 0) ''replicas must be >= 0'' [],
      fail_if (a_replicas a > 50) ''replicas must be <= 50'' [],
      fail_if (a_replicas a > 1 \<and> a_compose a \<noteq> []) ''replicas not supported for compose apps'' [],
      fail_if (a_replicas a > 1 \<and> a_services a \<noteq> [])
        ''replicas not supported with backing [[services]] (backing runs on a single node; use replicas=1)'' [],
      (if a_services a = [] then None
       else if a_compose a \<noteq> [] then Some (Errf ''services are not allowed on compose apps'' [])
       else check_services [] (a_services a))]"

text \<open>What \<open>Parse\<close> does to the decoded document, the health timeout being already a duration.\<close>

definition parse_defaults :: "app \<Rightarrow> app" where
  "parse_defaults a =
     (let a1 = (case a_git a of None \<Rightarrow> a
                | Some g \<Rightarrow> if g_ref g = [] then a\<lparr>a_git := Some (g\<lparr>g_ref := ''main''\<rparr>)\<rparr> else a);
          a2 = (if h_timeout (a_health a1) = 0
                then a1\<lparr>a_health := (a_health a1)\<lparr>h_timeout := 30 * 10 ^ 9\<rparr>\<rparr> else a1)
      in if a_replicas a2 = 0 then a2\<lparr>a_replicas := 1\<rparr> else a2)"

section \<open>Paths that stay below their root\<close>

text \<open>
  The specification of a safe relative path: walking it segment by segment from a directory at
  depth \<open>d\<close> never steps above depth 0. \<open>None\<close> is the escape.
\<close>

fun walk_path :: "nat \<Rightarrow> string list \<Rightarrow> nat option" where
  "walk_path d [] = Some d"
| "walk_path d (w # ws) =
     (if w = [] \<or> w = ''.'' then walk_path d ws
      else if w = ''..'' then (case d of 0 \<Rightarrow> None | Suc e \<Rightarrow> walk_path e ws)
      else walk_path (Suc d) ws)"

lemma clean_segs_keeps_dotdot: "''..'' \<in> set st \<Longrightarrow> ''..'' \<in> set (clean_segs st ws)"
  by (induction st ws rule: clean_segs.induct) (auto split: list.splits)

lemma clean_segs_dotdot_iff:
  "''..'' \<notin> set st \<Longrightarrow> ''..'' \<in> set (clean_segs st ws) \<longleftrightarrow> walk_path (length st) ws = None"
proof (induction st ws rule: clean_segs.induct)
  case (1 st)
  then show ?case by simp
next
  case (2 st w ws)
  show ?case
  proof (cases "w = ''..''")
    case True
    show ?thesis
    proof (cases st)
      case Nil
      then show ?thesis using True by (simp add: clean_segs_keeps_dotdot)
    next
      case (Cons t ts)
      then show ?thesis using True 2 by auto
    qed
  next
    case False
    then show ?thesis using 2 by auto
  qed
qed

lemma cleaned_dotdot:
  "list_ex (\<lambda>seg. seg = ''..'') (cleaned_segments p) \<longleftrightarrow>
   walk_path 0 (split_on (CHR ''/'') p) = None"
  using clean_segs_dotdot_iff [of "[]" "split_on (CHR ''/'') p"]
  by (auto simp: cleaned_segments_def list_ex_iff Let_def)

section \<open>Transports of a git remote\<close>

text \<open>
  Git reads a remote \<open>transport::address\<close> as a request to run the helper
  \<open>git-remote-transport\<close>; the helper name is what stands before the first colon.
\<close>

definition helper_transport :: "string \<Rightarrow> string option" where
  "helper_transport url =
     (let name = takeWhile (\<lambda>c. c \<noteq> CHR '':'') url; rest = dropWhile (\<lambda>c. c \<noteq> CHR '':'') url
      in if prefix ''::'' rest then Some name else None)"

lemma str_index_first: "str_index sub s = Some i \<Longrightarrow> prefix sub (drop i s)"
  by (induction sub s arbitrary: i rule: str_index.induct) (auto split: if_splits)

lemma colon_in_to_lower: "CHR '':'' \<in> set s \<Longrightarrow> CHR '':'' \<in> set (to_lower s)"
proof (induction s rule: to_lower.induct)
  case 1
  then show ?case by simp
next
  case (2 c cs)
  have lc: "lower_char (CHR '':'') = CHR '':''" by code_simp
  have cut: "x \<in> set cs \<Longrightarrow> x \<notin> set (take n cs) \<Longrightarrow> x \<in> set (drop n cs)" for x :: char and n
    by (metis Un_iff append_take_drop_id set_append)
  show ?case
  proof (cases "c = CHR 0xC4 \<and> take 1 cs = [CHR 0xB0]")
    case True
    then have "CHR '':'' \<in> set (drop 1 cs)" using 2(4) cut [of _ 1] by auto
    then show ?thesis using True 2(1) by simp
  next
    case n1: False
    show ?thesis
    proof (cases "c = CHR 0xE2 \<and> take 2 cs = [CHR 0x84, CHR 0xAA]")
      case True
      then have "CHR '':'' \<in> set (drop 2 cs)" using 2(4) cut [of _ 2] by auto
      then show ?thesis using True 2(2) n1 by simp
    next
      case False
      have "CHR '':'' = c \<or> CHR '':'' \<in> set cs" using 2(4) by auto
      then show ?thesis using 2(3) [OF n1 False] n1 False lc
        by (metis list.set_intros to_lower.simps(2))
    qed
  qed
qed

lemma schemes_no_colon: "w \<in> set gitAllowedSchemes \<Longrightarrow> CHR '':'' \<notin> set w"
  by (auto simp: gitAllowedSchemes_def)

lemma helper_transport_sublist: "helper_transport url = Some t \<Longrightarrow> sublist ''::'' url"
proof -
  assume h: "helper_transport url = Some t"
  let ?rest = "dropWhile (\<lambda>c. c \<noteq> CHR '':'') url"
  have "prefix ''::'' ?rest" using h by (auto simp: helper_transport_def Let_def split: if_splits)
  moreover have "url = takeWhile (\<lambda>c. c \<noteq> CHR '':'') url @ ?rest" by simp
  ultimately show ?thesis by (metis prefix_def sublist_appendI)
qed

lemma scheme_url_no_helper:
  assumes "str_index ''://'' url = Some i" and "CHR '':'' \<notin> set (take i url)"
  shows "helper_transport url = None"
proof -
  obtain r where "drop i url = '':'' @ ''//'' @ r"
    using str_index_first [OF assms(1)] by (auto simp: prefix_def)
  then have url: "url = take i url @ CHR '':'' # ''//'' @ r"
    by (metis append_Cons append_Nil append_take_drop_id)
  have "dropWhile (\<lambda>c. c \<noteq> CHR '':'') url = CHR '':'' # ''//'' @ r"
    by (subst url) (rule takeWhile_until(2) [OF assms(2)])
  then show ?thesis by (simp add: helper_transport_def Let_def)
qed

lemma validateGitURL_cases:
  "validateGitURL url = None \<Longrightarrow>
     \<not> prefix ''-'' url \<and>
     ((\<exists>i. str_index ''://'' url = Some i \<and> to_lower (take i url) \<in> set gitAllowedSchemes) \<or>
      \<not> sublist ''::'' url \<and> gitScpLikeRe url)"
  by (auto simp: validateGitURL_def split: if_splits option.splits)

text \<open>
  A remote that passes the gate is never an option of the \<open>git\<close> command line and never
  names a transport helper, so no \<open>ext::\<close> or \<open>fd::\<close> remote reaches a clone.
\<close>

lemma git_remote_safe:
  assumes "validateGitURL url = None"
  shows "\<not> prefix ''-'' url \<and> helper_transport url = None"
proof -
  have "helper_transport url = None" if "str_index ''://'' url = Some i"
    and "to_lower (take i url) \<in> set gitAllowedSchemes" for i
    using scheme_url_no_helper [OF that(1)] colon_in_to_lower schemes_no_colon that(2) by blast
  then show ?thesis
    using validateGitURL_cases [OF assms] helper_transport_sublist
    by (metis not_None_eq)
qed

theorem git_remote_safe_witness:
  "\<not> prefix ''-'' ''git@github.com:me/app.git'' \<and> helper_transport ''git@github.com:me/app.git'' = None"
  by (rule git_remote_safe) code_simp

text \<open>
  A relative path is accepted exactly when walking it never leaves the clone root, not even
  on the way; the empty path is accepted and an absolute one refused.
\<close>

lemma relative_path_safe_iff:
  "validateRelativeNoTraversal label p = None \<longleftrightarrow>
     p = [] \<or> \<not> prefix ''/'' p \<and> walk_path 0 (split_on (CHR ''/'') p) \<noteq> None"
  by (auto simp: validateRelativeNoTraversal_def cleaned_dotdot)

section \<open>What a valid app satisfies\<close>

lemma first_err_None: "first_err cs = None \<longleftrightarrow> (\<forall>c \<in> set cs. c = None)"
  by (induction cs) (auto split: option.splits)

declare first_err.simps [simp del]

lemma fail_None: "(if b then Some e else None) = None \<longleftrightarrow> \<not> b"
  by simp

lemma check_secret_names_None: "check_secret_names ns = None \<longleftrightarrow> list_all secretNameRe ns"
  by (induction ns) auto

lemma check_services_None:
  "check_services seen vs = None \<longleftrightarrow>
     distinct (map v_name vs) \<and> set seen \<inter> set (map v_name vs) = {} \<and>
     (\<forall>v \<in> set vs. serviceNameRe (v_name v) \<and> v_image v \<noteq> [] \<and> list_all secretNameRe (v_secrets v))"
proof (induction vs arbitrary: seen)
  case Nil
  then show ?case by simp
next
  case (Cons v vs)
  have "serviceNameRe n \<Longrightarrow> n \<noteq> []" for n by (auto simp: serviceNameRe_def)
  then show ?case using Cons.IH [of "v_name v # seen"]
    by (auto split: option.splits simp flip: check_secret_names_None)
qed

text \<open>The three shapes an app may have.\<close>

definition image_shape :: "app \<Rightarrow> bool" where
  "image_shape a = (a_git a = None \<and> a_compose a = [] \<and> a_build a = None \<and> a_image a \<noteq> [] \<and> a_port a \<noteq> 0)"

definition compose_shape :: "app \<Rightarrow> bool" where
  "compose_shape a =
     (a_git a = None \<and> a_compose a \<noteq> [] \<and> a_service a \<noteq> [] \<and> a_domain a \<noteq> [] \<and> a_port a \<noteq> 0
      \<and> a_image a = [] \<and> a_build a = None \<and> a_node a \<in> {[], ''local''} \<and> a_replicas a \<le> 1
      \<and> a_services a = [])"

definition git_shape :: "app \<Rightarrow> bool" where
  "git_shape a =
     (\<exists>g b. a_git a = Some g \<and> a_build a = Some b \<and> g_url g \<noteq> [] \<and> validateGitURL (g_url g) = None
        \<and> validateGitRef (g_ref g) = None
        \<and> (\<forall>(l, p) \<in> {(''git path'', g_path g), (''build context'', b_context b),
                          (''build dockerfile'', b_dockerfile b)}. validateRelativeNoTraversal l p = None)
        \<and> a_image a = [] \<and> a_compose a = [] \<and> a_domain a \<noteq> [] \<and> a_port a \<noteq> 0)"

lemma check_single_None:
  "a_git a = None \<Longrightarrow> a_compose a = [] \<Longrightarrow> check_single a = None \<longleftrightarrow> image_shape a"
  by (auto simp: check_single_def image_shape_def first_err_None)

lemma check_git_None: "a_git a = Some g \<Longrightarrow> check_git a g = None \<longleftrightarrow> git_shape a"
  by (cases "a_build a") (auto simp: check_git_def git_shape_def first_err_None)

lemma check_compose_None:
  "a_git a = None \<Longrightarrow> a_compose a \<noteq> [] \<Longrightarrow> a_replicas a \<le> 1 \<Longrightarrow> a_services a = []
    \<Longrightarrow> check_compose a = None \<longleftrightarrow> compose_shape a"
  by (auto simp: check_compose_def compose_shape_def first_err_None)

lemma nameRe_nonempty: "nameRe s \<Longrightarrow> s \<noteq> []"
  by (auto simp: nameRe_def)

text \<open>
  C30: \<open>Validate\<close> accepts exactly the apps of the three shapes with well-formed names, a
  replica count between 0 and 50, and at most one replica next to compose or backing services.
\<close>

theorem Validate_iff:
  "Validate a = None \<longleftrightarrow>
     nameRe (a_name a) \<and> list_all secretNameRe (a_secrets a) \<and> a_surfaces a = [] \<and>
     (a_pool a = [] \<or> poolNameRe (a_pool a)) \<and>
     (a_requirements a = None \<or> check_requirements (the (a_requirements a)) = None) \<and>
     (image_shape a \<or> compose_shape a \<or> git_shape a) \<and>
     0 \<le> a_replicas a \<and> a_replicas a \<le> 50 \<and> (a_replicas a \<le> 1 \<or> a_services a = []) \<and>
     distinct (map v_name (a_services a)) \<and>
     list_all (\<lambda>v. serviceNameRe (v_name v) \<and> v_image v \<noteq> [] \<and> list_all secretNameRe (v_secrets v)) (a_services a)"
proof -
  have each: "list_all (\<lambda>v. serviceNameRe (v_name v) \<and> v_image v \<noteq> [] \<and> list_all secretNameRe (v_secrets v)) (a_services a)
    = (\<forall>v \<in> set (a_services a). serviceNameRe (v_name v) \<and> v_image v \<noteq> [] \<and> list_all secretNameRe (v_secrets v))"
    by (rule list_all_iff)
  have name: "(a_name a \<noteq> [] \<and> nameRe (a_name a)) = nameRe (a_name a)"
    using nameRe_nonempty by blast
  have req: "(case a_requirements a of None \<Rightarrow> None | Some q \<Rightarrow> check_requirements q) = None \<longleftrightarrow>
    a_requirements a = None \<or> check_requirements (the (a_requirements a)) = None"
    by (cases "a_requirements a") auto
  have svcs: "(if a_services a = [] then None
      else if a_compose a \<noteq> [] then Some (Errf ''services are not allowed on compose apps'' [])
      else check_services [] (a_services a)) = None \<longleftrightarrow>
    (a_services a = [] \<or> a_compose a = []) \<and> distinct (map v_name (a_services a)) \<and>
     (\<forall>v \<in> set (a_services a).
        serviceNameRe (v_name v) \<and> v_image v \<noteq> [] \<and> list_all secretNameRe (v_secrets v))"
    by (auto simp: check_services_None)
  have shape: "(case a_git a of Some g \<Rightarrow> check_git a g
       | None \<Rightarrow> if a_compose a \<noteq> [] then check_compose a else check_single a) = None \<and>
      (a_replicas a \<le> 1 \<or> a_compose a = []) \<and> (a_services a = [] \<or> a_compose a = [])
     \<longleftrightarrow> (image_shape a \<or> compose_shape a \<or> git_shape a)"
  proof (cases "a_git a")
    case None
    then show ?thesis
      by (cases "a_compose a = []")
         (auto simp: check_single_None check_compose_None image_shape_def compose_shape_def
           git_shape_def intro: check_compose_None [THEN iffD2])
  next
    case (Some g)
    then show ?thesis
      by (auto simp: check_git_None image_shape_def compose_shape_def git_shape_def)
  qed
  have "Validate a = None \<longleftrightarrow> a_name a \<noteq> [] \<and> nameRe (a_name a) \<and> list_all secretNameRe (a_secrets a) \<and>
     a_surfaces a = [] \<and> (a_pool a = [] \<or> poolNameRe (a_pool a)) \<and>
     (case a_requirements a of None \<Rightarrow> None | Some q \<Rightarrow> check_requirements q) = None \<and>
     (case a_git a of Some g \<Rightarrow> check_git a g
       | None \<Rightarrow> if a_compose a \<noteq> [] then check_compose a else check_single a) = None \<and>
     0 \<le> a_replicas a \<and> a_replicas a \<le> 50 \<and> (a_replicas a \<le> 1 \<or> a_compose a = []) \<and>
     (a_replicas a \<le> 1 \<or> a_services a = []) \<and>
     (if a_services a = [] then None
      else if a_compose a \<noteq> [] then Some (Errf ''services are not allowed on compose apps'' [])
      else check_services [] (a_services a)) = None"
    unfolding Validate_def first_err_None
    by (simp only: list.set ball_simps fail_None check_secret_names_None not_less de_Morgan_conj
        not_not simp_thms conj_assoc)
  then show ?thesis unfolding req svcs each using name shape by argo
qed

text \<open>A snapshot that was parsed stays valid: the defaults never invalidate an app.\<close>

lemma parse_defaults_sel [simp]:
  "a_name (parse_defaults a) = a_name a" "a_node (parse_defaults a) = a_node a"
  "a_domain (parse_defaults a) = a_domain a" "a_services (parse_defaults a) = a_services a"
  by (simp_all add: parse_defaults_def Let_def split: option.splits)

lemma parse_defaults_replicas: "a_replicas (parse_defaults a) = (if a_replicas a = 0 then 1 else a_replicas a)"
  by (simp add: parse_defaults_def Let_def split: option.splits)

lemma parse_defaults_timeout: "h_timeout (a_health (parse_defaults a)) \<noteq> 0"
  by (auto simp: parse_defaults_def Let_def split: option.splits)

section \<open>Sizes of plain numerals\<close>

lemma foldl_digits_nonneg: "0 \<le> n \<Longrightarrow> list_all is_digit s \<Longrightarrow> 0 \<le> foldl (\<lambda>n c. 10 * n + (int (of_char c) - 48)) n s"
proof (induction s arbitrary: n)
  case Nil
  then show ?case by simp
next
  case (Cons c cs)
  have "48 \<le> int (of_char c)" using Cons.prems
    by (simp add: is_digit_def less_eq_char_def)
  then show ?case using Cons by simp
qed

lemma read_int_nonneg: "list_all is_digit s \<Longrightarrow> 0 \<le> read_int s"
  using foldl_digits_nonneg [of 0] by (simp add: read_int_def)

lemma missing_bits_bound: "0 < num \<Longrightarrow> num < 2 ^ 53 \<Longrightarrow> num * 2 ^ missing_bits num 1 < 2 ^ 53"
proof (induction num "1::int" rule: missing_bits.induct)
  case (1 num)
  show ?case
  proof (cases "2 ^ 52 \<le> num")
    case True
    then show ?thesis using 1(3) by (subst missing_bits.simps) simp
  next
    case False
    then have "2 * num * 2 ^ missing_bits (2 * num) 1 < 2 ^ 53" using 1 by simp
    then show ?thesis using False 1(2) by (subst missing_bits.simps) (simp add: mult_ac)
  qed
qed

lemma parse_float_nat:
  assumes "0 \<le> n" "n < 2 ^ 53"
  shows "parse_float n 1 = Some (n * 2 ^ missing_bits n 1, 0, missing_bits n 1)"
proof -
  have "excess_bits n = 0" using assms(2) by (subst excess_bits.simps) simp
  then show ?thesis by (simp add: parse_float_def round_half_even_def Let_def)
qed

lemma takeWhile_show: "list_all is_digit ds \<Longrightarrow> u = [] \<or> \<not> is_digit (hd u)
    \<Longrightarrow> takeWhile is_digit (ds @ u) = ds \<and> dropWhile is_digit (ds @ u) = u"
  by (cases u) (auto simp: list_all_iff takeWhile_append dropWhile_append)

lemma unit_facts:
  assumes "map_of sizeUnitFactor u = Some f"
  shows "trim_right (trim_left u) = u \<and> to_lower u = u \<and> (u = [] \<or> \<not> is_digit (hd u)) \<and> \<not> prefix ''.'' u"
proof -
  have "u \<in> set (map fst sizeUnitFactor)" using assms by (force dest: map_of_SomeD)
  then have "list_ex (\<lambda>w. w = u) (map fst sizeUnitFactor)" by (auto simp: list_ex_iff)
  moreover have "list_all (\<lambda>w. trim_right (trim_left w) = w \<and> to_lower w = w \<and> (w = [] \<or> \<not> is_digit (hd w)) \<and> \<not> prefix ''.'' w)
     (map fst sizeUnitFactor)" by code_simp
  ultimately show ?thesis by (auto simp: list_all_iff list_ex_iff)
qed

lemma show_nat_list_all: "list_all is_digit (show_nat n)"
  by (auto simp: list_all_iff dest: show_nat_digits)

lemma trim_left_show: "trim_left (show_nat n @ u) = show_nat n @ u"
proof -
  obtain c cs where c: "show_nat n = c # cs" by (cases "show_nat n") auto
  then have "is_digit c" using show_nat_list_all [of n] by simp
  then have "\<not> is_space c" by (auto simp: is_digit_def is_space_def less_eq_char_def)
  then show ?thesis using c by (simp add: trim_left_def)
qed

text \<open>
  A whole number below \<open>2 ^ 53\<close> with a unit is read exactly as that many units of
  1024 bytes to the unit's power, as long as the product is a valid \<open>int64\<close>.
\<close>

lemma ParseSize_exact:
  assumes "map_of sizeUnitFactor u = Some f" and "int n < 2 ^ 53" and "int n * f < 2 ^ 63"
  shows "ParseSize (show_nat n @ u) = Inr (int n * f)"
proof -
  note u = unit_facts [OF assms(1)]
  have tw: "takeWhile is_digit (show_nat n @ u) = show_nat n" "dropWhile is_digit (show_nat n @ u) = u"
    using takeWhile_show [OF show_nat_list_all] u by auto
  have re: "sizeRe (show_nat n @ u) = Some (show_nat n, [], u)"
    unfolding sizeRe_def Let_def trim_left_show tw using u assms(1) by simp
  have "parse_float (int n) 1 = Some (int n * 2 ^ missing_bits (int n) 1, 0, missing_bits (int n) 1)"
    by (rule parse_float_nat) (use assms in auto)
  moreover have "int n * 2 ^ k * f div 2 ^ k = int n * f" for k
    by (simp add: mult.assoc mult.left_commute)
  ultimately show ?thesis using re assms
    by (simp add: ParseSize_def read_show_nat to_int64_def)
qed

lemma ParseSize_exact_witness: "ParseSize (show_nat 512 @ ''mi'') = Inr 536870912"
  using ParseSize_exact [of "''mi''" "1024 ^ 2" 512] by (simp add: sizeUnitFactor_def)

end
