(* ===== verification/StoreDb.thy ===== *)
theory StoreDb
  imports AppSpec
begin

text \<open>
  The tables of package \<open>store\<close> (\<open>src/internal/store/store.go\<close>) and the effect of each SQL
  statement the package issues on them, without faults: \<open>Store\<close> adds those. A JSON column is
  the value it encodes, with its empty and its undecodable contents as constructors of their own.
\<close>

section \<open>Rows\<close>

definition StatusRunning :: string where "StatusRunning = ''running''"
definition StatusFailed :: string where "StatusFailed = ''failed''"
definition StatusRetired :: string where "StatusRetired = ''retired''"
definition DefaultPool :: string where "DefaultPool = ''default''"

lemma status_distinct [simp]:
  "StatusRunning \<noteq> StatusRetired" "StatusRetired \<noteq> StatusRunning"
  "StatusRunning \<noteq> StatusFailed" "StatusFailed \<noteq> StatusRunning"
  by (simp_all add: StatusRunning_def StatusRetired_def StatusFailed_def)

record replica =
  x_container :: string
  x_node :: string
  x_upstream :: string
  x_port :: int

datatype rep_text = RepEmpty | RepJSON "replica list" | RepBad string
datatype spec_text = SpecEmpty | SpecJSON app | SpecBad string

record deployment =
  d_id :: int
  d_app :: string
  d_image :: string
  d_container :: string
  d_status :: string
  d_created :: int
  d_spec :: spec_text
  d_compose :: string
  d_scheduled :: bool
  d_replicas :: "replica list"

record dep_row =
  w_id :: int
  w_app :: string
  w_image :: string
  w_container :: string
  w_status :: string
  w_created :: int
  w_spec :: spec_text
  w_compose :: string
  w_scheduled :: bool
  w_replicas :: rep_text

record node_row =
  nd_name :: string
  nd_ssh_host :: string
  nd_mesh_addr :: string
  nd_agent_url :: string
  nd_pool :: string
  nd_schedulable :: bool
  nd_created :: int

text \<open>\<open>db_seq\<close> is the \<open>sqlite_sequence\<close> entry of the AUTOINCREMENT column.\<close>

record db =
  db_deps :: "dep_row list"
  db_seq :: int
  db_secrets :: "((string \<times> string) \<times> string) list"
  db_nodes :: "node_row list"

definition empty_db :: db where
  "empty_db = \<lparr>db_deps = [], db_seq = 0, db_secrets = [], db_nodes = []\<rparr>"

section \<open>The replicas column\<close>

definition replicasJSON :: "replica list \<Rightarrow> rep_text" where
  "replicasJSON rs = (if rs = [] then RepEmpty else RepJSON rs)"

fun decodeReplicas :: "rep_text \<Rightarrow> replica list res" where
  "decodeReplicas RepEmpty = Inr []"
| "decodeReplicas (RepJSON rs) = Inr rs"
| "decodeReplicas (RepBad t) = Inl (Wrapf ''unmarshal replicas: %w'' [] (Errf t []))"

lemma decode_replicasJSON [simp]: "decodeReplicas (replicasJSON rs) = Inr rs"
  by (simp add: replicasJSON_def)

text \<open>
  Times are nanoseconds; a row keeps whole seconds (\<open>CreatedAt.Unix()\<close>, \<open>time.Unix(ts, 0)\<close>), so a
  deployment is read back as \<open>stored d\<close>.
\<close>

definition whole_seconds :: "int \<Rightarrow> int" where
  "whole_seconds t = t div 1000000000 * 1000000000"

definition stored :: "deployment \<Rightarrow> deployment" where
  "stored d = d\<lparr>d_created := whole_seconds (d_created d)\<rparr>"

definition row_of :: "deployment \<Rightarrow> dep_row" where
  "row_of d = \<lparr>w_id = d_id d, w_app = d_app d, w_image = d_image d, w_container = d_container d,
     w_status = d_status d, w_created = whole_seconds (d_created d), w_spec = d_spec d, w_compose = d_compose d,
     w_scheduled = d_scheduled d, w_replicas = replicasJSON (d_replicas d)\<rparr>"

definition scan_row :: "dep_row \<Rightarrow> deployment res" where
  "scan_row w = (case decodeReplicas (w_replicas w) of
     Inl e \<Rightarrow> Inl e
   | Inr rs \<Rightarrow> Inr \<lparr>d_id = w_id w, d_app = w_app w, d_image = w_image w, d_container = w_container w,
       d_status = w_status w, d_created = w_created w, d_spec = w_spec w, d_compose = w_compose w,
       d_scheduled = w_scheduled w, d_replicas = rs\<rparr>)"

lemma scan_row_of [simp]: "scan_row (row_of d) = Inr (stored d)"
  by (simp add: scan_row_def row_of_def stored_def)

section \<open>Statements on deployments\<close>

definition sql_insert_deployment :: "dep_row \<Rightarrow> db \<Rightarrow> int \<times> db" where
  "sql_insert_deployment w t =
     (let i = db_seq t + 1 in (i, t\<lparr>db_deps := db_deps t @ [w\<lparr>w_id := i\<rparr>], db_seq := i\<rparr>))"

definition by_id_desc :: "dep_row \<Rightarrow> dep_row \<Rightarrow> bool" where
  "by_id_desc v w = (w_id w < w_id v)"

definition sql_deployments_for :: "string \<Rightarrow> db \<Rightarrow> dep_row list" where
  "sql_deployments_for app t = sort_stable by_id_desc (filter (\<lambda>w. w_app w = app) (db_deps t))"

definition sql_last_with_status :: "string \<Rightarrow> string \<Rightarrow> db \<Rightarrow> dep_row option" where
  "sql_last_with_status app st t =
     (case sort_stable by_id_desc (filter (\<lambda>w. w_app w = app \<and> w_status w = st) (db_deps t)) of
        [] \<Rightarrow> None | w # _ \<Rightarrow> Some w)"

definition sql_next_id :: "db \<Rightarrow> int" where
  "sql_next_id t = (if db_deps t = [] then 0 else Max (set (map w_id (db_deps t)))) + 1"

definition map_id :: "int \<Rightarrow> (dep_row \<Rightarrow> dep_row) \<Rightarrow> db \<Rightarrow> db" where
  "map_id i f t = t\<lparr>db_deps := map (\<lambda>w. if w_id w = i then f w else w) (db_deps t)\<rparr>"

definition sql_set_status :: "int \<Rightarrow> string \<Rightarrow> db \<Rightarrow> db" where
  "sql_set_status i st = map_id i (w_status_update (\<lambda>_. st))"

definition sql_update_replicas :: "int \<Rightarrow> rep_text \<Rightarrow> string \<Rightarrow> db \<Rightarrow> db" where
  "sql_update_replicas i rs cid =
     map_id i (\<lambda>w. w\<lparr>w_replicas := rs, w_container := cid\<rparr>)"

definition sql_list_apps :: "db \<Rightarrow> string list" where
  "sql_list_apps t = sort (remdups (map w_app (db_deps t)))"

section \<open>Statements on secrets\<close>

definition sql_set_secret :: "string \<Rightarrow> string \<Rightarrow> string \<Rightarrow> db \<Rightarrow> db" where
  "sql_set_secret app key v t = t\<lparr>db_secrets := AList.update (app, key) v (db_secrets t)\<rparr>"

definition sql_get_secret :: "string \<Rightarrow> string \<Rightarrow> db \<Rightarrow> string option" where
  "sql_get_secret app key t = map_of (db_secrets t) (app, key)"

definition sql_list_secret_keys :: "string \<Rightarrow> db \<Rightarrow> string list" where
  "sql_list_secret_keys app t =
     sort (map snd (filter (\<lambda>k. fst k = app) (map fst (db_secrets t))))"

definition sql_delete_secret :: "string \<Rightarrow> string \<Rightarrow> db \<Rightarrow> db" where
  "sql_delete_secret app key t = t\<lparr>db_secrets := AList.delete (app, key) (db_secrets t)\<rparr>"

section \<open>Statements on nodes\<close>

definition sql_get_node :: "string \<Rightarrow> db \<Rightarrow> node_row option" where
  "sql_get_node name t = List.find (\<lambda>n. nd_name n = name) (db_nodes t)"

text \<open>
  The upsert: a new node is schedulable, an existing one keeps \<open>created_at\<close> and \<open>schedulable\<close>.
\<close>

definition sql_add_node :: "node_row \<Rightarrow> db \<Rightarrow> db" where
  "sql_add_node n t =
     (case sql_get_node (nd_name n) t of
        None \<Rightarrow> t\<lparr>db_nodes := db_nodes t @ [n\<lparr>nd_schedulable := True\<rparr>]\<rparr>
      | Some _ \<Rightarrow> t\<lparr>db_nodes := map (\<lambda>m. if nd_name m = nd_name n
            then m\<lparr>nd_ssh_host := nd_ssh_host n, nd_mesh_addr := nd_mesh_addr n,
                   nd_agent_url := nd_agent_url n, nd_pool := nd_pool n\<rparr> else m) (db_nodes t)\<rparr>)"

definition sql_list_nodes :: "db \<Rightarrow> node_row list" where
  "sql_list_nodes t = sort_stable (\<lambda>m n. nd_name m < nd_name n) (db_nodes t)"

definition sql_set_schedulable :: "string \<Rightarrow> bool \<Rightarrow> db \<Rightarrow> db" where
  "sql_set_schedulable name b t =
     t\<lparr>db_nodes := map (\<lambda>n. if nd_name n = name then n\<lparr>nd_schedulable := b\<rparr> else n) (db_nodes t)\<rparr>"

definition sql_delete_node :: "string \<Rightarrow> db \<Rightarrow> db" where
  "sql_delete_node name t = t\<lparr>db_nodes := filter (\<lambda>n. nd_name n \<noteq> name) (db_nodes t)\<rparr>"

section \<open>The invariant of the tables\<close>

definition wf_db :: "db \<Rightarrow> bool" where
  "wf_db t =
     (sorted_wrt (<) (map w_id (db_deps t)) \<and> (\<forall>w \<in> set (db_deps t). 0 < w_id w) \<and>
      db_seq t = (if db_deps t = [] then 0 else w_id (last (db_deps t))) \<and>
      wf_map (db_secrets t) \<and> distinct (map nd_name (db_nodes t)) \<and>
      (\<forall>n \<in> set (db_nodes t). nd_pool n \<noteq> []))"

lemma wf_db_empty: "wf_db empty_db"
  by (simp add: wf_db_def empty_db_def)

interpretation id_desc: weak_order by_id_desc
  by unfold_locales (auto simp: by_id_desc_def)

interpretation node_order: weak_order "\<lambda>m n. nd_name m < nd_name n"
  by unfold_locales (auto simp: not_less)

lemma sorted_wrt_last: "sorted_wrt (<) (xs :: int list) \<Longrightarrow> x \<in> set xs \<Longrightarrow> x \<le> last xs"
  by (induction xs) (auto dest: last_in_set less_imp_le)

lemma wf_id_le_seq: "wf_db t \<Longrightarrow> w \<in> set (db_deps t) \<Longrightarrow> w_id w \<le> db_seq t"
  using sorted_wrt_last [of "map w_id (db_deps t)" "w_id w"]
  by (cases "db_deps t = []") (auto simp: wf_db_def last_map)

lemma wf_seq_nonneg: "wf_db t \<Longrightarrow> 0 \<le> db_seq t"
  by (auto simp: wf_db_def intro: less_imp_le)

lemma sorted_ids_filter: "sorted_wrt (<) (map w_id xs) \<Longrightarrow> sorted_wrt (<) (map w_id (filter P xs))"
  by (induction xs) (auto simp: image_def)

lemma sort_by_id_rev:
  assumes "sorted_wrt (<) (map w_id xs)"
  shows "sort_stable by_id_desc xs = rev xs"
proof (rule id_desc.sorted_unique)
  show "mset (sort_stable by_id_desc xs) = mset (rev xs)" by simp
  show "sorted_wrt (\<lambda>a b. \<not> by_id_desc b a) (sort_stable by_id_desc xs)" by (rule id_desc.sort_sorted)
  show "sorted_wrt (\<lambda>a b. \<not> by_id_desc b a) (rev xs)"
    using assms by (auto simp: sorted_wrt_rev by_id_desc_def sorted_wrt_map elim!: sorted_wrt_mono_rel [rotated])
  show "by_id_desc a b \<or> by_id_desc b a"
    if "a \<in> set (sort_stable by_id_desc xs)" "b \<in> set (sort_stable by_id_desc xs)" "a \<noteq> b" for a b
  proof -
    have "distinct (map w_id xs)" using assms strict_sorted_iff by auto
    then have "w_id a \<noteq> w_id b" using that by (auto simp: distinct_map inj_on_def)
    then show ?thesis by (auto simp: by_id_desc_def)
  qed
qed

lemma deps_sorted: "wf_db t \<Longrightarrow> sorted_wrt (<) (map w_id (db_deps t))"
  by (simp add: wf_db_def)

lemma sql_deployments_for_rev:
  "wf_db t \<Longrightarrow> sql_deployments_for app t = rev (filter (\<lambda>w. w_app w = app) (db_deps t))"
  by (simp add: sql_deployments_for_def sort_by_id_rev sorted_ids_filter deps_sorted)

lemma sql_last_find:
  "wf_db t \<Longrightarrow> sql_last_with_status app st t =
     List.find (\<lambda>w. w_app w = app \<and> w_status w = st) (rev (db_deps t))"
proof -
  assume t: "wf_db t"
  have "(case filter P xs of [] \<Rightarrow> None | w # _ \<Rightarrow> Some w) = List.find P xs" for P and xs :: "dep_row list"
    by (induction xs) auto
  then show ?thesis using t
    by (simp add: sql_last_with_status_def sort_by_id_rev sorted_ids_filter deps_sorted rev_filter)
qed

lemma head_of_sort:
  "(case sort_stable lt xs of [] \<Rightarrow> None | w # _ \<Rightarrow> Some w) = Some w \<Longrightarrow> w \<in> set xs"
  "(case sort_stable lt xs of [] \<Rightarrow> None | w # _ \<Rightarrow> Some w) = None \<longleftrightarrow> xs = []"
  by (metis (mono_tags, lifting) list.case_eq_if list.set_sel(1) option.distinct(1) option.inject set_sort_stable)
     (metis list.case_eq_if option.distinct(1) sort_stable_Nil_iff)

lemma sql_last_Some:
  assumes "sql_last_with_status app st t = Some w"
  shows "w \<in> set (db_deps t) \<and> w_app w = app \<and> w_status w = st"
  using head_of_sort(1) [OF assms [unfolded sql_last_with_status_def]] by simp

lemma sql_last_None:
  "sql_last_with_status app st t = None \<longleftrightarrow>
     (\<forall>w \<in> set (db_deps t). \<not> (w_app w = app \<and> w_status w = st))"
  unfolding sql_last_with_status_def head_of_sort(2) by (simp add: filter_empty_conv)

section \<open>Every statement keeps the invariant\<close>

lemma wf_insert: "wf_db t \<Longrightarrow> wf_db (snd (sql_insert_deployment w t))"
  using wf_id_le_seq [of t] wf_seq_nonneg [of t]
  by (force simp: wf_db_def sql_insert_deployment_def Let_def sorted_wrt_append split: if_splits)

lemma map_id_ids:
  assumes "\<And>w. w_id (f w) = w_id w"
  shows "map w_id (db_deps (map_id i f t)) = map w_id (db_deps t)"
  by (simp add: map_id_def assms)

lemma map_id_same [simp]:
  "db_seq (map_id i f t) = db_seq t" "db_secrets (map_id i f t) = db_secrets t"
  "db_nodes (map_id i f t) = db_nodes t"
  by (simp_all add: map_id_def)

lemma wf_db_ids:
  "wf_db t \<longleftrightarrow> sorted_wrt (<) (map w_id (db_deps t)) \<and> (\<forall>i \<in> set (map w_id (db_deps t)). 0 < i) \<and>
     db_seq t = (if map w_id (db_deps t) = [] then 0 else last (map w_id (db_deps t))) \<and>
     wf_map (db_secrets t) \<and> distinct (map nd_name (db_nodes t)) \<and>
     (\<forall>n \<in> set (db_nodes t). nd_pool n \<noteq> [])"
  by (auto simp: wf_db_def last_map)

lemma wf_map_id:
  assumes "\<And>w. w_id (f w) = w_id w" and "wf_db t"
  shows "wf_db (map_id i f t)"
  using assms(2) unfolding wf_db_ids map_id_ids [of f, OF assms(1)] map_id_same by assumption

lemma wf_set_status [simp]: "wf_db t \<Longrightarrow> wf_db (sql_set_status i st t)"
  by (simp add: sql_set_status_def wf_map_id)

lemma wf_update_replicas [simp]: "wf_db t \<Longrightarrow> wf_db (sql_update_replicas i rs c t)"
  by (simp add: sql_update_replicas_def wf_map_id)

lemma wf_secrets [simp]:
  "wf_db t \<Longrightarrow> wf_db (sql_set_secret a k v t)" "wf_db t \<Longrightarrow> wf_db (sql_delete_secret a k t)"
  by (simp_all add: wf_db_def sql_set_secret_def sql_delete_secret_def)

lemma find_None_names: "sql_get_node n t = None \<longleftrightarrow> n \<notin> set (map nd_name (db_nodes t))"
  by (auto simp: sql_get_node_def find_None_iff)

lemma map_nodes_names:
  "(\<And>n. nd_name (f n) = nd_name n) \<Longrightarrow> map nd_name (map (\<lambda>n. if b n then f n else n) ns) = map nd_name ns"
  by (induction ns) auto

lemma wf_nodes_update:
  assumes "wf_db t" "map nd_name ns = map nd_name (db_nodes t)" "\<forall>n \<in> set ns. nd_pool n \<noteq> []"
  shows "wf_db (t\<lparr>db_nodes := ns\<rparr>)"
  using assms by (simp add: wf_db_def)

lemma wf_add_node [simp]:
  assumes "wf_db t" "nd_pool n \<noteq> []"
  shows "wf_db (sql_add_node n t)"
proof (cases "sql_get_node (nd_name n) t")
  case None
  then show ?thesis using assms find_None_names [of "nd_name n" t] by (simp add: sql_add_node_def wf_db_def)
next
  case (Some m)
  then show ?thesis using assms
    by (simp add: sql_add_node_def) (rule wf_nodes_update, auto simp: wf_db_def)
qed

lemma wf_set_schedulable [simp]: "wf_db t \<Longrightarrow> wf_db (sql_set_schedulable n b t)"
  unfolding sql_set_schedulable_def by (rule wf_nodes_update) (auto simp: wf_db_def)

lemma wf_delete_node [simp]: "wf_db t \<Longrightarrow> wf_db (sql_delete_node n t)"
  by (auto simp: wf_db_def sql_delete_node_def distinct_map inj_on_def)

section \<open>What the statements read back\<close>

lemma find_append: "List.find P (xs @ ys) = (case List.find P xs of None \<Rightarrow> List.find P ys | Some x \<Rightarrow> Some x)"
  by (induction xs) auto

lemma last_after_insert:
  assumes "wf_db t"
  shows "sql_last_with_status app st (snd (sql_insert_deployment w t)) =
     (if w_app w = app \<and> w_status w = st then Some (w\<lparr>w_id := db_seq t + 1\<rparr>)
      else sql_last_with_status app st t)"
  using sql_last_find [OF wf_insert [OF assms], of app st w] sql_last_find [OF assms, of app st]
  by (simp add: sql_insert_deployment_def Let_def)

lemma find_map_id:
  assumes "\<And>w. w_id (f w) = w_id w"
  shows "List.find (\<lambda>w. w_id w = j) (db_deps (map_id i f t)) =
    map_option (\<lambda>w. if i = j then f w else w) (List.find (\<lambda>w. w_id w = j) (db_deps t))"
proof -
  have "List.find (\<lambda>w. w_id w = j) (map (\<lambda>w. if w_id w = i then f w else w) ws) =
    map_option (\<lambda>w. if i = j then f w else w) (List.find (\<lambda>w. w_id w = j) ws)" for ws
    using assms by (induction ws) auto
  then show ?thesis by (simp add: map_id_def)
qed

lemma last_cong:
  assumes "wf_db t" "wf_db t'" "filter (\<lambda>w. w_app w = app \<and> w_status w = st) (db_deps t') =
     filter (\<lambda>w. w_app w = app \<and> w_status w = st) (db_deps t)"
  shows "sql_last_with_status app st t' = sql_last_with_status app st t"
  by (simp add: sql_last_with_status_def assms(3))

text \<open>A status change of one row, seen by the query for the last row of a status.\<close>

lemma last_after_retire:
  assumes t: "wf_db t" and cur: "sql_last_with_status app st t = Some w"
    and ne: "st' \<noteq> st"
  shows "\<forall>v. sql_last_with_status app st (sql_set_status (w_id w) st' t) = Some v \<longrightarrow> w_id v < w_id w"
proof (intro allI impI)
  fix v
  let ?t = "sql_set_status (w_id w) st' t"
  assume v: "sql_last_with_status app st ?t = Some v"
  have vin: "v \<in> set (db_deps ?t)" "w_app v = app" "w_status v = st" using sql_last_Some [OF v] by auto
  have "v \<in> set (db_deps t) \<and> w_id v \<noteq> w_id w"
    using vin ne by (auto simp: sql_set_status_def map_id_def split: if_splits)
  moreover have "w_id v \<le> w_id w" if "v \<in> set (db_deps t)"
  proof -
    have "\<not> by_id_desc v w"
    proof -
      let ?xs = "filter (\<lambda>w. w_app w = app \<and> w_status w = st) (db_deps t)"
      have "hd (sort_stable by_id_desc ?xs) = w" using cur
        by (auto simp: sql_last_with_status_def split: list.splits)
      then show ?thesis using id_desc.hd_minimal [of v ?xs] that vin by auto
    qed
    then show ?thesis by (simp add: by_id_desc_def)
  qed
  ultimately show "w_id v < w_id w" by auto
qed

lemma sql_next_id_seq: "wf_db t \<Longrightarrow> sql_next_id t = db_seq t + 1"
proof -
  assume t: "wf_db t"
  show ?thesis
  proof (cases "db_deps t = []")
    case True
    then show ?thesis using t by (simp add: sql_next_id_def wf_db_def)
  next
    case False
    have "Max (w_id ` set (db_deps t)) = db_seq t"
      using False t wf_id_le_seq [OF t] by (intro Max_eqI) (auto simp: wf_db_def)
    then show ?thesis using False by (simp add: sql_next_id_def)
  qed
qed

section \<open>The log of deployments as an interface\<close>

text \<open>
  What the reconciler relies on: the id it names containers with is the id the row gets, a new
  row is the newest of its status, and a status query is not affected by rows of other apps.
\<close>

locale deployment_log =
  fixes inv :: "'db \<Rightarrow> bool"
    and next_id :: "'db \<Rightarrow> int"
    and insert :: "'row \<Rightarrow> 'db \<Rightarrow> int \<times> 'db"
    and newest :: "string \<Rightarrow> string \<Rightarrow> 'db \<Rightarrow> 'row option"
    and stamped :: "int \<Rightarrow> 'row \<Rightarrow> 'row"
    and app_of :: "'row \<Rightarrow> string"
    and status_of :: "'row \<Rightarrow> string"
  assumes insert_inv: "inv t \<Longrightarrow> inv (snd (insert w t))"
    and insert_id: "inv t \<Longrightarrow> fst (insert w t) = next_id t"
    and insert_next: "inv t \<Longrightarrow> next_id (snd (insert w t)) = next_id t + 1"
    and insert_newest: "inv t \<Longrightarrow> newest a st (snd (insert w t)) =
       (if app_of w = a \<and> status_of w = st then Some (stamped (next_id t) w) else newest a st t)"
begin

lemma newest_own: "inv t \<Longrightarrow> newest (app_of w) (status_of w) (snd (insert w t)) = Some (stamped (next_id t) w)"
  by (simp add: insert_newest)

lemma newest_other_app: "inv t \<Longrightarrow> app_of w \<noteq> a \<Longrightarrow> newest a st (snd (insert w t)) = newest a st t"
  by (simp add: insert_newest)

lemma ids_grow:
  "inv t \<Longrightarrow> next_id t \<le> next_id (snd (foldl (\<lambda>(i, t). \<lambda>w. insert w t) (i, t) ws))
     \<and> inv (snd (foldl (\<lambda>(i, t). \<lambda>w. insert w t) (i, t) ws))"
proof (induction ws arbitrary: i t)
  case Nil
  then show ?case by simp
next
  case (Cons w ws)
  have eq: "insert w t = (fst (insert w t), snd (insert w t))" by simp
  have "next_id (snd (insert w t)) = next_id t + 1" "inv (snd (insert w t))"
    using Cons.prems insert_next insert_inv by auto
  then show ?case using Cons.IH [of "snd (insert w t)" "fst (insert w t)"]
    by (simp add: eq [symmetric])
qed

end

interpretation dlog: deployment_log wf_db sql_next_id sql_insert_deployment sql_last_with_status
  "\<lambda>i w. w\<lparr>w_id := i\<rparr>" w_app w_status
proof unfold_locales
  fix t w a st
  assume t: "wf_db t"
  show "wf_db (snd (sql_insert_deployment w t))" using t by (rule wf_insert)
  show "fst (sql_insert_deployment w t) = sql_next_id t"
    using t by (simp add: sql_next_id_seq sql_insert_deployment_def Let_def)
  show "sql_next_id (snd (sql_insert_deployment w t)) = sql_next_id t + 1"
    using sql_next_id_seq [OF wf_insert [OF t]] t sql_next_id_seq [OF t]
    by (simp add: sql_insert_deployment_def Let_def)
  show "sql_last_with_status a st (snd (sql_insert_deployment w t)) =
     (if w_app w = a \<and> w_status w = st then Some (w\<lparr>w_id := sql_next_id t\<rparr>)
      else sql_last_with_status a st t)"
    using t by (simp add: last_after_insert sql_next_id_seq)
qed

section \<open>Secrets as a keyed table\<close>

locale keyed_table =
  fixes inv :: "'t \<Rightarrow> bool"
    and lookup :: "'k \<Rightarrow> 't \<Rightarrow> 'v option"
    and upsert :: "'k \<Rightarrow> 'v \<Rightarrow> 't \<Rightarrow> 't"
    and remove :: "'k \<Rightarrow> 't \<Rightarrow> 't"
  assumes upsert_inv: "inv t \<Longrightarrow> inv (upsert k v t)"
    and remove_inv: "inv t \<Longrightarrow> inv (remove k t)"
    and lookup_upsert: "inv t \<Longrightarrow> lookup j (upsert k v t) = (if j = k then Some v else lookup j t)"
    and lookup_remove: "inv t \<Longrightarrow> lookup j (remove k t) = (if j = k then None else lookup j t)"
begin

lemma upsert_twice: "inv t \<Longrightarrow> lookup j (upsert k v (upsert k u t)) = lookup j (upsert k v t)"
  by (simp add: lookup_upsert upsert_inv)

lemma remove_upsert: "inv t \<Longrightarrow> lookup j (remove k (upsert k v t)) = lookup j (remove k t)"
  by (simp add: lookup_upsert lookup_remove upsert_inv)

end

interpretation secret_table: keyed_table wf_db "\<lambda>(a, k). sql_get_secret a k"
  "\<lambda>(a, k). sql_set_secret a k" "\<lambda>(a, k). sql_delete_secret a k"
  by unfold_locales
     (auto simp: sql_get_secret_def sql_set_secret_def sql_delete_secret_def wf_db_def update_conv'
       delete_conv' split: prod.splits)

lemma list_secret_keys_iff:
  "key \<in> set (sql_list_secret_keys app t) \<longleftrightarrow> sql_get_secret app key t \<noteq> None"
  by (force simp: sql_list_secret_keys_def sql_get_secret_def map_of_eq_None_iff)

lemma list_secret_keys_sorted:
  "wf_db t \<Longrightarrow> sorted (sql_list_secret_keys app t) \<and> distinct (sql_list_secret_keys app t)"
proof -
  assume "wf_db t"
  then have "distinct (filter (\<lambda>k. fst k = app) (map fst (db_secrets t)))"
    by (simp add: wf_db_def wf_map_def)
  then have "distinct (map snd (filter (\<lambda>k. fst k = app) (map fst (db_secrets t))))"
    by (rule distinct_map [THEN iffD2, OF conjI]) (auto simp: inj_on_def)
  then show ?thesis by (simp add: sql_list_secret_keys_def)
qed

section \<open>The node registry\<close>

lemma get_node_Some: "sql_get_node n t = Some r \<Longrightarrow> r \<in> set (db_nodes t) \<and> nd_name r = n"
  by (auto simp: sql_get_node_def find_Some_iff)

lemma find_map_nodes:
  assumes "\<And>n. nd_name (f n) = nd_name n"
  shows "List.find (\<lambda>n. nd_name n = k) (map (\<lambda>n. if nd_name n = j then f n else n) ns) =
     map_option (\<lambda>n. if j = k then f n else n) (List.find (\<lambda>n. nd_name n = k) ns)"
  using assms by (induction ns) auto

lemma get_after_add:
  "sql_get_node k (sql_add_node n t) =
     (if k = nd_name n then
        (case sql_get_node k t of
           None \<Rightarrow> Some (n\<lparr>nd_schedulable := True\<rparr>)
         | Some m \<Rightarrow> Some (m\<lparr>nd_ssh_host := nd_ssh_host n, nd_mesh_addr := nd_mesh_addr n,
                   nd_agent_url := nd_agent_url n, nd_pool := nd_pool n\<rparr>))
      else sql_get_node k t)"
proof (cases "sql_get_node (nd_name n) t")
  case None
  then show ?thesis by (auto simp: sql_add_node_def sql_get_node_def find_append split: option.splits)
next
  case (Some m)
  then show ?thesis
    by (auto simp: sql_add_node_def sql_get_node_def find_map_nodes option.map_comp option.map_ident comp_def
        split: option.splits)
qed

lemma get_after_set_schedulable:
  "sql_get_node k (sql_set_schedulable j b t) =
     map_option (\<lambda>n. if j = k then n\<lparr>nd_schedulable := b\<rparr> else n) (sql_get_node k t)"
  by (simp add: sql_set_schedulable_def sql_get_node_def find_map_nodes)

lemma get_after_delete:
  "sql_get_node k (sql_delete_node j t) = (if j = k then None else sql_get_node k t)"
proof -
  have "List.find (\<lambda>n. nd_name n = k) (filter (\<lambda>n. nd_name n \<noteq> j) ns) =
      (if j = k then None else List.find (\<lambda>n. nd_name n = k) ns)" for ns :: "node_row list"
    by (induction ns) auto
  then show ?thesis by (simp add: sql_delete_node_def sql_get_node_def)
qed

lemma set_list_nodes [simp]: "set (sql_list_nodes t) = set (db_nodes t)"
  by (simp add: sql_list_nodes_def)

lemma list_nodes_distinct: "wf_db t \<Longrightarrow> distinct (map nd_name (sql_list_nodes t))"
proof -
  assume "wf_db t"
  then have "distinct (map nd_name (db_nodes t))" by (simp add: wf_db_def)
  moreover have "mset (map nd_name (sql_list_nodes t)) = mset (map nd_name (db_nodes t))"
    by (simp add: sql_list_nodes_def)
  ultimately show ?thesis by (metis mset_eq_imp_distinct_iff)
qed

end
