(* ===== verification/Caddyfile.thy ===== *)
theory Caddyfile
  imports Prelude
begin

text \<open>
  The proxy configuration (\<open>src/internal/router/caddyfile.go\<close>): routes, the text
  \<open>GenerateCaddyfile\<close> renders for them, and a reader of that text which recovers the routes.
  \<open>sort.Slice\<close> is the stable sort: the domains of a route table are distinct, so no tie occurs.
\<close>

section \<open>Routes and their text\<close>

record upstream =
  u_host :: string
  u_port :: int

record route =
  rt_domain :: string
  rt_upstreams :: "upstream list"
  rt_tls_internal :: bool

definition nl :: string where "nl = [CHR 0x0A]"
definition tab :: string where "tab = [CHR 0x09]"

definition show_upstream :: "upstream \<Rightarrow> string" where
  "show_upstream u = u_host u @ '':'' @ show_int (u_port u)"

definition site_block :: "route \<Rightarrow> string" where
  "site_block r =
     ''http://'' @ rt_domain r @ '', https://'' @ rt_domain r @ '' {'' @ nl @
     (if rt_tls_internal r then tab @ ''tls internal'' @ nl else []) @
     (case rt_upstreams r of
        [u] \<Rightarrow> tab @ ''reverse_proxy '' @ show_upstream u @ nl
      | us \<Rightarrow> tab @ ''reverse_proxy {'' @ nl @
              tab @ tab @ ''to '' @ join_with '' '' (map show_upstream us) @ nl @
              tab @ tab @ ''lb_policy round_robin'' @ nl @
              tab @ tab @ ''fail_duration 30s'' @ nl @
              tab @ ''}'' @ nl) @
     ''}'' @ nl @ nl"

definition domain_less :: "route \<Rightarrow> route \<Rightarrow> bool" where
  "domain_less r q = (rt_domain r < rt_domain q)"

definition GenerateCaddyfile :: "string \<Rightarrow> route list \<Rightarrow> string" where
  "GenerateCaddyfile adminAddr routes =
     ''{'' @ nl @ tab @ ''admin '' @ adminAddr @ nl @ ''}'' @ nl @ nl @
     concat (map site_block (filter (\<lambda>r. rt_upstreams r \<noteq> []) (sort_stable domain_less routes)))"

definition UseInternalTLS :: "string \<Rightarrow> bool" where
  "UseInternalTLS domain =
     (if domain = [] then True
      else if suffix ''.localhost'' domain \<or> domain = ''localhost'' then True
      else CHR ''.'' \<notin> set domain)"

interpretation domain_order: weak_order domain_less
  by unfold_locales (auto simp: domain_less_def)

text \<open>
  The text does not depend on the order in which the routes were ranged over (the iteration
  order of two Go maps), as long as no domain occurs twice.
\<close>

lemma GenerateCaddyfile_deterministic:
  assumes "mset rs = mset qs" and "distinct (map rt_domain rs)"
  shows "GenerateCaddyfile a rs = GenerateCaddyfile a qs"
proof -
  have "sort_stable domain_less rs = sort_stable domain_less qs"
    using assms by (intro domain_order.sort_perm)
      (auto simp: domain_less_def distinct_map inj_on_def dest: neq_iff [THEN iffD1])
  then show ?thesis by (simp add: GenerateCaddyfile_def)
qed

section \<open>Reading the text back\<close>

definition cut_prefix :: "string \<Rightarrow> string \<Rightarrow> string option" where
  "cut_prefix p s = (if prefix p s then Some (drop (length p) s) else None)"

text \<open>
  A reader of the file, line by line, with the sites read so far in reverse: each its domain,
  its targets and whether it uses internal TLS.
\<close>

type_synonym site = "string \<times> string list \<times> bool"

definition read_line :: "site list \<Rightarrow> string \<Rightarrow> site list" where
  "read_line ss l =
     (case cut_prefix ''http://'' l of
        Some rest \<Rightarrow> (takeWhile (\<lambda>c. c \<noteq> CHR '','') rest, [], False) # ss
      | None \<Rightarrow>
     (case ss of [] \<Rightarrow> [] | (d, ts, tls) # ss' \<Rightarrow>
       if l = tab @ ''tls internal'' then (d, ts, True) # ss'
       else if l = tab @ ''reverse_proxy {'' then ss
       else case cut_prefix (tab @ ''reverse_proxy '') l of
         Some t \<Rightarrow> (d, [t], tls) # ss'
       | None \<Rightarrow> (case cut_prefix (tab @ tab @ ''to '') l of
           Some t \<Rightarrow> (d, split_on (CHR '' '') t, tls) # ss'
         | None \<Rightarrow> ss)))"

definition read_caddyfile :: "string \<Rightarrow> site list" where
  "read_caddyfile text = rev (foldl read_line [] (split_on (CHR 0x0A) text))"

definition site_of :: "route \<Rightarrow> site" where
  "site_of r = (rt_domain r, map show_upstream (rt_upstreams r), rt_tls_internal r)"

text \<open>No character of the domain or of a host ends the place it is written to.\<close>

definition clean_route :: "route \<Rightarrow> bool" where
  "clean_route r =
     (CHR '','' \<notin> set (rt_domain r) \<and> CHR 0x0A \<notin> set (rt_domain r) \<and>
      (\<forall>u \<in> set (rt_upstreams r). CHR '' '' \<notin> set (u_host u) \<and> CHR 0x0A \<notin> set (u_host u)))"

lemma show_int_chars: "c \<in> set (show_int i) \<Longrightarrow> is_digit c \<or> c = CHR ''-''"
  by (auto simp: show_int_def dest: show_nat_digits split: if_splits)

lemma not_digit [simp]: "\<not> is_digit (CHR '' '')" "\<not> is_digit (CHR 0x0A)" "\<not> is_digit (CHR '':'')"
  by code_simp+

lemma clean_target:
  assumes "clean_route r" "u \<in> set (rt_upstreams r)"
  shows "CHR '' '' \<notin> set (show_upstream u)" "CHR 0x0A \<notin> set (show_upstream u)"
    "show_upstream u \<noteq> ''{''"
proof -
  have "CHR '' '' \<notin> set (show_int i)" "CHR 0x0A \<notin> set (show_int i)" for i
    using show_int_chars by force+
  then show "CHR '' '' \<notin> set (show_upstream u)" "CHR 0x0A \<notin> set (show_upstream u)"
    using assms by (auto simp: show_upstream_def clean_route_def)
  have "CHR '':'' \<in> set (show_upstream u)" by (simp add: show_upstream_def)
  then show "show_upstream u \<noteq> ''{''" by auto
qed

lemma join_no_newline:
  "\<forall>w \<in> set ws. CHR 0x0A \<notin> set w \<Longrightarrow> CHR 0x0A \<notin> set (join_with '' '' ws)"
  by (induction "'' ''" ws rule: join_with.induct) auto

text \<open>The lines of one site, and what the reader makes of each.\<close>

definition site_lines :: "route \<Rightarrow> string list" where
  "site_lines r =
     (''http://'' @ rt_domain r @ '', https://'' @ rt_domain r @ '' {'') #
     (if rt_tls_internal r then [tab @ ''tls internal''] else []) @
     (case rt_upstreams r of
        [u] \<Rightarrow> [tab @ ''reverse_proxy '' @ show_upstream u]
      | us \<Rightarrow> [tab @ ''reverse_proxy {'', tab @ tab @ ''to '' @ join_with '' '' (map show_upstream us),
               tab @ tab @ ''lb_policy round_robin'', tab @ tab @ ''fail_duration 30s'', tab @ ''}'']) @
     [''}'', []]"

lemma site_block_lines: "site_block r = concat (map (\<lambda>l. l @ nl) (site_lines r))"
  by (simp add: site_block_def site_lines_def split: list.split)

lemma split_lines:
  "\<forall>l \<in> set ls. CHR 0x0A \<notin> set l \<Longrightarrow>
     split_on (CHR 0x0A) (concat (map (\<lambda>l. l @ nl) ls) @ rest) = ls @ split_on (CHR 0x0A) rest"
  by (induction ls) (auto simp: nl_def split_on_append split_on_free)

lemma site_lines_no_newline:
  assumes "clean_route r" "l \<in> set (site_lines r)"
  shows "CHR 0x0A \<notin> set l"
proof -
  have dom: "CHR 0x0A \<notin> set (rt_domain r)" using assms(1) by (simp add: clean_route_def)
  have ups: "\<forall>w \<in> set (map show_upstream (rt_upstreams r)). CHR 0x0A \<notin> set w"
    using assms(1) clean_target(2) by auto
  note join = join_no_newline [OF ups]
  show ?thesis
  proof (cases "rt_upstreams r")
    case Nil
    then show ?thesis using assms(2) dom by (auto simp: site_lines_def tab_def split: if_splits)
  next
    case (Cons u us)
    then show ?thesis using assms(2) dom ups join
      by (cases us) (auto simp: site_lines_def tab_def split: if_splits)
  qed
qed

lemma split_site:
  "clean_route r \<Longrightarrow>
     split_on (CHR 0x0A) (site_block r @ rest) = site_lines r @ split_on (CHR 0x0A) rest"
  unfolding site_block_lines by (rule split_lines) (blast dest: site_lines_no_newline)

section \<open>The reader recovers the routes\<close>

lemma cut_hit [simp]: "cut_prefix p (p @ x) = Some x"
  by (simp add: cut_prefix_def)

lemma read_site_line:
  "CHR '','' \<notin> set d \<Longrightarrow> read_line ss (''http://'' @ d @ '', https://'' @ d @ '' {'') = (d, [], False) # ss"
  by (simp add: read_line_def cut_prefix_def takeWhile_until)

lemma read_other_lines:
  "read_line ((d, ts, b) # ss) (tab @ ''tls internal'') = (d, ts, True) # ss"
  "read_line ((d, ts, b) # ss) (tab @ ''reverse_proxy {'') = (d, ts, b) # ss"
  "t \<noteq> ''{'' \<Longrightarrow> read_line ((d, ts, b) # ss) (tab @ ''reverse_proxy '' @ t) = (d, [t], b) # ss"
  "read_line ((d, ts, b) # ss) (tab @ tab @ ''to '' @ t) = (d, split_on (CHR '' '') t, b) # ss"
  "read_line ((d, ts, b) # ss) (tab @ tab @ ''lb_policy round_robin'') = (d, ts, b) # ss"
  "read_line ((d, ts, b) # ss) (tab @ tab @ ''fail_duration 30s'') = (d, ts, b) # ss"
  "read_line ((d, ts, b) # ss) (tab @ ''}'') = (d, ts, b) # ss"
  "read_line ((d, ts, b) # ss) ''}'' = (d, ts, b) # ss"
  "read_line ss [] = ss"
  by (auto simp: read_line_def cut_prefix_def tab_def split: list.splits)

lemma read_site:
  assumes "clean_route r" "rt_upstreams r \<noteq> []"
  shows "foldl read_line ss (site_lines r) = site_of r # ss"
proof -
  have dom: "CHR '','' \<notin> set (rt_domain r)" using assms(1) by (simp add: clean_route_def)
  obtain u us where ups: "rt_upstreams r = u # us" using assms(2) by (cases "rt_upstreams r") auto
  have u: "show_upstream u \<noteq> ''{''" using clean_target(3) assms(1) ups by auto
  have spl: "split_on (CHR '' '') (join_with '' '' (map show_upstream (u # us))) = map show_upstream (u # us)"
    by (rule split_join_free) (use clean_target(1) [OF assms(1)] ups in \<open>auto simp: list_all_iff\<close>)
  show ?thesis
  proof (cases us)
    case Nil
    then show ?thesis
      unfolding site_lines_def site_of_def ups
      by (simp only: list.case foldl_append foldl.simps list.map read_site_line [OF dom]
          read_other_lines(1) read_other_lines(3) [OF u] read_other_lines(8,9) split: if_split) simp
  next
    case (Cons v vs)
    show ?thesis
      using spl unfolding site_lines_def site_of_def ups Cons
      by (simp only: list.case foldl_append foldl.simps read_site_line [OF dom]
          read_other_lines split: if_split) simp
  qed
qed

lemma read_sites_concat:
  assumes "\<forall>r \<in> set rs. clean_route r \<and> rt_upstreams r \<noteq> []"
  shows "foldl read_line ss (split_on (CHR 0x0A) (concat (map site_block rs))) = rev (map site_of rs) @ ss"
  using assms
proof (induction rs arbitrary: ss)
  case Nil
  then show ?case by (simp add: read_other_lines)
next
  case (Cons r rs)
  then show ?case by (simp add: split_site read_site)
qed


end
