(* ===== verification/World.thy ===== *)
theory World
  imports Scheduler StoreDb Caddyfile
begin

text \<open>
  The daemon's state and its environment. The state \<open>'x sys\<close> holds what the program itself keeps:
  the database, the router's route tables (\<open>CaddyRouter\<close>), the resolver's cache of remote
  nodes, and the bookkeeping of the \<open>Reconciler\<close>. The environment \<open>'x env\<close> is what it talks to:
  the operations of a node (the interface \<open>node.Node\<close>), Caddy's admin API, \<open>docker compose\<close>, git,
  the image builder, files, the clock and the statements of SQLite, each an operation on a hidden
  state \<open>'x\<close> with a result and the time it took.
\<close>

section \<open>The environment\<close>

type_synonym ('x, 'r) op = "'x \<Rightarrow> 'r \<times> nat \<times> 'x"

record 'x node_ops =
  n_ping :: "('x, goerr option) op"
  n_ensure_image :: "string \<Rightarrow> ('x, goerr option) op"
  n_ensure_network :: "string \<Rightarrow> ('x, goerr option) op"
  n_run :: "run_spec \<Rightarrow> ('x, container res) op"
  n_remove :: "string \<Rightarrow> ('x, goerr option) op"
  n_list :: "env_map \<Rightarrow> ('x, container list res) op"
  n_container_health :: "string \<Rightarrow> ('x, (string \<times> string) res) op"
  n_connect :: "string \<Rightarrow> string \<Rightarrow> ('x, goerr option) op"
  n_present :: "string \<Rightarrow> ('x, bool res) op"
  n_save :: "string \<Rightarrow> ('x, string res) op"
  n_load :: "string \<Rightarrow> ('x, goerr option) op"
  n_capacity :: "('x, capacity res) op"

record 'x env =
  node_at :: "node_ref \<Rightarrow> 'x node_ops"
  new_ssh :: "string \<Rightarrow> ('x, goerr option) op"
  caddy_load :: "string \<Rightarrow> ('x, int res) op"
  caddy_config :: "('x, int res) op"
  caddy_probe :: "string \<Rightarrow> string \<Rightarrow> ('x, int res) op"
  has_data_dir :: bool
  make_data_dir :: "('x, goerr option) op"
  write_caddyfile :: "string \<Rightarrow> ('x, goerr option) op"
  db_fault :: "string \<Rightarrow> ('x, goerr option) op"
  ctx_done :: "('x, goerr option) op"
  has_reach :: bool
  has_nudge :: bool
  temp_create :: "('x, string res) op"
  temp_write :: "string \<Rightarrow> string \<Rightarrow> ('x, goerr option) op"
  temp_close :: "string \<Rightarrow> ('x, goerr option) op"
  file_remove :: "string \<Rightarrow> ('x, goerr option) op"
  read_file :: "string \<Rightarrow> ('x, string res) op"
  mkdir_temp :: "('x, string res) op"
  remove_all :: "string \<Rightarrow> ('x, goerr option) op"
  compose_up :: "string \<Rightarrow> string \<Rightarrow> env_map \<Rightarrow> ('x, goerr option) op"
  compose_down :: "string \<Rightarrow> string \<Rightarrow> env_map \<Rightarrow> ('x, goerr option) op"
  compose_service :: "string \<Rightarrow> string \<Rightarrow> ('x, (string \<times> string) res) op"
  git_clone :: "string \<Rightarrow> string \<Rightarrow> string \<Rightarrow> ('x, string res) op"
  image_exists :: "string \<Rightarrow> ('x, bool res) op"
  image_build :: "string \<Rightarrow> string \<Rightarrow> string \<Rightarrow> ('x, goerr option) op"
  key_read :: "('x, string option res) op"
  key_mkdir :: "('x, goerr option) op"
  key_write :: "string \<Rightarrow> ('x, goerr option) op"
  rand_bytes :: "nat \<Rightarrow> ('x, string res) op"
  gcm_seal :: "string \<Rightarrow> string \<Rightarrow> string \<Rightarrow> string"
  gcm_open :: "string \<Rightarrow> string \<Rightarrow> string \<Rightarrow> string res"
  cipher_key :: string
  container_logs :: "string \<Rightarrow> bool \<Rightarrow> ('x, string res) op"
  heal_max :: int
  failover_grace :: int

section \<open>The state\<close>

text \<open>
  A ghost log of the calls that start or remove a container, change the live routing, or run a
  tool, in the order they were made: what the order properties are stated on.
\<close>

datatype event =
    EvRun node_ref run_spec "container res"
  | EvRemove node_ref string
  | EvConfig string
  | EvComposeUp string string env_map
  | EvComposeDown string
  | EvClone string string
  | EvBuild string

record remote_entry =
  re_node :: node_ref
  re_mesh :: string
  re_docker_host :: string
  re_transport :: string

record heal_state =
  hl_attempts :: int
  hl_next :: int

datatype surface_state = SurfaceHealthy | SurfaceDegraded | SurfaceHealing | SurfaceFailed

record app_health =
  ah_app :: string
  ah_state :: surface_state
  ah_error :: "goerr option"
  ah_attempts :: int
  ah_updated :: int

record node_health =
  nh_name :: string
  nh_transport :: string
  nh_reachable :: bool
  nh_updated :: int
  nh_capacity :: capacity
  nh_cordoned :: bool

record edge_health =
  eh_reachable :: bool
  eh_updated :: int

record health =
  he_nodes :: "node_health list"
  he_edge :: edge_health
  he_apps :: "app_health list"

record 'x sys =
  ext :: 'x
  clock :: int
  trace :: "event list"
  sdb :: db
  routes :: "(string \<times> route) list"
  staging :: "(string \<times> route) list"
  acked :: "string option"
  on_disk :: "string option"
  remotes :: "(string \<times> remote_entry) list"
  heals :: "(string \<times> heal_state) list"
  unreachable_since :: "(string \<times> int) list"
  health_view :: health
  nudged :: bool

section \<open>Calls\<close>

text \<open>One call of an environment operation; time never runs backwards.\<close>

definition call :: "('x, 'r) op \<Rightarrow> ('x sys, 'r) state" where
  "call f = State (\<lambda>s. case f (ext s) of
     (r, dt, x) \<Rightarrow> (r, s\<lparr>ext := x, clock := clock s + int dt\<rparr>))"

definition log_event :: "event \<Rightarrow> ('x sys, unit) state" where
  "log_event e = modify (\<lambda>s. s\<lparr>trace := trace s @ [e]\<rparr>)"

text \<open>An operation that only fails or succeeds, as a result.\<close>

definition unit_res :: "goerr option \<Rightarrow> unit res" where
  "unit_res e = (case e of None \<Rightarrow> Inr () | Some x \<Rightarrow> Inl x)"

definition call_unit :: "('x, goerr option) op \<Rightarrow> ('x sys, unit res) state" where
  "call_unit f = call f \<bind> (\<lambda>e. ret (unit_res e))"

text \<open>
  \<open>select \<open>{\<close> case <-time.After(d): ... case <-ctx.Done(): return ctx.Err() \<open>}\<close>\<close>: \<open>None\<close> after
  at least \<open>d\<close>, or the context's error.
\<close>

definition sleep :: "'x env \<Rightarrow> nat \<Rightarrow> ('x sys, goerr option) state" where
  "sleep env d = State (\<lambda>s. case ctx_done env (ext s) of
     (Some e, dt, x) \<Rightarrow> (Some e, s\<lparr>ext := x, clock := clock s + int dt\<rparr>)
   | (None, dt, x) \<Rightarrow> (None, s\<lparr>ext := x, clock := clock s + int d + int dt\<rparr>))"

definition now :: "('x sys, int) state" where
  "now = gets clock"

text \<open>A SQLite statement: it fails with an error of the driver, or takes effect.\<close>

definition db_exec :: "'x env \<Rightarrow> string \<Rightarrow> (db \<Rightarrow> 'r \<times> db) \<Rightarrow> ('x sys, 'r res) state" where
  "db_exec env stmt f = do {
     e \<leftarrow> call (db_fault env stmt);
     case e of
       Some x \<Rightarrow> ret (Inl x)
     | None \<Rightarrow> State (\<lambda>s. case f (sdb s) of (r, t) \<Rightarrow> (Inr r, s\<lparr>sdb := t\<rparr>))
   }"

text \<open>Return the error, wrapped with the format of the call site.\<close>

definition wrap_err :: "string \<Rightarrow> string list \<Rightarrow> goerr \<Rightarrow> ('x sys, 'a res) state" where
  "wrap_err fmt as e = ret (Inl (Wrapf fmt as e))"

abbreviation fail_with :: "goerr \<Rightarrow> ('x sys, 'a res) state" where
  "fail_with e \<equiv> ret (Inl e)"

section \<open>Frames of the environment\<close>

text \<open>
  \<open>calm\<close>: only the outside, the clock and the log moved. \<open>aside\<close>: the resolver may besides have
  filled its cache. Time never runs backwards and the log only grows.
\<close>

definition kept :: "'x sys \<Rightarrow> db \<times> (string \<times> route) list \<times> (string \<times> route) list \<times> string option
    \<times> string option \<times> (string \<times> heal_state) list \<times> (string \<times> int) list \<times> health \<times> bool" where
  "kept s = (sdb s, routes s, staging s, acked s, on_disk s, heals s, unreachable_since s,
     health_view s, nudged s)"

definition later :: "'x sys \<Rightarrow> 'x sys \<Rightarrow> bool" where
  "later s s' = (clock s \<le> clock s' \<and> prefix (trace s) (trace s'))"

definition aside :: "'x sys \<Rightarrow> 'x sys \<Rightarrow> bool" where
  "aside s s' = (later s s' \<and> kept s' = kept s)"

definition calm :: "'x sys \<Rightarrow> 'x sys \<Rightarrow> bool" where
  "calm s s' = (aside s s' \<and> remotes s' = remotes s)"

interpretation later: frame later
  by unfold_locales (auto simp: later_def intro: prefix_order.trans)

interpretation aside: frame aside
  by unfold_locales (auto simp: aside_def intro: later.refl later.trans)

interpretation calm: frame calm
  by unfold_locales (auto simp: calm_def intro: aside.refl aside.trans)

lemma calm_aside: "calm s s' \<Longrightarrow> aside s s'" by (simp add: calm_def)
lemma aside_later: "aside s s' \<Longrightarrow> later s s'" by (simp add: aside_def)

lemma aside_fields:
  assumes "aside s s'"
  shows "sdb s' = sdb s" "routes s' = routes s" "staging s' = staging s" "acked s' = acked s"
    "on_disk s' = on_disk s" "heals s' = heals s" "unreachable_since s' = unreachable_since s"
    "health_view s' = health_view s" "nudged s' = nudged s" "clock s \<le> clock s'"
    "prefix (trace s) (trace s')"
  using assms by (simp_all add: aside_def later_def kept_def)

lemma pres_call [pres_rules]: "pres calm (call f)"
  by (rule presI) (auto simp: call_def calm_def aside_def later_def kept_def split: prod.splits)

lemma pres_call_unit [pres_rules]: "pres calm (call_unit f)"
  unfolding call_unit_def by (intro pres_rules)

lemma pres_log [pres_rules]: "pres calm (log_event e)"
  by (rule presI) (auto simp: log_event_def calm_def aside_def later_def kept_def)

lemma pres_sleep [pres_rules]: "pres calm (sleep env d)"
  by (rule presI)
     (auto simp: sleep_def calm_def aside_def later_def kept_def split: prod.splits option.splits)

lemma pres_now [pres_rules]: "pres calm now"
  unfolding now_def by (rule pres_rules)

lemma pres_wrap [pres_rules]: "pres calm (wrap_err fmt as e)"
  unfolding wrap_err_def by (rule pres_rules)

lemma pres_calm_aside: "pres calm m \<Longrightarrow> pres aside m"
  by (erule pres_mono) (rule calm_aside)

lemma pres_aside_later: "pres aside m \<Longrightarrow> pres later m"
  by (erule pres_mono) (rule aside_later)

lemma sleep_takes:
  "run_state (sleep env d) s = (None, s') \<Longrightarrow> clock s + int d \<le> clock s'"
  by (auto simp: sleep_def split: prod.splits option.splits)

lemmas aside_leaves [pres_rules] =
  pres_call [THEN pres_calm_aside] pres_call_unit [THEN pres_calm_aside]
  pres_log [THEN pres_calm_aside] pres_sleep [THEN pres_calm_aside]
  pres_now [THEN pres_calm_aside] pres_wrap [THEN pres_calm_aside]

lemmas later_leaves [pres_rules] = aside_leaves [THEN pres_aside_later]

end
