(* ===== verification/Store.thy ===== *)
theory Store
  imports World
begin

text \<open>
  The operations of package \<open>store\<close> (\<open>src/internal/store/store.go\<close>) as the daemon calls them:
  the statement of \<open>StoreDb\<close>, which may fail, with the error each method wraps around it.
\<close>

section \<open>Deployments\<close>

definition RecordDeployment :: "'x env \<Rightarrow> deployment \<Rightarrow> ('x sys, int res) state" where
  "RecordDeployment env d =
     attempt (db_exec env ''insert deployment'' (sql_insert_deployment (row_of d)))
       (wrap_err ''insert deployment: %w'' []) (\<lambda>i. ret (Inr i))"

definition scan_option :: "dep_row option \<Rightarrow> deployment option res" where
  "scan_option w = (case w of
     None \<Rightarrow> Inr None
   | Some w \<Rightarrow> (case scan_row w of Inl e \<Rightarrow> Inl e | Inr d \<Rightarrow> Inr (Some d)))"

definition CurrentDeployment :: "'x env \<Rightarrow> string \<Rightarrow> ('x sys, deployment option res) state" where
  "CurrentDeployment env app =
     attempt (db_exec env ''query current'' (\<lambda>t. (sql_last_with_status app StatusRunning t, t)))
       (wrap_err ''query current: %w'' []) (\<lambda>w. ret (scan_option w))"

definition PreviousDeployment :: "'x env \<Rightarrow> string \<Rightarrow> ('x sys, deployment option res) state" where
  "PreviousDeployment env app =
     attempt (db_exec env ''query previous'' (\<lambda>t. (sql_last_with_status app StatusRetired t, t)))
       (wrap_err ''query previous: %w'' []) (\<lambda>w. ret (scan_option w))"

fun scan_all :: "dep_row list \<Rightarrow> deployment list res" where
  "scan_all [] = Inr []"
| "scan_all (w # ws) = (case scan_row w of
     Inl e \<Rightarrow> Inl e
   | Inr d \<Rightarrow> (case scan_all ws of Inl e \<Rightarrow> Inl e | Inr ds \<Rightarrow> Inr (d # ds)))"

definition DeploymentsForApp :: "'x env \<Rightarrow> string \<Rightarrow> ('x sys, deployment list res) state" where
  "DeploymentsForApp env app =
     attempt (db_exec env ''query deployments'' (\<lambda>t. (sql_deployments_for app t, t)))
       (wrap_err ''query deployments: %w'' []) (\<lambda>ws. ret (scan_all ws))"

definition NextDeployID :: "'x env \<Rightarrow> ('x sys, int res) state" where
  "NextDeployID env =
     attempt (db_exec env ''next deploy id'' (\<lambda>t. (sql_next_id t, t)))
       (wrap_err ''next deploy id: %w'' []) (\<lambda>i. ret (Inr i))"

definition SetStatus :: "'x env \<Rightarrow> int \<Rightarrow> string \<Rightarrow> ('x sys, unit res) state" where
  "SetStatus env i status =
     attempt (db_exec env ''set status'' (\<lambda>t. ((), sql_set_status i status t)))
       (wrap_err ''set status: %w'' []) (\<lambda>_. ret (Inr ()))"

definition UpdateReplicas :: "'x env \<Rightarrow> int \<Rightarrow> replica list \<Rightarrow> string \<Rightarrow> ('x sys, unit res) state" where
  "UpdateReplicas env i rs cid =
     attempt (db_exec env ''update replicas'' (\<lambda>t. ((), sql_update_replicas i (replicasJSON rs) cid t)))
       (wrap_err ''update replicas: %w'' []) (\<lambda>_. ret (Inr ()))"

definition ListApps :: "'x env \<Rightarrow> ('x sys, string list res) state" where
  "ListApps env =
     attempt (db_exec env ''list apps'' (\<lambda>t. (sql_list_apps t, t)))
       (wrap_err ''list apps: %w'' []) (\<lambda>as. ret (Inr as))"

section \<open>Secrets\<close>

definition SetSecret :: "'x env \<Rightarrow> string \<Rightarrow> string \<Rightarrow> string \<Rightarrow> ('x sys, unit res) state" where
  "SetSecret env app key enc =
     attempt (db_exec env ''set secret'' (\<lambda>t. ((), sql_set_secret app key enc t)))
       (wrap_err ''set secret: %w'' []) (\<lambda>_. ret (Inr ()))"

definition GetSecret :: "'x env \<Rightarrow> string \<Rightarrow> string \<Rightarrow> ('x sys, string option res) state" where
  "GetSecret env app key =
     attempt (db_exec env ''get secret'' (\<lambda>t. (sql_get_secret app key t, t)))
       (wrap_err ''get secret: %w'' []) (\<lambda>v. ret (Inr v))"

definition ListSecretKeys :: "'x env \<Rightarrow> string \<Rightarrow> ('x sys, string list res) state" where
  "ListSecretKeys env app =
     attempt (db_exec env ''list secret keys'' (\<lambda>t. (sql_list_secret_keys app t, t)))
       (wrap_err ''list secret keys: %w'' []) (\<lambda>ks. ret (Inr ks))"

definition DeleteSecret :: "'x env \<Rightarrow> string \<Rightarrow> string \<Rightarrow> ('x sys, unit res) state" where
  "DeleteSecret env app key =
     attempt (db_exec env ''delete secret'' (\<lambda>t. ((), sql_delete_secret app key t)))
       (wrap_err ''delete secret: %w'' []) (\<lambda>_. ret (Inr ()))"

section \<open>Nodes\<close>

definition AddNode :: "'x env \<Rightarrow> node_row \<Rightarrow> ('x sys, unit res) state" where
  "AddNode env n =
     (let m = n\<lparr>nd_pool := if nd_pool n = [] then DefaultPool else nd_pool n, nd_created := whole_seconds (nd_created n)\<rparr> in
      attempt (db_exec env ''add node'' (\<lambda>t. ((), sql_add_node m t)))
        (wrap_err ''add node: %w'' []) (\<lambda>_. ret (Inr ())))"

definition GetNode :: "'x env \<Rightarrow> string \<Rightarrow> ('x sys, node_row option res) state" where
  "GetNode env name =
     attempt (db_exec env ''get node'' (\<lambda>t. (sql_get_node name t, t)))
       (wrap_err ''get node: %w'' []) (\<lambda>n. ret (Inr n))"

definition ListNodes :: "'x env \<Rightarrow> ('x sys, node_row list res) state" where
  "ListNodes env =
     attempt (db_exec env ''list nodes'' (\<lambda>t. (sql_list_nodes t, t)))
       (wrap_err ''list nodes: %w'' []) (\<lambda>ns. ret (Inr ns))"

definition SetSchedulable :: "'x env \<Rightarrow> string \<Rightarrow> bool \<Rightarrow> ('x sys, unit res) state" where
  "SetSchedulable env name b =
     attempt (db_exec env ''set schedulable'' (\<lambda>t. ((), sql_set_schedulable name b t)))
       (wrap_err ''set schedulable: %w'' []) (\<lambda>_. ret (Inr ()))"

definition DeleteNode :: "'x env \<Rightarrow> string \<Rightarrow> ('x sys, unit res) state" where
  "DeleteNode env name =
     attempt (db_exec env ''delete node'' (\<lambda>t. ((), sql_delete_node name t)))
       (wrap_err ''delete node: %w'' []) (\<lambda>_. ret (Inr ()))"

section \<open>Frames\<close>

lemma pres_db_read: "(\<And>t. snd (f t) = t) \<Longrightarrow> pres calm (db_exec env stmt f)"
  by (rule presI)
     (auto simp: db_exec_def call_def calm_def aside_def later_def kept_def
       split: prod.splits option.splits, metis snd_conv)

lemma pres_store_reads [pres_rules]:
  "pres calm (CurrentDeployment env a)" "pres calm (PreviousDeployment env a)"
  "pres calm (DeploymentsForApp env a)" "pres calm (NextDeployID env)" "pres calm (ListApps env)"
  "pres calm (GetSecret env a k)" "pres calm (ListSecretKeys env a)"
  "pres calm (GetNode env n)" "pres calm (ListNodes env)"
  unfolding CurrentDeployment_def PreviousDeployment_def DeploymentsForApp_def NextDeployID_def
    ListApps_def GetSecret_def ListSecretKeys_def GetNode_def ListNodes_def
  by (intro pres_rules pres_db_read; simp)+

text \<open>
  A write changes the tables by its statement when it succeeds, and nothing else ever; when it
  fails it changes nothing.
\<close>

definition writes :: "(db \<Rightarrow> 'r \<times> db) \<Rightarrow> ('x sys, 'r res) state \<Rightarrow> bool" where
  "writes f m = (\<forall>s r s'. run_state m s = (r, s') \<longrightarrow>
     calm s (s'\<lparr>sdb := sdb s\<rparr>) \<and>
     (case r of Inl _ \<Rightarrow> sdb s' = sdb s | Inr v \<Rightarrow> (v, sdb s') = f (sdb s)))"

lemma writesD:
  "writes f m \<Longrightarrow> run_state m s = (r, s') \<Longrightarrow> calm s (s'\<lparr>sdb := sdb s\<rparr>) \<and>
     (case r of Inl _ \<Rightarrow> sdb s' = sdb s | Inr v \<Rightarrow> (v, sdb s') = f (sdb s))"
  by (simp add: writes_def)

lemma writes_exec: "writes f (attempt (db_exec env stmt f) (wrap_err fmt as) (\<lambda>v. ret (Inr v)))"
  by (auto simp: writes_def db_exec_def call_def calm_def aside_def later_def kept_def wrap_err_def
      split: prod.splits option.splits sum.splits)

lemma writes_unit:
  "writes (\<lambda>t. ((), g t)) (attempt (db_exec env stmt (\<lambda>t. ((), g t))) (wrap_err fmt as) (\<lambda>_. ret (Inr ())))"
  using writes_exec [of "\<lambda>t. ((), g t)" env stmt fmt as] by simp

lemma writes_store:
  "writes (sql_insert_deployment (row_of d)) (RecordDeployment env d)"
  "writes (\<lambda>t. ((), sql_set_status i st t)) (SetStatus env i st)"
  "writes (\<lambda>t. ((), sql_update_replicas i (replicasJSON rs) c t)) (UpdateReplicas env i rs c)"
  "writes (\<lambda>t. ((), sql_set_secret a k v t)) (SetSecret env a k v)"
  "writes (\<lambda>t. ((), sql_delete_secret a k t)) (DeleteSecret env a k)"
  "writes (\<lambda>t. ((), sql_set_schedulable n b t)) (SetSchedulable env n b)"
  "writes (\<lambda>t. ((), sql_delete_node n t)) (DeleteNode env n)"
  "writes (\<lambda>t. ((), sql_add_node (nr\<lparr>nd_pool := if nd_pool nr = [] then DefaultPool else nd_pool nr,
     nd_created := whole_seconds (nd_created nr)\<rparr>) t)) (AddNode env nr)"
  by (simp_all add: writes_unit RecordDeployment_def SetStatus_def UpdateReplicas_def SetSecret_def DeleteSecret_def
      SetSchedulable_def DeleteNode_def AddNode_def Let_def writes_exec)

text \<open>A read returns what the tables say, or fails.\<close>

lemma db_read_result:
  "run_state (db_exec env stmt (\<lambda>t. (q t, t))) s = (Inr v, s') \<Longrightarrow> v = q (sdb s)"
  by (auto simp: db_exec_def call_def split: prod.splits option.splits)

lemma CurrentDeployment_result:
  "run_state (CurrentDeployment env a) s = (Inr d, s') \<Longrightarrow>
     scan_option (sql_last_with_status a StatusRunning (sdb s)) = Inr d"
  by (auto simp: CurrentDeployment_def wrap_err_def split: prod.splits sum.splits dest!: db_read_result)

lemma NextDeployID_result:
  "run_state (NextDeployID env) s = (Inr i, s') \<Longrightarrow> i = sql_next_id (sdb s)"
  by (auto simp: NextDeployID_def wrap_err_def split: prod.splits sum.splits dest!: db_read_result)

lemma GetNode_result:
  "run_state (GetNode env n) s = (Inr r, s') \<Longrightarrow> r = sql_get_node n (sdb s)"
  by (auto simp: GetNode_def wrap_err_def split: prod.splits sum.splits dest!: db_read_result)

lemma GetSecret_result:
  "run_state (GetSecret env a k) s = (Inr v, s') \<Longrightarrow> v = sql_get_secret a k (sdb s)"
  by (auto simp: GetSecret_def wrap_err_def split: prod.splits sum.splits dest!: db_read_result)

section \<open>What the store promises the reconciler\<close>

lemma row_of_stamp: "(row_of d)\<lparr>w_id := i\<rparr> = row_of (d\<lparr>d_id := i\<rparr>)"
  by (simp add: row_of_def)

lemma row_of_sel [simp]: "w_app (row_of d) = d_app d" "w_status (row_of d) = d_status d"
  by (simp_all add: row_of_def)

text \<open>
  Recording a running deployment makes it the app's current one under the id that
  \<open>NextDeployID\<close> announced, and changes the current deployment of no other app.
\<close>

lemma record_becomes_current:
  assumes "wf_db (sdb s)" "d_status d = StatusRunning"
    and "run_state (RecordDeployment env d) s = (Inr i, s')"
  shows "i = sql_next_id (sdb s) \<and> wf_db (sdb s') \<and>
     scan_option (sql_last_with_status (d_app d) StatusRunning (sdb s')) = Inr (Some (stored (d\<lparr>d_id := i\<rparr>))) \<and>
     (\<forall>b \<in> - {d_app d}. sql_last_with_status b StatusRunning (sdb s') = sql_last_with_status b StatusRunning (sdb s))"
proof -
  have eff: "(i, sdb s') = sql_insert_deployment (row_of d) (sdb s)"
    using writesD [OF writes_store(1) assms(3)] by simp
  then have i: "i = sql_next_id (sdb s)" using dlog.insert_id [OF assms(1), of "row_of d"] by (metis fst_conv)
  have t: "sdb s' = snd (sql_insert_deployment (row_of d) (sdb s))" using eff by (metis snd_conv)
  have "sql_last_with_status (d_app d) StatusRunning (sdb s') = Some (row_of (d\<lparr>d_id := i\<rparr>))"
    unfolding t using dlog.insert_newest [OF assms(1)] assms(2) by (simp add: row_of_stamp i)
  moreover have "sql_last_with_status b StatusRunning (sdb s') = sql_last_with_status b StatusRunning (sdb s)"
    if "b \<in> - {d_app d}" for b
    unfolding t using dlog.newest_other_app [OF assms(1)] that by simp
  ultimately show ?thesis using i dlog.insert_inv [OF assms(1)] t by (simp add: scan_option_def)
qed

text \<open>
  Adding a node never changes a cordon: a new node is schedulable, one that was registered
  keeps its flag and its registration time while its address, agent and pool are updated, and
  its pool is never empty.
\<close>

lemma AddNode_keeps_cordon:
  assumes "run_state (AddNode env n) s = (Inr (), s')"
  shows "case sql_get_node (nd_name n) (sdb s') of
      None \<Rightarrow> False
    | Some m \<Rightarrow> nd_pool m = (if nd_pool n = [] then DefaultPool else nd_pool n) \<and>
        nd_ssh_host m = nd_ssh_host n \<and> nd_mesh_addr m = nd_mesh_addr n \<and> nd_agent_url m = nd_agent_url n \<and>
        (case sql_get_node (nd_name n) (sdb s) of
           None \<Rightarrow> nd_schedulable m \<and> nd_created m = whole_seconds (nd_created n)
         | Some old \<Rightarrow> nd_schedulable m = nd_schedulable old \<and> nd_created m = nd_created old)"
  using writesD [OF writes_store(8) assms]
  by (auto simp: get_after_add split: option.splits)

end
