(* ===== verification/Resolver.thy ===== *)
theory Resolver
  imports Store
begin

text \<open>
  \<open>RegistryResolver\<close> of \<open>src/internal/node/resolver.go\<close>: which node a name stands for. Its
  \<open>lookup\<close> closure is the one the daemon supplies (\<open>runDaemon\<close> in \<open>src/internal/cli/cli.go\<close>),
  a query of the node registry. The cache \<open>remotes\<close> is part of the state.
\<close>

section \<open>Resolution\<close>

definition is_local_name :: "string \<Rightarrow> bool" where
  "is_local_name name = (name = [] \<or> name = ''local'')"

record resolved =
  rm_node :: node_ref
  rm_mesh :: string
  rm_docker_host :: string
  rm_local :: bool

text \<open>The closure: ssh host, mesh address and agent URL of a registered node.\<close>

definition lookup_node :: "'x env \<Rightarrow> string \<Rightarrow> ('x sys, (string \<times> string \<times> string) option res) state" where
  "lookup_node env name =
     attempt (GetNode env name) (\<lambda>e. ret (Inl e)) (\<lambda>rec. ret (Inr (case rec of
       None \<Rightarrow> None
     | Some n \<Rightarrow> Some (nd_ssh_host n, nd_mesh_addr n, nd_agent_url n))))"

definition pingOK :: "'x env \<Rightarrow> node_ref \<Rightarrow> ('x sys, bool) state" where
  "pingOK env n = call (n_ping (node_at env n)) \<bind> (\<lambda>e. ret (e = None))"

definition build_ssh :: "'x env \<Rightarrow> string \<Rightarrow> ('x sys, node_ref res \<times> string) state" where
  "build_ssh env sshHost = call (new_ssh env sshHost) \<bind> (\<lambda>e. ret (case e of
     Some x \<Rightarrow> (Inl x, ''ssh'') | None \<Rightarrow> (Inr (SSHNode sshHost), ''ssh'')))"

definition buildTransport :: "'x env \<Rightarrow> string \<Rightarrow> string \<Rightarrow> ('x sys, node_ref res \<times> string) state" where
  "buildTransport env sshHost agentURL =
     (if agentURL \<noteq> [] then
        pingOK env (AgentNode agentURL) \<bind>
          (\<lambda>ok. if ok then ret (Inr (AgentNode agentURL), ''agent'') else build_ssh env sshHost)
      else build_ssh env sshHost)"

definition ResolveMeta :: "'x env \<Rightarrow> string \<Rightarrow> ('x sys, resolved res) state" where
  "ResolveMeta env name =
     (if is_local_name name
      then ret (Inr \<lparr>rm_node = LocalNode, rm_mesh = [], rm_docker_host = [], rm_local = True\<rparr>)
      else gets remotes \<bind> (\<lambda>m. case map_of m name of
        Some e \<Rightarrow> ret (Inr \<lparr>rm_node = re_node e, rm_mesh = re_mesh e,
                     rm_docker_host = re_docker_host e, rm_local = False\<rparr>)
      | None \<Rightarrow>
          attempt (lookup_node env name) (wrap_err ''look up node %q: %w'' [name]) (\<lambda>row. case row of
            None \<Rightarrow> fail_with (Errf ''unknown node %q'' [name])
          | Some (sshHost, meshAddr, agentURL) \<Rightarrow>
              buildTransport env sshHost agentURL \<bind> (\<lambda>(r, transport). case r of
                Inl e \<Rightarrow> wrap_err ''connect to node %q (ssh://%s): %w'' [name, sshHost] e
              | Inr n \<Rightarrow> do {
                  let e = \<lparr>re_node = n, re_mesh = meshAddr, re_docker_host = ''ssh://'' @ sshHost,
                           re_transport = transport\<rparr>;
                  modify (\<lambda>s. s\<lparr>remotes := AList.update name e (remotes s)\<rparr>);
                  ret (Inr \<lparr>rm_node = n, rm_mesh = meshAddr, rm_docker_host = ''ssh://'' @ sshHost,
                            rm_local = False\<rparr>)
                }))))"

definition Resolve :: "'x env \<Rightarrow> string \<Rightarrow> ('x sys, node_ref res) state" where
  "Resolve env name = attempt (ResolveMeta env name) (\<lambda>e. ret (Inl e)) (\<lambda>m. ret (Inr (rm_node m)))"

definition Invalidate :: "string \<Rightarrow> ('x sys, unit) state" where
  "Invalidate name = modify (\<lambda>s. s\<lparr>remotes := AList.delete name (remotes s)\<rparr>)"

definition Reachable :: "'x env \<Rightarrow> string \<Rightarrow> ('x sys, string \<times> bool) state" where
  "Reachable env name =
     (if is_local_name name then ret (''local'', True)
      else gets remotes \<bind> (\<lambda>m. case map_of m name of
        Some e \<Rightarrow> pingOK env (re_node e) \<bind> (\<lambda>ok. ret (re_transport e, ok))
      | None \<Rightarrow> lookup_node env name \<bind> (\<lambda>r. case r of
          Inr (Some (sshHost, meshAddr, agentURL)) \<Rightarrow>
            buildTransport env sshHost agentURL \<bind> (\<lambda>(n, transport). case n of
              Inl _ \<Rightarrow> ret (transport, False)
            | Inr n \<Rightarrow> pingOK env n \<bind> (\<lambda>ok. ret (transport, ok)))
        | _ \<Rightarrow> ret ([], False))))"

text \<open>\<open>r.reach\<close> may be unset; \<open>None\<close> is then the answer.\<close>

definition known_unreachable :: "'x env \<Rightarrow> string \<Rightarrow> ('x sys, bool) state" where
  "known_unreachable env name =
     (if has_reach env then Reachable env name \<bind> (\<lambda>(_, ok). ret (\<not> ok)) else ret False)"

definition localNode :: "'x env \<Rightarrow> ('x sys, node_ref res) state" where
  "localNode env = Resolve env ''local''"

section \<open>Frames\<close>

lemma pres_lookup_node [pres_rules]: "pres calm (lookup_node env name)"
  unfolding lookup_node_def by (intro pres_rules)

lemma pres_pingOK [pres_rules]: "pres calm (pingOK env n)"
  unfolding pingOK_def by (intro pres_rules)

lemma pres_build_ssh [pres_rules]: "pres calm (build_ssh env h)"
  unfolding build_ssh_def by (intro pres_rules)

lemma pres_buildTransport [pres_rules]: "pres calm (buildTransport env h u)"
  unfolding buildTransport_def by (intro pres_rules)

lemma pres_Reachable [pres_rules]: "pres calm (Reachable env name)"
  unfolding Reachable_def by (intro pres_rules)

lemma pres_known_unreachable [pres_rules]: "pres calm (known_unreachable env name)"
  unfolding known_unreachable_def by (intro pres_rules)

lemma pres_cache [pres_rules]: "pres aside (modify (\<lambda>s. s\<lparr>remotes := f s\<rparr>))"
  by (rule presI) (auto simp: aside_def later_def kept_def)

lemmas resolver_leaves [pres_rules] =
  pres_lookup_node [THEN pres_calm_aside] pres_buildTransport [THEN pres_calm_aside]
  pres_Reachable [THEN pres_calm_aside] pres_known_unreachable [THEN pres_calm_aside]

lemma pres_ResolveMeta [pres_rules]: "pres aside (ResolveMeta env name)"
  unfolding ResolveMeta_def Let_def by (intro pres_rules)

lemma pres_Resolve [pres_rules]: "pres aside (Resolve env name)"
  unfolding Resolve_def by (intro pres_rules)

lemma pres_localNode [pres_rules]: "pres aside (localNode env)"
  unfolding localNode_def by (intro pres_rules)

section \<open>What resolution promises\<close>

definition wf_cache :: "'x sys \<Rightarrow> bool" where
  "wf_cache s = (wf_map (remotes s) \<and> (\<forall>(k, e) \<in> set (remotes s). re_node e \<noteq> LocalNode))"

text \<open>A fresh resolution of a registered node: what it answers and what it caches.\<close>

definition fresh_for :: "node_row \<Rightarrow> resolved \<Rightarrow> bool" where
  "fresh_for row m =
     (rm_mesh m = nd_mesh_addr row \<and> rm_docker_host m = ''ssh://'' @ nd_ssh_host row \<and> \<not> rm_local m \<and>
      (rm_node m = SSHNode (nd_ssh_host row) \<or>
       nd_agent_url row \<noteq> [] \<and> rm_node m = AgentNode (nd_agent_url row)))"

lemma lookup_node_result:
  "run_state (lookup_node env name) s = (Inr (Some (h, m, u)), s') \<Longrightarrow>
     \<exists>row. sql_get_node name (sdb s) = Some row \<and> nd_ssh_host row = h \<and> nd_mesh_addr row = m \<and> nd_agent_url row = u"
  by (auto simp: lookup_node_def split: prod.splits sum.splits option.splits dest!: GetNode_result [symmetric])

lemma buildTransport_result:
  "run_state (buildTransport env h u) s = ((Inr n, t), s') \<Longrightarrow>
     n = SSHNode h \<or> u \<noteq> [] \<and> n = AgentNode u"
  by (auto simp: buildTransport_def build_ssh_def pingOK_def split: prod.splits option.splits if_splits)

lemma ResolveMeta_local:
  "is_local_name name \<Longrightarrow> run_state (ResolveMeta env name) s =
     (Inr \<lparr>rm_node = LocalNode, rm_mesh = [], rm_docker_host = [], rm_local = True\<rparr>, s)"
  by (simp add: ResolveMeta_def)

lemma ResolveMeta_cached:
  "\<not> is_local_name name \<Longrightarrow> map_of (remotes s) name = Some e \<Longrightarrow>
     run_state (ResolveMeta env name) s =
       (Inr \<lparr>rm_node = re_node e, rm_mesh = re_mesh e, rm_docker_host = re_docker_host e, rm_local = False\<rparr>, s)"
  by (simp add: ResolveMeta_def)

lemma ResolveMeta_fresh:
  assumes "\<not> is_local_name name" "map_of (remotes s) name = None"
    and run: "run_state (ResolveMeta env name) s = (Inr m, s')"
  shows "\<exists>row e. sql_get_node name (sdb s) = Some row \<and> fresh_for row m \<and>
     re_node e = rm_node m \<and> re_mesh e = rm_mesh m \<and> re_docker_host e = rm_docker_host m \<and>
     remotes s' = AList.update name e (remotes s)"
proof -
  obtain h me u s1 where l: "run_state (lookup_node env name) s = (Inr (Some (h, me, u)), s1)"
    using assms by (auto simp: ResolveMeta_def wrap_err_def split: prod.splits sum.splits option.splits)
  obtain n t s2 where b: "run_state (buildTransport env h u) s1 = ((Inr n, t), s2)"
    using assms l by (auto simp: ResolveMeta_def wrap_err_def split: prod.splits sum.splits option.splits)
  have rs: "remotes s1 = remotes s" "remotes s2 = remotes s1"
    using presD [OF pres_lookup_node l] presD [OF pres_buildTransport b] by (simp_all add: calm_def)
  obtain row where row: "sql_get_node name (sdb s) = Some row" "nd_ssh_host row = h"
    "nd_mesh_addr row = me" "nd_agent_url row = u"
    using lookup_node_result [OF l] by blast
  have "m = \<lparr>rm_node = n, rm_mesh = me, rm_docker_host = ''ssh://'' @ h, rm_local = False\<rparr>"
    and "remotes s' = AList.update name \<lparr>re_node = n, re_mesh = me, re_docker_host = ''ssh://'' @ h, re_transport = t\<rparr> (remotes s)"
    using assms l b rs by (auto simp: ResolveMeta_def Let_def)
  then show ?thesis using row buildTransport_result [OF b]
    by (intro exI [of _ row] exI [of _ "\<lparr>re_node = n, re_mesh = me, re_docker_host = ''ssh://'' @ h, re_transport = t\<rparr>"])
       (auto simp: fresh_for_def)
qed

lemma ResolveMeta_cases:
  assumes "run_state (ResolveMeta env name) s = (Inr m, s')"
  obtains (local) "is_local_name name" "rm_node m = LocalNode" "rm_mesh m = []" "rm_local m" "s' = s"
  | (cached) e where "\<not> is_local_name name" "map_of (remotes s) name = Some e" "rm_node m = re_node e"
      "rm_mesh m = re_mesh e" "rm_docker_host m = re_docker_host e" "\<not> rm_local m" "s' = s"
  | (fresh) row e where "\<not> is_local_name name" "map_of (remotes s) name = None"
      "sql_get_node name (sdb s) = Some row" "fresh_for row m" "re_node e = rm_node m"
      "re_mesh e = rm_mesh m" "re_docker_host e = rm_docker_host m"
      "remotes s' = AList.update name e (remotes s)"
proof (cases "is_local_name name")
  case True
  then show thesis using assms by (intro local) (auto simp: ResolveMeta_local)
next
  case nl: False
  show thesis
  proof (cases "map_of (remotes s) name")
    case None
    then show thesis using ResolveMeta_fresh [OF nl None assms] fresh nl by blast
  next
    case (Some e)
    then show thesis using assms nl by (intro cached) (auto simp: ResolveMeta_cached)
  qed
qed

text \<open>
  \<open>local\<close> and the empty name always resolve to the host's own Docker, any other name never
  does, and the cache keeps that property.
\<close>

lemma ResolveMeta_local_iff:
  assumes "wf_cache s" and "run_state (ResolveMeta env name) s = (Inr m, s')"
  shows "rm_local m = is_local_name name \<and> (rm_node m = LocalNode) = is_local_name name \<and> wf_cache s'"
  using assms(2)
proof (cases rule: ResolveMeta_cases)
  case local
  then show ?thesis using assms(1) by simp
next
  case (cached e)
  then have "(name, e) \<in> set (remotes s)" by (auto dest: map_of_SomeD)
  then show ?thesis using assms(1) cached by (auto simp: wf_cache_def)
next
  case (fresh row e)
  then have "rm_node m \<noteq> LocalNode" "\<not> rm_local m" by (auto simp: fresh_for_def)
  then show ?thesis using assms(1) fresh by (auto simp: wf_cache_def dest!: set_alist_update)
qed

text \<open>
  A resolved name keeps its node until it is invalidated: resolving it again, in whatever
  environment, gives the same answer without a single call.
\<close>

lemma ResolveMeta_again:
  assumes "run_state (ResolveMeta env name) s = (Inr m, s')"
  shows "run_state (ResolveMeta env2 name) s' = (Inr m, s')"
  using assms
proof (cases rule: ResolveMeta_cases)
  case local
  then show ?thesis using assms by (simp add: ResolveMeta_local)
next
  case (cached e)
  then show ?thesis using assms by (simp add: ResolveMeta_cached)
next
  case (fresh row e)
  then have "map_of (remotes s') name = Some e" by (simp add: update_conv')
  then show ?thesis using fresh by (simp add: ResolveMeta_cached fresh_for_def)
qed

text \<open>
  After \<open>Invalidate\<close> a registered name is resolved from its registry row as it is now: the
  row's mesh address, its ssh host as \<open>DOCKER_HOST\<close>, and its agent or ssh transport.
\<close>

lemma Invalidate_refreshes:
  assumes "\<not> is_local_name name"
    and "run_state (do { Invalidate name; ResolveMeta env name }) s = (Inr m, s')"
  shows "case sql_get_node name (sdb s) of None \<Rightarrow> False | Some row \<Rightarrow> fresh_for row m"
proof -
  let ?s = "s\<lparr>remotes := AList.delete name (remotes s)\<rparr>"
  have "run_state (ResolveMeta env name) ?s = (Inr m, s')" using assms(2) by (simp add: Invalidate_def)
  moreover have "map_of (remotes ?s) name = None" by (simp add: delete_conv')
  ultimately show ?thesis using ResolveMeta_fresh [OF assms(1), of ?s env m s'] by auto
qed

end
