(* ===== verification/Access.thy ===== *)
theory Access
  imports Prelude
begin

text \<open>
  Who may talk to the program over the network: bearer tokens of the daemon's TCP listener
  (\<open>src/internal/cli/apiauth.go\<close>) and of the agent (\<open>src/internal/agent/auth.go\<close>), passwords and
  session cookies of the web interface (\<open>src/internal/web/auth.go\<close>, \<open>config.go\<close>). HMAC-SHA256 is a
  parameter; base64, \<open>SplitHostPort\<close> and \<open>ParseInt\<close> of Go's library are modelled as far as they are
  used. A handler behind a middleware is the value it answers with.
\<close>

section \<open>Requests\<close>

text \<open>Headers that are absent are empty; a cookie may be absent.\<close>

record http_req =
  hq_path :: string
  hq_auth :: string
  hq_session :: "string option"
  hq_tls :: bool
  hq_forwarded :: string

section \<open>Bearer tokens\<close>

definition bearerToken :: "'r http_req_scheme \<Rightarrow> string" where
  "bearerToken r = (if prefix ''Bearer '' (hq_auth r) then drop 7 (hq_auth r) else [])"

text \<open>\<open>ConstantTimeCompare\<close> is 1 on equal byte strings, and 0 on others.\<close>

definition ConstantTimeCompare :: "string \<Rightarrow> string \<Rightarrow> int" where
  "ConstantTimeCompare a b = (if a = b then 1 else 0)"

definition checkToken :: "string \<Rightarrow> string \<Rightarrow> bool" where
  "checkToken configured provided =
     (if length configured = 0 \<or> length provided = 0 then False
      else ConstantTimeCompare configured provided = 1)"

datatype 'a answer = Unauthorized | Passed 'a

definition PathHealthz :: string where "PathHealthz = ''/healthz''"

definition authMiddleware :: "string \<Rightarrow> ('r http_req_scheme \<Rightarrow> 'a) \<Rightarrow> 'r http_req_scheme \<Rightarrow> 'a answer" where
  "authMiddleware token handler r =
     (if hq_path r = PathHealthz then Passed (handler r)
      else if \<not> checkToken token (bearerToken r) then Unauthorized
      else Passed (handler r))"

definition bearerMiddleware :: "string \<Rightarrow> ('r http_req_scheme \<Rightarrow> 'a) \<Rightarrow> 'r http_req_scheme \<Rightarrow> 'a answer" where
  "bearerMiddleware token h r =
     (if token = [] then Passed (h r)
      else let provided = (if prefix ''Bearer '' (hq_auth r) then drop 7 (hq_auth r) else []) in
        if length provided = 0 \<or> ConstantTimeCompare token provided \<noteq> 1 then Unauthorized
        else Passed (h r))"

section \<open>Where the daemon listens\<close>

definition last_index :: "char \<Rightarrow> string \<Rightarrow> nat option" where
  "last_index c s = (if c \<in> set s then Some (length s - 1 - length (takeWhile (\<lambda>d. d \<noteq> c) (rev s))) else None)"

definition first_index :: "char \<Rightarrow> string \<Rightarrow> nat option" where
  "first_index c s = (if c \<in> set s then Some (length (takeWhile (\<lambda>d. d \<noteq> c) s)) else None)"

text \<open>\<open>net.SplitHostPort\<close>: the host, or \<open>None\<close> for one of its errors.\<close>

definition SplitHost :: "string \<Rightarrow> string option" where
  "SplitHost a = (case last_index CHR '':'' a of
     None \<Rightarrow> None
   | Some i \<Rightarrow>
       if a ! 0 = CHR ''['' then (case first_index CHR '']'' a of
           None \<Rightarrow> None
         | Some e \<Rightarrow>
             if e + 1 = length a \<or> e + 1 \<noteq> i then None
             else if CHR ''['' \<in> set (drop 1 a) \<or> CHR '']'' \<in> set (drop (e + 1) a) then None
             else Some (take (e - 1) (drop 1 a)))
       else if CHR '':'' \<in> set (take i a) then None
       else if CHR ''['' \<in> set a \<or> CHR '']'' \<in> set a then None
       else Some (take i a))"

definition isLoopbackAddr :: "string \<Rightarrow> bool" where
  "isLoopbackAddr addr = (case SplitHost addr of
     None \<Rightarrow> False
   | Some host \<Rightarrow> host \<in> {''127.0.0.1'', ''::1'', ''localhost''})"

definition apiListenAllowed :: "string \<Rightarrow> string \<Rightarrow> goerr option" where
  "apiListenAllowed addr token =
     (if addr = [] then None
      else if \<not> isLoopbackAddr addr \<and> token = [] then
        Some (Errf (''LWD_ADDR %q binds a non-loopback interface but LWD_API_TOKEN is unset '' @
          [CHR 0xE2, CHR 0x80, CHR 0x94] @ '' refusing to expose an unauthenticated control plane'') [addr])
      else None)"

section \<open>Base64 without padding, in the URL alphabet\<close>

definition enc6 :: "nat \<Rightarrow> char" where
  "enc6 n = (if n < 26 then char_of (65 + n) else if n < 52 then char_of (71 + n)
     else if n < 62 then char_of (n - 4) else if n = 62 then CHR ''-'' else CHR ''_'')"

definition dec6 :: "char \<Rightarrow> nat option" where
  "dec6 c = (if is_upper c then Some (of_char c - 65) else if is_lower c then Some (of_char c - 71)
     else if is_digit c then Some (of_char c + 4)
     else if c = CHR ''-'' then Some 62 else if c = CHR ''_'' then Some 63 else None)"

fun b64_groups :: "nat list \<Rightarrow> nat list" where
  "b64_groups [] = []"
| "b64_groups [a] = [a div 4, a mod 4 * 16]"
| "b64_groups [a, b] = [a div 4, a mod 4 * 16 + b div 16, b mod 16 * 4]"
| "b64_groups (a # b # c # r) =
     (a div 4) # (a mod 4 * 16 + b div 16) # (b mod 16 * 4 + c div 64) # (c mod 64) # b64_groups r"

text \<open>Bits left over at the end are dropped; a single digit left over is an error.\<close>

fun b64_bytes :: "nat list \<Rightarrow> nat list option" where
  "b64_bytes [] = Some []"
| "b64_bytes [x] = None"
| "b64_bytes [x, y] = Some [x * 4 + y div 16]"
| "b64_bytes [x, y, z] = Some [x * 4 + y div 16, y mod 16 * 16 + z div 4]"
| "b64_bytes (x # y # z # w # r) =
     map_option (\<lambda>bs. (x * 4 + y div 16) # (y mod 16 * 16 + z div 4) # (z mod 4 * 64 + w) # bs) (b64_bytes r)"

fun all_some :: "'a option list \<Rightarrow> 'a list option" where
  "all_some [] = Some []"
| "all_some (x # xs) = (case x of None \<Rightarrow> None | Some a \<Rightarrow> map_option ((#) a) (all_some xs))"

definition b64_encode :: "string \<Rightarrow> string" where
  "b64_encode s = map enc6 (b64_groups (map of_char s))"

text \<open>The decoder skips line breaks.\<close>

definition b64_decode :: "string \<Rightarrow> string option" where
  "b64_decode s = (case all_some (map dec6 (filter (\<lambda>c. c \<noteq> CHR 0x0A \<and> c \<noteq> CHR 0x0D) s)) of
     None \<Rightarrow> None | Some ns \<Rightarrow> map_option (map char_of) (b64_bytes ns))"

lemma dec_enc6: "n < 64 \<Longrightarrow> dec6 (enc6 n) = Some n"
  by (auto simp: dec6_def enc6_def is_upper_def is_lower_def is_digit_def less_eq_char_def)

lemma enc6_no_break: "n < 64 \<Longrightarrow> enc6 n \<noteq> CHR 0x0A \<and> enc6 n \<noteq> CHR 0x0D \<and> enc6 n \<noteq> CHR ''.''"
proof -
  have "dec6 (CHR 0x0A) = None" "dec6 (CHR 0x0D) = None" "dec6 (CHR ''.'') = None" by code_simp+
  then show "n < 64 \<Longrightarrow> ?thesis" using dec_enc6 [of n] by auto
qed

lemma b64_groups_small: "\<forall>b \<in> set bs. b < 256 \<Longrightarrow> g \<in> set (b64_groups bs) \<Longrightarrow> g < 64"
  by (induction bs rule: b64_groups.induct) (auto simp: less_mult_imp_div_less)

lemma low_part: "y < n \<Longrightarrow> (x * n + y) div n = x" "y < n \<Longrightarrow> (x * n + y) mod n = (y :: nat)"
  by auto

lemma b64_digits:
  fixes a b c :: nat
  shows "a div 4 * 4 + a mod 4 * 16 div 16 = a"
    "b < 256 \<Longrightarrow> a div 4 * 4 + (a mod 4 * 16 + b div 16) div 16 = a"
    "b < 256 \<Longrightarrow> (a mod 4 * 16 + b div 16) mod 16 * 16 + b mod 16 * 4 div 4 = b"
    "b < 256 \<Longrightarrow> c < 256 \<Longrightarrow> (a mod 4 * 16 + b div 16) mod 16 * 16 + (b mod 16 * 4 + c div 64) div 4 = b"
    "c < 256 \<Longrightarrow> (b mod 16 * 4 + c div 64) mod 4 * 64 + c mod 64 = c"
proof -
  have hi: "x < 256 \<Longrightarrow> x div 16 < 16" "x < 256 \<Longrightarrow> x div 64 < 4" for x :: nat by auto
  note simps = hi low_part nonzero_mult_div_cancel_right zero_neq_numeral not_False_eq_True div_mult_mod_eq
  show "a div 4 * 4 + a mod 4 * 16 div 16 = a" by simp
  show "a div 4 * 4 + (a mod 4 * 16 + b div 16) div 16 = a" if "b < 256" using that by (simp only: simps)
  show "(a mod 4 * 16 + b div 16) mod 16 * 16 + b mod 16 * 4 div 4 = b" if "b < 256" using that by (simp only: simps)
  show "(a mod 4 * 16 + b div 16) mod 16 * 16 + (b mod 16 * 4 + c div 64) div 4 = b" if "b < 256" "c < 256"
    using that by (simp only: simps)
  show "(b mod 16 * 4 + c div 64) mod 4 * 64 + c mod 64 = c" if "c < 256" using that by (simp only: simps)
qed

lemma b64_bytes_groups: "\<forall>b \<in> set bs. b < 256 \<Longrightarrow> b64_bytes (b64_groups bs) = Some bs"
  by (induction bs rule: b64_groups.induct)
     (simp_all only: b64_groups.simps b64_bytes.simps b64_digits list.set ball_simps insert_iff simp_thms option.map, auto)

lemma all_some_dec: "\<forall>n \<in> set ns. n < 64 \<Longrightarrow> all_some (map dec6 (map enc6 ns)) = Some ns"
  by (induction ns) (auto simp: dec_enc6)

lemma bytes_small: "\<forall>b \<in> set (map of_char s). b < (256 :: nat)"
  by auto

lemma b64_roundtrip: "b64_decode (b64_encode s) = Some s"
proof -
  let ?g = "b64_groups (map of_char s) :: nat list"
  have small: "\<forall>n \<in> set ?g. n < 64" using b64_groups_small bytes_small by blast
  then have "filter (\<lambda>c. c \<noteq> CHR 0x0A \<and> c \<noteq> CHR 0x0D) (map enc6 ?g) = map enc6 ?g"
    by (intro filter_True) (auto dest: enc6_no_break)
  then show ?thesis
    using all_some_dec [OF small] b64_bytes_groups [OF bytes_small [of s]]
    by (simp add: b64_decode_def b64_encode_def comp_def)
qed

lemma b64_no_dot: "CHR ''.'' \<notin> set (b64_encode s)"
  using b64_groups_small [OF bytes_small [of s]] enc6_no_break by (fastforce simp: b64_encode_def)

section \<open>Numbers\<close>

text \<open>\<open>strconv.ParseInt(s, 10, 64)\<close>\<close>

definition ParseInt64 :: "string \<Rightarrow> int option" where
  "ParseInt64 s =
     (let neg = prefix ''-'' s; ds = (if neg \<or> prefix ''+'' s then drop 1 s else s) in
      if ds = [] \<or> \<not> list_all is_digit ds then None
      else let n = (if neg then - read_int ds else read_int ds) in
        if - (2 ^ 63) \<le> n \<and> n < 2 ^ 63 then Some n else None)"

lemma digit_not_sign: "is_digit c \<Longrightarrow> c \<noteq> CHR ''-'' \<and> c \<noteq> CHR ''+''"
  by (auto simp: is_digit_def less_eq_char_def)

lemma ParseInt_show: "- (2 ^ 63) \<le> n \<Longrightarrow> n < 2 ^ 63 \<Longrightarrow> ParseInt64 (show_int n) = Some n"
proof -
  assume n: "- (2 ^ 63) \<le> n" "n < 2 ^ 63"
  have d: "list_all is_digit (show_nat k)" for k using show_nat_digits by (auto simp: list_all_iff)
  have h: "\<not> prefix ''-'' (show_nat k)" "\<not> prefix ''+'' (show_nat k)" for k
    using d [of k] by (cases "show_nat k"; auto dest: digit_not_sign)+
  show ?thesis using n d h by (auto simp: ParseInt64_def show_int_def Let_def read_show_nat)
qed

section \<open>Sessions\<close>

definition sessionCookieName :: string where "sessionCookieName = ''lwd_session''"
definition defaultTTL :: int where "defaultTTL = 86400000000000"

definition unix :: "int \<Rightarrow> int" where "unix t = t div 1000000000"

definition wrap64 :: "int \<Rightarrow> int" where "wrap64 n = (n + 2 ^ 63) mod 2 ^ 64 - 2 ^ 63"

text \<open>Seconds from the year 1 to 1970: what a \<open>time.Time\<close> counts from.\<close>

definition unixToInternal :: int where "unixToInternal = 62135596800"

text \<open>\<open>time.Unix(e, 0).After(now)\<close>, on the 64-bit count of seconds a \<open>Time\<close> keeps.\<close>

definition unix_after :: "int \<Rightarrow> int \<Rightarrow> bool" where
  "unix_after e t = (unix t + unixToInternal < wrap64 (e + unixToInternal))"

definition signSession :: "(string \<Rightarrow> string \<Rightarrow> string) \<Rightarrow> string \<Rightarrow> int \<Rightarrow> string" where
  "signSession hmac key expiry =
     (let expiryBytes = show_int (unix expiry) in
      b64_encode expiryBytes @ ''.'' @ b64_encode (hmac key expiryBytes))"

text \<open>\<open>strings.SplitN(cookie, ".", 2)\<close>\<close>

definition split_first :: "char \<Rightarrow> string \<Rightarrow> (string \<times> string) option" where
  "split_first c s = (if c \<in> set s then Some (takeWhile (\<lambda>d. d \<noteq> c) s, tl (dropWhile (\<lambda>d. d \<noteq> c) s)) else None)"

definition verifySession :: "(string \<Rightarrow> string \<Rightarrow> string) \<Rightarrow> string \<Rightarrow> int \<Rightarrow> string \<Rightarrow> bool" where
  "verifySession hmac key t cookie = (case split_first CHR ''.'' cookie of
     None \<Rightarrow> False
   | Some (p, q) \<Rightarrow> (case b64_decode p of
       None \<Rightarrow> False
     | Some expiryBytes \<Rightarrow> (case b64_decode q of
         None \<Rightarrow> False
       | Some sig \<Rightarrow>
           if sig \<noteq> hmac key expiryBytes then False
           else case ParseInt64 expiryBytes of
             None \<Rightarrow> False
           | Some expiryUnix \<Rightarrow> unix_after expiryUnix t)))"

text \<open>\<open>strings.EqualFold\<close> with \<open>https\<close>: the long s (U+017F) folds to s.\<close>

fun fold_s :: "string \<Rightarrow> string" where
  "fold_s [] = []"
| "fold_s (c # cs) =
     (if c = CHR 0xC5 \<and> take 1 cs = [CHR 0xBF] then CHR ''s'' # fold_s (drop 1 cs) else lower_char c # fold_s cs)"

definition isSecureRequest :: "http_req \<Rightarrow> bool" where
  "isSecureRequest r = (hq_tls r \<or> fold_s (hq_forwarded r) = ''https'')"

definition checkPassword :: "string \<Rightarrow> string \<Rightarrow> bool" where
  "checkPassword configured provided =
     (if length configured = 0 \<or> length provided = 0 then False
      else ConstantTimeCompare configured provided = 1)"

record authenticator =
  au_key :: string
  au_password :: string
  au_ttl :: int

definition NewAuthenticator :: "string \<Rightarrow> string \<Rightarrow> authenticator" where
  "NewAuthenticator key password = \<lparr>au_key = key, au_password = password, au_ttl = defaultTTL\<rparr>"

record set_cookie =
  ck_value :: string
  ck_expires :: "int option"
  ck_delete :: bool
  ck_secure :: bool

datatype web_answer =
    HttpError nat string
  | SeeOther string "set_cookie option"
  | Next

text \<open>The form is the error of \<open>ParseForm\<close>, or the value of its field \<open>password\<close>.\<close>

definition Login :: "(string \<Rightarrow> string \<Rightarrow> string) \<Rightarrow> authenticator \<Rightarrow> int \<Rightarrow> http_req \<Rightarrow> string res \<Rightarrow> web_answer" where
  "Login hmac a t r form = (case form of
     Inl _ \<Rightarrow> HttpError 400 ''bad request''
   | Inr provided \<Rightarrow>
       if \<not> checkPassword (au_password a) provided then HttpError 401 ''unauthorized''
       else let expiry = t + au_ttl a in
         SeeOther ''/'' (Some \<lparr>ck_value = signSession hmac (au_key a) expiry, ck_expires = Some expiry,
           ck_delete = False, ck_secure = isSecureRequest r\<rparr>))"

definition Logout :: "http_req \<Rightarrow> web_answer" where
  "Logout r = SeeOther ''/login'' (Some \<lparr>ck_value = [], ck_expires = None, ck_delete = True, ck_secure = isSecureRequest r\<rparr>)"

definition publicPaths :: "string list" where
  "publicPaths = [''/login'', ''/logout'', ''/static/'']"

definition isPublicPath :: "string \<Rightarrow> bool" where
  "isPublicPath path =
     (path = ''/'' \<or> list_ex (\<lambda>p. if suffix ''/'' p then prefix p path else path = p) publicPaths)"

definition Middleware :: "(string \<Rightarrow> string \<Rightarrow> string) \<Rightarrow> authenticator \<Rightarrow> int \<Rightarrow> http_req \<Rightarrow> web_answer" where
  "Middleware hmac a t r =
     (if isPublicPath (hq_path r) then Next
      else if (case hq_session r of None \<Rightarrow> False | Some v \<Rightarrow> verifySession hmac (au_key a) t v) then Next
      else if prefix ''/api/'' (hq_path r) then HttpError 401 ''{\"error\":\"unauthorized\"}''
      else SeeOther ''/login'' None)"

section \<open>Configuration of the web interface\<close>

record web_config =
  wc_addr :: string
  wc_password :: string
  wc_key :: string

definition LoadConfig :: "(string \<Rightarrow> string) \<Rightarrow> string res \<Rightarrow> web_config res" where
  "LoadConfig getenv random32 =
     (let password = getenv ''LWD_WEB_PASSWORD'' in
      if password = [] then Inl (Errf ''web: LWD_WEB_PASSWORD is required'' [])
      else let addr = (if getenv ''LWD_WEB_ADDR'' = [] then ''127.0.0.1:8079'' else getenv ''LWD_WEB_ADDR'');
               secret = getenv ''LWD_WEB_SECRET'' in
        if secret \<noteq> [] then
          if length secret < 16 then Inl (Errf ''web: LWD_WEB_SECRET must be at least 16 bytes'' [])
          else Inr \<lparr>wc_addr = addr, wc_password = password, wc_key = secret\<rparr>
        else (case random32 of
          Inl e \<Rightarrow> Inl (Wrapf ''web: failed to generate signing key: %w'' [] e)
        | Inr key \<Rightarrow> Inr \<lparr>wc_addr = addr, wc_password = password, wc_key = key\<rparr>))"


section \<open>Bearer tokens decide\<close>

lemma bearer_token_iff: "prefix ''Bearer '' a \<and> drop 7 a = t \<longleftrightarrow> a = ''Bearer '' @ t"
  by (auto simp: prefix_def)

lemma checkToken_bearer:
  "checkToken token (bearerToken r) = (token \<noteq> [] \<and> hq_auth r = ''Bearer '' @ token)"
  using bearer_token_iff [of "hq_auth r" token]
  by (auto simp: checkToken_def bearerToken_def ConstantTimeCompare_def)

text \<open>
  The agent serves a request only to a caller that presents its token, and the probe of
  \<open>/healthz\<close> to everyone; an agent without a token serves nothing else.
\<close>

lemma authMiddleware_exact:
  "authMiddleware token h r =
     (if hq_path r = ''/healthz'' \<or> (token \<noteq> [] \<and> hq_auth r = ''Bearer '' @ token) then Passed (h r) else Unauthorized)"
  by (simp add: authMiddleware_def checkToken_bearer PathHealthz_def)

lemma bearerMiddleware_exact:
  "bearerMiddleware token h r =
     (if token = [] \<or> hq_auth r = ''Bearer '' @ token then Passed (h r) else Unauthorized)"
  using bearer_token_iff [of "hq_auth r" token]
  by (auto simp: bearerMiddleware_def ConstantTimeCompare_def Let_def)

text \<open>
  The daemon's API is never open to the network: a TCP listener that is allowed to start is off,
  on a loopback host, or lets through exactly the requests that carry its token.
\<close>

lemma tcp_api_closed:
  "case apiListenAllowed addr token of
     Some e \<Rightarrow> addr \<noteq> [] \<and> \<not> isLoopbackAddr addr \<and> token = []
   | None \<Rightarrow> addr = [] \<or> isLoopbackAddr addr \<or>
       (token \<noteq> [] \<and> bearerMiddleware token h r = (if hq_auth r = ''Bearer '' @ token then Passed (h r) else Unauthorized))"
  by (simp add: apiListenAllowed_def bearerMiddleware_exact)

section \<open>Loopback\<close>

lemma last_index_split: "c \<notin> set p \<Longrightarrow> last_index c (q @ c # p) = Some (length q)"
  by (simp add: last_index_def takeWhile_until)

lemma last_index_Some:
  assumes "last_index c s = Some i"
  obtains q p where "s = q @ c # p" "c \<notin> set p" "length q = i"
proof -
  have "c \<in> set s" using assms by (auto simp: last_index_def split: if_splits)
  then obtain q p where s: "s = q @ c # p" "c \<notin> set p" by (meson split_list_last)
  then have "length q = i" using assms last_index_split by fastforce
  then show thesis using that s by blast
qed

lemma first_index_split: "c \<notin> set q \<Longrightarrow> first_index c (q @ c # p) = Some (length q)"
  by (simp add: first_index_def takeWhile_until)

lemma first_index_Some:
  assumes "first_index c s = Some i"
  obtains q p where "s = q @ c # p" "c \<notin> set q" "length q = i"
proof -
  have "c \<in> set s" using assms by (auto simp: first_index_def split: if_splits)
  then obtain q p where s: "s = q @ c # p" "c \<notin> set q" by (meson split_list_first)
  then have "length q = i" using assms first_index_split by fastforce
  then show thesis using that s by blast
qed

definition plain_port :: "string \<Rightarrow> bool" where
  "plain_port p = (CHR '':'' \<notin> set p \<and> CHR ''['' \<notin> set p \<and> CHR '']'' \<notin> set p)"

lemma SplitHost_plain:
  "CHR '':'' \<notin> set h \<Longrightarrow> CHR ''['' \<notin> set h \<Longrightarrow> CHR '']'' \<notin> set h \<Longrightarrow> plain_port p \<Longrightarrow> SplitHost (h @ '':'' @ p) = Some h"
proof -
  assume h: "CHR '':'' \<notin> set h" "CHR ''['' \<notin> set h" "CHR '']'' \<notin> set h" "plain_port p"
  have "last_index CHR '':'' (h @ CHR '':'' # p) = Some (length h)" using last_index_split h by (simp add: plain_port_def)
  moreover have "(h @ CHR '':'' # p) ! 0 \<noteq> CHR ''[''" using h by (cases h) auto
  ultimately show ?thesis using h by (simp add: SplitHost_def plain_port_def)
qed

lemma SplitHost_bracketed:
  assumes "CHR ''['' \<notin> set h" "CHR '']'' \<notin> set h" "plain_port p"
  shows "SplitHost (''['' @ h @ '']:'' @ p) = Some h"
proof -
  let ?a = "CHR ''['' # h @ CHR '']'' # CHR '':'' # p"
  have "last_index CHR '':'' ?a = Some (length h + 2)"
    using last_index_split [of "CHR '':''" p "CHR ''['' # h @ [CHR '']'']"] assms by (simp add: plain_port_def)
  moreover have "first_index CHR '']'' ?a = Some (length h + 1)"
    using first_index_split [of "CHR '']''" "CHR ''['' # h"] assms by simp
  ultimately show ?thesis using assms by (simp add: SplitHost_def plain_port_def)
qed

lemma SplitHost_Some:
  assumes "SplitHost a = Some h"
  obtains (bracketed) p where "a = ''['' @ h @ '']:'' @ p" "plain_port p"
    | (plain) p where "a = h @ '':'' @ p" "CHR '':'' \<notin> set h" "plain_port p"
proof -
  obtain i where i: "last_index CHR '':'' a = Some i" using assms by (auto simp: SplitHost_def split: option.splits)
  obtain q p where q: "a = q @ CHR '':'' # p" "CHR '':'' \<notin> set p" "length q = i" by (rule last_index_Some [OF i])
  show thesis
  proof (cases "a ! 0 = CHR ''[''")
    case False
    then show thesis using assms i q plain [of p] by (auto simp: SplitHost_def plain_port_def split: if_splits)
  next
    case True
    then obtain e where e: "first_index CHR '']'' a = Some e"
      using assms i by (auto simp: SplitHost_def split: option.splits)
    obtain u v where u: "a = u @ CHR '']'' # v" "CHR '']'' \<notin> set u" "length u = e" by (rule first_index_Some [OF e])
    have c: "e + 1 = i" "CHR ''['' \<notin> set (drop 1 a)" "CHR '']'' \<notin> set (drop (e + 1) a)" "h = take (e - 1) (drop 1 a)"
      using assms i e True by (auto simp: SplitHost_def split: if_splits)
    have "q = u @ [CHR '']'']" "v = CHR '':'' # p"
      using q u c(1) append_eq_append_conv [of q "u @ [CHR '']'']" "CHR '':'' # p" v] by auto
    moreover obtain w where w: "u = CHR ''['' # w" using True u by (cases u) auto
    ultimately have "a = ''['' @ w @ '']:'' @ p" "h = w" "plain_port p" using u q c by (auto simp: plain_port_def)
    then show thesis using bracketed by simp
  qed
qed

text \<open>
  What counts as loopback: exactly the addresses \<open>127.0.0.1:p\<close> and \<open>localhost:p\<close>, in brackets
  or not, and \<open>[::1]:p\<close>. A bare port, an unspecified or any other host is not.
\<close>

lemma isLoopbackAddr_iff:
  "isLoopbackAddr a \<longleftrightarrow> (\<exists>p. plain_port p \<and>
     a \<in> {''127.0.0.1:'' @ p, ''localhost:'' @ p, ''[127.0.0.1]:'' @ p, ''[localhost]:'' @ p, ''[::1]:'' @ p})"
proof
  assume "isLoopbackAddr a"
  then obtain h where h: "SplitHost a = Some h" "h \<in> {''127.0.0.1'', ''::1'', ''localhost''}"
    by (auto simp: isLoopbackAddr_def split: option.splits)
  from h(1) show "\<exists>p. plain_port p \<and>
     a \<in> {''127.0.0.1:'' @ p, ''localhost:'' @ p, ''[127.0.0.1]:'' @ p, ''[localhost]:'' @ p, ''[::1]:'' @ p}"
  proof (cases rule: SplitHost_Some)
    case (bracketed p)
    then show ?thesis using h(2) by (intro exI [of _ p]) auto
  next
    case (plain p)
    then have "h = ''127.0.0.1'' \<or> h = ''localhost''" using h(2) by auto
    then show ?thesis using plain(1,3) by (elim disjE) (intro exI [of _ p], simp)+
  qed
next
  assume "\<exists>p. plain_port p \<and>
     a \<in> {''127.0.0.1:'' @ p, ''localhost:'' @ p, ''[127.0.0.1]:'' @ p, ''[localhost]:'' @ p, ''[::1]:'' @ p}"
  then obtain p where p: "plain_port p"
    "a \<in> {''127.0.0.1:'' @ p, ''localhost:'' @ p, ''[127.0.0.1]:'' @ p, ''[localhost]:'' @ p, ''[::1]:'' @ p}"
    by (elim exE conjE)
  have "SplitHost a \<in> {Some ''127.0.0.1'', Some ''localhost'', Some ''::1''}"
    using p SplitHost_plain [of "''127.0.0.1''" p] SplitHost_plain [of "''localhost''" p]
      SplitHost_bracketed [of "''127.0.0.1''" p] SplitHost_bracketed [of "''localhost''" p] SplitHost_bracketed [of "''::1''" p]
    by auto
  then show "isLoopbackAddr a" by (auto simp: isLoopbackAddr_def)
qed

section \<open>Sessions\<close>

lemma split_signed: "split_first CHR ''.'' (b64_encode x @ CHR ''.'' # y) = Some (b64_encode x, y)"
  using b64_no_dot [of x] by (simp add: split_first_def takeWhile_until)

lemma wrap64_small: "- (2 ^ 63) \<le> n \<Longrightarrow> n < 2 ^ 63 \<Longrightarrow> wrap64 n = n"
  by (simp add: wrap64_def)

text \<open>
  A login is good for as long as it says and no longer: the cookie that a login sets is accepted
  by the middleware for every path until its expiry, and from then on for the public paths only.
\<close>

lemma login_lasts:
  assumes "0 \<le> t" "0 \<le> au_ttl a" "t + au_ttl a < 2 ^ 63"
    and login: "Login hmac a t r form = SeeOther ''/'' (Some c)"
    and cookie: "hq_session r2 = Some (ck_value c)"
  shows "form = Inr (au_password a) \<and> au_password a \<noteq> [] \<and>
     (Middleware hmac a t2 r2 = Next) = (isPublicPath (hq_path r2) \<or> unix t2 < unix (t + au_ttl a))"
proof -
  let ?e = "unix (t + au_ttl a)"
  have pw: "form = Inr (au_password a)" "au_password a \<noteq> []" and v: "ck_value c = signSession hmac (au_key a) (t + au_ttl a)"
    using login by (auto simp: Login_def checkPassword_def ConstantTimeCompare_def Let_def split: sum.splits if_splits)
  have e: "0 \<le> ?e" "?e < 2 ^ 62" using assms(1-3) by (auto simp: unix_def)
  have "unix_after ?e t2 = (unix t2 < ?e)"
    using e by (simp add: unix_after_def wrap64_small unixToInternal_def)
  moreover have "ParseInt64 (show_int ?e) = Some ?e" using e by (intro ParseInt_show) auto
  ultimately have "verifySession hmac (au_key a) t2 (ck_value c) = (unix t2 < ?e)"
    unfolding v signSession_def verifySession_def by (simp add: Let_def split_signed b64_roundtrip)
  then show ?thesis using pw cookie by (simp add: Middleware_def)
qed

text \<open>
  The gate of the web interface: the public paths are the shell, the login and logout pages and
  the static files; anything else is passed on only with a session cookie that verifies, and under
  \<open>/api/\<close> it is otherwise answered 401.
\<close>

lemma Middleware_gate:
  "isPublicPath p = (p \<in> {''/'', ''/login'', ''/logout''} \<or> prefix ''/static/'' p) \<and>
   Middleware hmac a t r =
     (if isPublicPath (hq_path r) \<or> (\<exists>v. hq_session r = Some v \<and> verifySession hmac (au_key a) t v) then Next
      else if prefix ''/api/'' (hq_path r) then HttpError 401 ''{\"error\":\"unauthorized\"}'' else SeeOther ''/login'' None) \<and>
   \<not> isPublicPath (''/api/'' @ p)"
  by (auto simp: isPublicPath_def publicPaths_def Middleware_def suffix_def split: option.splits)

end
