(* ===== verification/Agent.thy ===== *)
theory Agent
  imports Resolver Access
begin

text \<open>
  A node over the network: the agent's HTTP server (\<open>src/internal/agent/server.go\<close>), its client
  \<open>AgentNode\<close> (\<open>src/internal/node/agent.go\<close>) and the wire format they share
  (\<open>src/internal/node/wire.go\<close>). A JSON object is the list of its fields; what carries a request to
  the server and its response back is the function \<open>dial\<close>. A streamed body is all of it at once.
\<close>

section \<open>The wire\<close>

text \<open>The interface \<open>node.Node\<close>, with the two methods that the reconciler does not call.\<close>

record 'x full_node = "'x node_ops" +
  n_health :: "container \<Rightarrow> health_spec \<Rightarrow> ('x, goerr option) op"
  n_logs :: "string \<Rightarrow> bool \<Rightarrow> ('x, string res) op"

definition PathReady :: string where "PathReady = ''/ready''"
definition PathRun :: string where "PathRun = ''/run''"
definition PathRemove :: string where "PathRemove = ''/remove''"
definition PathList :: string where "PathList = ''/list''"
definition PathEnsureImage :: string where "PathEnsureImage = ''/ensure-image''"
definition PathImagePresent :: string where "PathImagePresent = ''/image-present''"
definition PathLoad :: string where "PathLoad = ''/load''"
definition PathSave :: string where "PathSave = ''/save''"
definition PathLogs :: string where "PathLogs = ''/logs''"
definition PathEnsureNetwork :: string where "PathEnsureNetwork = ''/ensure-network''"
definition PathConnectNetwork :: string where "PathConnectNetwork = ''/connect-network''"
definition PathContainerHealth :: string where "PathContainerHealth = ''/container-health''"
definition PathHealth :: string where "PathHealth = ''/health''"
definition PathCapacity :: string where "PathCapacity = ''/capacity''"

lemmas path_defs = PathHealthz_def PathReady_def PathRun_def PathRemove_def PathList_def PathEnsureImage_def PathImagePresent_def
  PathLoad_def PathSave_def PathLogs_def PathEnsureNetwork_def PathConnectNetwork_def PathContainerHealth_def PathHealth_def
  PathCapacity_def

datatype jval =
    JStr string
  | JBool bool
  | JMap env_map
  | JSpec run_spec
  | JContainer container
  | JContainers "container list"
  | JHealth health_spec

text \<open>What a body holds: an object, an \<open>ErrorResponse\<close>, a capacity, a stream, or no JSON.\<close>

datatype payload =
    NoPayload
  | Object "(string \<times> jval) list"
  | ErrorResponse goerr
  | CapacityObject capacity
  | Stream string
  | Malformed goerr

record agent_req = http_req +
  aq_post :: bool
  aq_query :: "(string \<times> string) list"
  aq_body :: payload

record agent_resp =
  ap_status :: nat
  ap_body :: payload

section \<open>The server\<close>

text \<open>One call, and what is made of its result.\<close>

definition after :: "('x, 'a) op \<Rightarrow> ('a \<Rightarrow> 'b) \<Rightarrow> ('x, 'b) op" where
  "after f k = (\<lambda>x. case f x of (r, dt, x') \<Rightarrow> (k r, dt, x'))"

definition answer :: "'b \<Rightarrow> ('x, 'b) op" where
  "answer r = (\<lambda>x. (r, 0, x))"

definition writeJSON :: "nat \<Rightarrow> payload \<Rightarrow> agent_resp" where
  "writeJSON code v = \<lparr>ap_status = code, ap_body = v\<rparr>"

definition writeErr :: "nat \<Rightarrow> goerr \<Rightarrow> agent_resp" where
  "writeErr code e = writeJSON code (ErrorResponse e)"

text \<open>Decoding: a field that is absent keeps its zero value, one of another type is an error.\<close>

definition field :: "string \<Rightarrow> 'a \<Rightarrow> (jval \<Rightarrow> 'a option) \<Rightarrow> (string \<times> jval) list \<Rightarrow> 'a res" where
  "field name zero sel obj = (case map_of obj name of
     None \<Rightarrow> Inr zero
   | Some v \<Rightarrow> (case sel v of None \<Rightarrow> Inl (Errf ''json: cannot unmarshal'' [name]) | Some a \<Rightarrow> Inr a))"

definition sel_str :: "jval \<Rightarrow> string option" where "sel_str v = (case v of JStr s \<Rightarrow> Some s | _ \<Rightarrow> None)"
definition sel_bool :: "jval \<Rightarrow> bool option" where "sel_bool v = (case v of JBool b \<Rightarrow> Some b | _ \<Rightarrow> None)"
definition sel_map :: "jval \<Rightarrow> env_map option" where "sel_map v = (case v of JMap m \<Rightarrow> Some m | _ \<Rightarrow> None)"
definition sel_spec :: "jval \<Rightarrow> run_spec option" where "sel_spec v = (case v of JSpec s \<Rightarrow> Some s | _ \<Rightarrow> None)"
definition sel_container :: "jval \<Rightarrow> container option" where "sel_container v = (case v of JContainer c \<Rightarrow> Some c | _ \<Rightarrow> None)"
definition sel_containers :: "jval \<Rightarrow> container list option" where "sel_containers v = (case v of JContainers c \<Rightarrow> Some c | _ \<Rightarrow> None)"
definition sel_health :: "jval \<Rightarrow> health_spec option" where "sel_health v = (case v of JHealth h \<Rightarrow> Some h | _ \<Rightarrow> None)"

definition no_spec :: run_spec where
  "no_spec = \<lparr>r_name = [], r_image = [], r_env = [], r_labels = [], r_port = 0, r_network = [], r_publish = [],
     r_cmd = [], r_cpus = 0, r_memory = 0\<rparr>"

definition no_container :: container where
  "no_container = \<lparr>c_id = [], c_name = [], c_image = [], c_state = [], c_labels = [], c_host_port = 0, c_ip = []\<rparr>"


definition decodeJSON :: "payload \<Rightarrow> ((string \<times> jval) list \<Rightarrow> 'a res) \<Rightarrow> ('a \<Rightarrow> ('x, agent_resp) op) \<Rightarrow> ('x, agent_resp) op" where
  "decodeJSON body decode k = (case body of
     Object obj \<Rightarrow> (case decode obj of Inl e \<Rightarrow> answer (writeErr 400 e) | Inr a \<Rightarrow> k a)
   | Malformed e \<Rightarrow> answer (writeErr 400 e)
   | _ \<Rightarrow> answer (writeErr 400 (Errf ''EOF'' [])))"

definition both :: "'a res \<Rightarrow> 'b res \<Rightarrow> ('a \<times> 'b) res" where
  "both x y = (case x of Inl e \<Rightarrow> Inl e | Inr a \<Rightarrow> (case y of Inl e \<Rightarrow> Inl e | Inr b \<Rightarrow> Inr (a, b)))"

text \<open>The replies of the methods that return only an error, and of those that return a value.\<close>

definition done_or :: "nat \<Rightarrow> goerr option \<Rightarrow> agent_resp" where
  "done_or code e = (case e of Some x \<Rightarrow> writeErr code x | None \<Rightarrow> writeJSON 200 (Object []))"

definition value_or :: "'a res \<Rightarrow> ('a \<Rightarrow> payload) \<Rightarrow> agent_resp" where
  "value_or r enc = (case r of Inl e \<Rightarrow> writeErr 500 e | Inr a \<Rightarrow> writeJSON 200 (enc a))"

definition ping_reply :: "goerr option \<Rightarrow> agent_resp" where
  "ping_reply e = (case e of Some x \<Rightarrow> writeErr 503 x | None \<Rightarrow> \<lparr>ap_status = 200, ap_body = NoPayload\<rparr>)"

definition handleHealthz :: "'x full_node \<Rightarrow> ('x, agent_resp) op" where
  "handleHealthz n = after (n_ping n) ping_reply"

definition handleReady :: "'x full_node \<Rightarrow> ('x, agent_resp) op" where
  "handleReady n = after (n_ping n) ping_reply"

definition handleCapacity :: "'x full_node \<Rightarrow> ('x, agent_resp) op" where
  "handleCapacity n = after (n_capacity n) (\<lambda>r. value_or r CapacityObject)"

definition handleEnsureImage :: "'x full_node \<Rightarrow> payload \<Rightarrow> ('x, agent_resp) op" where
  "handleEnsureImage n b = decodeJSON b (field ''ref'' [] sel_str) (\<lambda>ref. after (n_ensure_image n ref) (done_or 500))"

definition handleImagePresent :: "'x full_node \<Rightarrow> payload \<Rightarrow> ('x, agent_resp) op" where
  "handleImagePresent n b = decodeJSON b (field ''ref'' [] sel_str)
     (\<lambda>ref. after (n_present n ref) (\<lambda>r. value_or r (\<lambda>p. Object [(''present'', JBool p)])))"

definition handleEnsureNetwork :: "'x full_node \<Rightarrow> payload \<Rightarrow> ('x, agent_resp) op" where
  "handleEnsureNetwork n b = decodeJSON b (field ''name'' [] sel_str) (\<lambda>name. after (n_ensure_network n name) (done_or 500))"

definition handleConnectNetwork :: "'x full_node \<Rightarrow> payload \<Rightarrow> ('x, agent_resp) op" where
  "handleConnectNetwork n b =
     decodeJSON b (\<lambda>obj. both (field ''containerId'' [] sel_str obj) (field ''network'' [] sel_str obj))
       (\<lambda>(cid, net). after (n_connect n cid net) (done_or 500))"

definition handleRun :: "'x full_node \<Rightarrow> payload \<Rightarrow> ('x, agent_resp) op" where
  "handleRun n b = decodeJSON b (field ''spec'' no_spec sel_spec)
     (\<lambda>spec. after (n_run n spec) (\<lambda>r. value_or r (\<lambda>c. Object [(''container'', JContainer c)])))"

definition handleRemove :: "'x full_node \<Rightarrow> payload \<Rightarrow> ('x, agent_resp) op" where
  "handleRemove n b = decodeJSON b (field ''id'' [] sel_str) (\<lambda>i. after (n_remove n i) (done_or 500))"

definition handleList :: "'x full_node \<Rightarrow> payload \<Rightarrow> ('x, agent_resp) op" where
  "handleList n b = decodeJSON b (field ''labels'' [] sel_map)
     (\<lambda>ls. after (n_list n ls) (\<lambda>r. value_or r (\<lambda>cs. Object [(''containers'', JContainers cs)])))"

definition handleHealth :: "'x full_node \<Rightarrow> payload \<Rightarrow> ('x, agent_resp) op" where
  "handleHealth n b =
     decodeJSON b (\<lambda>obj. both (field ''container'' no_container sel_container obj)
         (field ''health'' \<lparr>hs_path = [], hs_timeout = 0\<rparr> sel_health obj))
       (\<lambda>(c, h). after (n_health n c h) (done_or 500))"

definition handleContainerHealth :: "'x full_node \<Rightarrow> payload \<Rightarrow> ('x, agent_resp) op" where
  "handleContainerHealth n b = decodeJSON b (field ''id'' [] sel_str)
     (\<lambda>i. after (n_container_health n i)
       (\<lambda>r. value_or r (\<lambda>(st, dh). Object [(''state'', JStr st), (''dockerHealth'', JStr dh)])))"

text \<open>\<open>r.URL.Query().Get\<close>, and \<open>strconv.ParseBool\<close>, false for what it does not accept.\<close>

definition query_get :: "agent_req \<Rightarrow> string \<Rightarrow> string" where
  "query_get r k = (case map_of (aq_query r) k of None \<Rightarrow> [] | Some v \<Rightarrow> v)"

definition ParseBool :: "string \<Rightarrow> bool" where
  "ParseBool s = (s \<in> {''1'', ''t'', ''T'', ''true'', ''TRUE'', ''True''})"

definition stream_or :: "string res \<Rightarrow> agent_resp" where
  "stream_or r = (case r of Inl e \<Rightarrow> writeErr 500 e | Inr b \<Rightarrow> \<lparr>ap_status = 200, ap_body = Stream b\<rparr>)"

definition handleLogs :: "'x full_node \<Rightarrow> agent_req \<Rightarrow> ('x, agent_resp) op" where
  "handleLogs n r = after (n_logs n (query_get r ''id'') (ParseBool (query_get r ''follow''))) stream_or"

definition handleSave :: "'x full_node \<Rightarrow> agent_req \<Rightarrow> ('x, agent_resp) op" where
  "handleSave n r = after (n_save n (query_get r ''ref'')) stream_or"

text \<open>The raw body.\<close>

definition handleLoad :: "'x full_node \<Rightarrow> payload \<Rightarrow> ('x, agent_resp) op" where
  "handleLoad n b = after (n_load n (case b of Stream tar \<Rightarrow> tar | _ \<Rightarrow> [])) (done_or 500)"

definition get_routes :: "'x full_node \<Rightarrow> (string \<times> (agent_req \<Rightarrow> ('x, agent_resp) op)) list" where
  "get_routes n = [(PathHealthz, \<lambda>_. handleHealthz n), (PathReady, \<lambda>_. handleReady n), (PathCapacity, \<lambda>_. handleCapacity n),
     (PathLogs, handleLogs n), (PathSave, handleSave n)]"

definition post_routes :: "'x full_node \<Rightarrow> (string \<times> (payload \<Rightarrow> ('x, agent_resp) op)) list" where
  "post_routes n = [(PathEnsureImage, handleEnsureImage n), (PathImagePresent, handleImagePresent n),
     (PathEnsureNetwork, handleEnsureNetwork n), (PathConnectNetwork, handleConnectNetwork n), (PathRun, handleRun n),
     (PathRemove, handleRemove n), (PathList, handleList n), (PathHealth, handleHealth n),
     (PathContainerHealth, handleContainerHealth n), (PathLoad, handleLoad n)]"

text \<open>The router of the library: 404 for a path without a route, 405 for one with another method.\<close>

definition serve :: "'x full_node \<Rightarrow> agent_req \<Rightarrow> ('x, agent_resp) op" where
  "serve n r = (case (map_of (get_routes n) (hq_path r), map_of (post_routes n) (hq_path r)) of
     (Some g, _) \<Rightarrow> if aq_post r then answer \<lparr>ap_status = 405, ap_body = NoPayload\<rparr> else g r
   | (None, Some p) \<Rightarrow> if aq_post r then p (aq_body r) else answer \<lparr>ap_status = 405, ap_body = NoPayload\<rparr>
   | (None, None) \<Rightarrow> answer \<lparr>ap_status = 404, ap_body = NoPayload\<rparr>)"

definition Handler :: "'x full_node \<Rightarrow> string \<Rightarrow> agent_req \<Rightarrow> ('x, agent_resp) op" where
  "Handler n token r = (case authMiddleware token (serve n) r of
     Unauthorized \<Rightarrow> answer (writeErr 401 (Errf ''unauthorized'' []))
   | Passed m \<Rightarrow> m)"

section \<open>The client\<close>

type_synonym 'x dial = "string \<Rightarrow> agent_req \<Rightarrow> ('x, agent_resp res) op"

record agent_client =
  ac_base :: string
  ac_token :: string

definition trim_right :: "char \<Rightarrow> string \<Rightarrow> string" where
  "trim_right c s = rev (dropWhile (\<lambda>d. d = c) (rev s))"

definition NewAgentNode :: "string \<Rightarrow> string \<Rightarrow> agent_client" where
  "NewAgentNode baseURL token = \<lparr>ac_base = trim_right CHR ''/'' baseURL, ac_token = token\<rparr>"

definition newRequest :: "agent_client \<Rightarrow> bool \<Rightarrow> string \<Rightarrow> (string \<times> string) list \<Rightarrow> payload \<Rightarrow> agent_req" where
  "newRequest a post path q body = \<lparr>hq_path = path, hq_auth = ''Bearer '' @ ac_token a, hq_session = None, hq_tls = False,
     hq_forwarded = [], aq_post = post, aq_query = q, aq_body = body\<rparr>"

text \<open>An \<open>agentError\<close> with the message of the server.\<close>

definition decodeAgentError :: "agent_resp \<Rightarrow> goerr" where
  "decodeAgentError resp = (case ap_body resp of
     ErrorResponse e \<Rightarrow> Wrapf ''agent: %s (status %d)'' [] e
   | Object obj \<Rightarrow> Errf ''agent: %s (status %d)'' [[]]
   | _ \<Rightarrow> Errf ''agent: unreadable error body: %v (status %d)'' [])"

definition doJSON :: "'x dial \<Rightarrow> agent_client \<Rightarrow> string \<Rightarrow> (string \<times> jval) list \<Rightarrow> ((string \<times> jval) list \<Rightarrow> 'a res)
    \<Rightarrow> ('x, 'a res) op" where
  "doJSON dial a path req decode = after (dial (ac_base a) (newRequest a True path [] (Object req))) (\<lambda>r. case r of
     Inl e \<Rightarrow> Inl e
   | Inr resp \<Rightarrow>
       if ap_status resp < 200 \<or> 300 \<le> ap_status resp then Inl (decodeAgentError resp)
       else (case ap_body resp of
         Object obj \<Rightarrow> decode obj | Malformed e \<Rightarrow> Inl e | _ \<Rightarrow> Inl (Errf ''EOF'' [])))"

text \<open>\<open>respBody == nil\<close>: the body of a success is not read.\<close>

definition doJSON_nil :: "'x dial \<Rightarrow> agent_client \<Rightarrow> string \<Rightarrow> (string \<times> jval) list \<Rightarrow> ('x, goerr option) op" where
  "doJSON_nil dial a path req = after (dial (ac_base a) (newRequest a True path [] (Object req))) (\<lambda>r. case r of
     Inl e \<Rightarrow> Some e
   | Inr resp \<Rightarrow> if ap_status resp < 200 \<or> 300 \<le> ap_status resp then Some (decodeAgentError resp) else None)"

text \<open>The requests that are not JSON, of which only a 200 is a success.\<close>

definition fetch :: "'x dial \<Rightarrow> agent_client \<Rightarrow> bool \<Rightarrow> string \<Rightarrow> (string \<times> string) list \<Rightarrow> payload \<Rightarrow> (payload \<Rightarrow> 'a res)
    \<Rightarrow> ('x, 'a res) op" where
  "fetch dial a post path q body k = after (dial (ac_base a) (newRequest a post path q body)) (\<lambda>r. case r of
     Inl e \<Rightarrow> Inl e
   | Inr resp \<Rightarrow> if ap_status resp \<noteq> 200 then Inl (decodeAgentError resp) else k (ap_body resp))"

definition err_of :: "unit res \<Rightarrow> goerr option" where
  "err_of r = (case r of Inl e \<Rightarrow> Some e | Inr _ \<Rightarrow> None)"

definition raw :: "payload \<Rightarrow> string res" where
  "raw b = Inr (case b of Stream s \<Rightarrow> s | _ \<Rightarrow> [])"

definition agent_node :: "'x dial \<Rightarrow> agent_client \<Rightarrow> 'x full_node" where
  "agent_node dial a = \<lparr>
     n_ping = after (fetch dial a False PathReady [] NoPayload (\<lambda>_. Inr ())) err_of,
     n_ensure_image = (\<lambda>ref. doJSON_nil dial a PathEnsureImage [(''ref'', JStr ref)]),
     n_ensure_network = (\<lambda>name. doJSON_nil dial a PathEnsureNetwork [(''name'', JStr name)]),
     n_run = (\<lambda>spec. doJSON dial a PathRun [(''spec'', JSpec spec)] (field ''container'' no_container sel_container)),
     n_remove = (\<lambda>i. doJSON_nil dial a PathRemove [(''id'', JStr i)]),
     n_list = (\<lambda>ls. doJSON dial a PathList [(''labels'', JMap ls)] (field ''containers'' [] sel_containers)),
     n_container_health = (\<lambda>i. doJSON dial a PathContainerHealth [(''id'', JStr i)]
       (\<lambda>obj. both (field ''state'' [] sel_str obj) (field ''dockerHealth'' [] sel_str obj))),
     n_connect = (\<lambda>cid net. doJSON_nil dial a PathConnectNetwork [(''containerId'', JStr cid), (''network'', JStr net)]),
     n_present = (\<lambda>ref. doJSON dial a PathImagePresent [(''ref'', JStr ref)] (field ''present'' False sel_bool)),
     n_save = (\<lambda>ref. fetch dial a False PathSave [(''ref'', ref)] NoPayload raw),
     n_load = (\<lambda>tar. after (fetch dial a True PathLoad [] (Stream tar) (\<lambda>_. Inr ())) err_of),
     n_capacity = fetch dial a False PathCapacity [] NoPayload (\<lambda>b. case b of
       CapacityObject c \<Rightarrow> Inr c | Malformed e \<Rightarrow> Inl e | _ \<Rightarrow> Inl (Errf ''EOF'' [])),
     n_health = (\<lambda>c h. doJSON_nil dial a PathHealth [(''container'', JContainer c), (''health'', JHealth h)]),
     n_logs = (\<lambda>i follow. fetch dial a False PathLogs [(''id'', i), (''follow'', if follow then ''true'' else ''false'')]
       NoPayload raw)\<rparr>"


section \<open>The agent's node is the node\<close>

text \<open>An error of the node as the client reports it.\<close>

definition through :: "goerr \<Rightarrow> goerr" where
  "through e = Wrapf ''agent: %s (status %d)'' [] e"

definition unit_through :: "('x, goerr option) op \<Rightarrow> ('x, goerr option) op" where
  "unit_through f = after f (map_option through)"

definition res_through :: "('x, 'a res) op \<Rightarrow> ('x, 'a res) op" where
  "res_through f = after f (map_sum through id)"

definition seen_through :: "'x full_node \<Rightarrow> 'x full_node" where
  "seen_through n = \<lparr>
     n_ping = unit_through (n_ping n),
     n_ensure_image = (\<lambda>ref. unit_through (n_ensure_image n ref)),
     n_ensure_network = (\<lambda>name. unit_through (n_ensure_network n name)),
     n_run = (\<lambda>spec. res_through (n_run n spec)),
     n_remove = (\<lambda>i. unit_through (n_remove n i)),
     n_list = (\<lambda>ls. res_through (n_list n ls)),
     n_container_health = (\<lambda>i. res_through (n_container_health n i)),
     n_connect = (\<lambda>cid net. unit_through (n_connect n cid net)),
     n_present = (\<lambda>ref. res_through (n_present n ref)),
     n_save = (\<lambda>ref. res_through (n_save n ref)),
     n_load = (\<lambda>tar. unit_through (n_load n tar)),
     n_capacity = res_through (n_capacity n),
     n_health = (\<lambda>c h. unit_through (n_health n c h)),
     n_logs = (\<lambda>i follow. res_through (n_logs n i follow))\<rparr>"

text \<open>A node that refuses everything and does nothing.\<close>

definition refused_node :: "'x full_node" where
  "refused_node = (let e = through (Errf ''unauthorized'' []) in \<lparr>
     n_ping = answer (Some e), n_ensure_image = (\<lambda>_. answer (Some e)), n_ensure_network = (\<lambda>_. answer (Some e)),
     n_run = (\<lambda>_. answer (Inl e)), n_remove = (\<lambda>_. answer (Some e)), n_list = (\<lambda>_. answer (Inl e)),
     n_container_health = (\<lambda>_. answer (Inl e)), n_connect = (\<lambda>_ _. answer (Some e)), n_present = (\<lambda>_. answer (Inl e)),
     n_save = (\<lambda>_. answer (Inl e)), n_load = (\<lambda>_. answer (Some e)), n_capacity = answer (Inl e),
     n_health = (\<lambda>_ _. answer (Some e)), n_logs = (\<lambda>_ _. answer (Inl e))\<rparr>)"

lemma after_after [simp]: "after (after f k) g = after f (\<lambda>r. g (k r))"
  by (auto simp: after_def split: prod.splits)

lemma after_answer [simp]: "after (answer r) k = answer (k r)"
  by (simp add: after_def answer_def)

lemma newRequest_sel [simp]:
  "hq_path (newRequest a p path q b) = path" "hq_auth (newRequest a p path q b) = ''Bearer '' @ ac_token a"
  "aq_post (newRequest a p path q b) = p" "aq_query (newRequest a p path q b) = q" "aq_body (newRequest a p path q b) = b"
  by (simp_all add: newRequest_def)

lemma Handler_request:
  "path \<noteq> PathHealthz \<Longrightarrow> Handler n token (newRequest a p path q b) =
     (if token \<noteq> [] \<and> ac_token a = token then serve n (newRequest a p path q b)
      else answer (writeErr 401 (Errf ''unauthorized'' [])))"
  using checkToken_bearer [of token "newRequest a p path q b"]
  by (auto simp: Handler_def authMiddleware_def)

lemma serve_get:
  "serve n (newRequest a False PathReady q b) = handleReady n"
  "serve n (newRequest a False PathCapacity q b) = handleCapacity n"
  "serve n (newRequest a False PathLogs q b) = handleLogs n (newRequest a False PathLogs q b)"
  "serve n (newRequest a False PathSave q b) = handleSave n (newRequest a False PathSave q b)"
  by (simp_all add: serve_def get_routes_def path_defs)

lemma serve_post:
  "serve n (newRequest a True PathEnsureImage q b) = handleEnsureImage n b"
  "serve n (newRequest a True PathImagePresent q b) = handleImagePresent n b"
  "serve n (newRequest a True PathEnsureNetwork q b) = handleEnsureNetwork n b"
  "serve n (newRequest a True PathConnectNetwork q b) = handleConnectNetwork n b"
  "serve n (newRequest a True PathRun q b) = handleRun n b"
  "serve n (newRequest a True PathRemove q b) = handleRemove n b"
  "serve n (newRequest a True PathList q b) = handleList n b"
  "serve n (newRequest a True PathHealth q b) = handleHealth n b"
  "serve n (newRequest a True PathContainerHealth q b) = handleContainerHealth n b"
  "serve n (newRequest a True PathLoad q b) = handleLoad n b"
  by (simp_all add: serve_def get_routes_def post_routes_def path_defs)

lemma not_healthz:
  "PathReady \<noteq> PathHealthz" "PathCapacity \<noteq> PathHealthz" "PathLogs \<noteq> PathHealthz" "PathSave \<noteq> PathHealthz"
  "PathEnsureImage \<noteq> PathHealthz" "PathImagePresent \<noteq> PathHealthz" "PathEnsureNetwork \<noteq> PathHealthz"
  "PathConnectNetwork \<noteq> PathHealthz" "PathRun \<noteq> PathHealthz" "PathRemove \<noteq> PathHealthz" "PathList \<noteq> PathHealthz"
  "PathHealth \<noteq> PathHealthz" "PathContainerHealth \<noteq> PathHealthz" "PathLoad \<noteq> PathHealthz"
  by (simp_all add: path_defs)

lemmas handler_defs = handleReady_def handleCapacity_def handleEnsureImage_def handleImagePresent_def handleEnsureNetwork_def
  handleConnectNetwork_def handleRun_def handleRemove_def handleList_def handleHealth_def handleContainerHealth_def
  handleLogs_def handleSave_def handleLoad_def

lemmas reply_defs = done_or_def value_or_def ping_reply_def stream_or_def writeErr_def writeJSON_def decodeAgentError_def
  through_def err_of_def raw_def

text \<open>What the client makes of each kind of reply.\<close>

lemma unit_reply:
  "(\<lambda>r. if ap_status (done_or 500 r) < 200 \<or> 300 \<le> ap_status (done_or 500 r) then Some (decodeAgentError (done_or 500 r)) else None)
     = map_option through"
  "(\<lambda>r. err_of (if ap_status (done_or 500 r) \<noteq> 200 then Inl (decodeAgentError (done_or 500 r)) else Inr ())) = map_option through"
  "(\<lambda>r. err_of (if ap_status (ping_reply r) \<noteq> 200 then Inl (decodeAgentError (ping_reply r)) else Inr ())) = map_option through"
  by (auto simp: fun_eq_iff reply_defs split: option.splits)

lemmas selectors = sel_str_def sel_bool_def sel_map_def sel_spec_def sel_container_def sel_containers_def sel_health_def

lemma field_head [simp]: "field name z sel ((name, v) # obj) = (case sel v of None \<Rightarrow> Inl (Errf ''json: cannot unmarshal'' [name]) | Some a \<Rightarrow> Inr a)"
  by (simp add: field_def)

lemma field_tail [simp]: "k \<noteq> name \<Longrightarrow> field name z sel ((k, v) # obj) = field name z sel obj"
  by (simp add: field_def)

lemma both_Inr [simp]: "both (Inr a) (Inr b) = Inr (a, b)"
  by (simp add: both_def)

lemma stream_reply:
  "(\<lambda>r. if ap_status (stream_or r) \<noteq> 200 then Inl (decodeAgentError (stream_or r)) else raw (ap_body (stream_or r)))
     = map_sum through id"
  by (auto simp: fun_eq_iff reply_defs split: sum.splits)

lemma capacity_reply:
  "(\<lambda>r. if ap_status (value_or r CapacityObject) \<noteq> 200 then Inl (decodeAgentError (value_or r CapacityObject))
       else (case ap_body (value_or r CapacityObject) of
         CapacityObject c \<Rightarrow> Inr c | Malformed e \<Rightarrow> Inl e | _ \<Rightarrow> Inl (Errf ''EOF'' []))) = map_sum through id"
  by (auto simp: fun_eq_iff reply_defs split: sum.splits)

lemma pair_reply:
  "(\<lambda>r. if ap_status (value_or r (\<lambda>(st, dh). Object [(''state'', JStr st), (''dockerHealth'', JStr dh)])) < 200 \<or>
          300 \<le> ap_status (value_or r (\<lambda>(st, dh). Object [(''state'', JStr st), (''dockerHealth'', JStr dh)]))
       then Inl (decodeAgentError (value_or r (\<lambda>(st, dh). Object [(''state'', JStr st), (''dockerHealth'', JStr dh)])))
       else (case ap_body (value_or r (\<lambda>(st, dh). Object [(''state'', JStr st), (''dockerHealth'', JStr dh)])) of
         Object obj \<Rightarrow> both (field ''state'' [] sel_str obj) (field ''dockerHealth'' [] sel_str obj)
       | Malformed e \<Rightarrow> Inl e | _ \<Rightarrow> Inl (Errf ''EOF'' []))) = map_sum through id"
  by (auto simp: fun_eq_iff reply_defs selectors split: sum.splits)

lemma one_reply:
  assumes "\<And>v. sel (mk v) = Some v"
  shows "(\<lambda>r. if ap_status (value_or r (\<lambda>v. Object [(name, mk v)])) < 200 \<or> 300 \<le> ap_status (value_or r (\<lambda>v. Object [(name, mk v)]))
       then Inl (decodeAgentError (value_or r (\<lambda>v. Object [(name, mk v)])))
       else (case ap_body (value_or r (\<lambda>v. Object [(name, mk v)])) of
         Object obj \<Rightarrow> field name z sel obj | Malformed e \<Rightarrow> Inl e | _ \<Rightarrow> Inl (Errf ''EOF'' []))) = map_sum through id"
  using assms by (auto simp: fun_eq_iff reply_defs split: sum.splits)

lemmas agent_replies = unit_reply stream_reply capacity_reply pair_reply
  one_reply [of sel_container JContainer] one_reply [of sel_containers JContainers] one_reply [of sel_bool JBool]

lemma ParseBool_bool: "ParseBool (if b then ''true'' else ''false'') = b"
  by (simp add: ParseBool_def)

text \<open>
  What carries a request to the agent and its response back, whole and once: a network that works, and a
  token and strings that a header and JSON can carry (no surrounding blanks, no control characters, UTF-8).
\<close>

definition wire :: "'x full_node \<Rightarrow> string \<Rightarrow> 'x dial" where
  "wire n token base r = after (Handler n token r) Inr"

locale agent_link =
  fixes dial :: "'x dial" and n :: "'x full_node" and token :: string
  assumes carries: "dial base r = after (Handler n token r) Inr"
begin

lemma refused:
  assumes "\<not> (token \<noteq> [] \<and> ac_token a = token)" and "path \<noteq> PathHealthz"
  shows "dial base (newRequest a p path q b) = answer (Inr (writeErr 401 (Errf ''unauthorized'' [])))"
  using assms by (auto simp: carries Handler_request)

lemma served:
  assumes "token \<noteq> []" and "ac_token a = token" and "path \<noteq> PathHealthz"
  shows "dial base (newRequest a p path q b) = after (serve n (newRequest a p path q b)) Inr"
  using assms by (simp add: carries Handler_request)

lemma agent_node_refused:
  assumes "\<not> (token \<noteq> [] \<and> ac_token a = token)"
  shows "agent_node dial a = refused_node"
  by (simp add: agent_node_def refused_node_def doJSON_def doJSON_nil_def fetch_def refused [OF assms] not_healthz
      writeErr_def writeJSON_def decodeAgentError_def through_def err_of_def Let_def)

lemma agent_node_served:
  assumes "token \<noteq> []" and "ac_token a = token"
  shows "agent_node dial a = seen_through n"
  unfolding agent_node_def seen_through_def doJSON_def doJSON_nil_def fetch_def
  by (simp add: served [OF assms] not_healthz serve_get serve_post handler_defs decodeJSON_def query_get_def ParseBool_bool
      selectors unit_through_def res_through_def agent_replies)

end

interpretation direct: agent_link "wire n token" n token for n token
  by unfold_locales (simp add: wire_def)


end
