(* ===== verification/Poll.thy ===== *)
theory Poll
  imports World
begin

text \<open>
  Waiting for something to come up: the polling loops of the reconciler
  (\<open>checkHealthPath\<close>, \<open>checkDockerHealth\<close>, \<open>checkLiveness\<close>,
  \<open>checkLivenessThroughRoute\<close> in \<open>src/internal/reconciler/reconciler.go\<close>) and of the router
  (\<open>waitForAdminReady\<close> in \<open>src/internal/router/router.go\<close>). Each is one step that decides or
  asks again, and the same loop around it; it ends because every round that does not stop sleeps,
  and time runs.
\<close>

section \<open>What is asked\<close>

definition healthPollInterval :: nat where "healthPollInterval = 50000000"
definition livenessSettle :: nat where "livenessSettle = 50000000"
definition adminReadyPollInterval :: nat where "adminReadyPollInterval = 250000000"
definition adminReadyTimeout :: int where "adminReadyTimeout = 10000000000"
definition defaultHealthTimeout :: int where "defaultHealthTimeout = 30000000000"

definition ProbeThroughCaddy :: "'x env \<Rightarrow> string \<Rightarrow> string \<Rightarrow> ('x sys, int res) state" where
  "ProbeThroughCaddy env host path = call (caddy_probe env host (if path = [] then ''/'' else path))"

definition pingAdmin :: "'x env \<Rightarrow> ('x sys, unit res) state" where
  "pingAdmin env = call (caddy_config env) \<bind> (\<lambda>r. ret (case r of Inl e \<Rightarrow> Inl e | Inr _ \<Rightarrow> Inr ()))"

datatype probe =
    PAdmin
  | PPath string string
  | PDocker node_ref string
  | PLive node_ref string string
  | PRoute string

text \<open>A round either stops the loop with its result, or goes on, with the error of a timeout.\<close>

datatype verdict = Stop "goerr option" | Again goerr

definition reachable_status :: "int res \<Rightarrow> bool" where
  "reachable_status r = (case r of Inl _ \<Rightarrow> False | Inr st \<Rightarrow> st \<noteq> 502 \<and> st \<noteq> 503)"

fun probe_step :: "'x env \<Rightarrow> probe \<Rightarrow> ('x sys, verdict) state" where
  "probe_step env PAdmin =
     attempt (pingAdmin env)
       (\<lambda>e. ret (Again (Wrapf ''router: caddy admin API at %s did not become ready within %s: %w'' [] e)))
       (\<lambda>_. ret (Stop None))"
| "probe_step env (PPath host path) =
     attempt (ProbeThroughCaddy env host path)
       (\<lambda>e. ret (Again (Wrapf ''health probe %s%s did not become ready: %w (last status %d)'' [host, path] e)))
       (\<lambda>status. ret (if 200 \<le> status \<and> status < 300 then Stop None
          else Again (Errf ''health probe %s%s did not become ready: timed out (last status %d)'' [host, path])))"
| "probe_step env (PDocker n cid) =
     attempt (call (n_container_health (node_at env n) cid))
       (\<lambda>e. ret (Stop (Some (Wrapf ''container health: %w'' [] e))))
       (\<lambda>(_, h). ret (if h = ''healthy'' then Stop None
          else if h = ''unhealthy'' then Stop (Some (Errf ''container reported unhealthy'' []))
          else Again (Errf ''docker healthcheck did not become healthy: timed out (last=%q)'' [h])))"
| "probe_step env (PLive n host cid) =
     attempt (call (n_container_health (node_at env n) cid))
       (\<lambda>e. ret (Stop (Some (Wrapf ''container health: %w'' [] e))))
       (\<lambda>(st, _). if st \<noteq> ''running''
          then ret (Stop (Some (Errf ''container is not running (state=%q)'' [st])))
          else ProbeThroughCaddy env host ''/'' \<bind> (\<lambda>r. ret (if reachable_status r then Stop None
            else Again (Errf ''liveness check timed out: state=%q last probe status=%d'' [st]))))"
| "probe_step env (PRoute domain) =
     ProbeThroughCaddy env domain ''/'' \<bind> (\<lambda>r. ret (if reachable_status r then Stop None
       else case r of
         Inl e \<Rightarrow> Again (Wrapf ''liveness probe %s did not become ready: %w (last status %d)'' [domain] e)
       | Inr _ \<Rightarrow> Again (Errf ''liveness check timed out: last probe status=%d'' [])))"

section \<open>The loop\<close>

text \<open>\<open>None\<close> is \<open>done = false\<close>; \<open>Some r\<close> is \<open>done = true\<close> with the context's error, if any.\<close>

definition waitOrDeadline :: "'x env \<Rightarrow> nat \<Rightarrow> int \<Rightarrow> ('x sys, goerr option option) state" where
  "waitOrDeadline env interval deadline =
     now \<bind> (\<lambda>t. if t > deadline then ret (Some None)
       else sleep env interval \<bind> (\<lambda>c. ret (case c of None \<Rightarrow> None | Some e \<Rightarrow> Some (Some e))))"

fun poll_interval :: "probe \<Rightarrow> nat" where
  "poll_interval PAdmin = adminReadyPollInterval"
| "poll_interval _ = healthPollInterval"

lemma poll_interval_pos: "0 < poll_interval p"
  by (cases p) (simp_all add: adminReadyPollInterval_def healthPollInterval_def)

lemma pres_probe_step [pres_rules]: "pres calm (probe_step env p)"
  by (cases p) (auto simp: ProbeThroughCaddy_def pingAdmin_def intro!: pres_rules)

lemma pres_waitOrDeadline [pres_rules]: "pres calm (waitOrDeadline env i d)"
  unfolding waitOrDeadline_def by (intro pres_rules)

lemma waitOrDeadline_None:
  "run_state (waitOrDeadline env i d) s = (None, s') \<Longrightarrow> clock s \<le> d \<and> clock s + int i \<le> clock s'"
  by (auto simp: waitOrDeadline_def now_def dest: sleep_takes split: if_splits prod.splits option.splits)

function poll :: "'x env \<Rightarrow> probe \<Rightarrow> int \<Rightarrow> 'x sys \<Rightarrow> unit res \<times> 'x sys" where
  "poll env p deadline s =
     (case run_state (probe_step env p) s of
        (Stop r, s1) \<Rightarrow> (unit_res r, s1)
      | (Again e, s1) \<Rightarrow>
          (case run_state (waitOrDeadline env (poll_interval p) deadline) s1 of
             (Some None, s2) \<Rightarrow> (Inl e, s2)
           | (Some (Some werr), s2) \<Rightarrow> (Inl werr, s2)
           | (None, s2) \<Rightarrow> poll env p deadline s2))"
  by pat_completeness auto
termination
proof (relation "measure (\<lambda>(env, p, d, s). nat (d + 1 - clock s))", goal_cases)
  case 1
  show ?case by simp
next
  case (2 env p d s v s1 e w s2)
  have "clock s \<le> clock s1"
    using presD [OF pres_probe_step, of env p s] 2
    by (metis aside_fields(10) calm_aside)
  moreover have "clock s1 \<le> d \<and> clock s1 + int (poll_interval p) \<le> clock s2"
    using waitOrDeadline_None 2 by metis
  ultimately show ?case using poll_interval_pos [of p] by simp
qed

declare poll.simps [simp del]

text \<open>Polling leaves the daemon's own state alone.\<close>

lemma poll_calm: "poll env p d s = (r, s') \<Longrightarrow> calm s s'"
proof (induction env p d s rule: poll.induct)
  case (1 env p d s)
  obtain v s1 where v: "run_state (probe_step env p) s = (v, s1)" by fastforce
  have c1: "calm s s1" using presD [OF pres_probe_step v] .
  show ?case
  proof (cases v)
    case (Stop x)
    then show ?thesis using 1(2) v c1 by (simp add: poll.simps)
  next
    case (Again e)
    obtain w s2 where w: "run_state (waitOrDeadline env (poll_interval p) d) s1 = (w, s2)" by fastforce
    have c2: "calm s s2" using presD [OF pres_waitOrDeadline w] c1 calm.trans by blast
    show ?thesis
    proof (cases w)
      case None
      then have "poll env p d s2 = (r, s')" using 1(2) v w Again by (simp add: poll.simps [of _ _ _ s])
      then have "calm s2 s'" using 1(1) [OF v [symmetric] Again w [symmetric]] None by simp
      then show ?thesis using c2 calm.trans by blast
    next
      case (Some y)
      then show ?thesis using 1(2) v w Again c2
        by (cases y) (simp_all add: poll.simps [of _ _ _ s])
    qed
  qed
qed

text \<open>It succeeds only by a round that said so, and that round is the last thing it did.\<close>

lemma poll_success:
  "poll env p d s = (Inr (), s') \<Longrightarrow>
     \<exists>s1. calm s s1 \<and> run_state (probe_step env p) s1 = (Stop None, s')"
proof (induction env p d s rule: poll.induct)
  case (1 env p d s)
  obtain v s1 where v: "run_state (probe_step env p) s = (v, s1)" by fastforce
  have c1: "calm s s1" using presD [OF pres_probe_step v] .
  show ?case
  proof (cases v)
    case (Stop x)
    then show ?thesis using 1(2) v calm.refl
      by (cases x) (auto simp: poll.simps [of _ _ _ s] unit_res_def)
  next
    case (Again e)
    obtain w s2 where w: "run_state (waitOrDeadline env (poll_interval p) d) s1 = (w, s2)" by fastforce
    have c2: "calm s s2" using presD [OF pres_waitOrDeadline w] c1 calm.trans by blast
    show ?thesis
    proof (cases w)
      case None
      then have "poll env p d s2 = (Inr (), s')" using 1(2) v w Again by (simp add: poll.simps [of _ _ _ s])
      then show ?thesis using 1(1) [OF v [symmetric] Again w [symmetric] None] c2 calm.trans by blast
    next
      case (Some y)
      then show ?thesis using 1(2) v w Again
        by (cases y) (simp_all add: poll.simps [of _ _ _ s])
    qed
  qed
qed

section \<open>The checks\<close>

definition checkHealthPath :: "'x env \<Rightarrow> int \<Rightarrow> string \<Rightarrow> string \<Rightarrow> ('x sys, unit res) state" where
  "checkHealthPath env deadline stagingHost path = State (poll env (PPath stagingHost path) deadline)"

definition checkDockerHealth :: "'x env \<Rightarrow> node_ref \<Rightarrow> int \<Rightarrow> string \<Rightarrow> ('x sys, unit res) state" where
  "checkDockerHealth env n deadline cid = State (poll env (PDocker n cid) deadline)"

definition settle_then :: "'x env \<Rightarrow> ('x sys, unit res) state \<Rightarrow> ('x sys, unit res) state" where
  "settle_then env m = sleep env livenessSettle \<bind>
     (\<lambda>c. case c of None \<Rightarrow> m | Some e \<Rightarrow> ret (Inl e))"

definition checkLiveness :: "'x env \<Rightarrow> node_ref \<Rightarrow> int \<Rightarrow> string \<Rightarrow> string \<Rightarrow> ('x sys, unit res) state" where
  "checkLiveness env n deadline stagingHost cid =
     settle_then env (State (poll env (PLive n stagingHost cid) deadline))"

definition checkLivenessThroughRoute :: "'x env \<Rightarrow> int \<Rightarrow> string \<Rightarrow> ('x sys, unit res) state" where
  "checkLivenessThroughRoute env deadline domain =
     settle_then env (State (poll env (PRoute domain) deadline))"

definition health_timeout :: "app \<Rightarrow> int" where
  "health_timeout a = (if h_timeout (a_health a) \<le> 0 then defaultHealthTimeout else h_timeout (a_health a))"

definition checkHealth :: "'x env \<Rightarrow> node_ref \<Rightarrow> app \<Rightarrow> string \<Rightarrow> string \<Rightarrow> ('x sys, unit res) state" where
  "checkHealth env n a stagingHost cid = do {
     t \<leftarrow> now;
     let deadline = t + health_timeout a;
     if h_path (a_health a) \<noteq> [] then checkHealthPath env deadline stagingHost (h_path (a_health a))
     else attempt (call (n_container_health (node_at env n) cid))
       (wrap_err ''container health: %w'' [])
       (\<lambda>(_, dockerHealth).
          if dockerHealth \<noteq> [] then checkDockerHealth env n deadline cid
          else checkLiveness env n deadline stagingHost cid)
   }"

definition checkHealthCompose :: "'x env \<Rightarrow> app \<Rightarrow> ('x sys, unit res) state" where
  "checkHealthCompose env a = do {
     t \<leftarrow> now;
     let deadline = t + health_timeout a;
     if h_path (a_health a) \<noteq> [] then checkHealthPath env deadline (a_domain a) (h_path (a_health a))
     else checkLivenessThroughRoute env deadline (a_domain a)
   }"

lemma pres_poll [pres_rules]: "pres calm (State (poll env p d))"
  by (rule presI) (simp add: poll_calm)

lemma pres_checkHealth [pres_rules]: "pres calm (checkHealth env n a h c)"
  unfolding checkHealth_def checkHealthPath_def checkDockerHealth_def checkLiveness_def settle_then_def Let_def
  by (intro pres_rules)

lemma pres_checkHealthCompose [pres_rules]: "pres calm (checkHealthCompose env a)"
  unfolding checkHealthCompose_def checkHealthPath_def checkLivenessThroughRoute_def settle_then_def Let_def
  by (intro pres_rules)

section \<open>What a passed health check means\<close>

lemma wp_poll [wp_rules]:
  assumes "\<And>r s'. calm s s' \<Longrightarrow>
     (r = Inr () \<Longrightarrow> \<exists>s1. calm s s1 \<and> run_state (probe_step env p) s1 = (Stop None, s')) \<Longrightarrow> Q r s'"
  shows "wp (State (poll env p d)) Q s"
  unfolding wp_def
  by (auto split: prod.splits intro!: assms dest: poll_calm poll_success)

lemma wp_call: "(\<And>r s'. calm s s' \<Longrightarrow> run_state (call f) s = (r, s') \<Longrightarrow> Q r s') \<Longrightarrow> wp (call f) Q s"
  by (auto simp: wp_iff dest: presD [OF pres_call])

lemma wp_sleep: "(\<And>r s'. calm s s' \<Longrightarrow> Q r s') \<Longrightarrow> wp (sleep env d) Q s"
  by (rule pres_wp [OF pres_sleep])

lemma wp_now: "Q (clock s) s \<Longrightarrow> wp now Q s"
  by (simp add: wp_def now_def)

definition probed_ok :: "'x env \<Rightarrow> string \<Rightarrow> string \<Rightarrow> (int \<Rightarrow> bool) \<Rightarrow> 'x sys \<Rightarrow> 'x sys \<Rightarrow> bool" where
  "probed_ok env host path ok s s' =
     (\<exists>st. run_state (ProbeThroughCaddy env host path) s = (Inr st, s') \<and> ok st)"

definition container_says :: "'x env \<Rightarrow> node_ref \<Rightarrow> string \<Rightarrow> (string \<times> string \<Rightarrow> bool) \<Rightarrow> 'x sys \<Rightarrow> 'x sys \<Rightarrow> bool" where
  "container_says env n cid P s s' =
     (\<exists>h. run_state (call (n_container_health (node_at env n) cid)) s = (Inr h, s') \<and> P h)"

definition health_evidence ::
  "'x env \<Rightarrow> node_ref \<Rightarrow> app \<Rightarrow> string \<Rightarrow> string \<Rightarrow> 'x sys \<Rightarrow> 'x sys \<Rightarrow> bool" where
  "health_evidence env n a host cid s s' =
     (if h_path (a_health a) \<noteq> []
      then probed_ok env host (h_path (a_health a)) (\<lambda>st. 200 \<le> st \<and> st < 300) s s'
      else container_says env n cid (\<lambda>(_, h). h = ''healthy'') s s' \<or>
           (\<exists>t. container_says env n cid (\<lambda>(st, _). st = ''running'') s t \<and>
                probed_ok env host ''/'' (\<lambda>st. st \<noteq> 502 \<and> st \<noteq> 503) t s'))"

lemma step_path:
  "run_state (probe_step env (PPath host path)) s = (Stop None, s') \<Longrightarrow>
     probed_ok env host path (\<lambda>st. 200 \<le> st \<and> st < 300) s s'"
  by (auto simp: probed_ok_def split: prod.splits sum.splits if_splits)

lemma step_docker:
  "run_state (probe_step env (PDocker n cid)) s = (Stop None, s') \<Longrightarrow>
     container_says env n cid (\<lambda>(_, h). h = ''healthy'') s s'"
  by (auto simp: container_says_def split: prod.splits sum.splits if_splits)

lemma step_live:
  "run_state (probe_step env (PLive n host cid)) s = (Stop None, s') \<Longrightarrow>
     \<exists>t. container_says env n cid (\<lambda>(st, _). st = ''running'') s t \<and>
         probed_ok env host ''/'' (\<lambda>st. st \<noteq> 502 \<and> st \<noteq> 503) t s'"
  by (fastforce simp: container_says_def probed_ok_def reachable_status_def
      split: prod.splits sum.splits if_splits)

declare probe_step.simps [simp del]

lemma poll_step: "poll env p d s = (Inr (), s') \<Longrightarrow> (\<And>s1. calm s s1 \<Longrightarrow>
     run_state (probe_step env p) s1 = (Stop None, s') \<Longrightarrow> thesis) \<Longrightarrow> thesis"
  using poll_success by blast

lemma checkHealth_evidence:
  assumes "run_state (checkHealth env n a host cid) s = (Inr (), s')"
  shows "\<exists>s1. calm s s1 \<and> health_evidence env n a host cid s1 s'"
proof (cases "h_path (a_health a) = []")
  case False
  then have "poll env (PPath host (h_path (a_health a))) (clock s + health_timeout a) s = (Inr (), s')"
    using assms by (simp add: checkHealth_def checkHealthPath_def now_def Let_def)
  then show ?thesis
    by (rule poll_step) (auto simp: health_evidence_def False dest: step_path)
next
  case True
  let ?d = "clock s + health_timeout a"
  obtain h s1 where h: "run_state (call (n_container_health (node_at env n) cid)) s = (h, s1)" by fastforce
  have c1: "calm s s1" by (rule presD [OF pres_call h])
  obtain st dh where hd: "h = Inr (st, dh)"
    using assms True h by (cases h) (auto simp: checkHealth_def now_def wrap_err_def Let_def)
  show ?thesis
  proof (cases "dh = []")
    case False
    then have "poll env (PDocker n cid) ?d s1 = (Inr (), s')"
      using assms True h hd by (simp add: checkHealth_def checkDockerHealth_def now_def Let_def)
    then show ?thesis
      by (rule poll_step) (auto simp: health_evidence_def True dest: step_docker calm.trans [OF c1])
  next
    case dh: True
    obtain w s2 where w: "run_state (sleep env livenessSettle) s1 = (w, s2)" by fastforce
    have c2: "calm s s2" by (rule calm.trans [OF c1 presD [OF pres_sleep w]])
    have "poll env (PLive n host cid) ?d s2 = (Inr (), s')"
      using assms True h hd dh w
      by (cases w) (simp_all add: checkHealth_def checkLiveness_def settle_then_def now_def Let_def)
    then show ?thesis
      by (rule poll_step) (auto simp: health_evidence_def True dest: step_live calm.trans [OF c2])
  qed
qed

text \<open>
  A health check that passed has evidence, and the evidence is the last thing it saw: with a
  path, a request through Caddy to the staging host answered 2xx; without one, Docker said
  \<open>healthy\<close>, or the container was running and Caddy reached it (not 502 or 503).
\<close>

lemma checkHealth_sound:
  "wp (checkHealth env n a host cid) (\<lambda>r s'. case r of
       Inl _ \<Rightarrow> calm s s'
     | Inr _ \<Rightarrow> calm s s' \<and> (\<exists>s1. calm s s1 \<and> health_evidence env n a host cid s1 s')) s"
  by (auto simp: wp_iff split: sum.splits dest: checkHealth_evidence presD [OF pres_checkHealth])


section \<open>How long the loop goes on\<close>

text \<open>The same loop, cut off after \<open>n\<close> rounds.\<close>

fun poll_rounds :: "nat \<Rightarrow> 'x env \<Rightarrow> probe \<Rightarrow> int \<Rightarrow> 'x sys \<Rightarrow> (unit res \<times> 'x sys) option" where
  "poll_rounds 0 env p deadline s = None"
| "poll_rounds (Suc n) env p deadline s =
     (case run_state (probe_step env p) s of
        (Stop r, s1) \<Rightarrow> Some (unit_res r, s1)
      | (Again e, s1) \<Rightarrow>
          (case run_state (waitOrDeadline env (poll_interval p) deadline) s1 of
             (Some None, s2) \<Rightarrow> Some (Inl e, s2)
           | (Some (Some werr), s2) \<Rightarrow> Some (Inl werr, s2)
           | (None, s2) \<Rightarrow> poll_rounds n env p deadline s2))"

lemma poll_rounds_enough:
  "d < clock s + int n * int (poll_interval p) \<Longrightarrow> poll_rounds (Suc n) env p d s = Some (poll env p d s)"
proof (induction n arbitrary: s)
  case 0
  obtain v s1 where v: "run_state (probe_step env p) s = (v, s1)" by fastforce
  have "clock s \<le> clock s1" using presD [OF pres_probe_step v] by (metis aside_fields(10) calm_aside)
  then have "\<not> clock s1 \<le> d" using 0 by simp
  then show ?case using v waitOrDeadline_None [of env _ d s1]
    by (auto simp: poll.simps [of _ _ _ s] split: verdict.splits prod.splits option.splits)
next
  case (Suc n)
  obtain v s1 where v: "run_state (probe_step env p) s = (v, s1)" by fastforce
  have c: "clock s \<le> clock s1" using presD [OF pres_probe_step v] by (metis aside_fields(10) calm_aside)
  obtain w s2 where w: "run_state (waitOrDeadline env (poll_interval p) d) s1 = (w, s2)" by fastforce
  have "poll_rounds (Suc n) env p d s2 = Some (poll env p d s2)" if "w = None"
  proof (rule Suc.IH)
    have "clock s1 + int (poll_interval p) \<le> clock s2" using waitOrDeadline_None w that by blast
    then show "d < clock s2 + int n * int (poll_interval p)" using Suc.prems c by (simp add: algebra_simps)
  qed
  then show ?case using v w
    unfolding poll_rounds.simps(2) [of "Suc n"] poll.simps [of _ _ _ s]
    by (simp split: verdict.split option.split del: poll_rounds.simps)
qed

text \<open>
  C22: a health check always comes to an end: whatever Docker and Caddy answer, the loop decides
  within two rounds more than there are poll intervals until its deadline.
\<close>

theorem poll_terminates:
  "poll_rounds (Suc (nat ((deadline - clock s) div int (poll_interval p) + 1))) env p deadline s =
     Some (poll env p deadline s)"
proof (rule poll_rounds_enough)
  let ?i = "int (poll_interval p)"
  have i: "0 < ?i" using poll_interval_pos [of p] by simp
  have "deadline - clock s < ((deadline - clock s) div ?i + 1) * ?i"
  proof -
    have "deadline - clock s = (deadline - clock s) div ?i * ?i + (deadline - clock s) mod ?i"
      by (rule div_mult_mod_eq [symmetric])
    then show ?thesis using pos_mod_bound [OF i, of "deadline - clock s"] by (simp only: distrib_right mult_1)
  qed
  also have "\<dots> \<le> int (nat ((deadline - clock s) div ?i + 1)) * ?i"
    using i by (intro mult_right_mono) simp_all
  finally show "deadline < clock s + int (nat ((deadline - clock s) div ?i + 1)) * ?i" by simp
qed

end
