(* ===== verification/Router.thy ===== *)
theory Router
  imports Poll
begin

text \<open>
  The router (\<open>CaddyRouter\<close> of \<open>src/internal/router/router.go\<close>): the committed route and staging
  tables, each change of which is first rendered, posted to Caddy and written to disk, and only
  then committed. \<open>acked\<close> is the configuration Caddy last acknowledged, \<open>on_disk\<close> the file
  written last.
\<close>

section \<open>Configuration\<close>

definition lwdNetwork :: string where "lwdNetwork = ''lwd''"
definition caddyContainerName :: string where "caddyContainerName = ''lwd-caddy''"
definition adminAddr :: string where "adminAddr = ''0.0.0.0:2019''"

definition postConfig :: "'x env \<Rightarrow> string \<Rightarrow> ('x sys, unit res) state" where
  "postConfig env caddyfile =
     attempt (call (caddy_load env caddyfile)) (\<lambda>e. ret (Inl e)) (\<lambda>status.
       if status < 200 \<or> status \<ge> 300
       then fail_with (Errf ''caddy admin /load returned %d: %s'' [])
       else do {
         modify (\<lambda>s. s\<lparr>acked := Some caddyfile\<rparr>);
         log_event (EvConfig caddyfile);
         ret (Inr ())
       })"

definition config_of :: "(string \<times> route) list \<Rightarrow> (string \<times> route) list \<Rightarrow> string" where
  "config_of rts stg = GenerateCaddyfile adminAddr (map snd rts @ map snd stg)"

definition applyConfig ::
  "'x env \<Rightarrow> (string \<times> route) list \<Rightarrow> (string \<times> route) list \<Rightarrow> ('x sys, unit res) state"
where
  "applyConfig env rts stg =
     (let caddyfile = config_of rts stg in
      attempt (postConfig env caddyfile) (wrap_err ''router: reload caddy: %w'' []) (\<lambda>_.
      if has_data_dir env then
        attempt (call_unit (make_data_dir env)) (wrap_err ''router: create data dir: %w'' []) (\<lambda>_.
        attempt (call_unit (write_caddyfile env caddyfile)) (wrap_err ''router: write caddyfile: %w'' [])
          (\<lambda>_. do { modify (\<lambda>s. s\<lparr>on_disk := Some caddyfile\<rparr>); ret (Inr ()) }))
      else ret (Inr ())))"

section \<open>The mutators\<close>

definition SetRoute :: "'x env \<Rightarrow> route \<Rightarrow> ('x sys, unit res) state" where
  "SetRoute env r = do {
     rts0 \<leftarrow> gets routes;
     stg \<leftarrow> gets staging;
     let rts = AList.update (rt_domain r) r rts0;
     attempt (applyConfig env rts stg) (\<lambda>e. ret (Inl e)) (\<lambda>_. do {
       modify (\<lambda>s. s\<lparr>routes := rts\<rparr>);
       ret (Inr ()) })
   }"

definition RemoveRoute :: "'x env \<Rightarrow> string \<Rightarrow> ('x sys, unit res) state" where
  "RemoveRoute env domain = do {
     rts0 \<leftarrow> gets routes;
     stg \<leftarrow> gets staging;
     let rts = AList.delete domain rts0;
     attempt (applyConfig env rts stg) (\<lambda>e. ret (Inl e)) (\<lambda>_. do {
       modify (\<lambda>s. s\<lparr>routes := rts\<rparr>);
       ret (Inr ()) })
   }"

definition SetStaging :: "'x env \<Rightarrow> string \<Rightarrow> upstream list \<Rightarrow> ('x sys, unit res) state" where
  "SetStaging env host ups = do {
     rts \<leftarrow> gets routes;
     stg0 \<leftarrow> gets staging;
     let stg = AList.update host \<lparr>rt_domain = host, rt_upstreams = ups, rt_tls_internal = True\<rparr> stg0;
     attempt (applyConfig env rts stg) (\<lambda>e. ret (Inl e)) (\<lambda>_. do {
       modify (\<lambda>s. s\<lparr>staging := stg\<rparr>);
       ret (Inr ()) })
   }"

definition RemoveStaging :: "'x env \<Rightarrow> string \<Rightarrow> ('x sys, unit res) state" where
  "RemoveStaging env host = do {
     rts \<leftarrow> gets routes;
     stg0 \<leftarrow> gets staging;
     let stg = AList.delete host stg0;
     attempt (applyConfig env rts stg) (\<lambda>e. ret (Inl e)) (\<lambda>_. do {
       modify (\<lambda>s. s\<lparr>staging := stg\<rparr>);
       ret (Inr ()) })
   }"

definition Reload :: "'x env \<Rightarrow> ('x sys, unit res) state" where
  "Reload env = do { rts \<leftarrow> gets routes; stg \<leftarrow> gets staging; applyConfig env rts stg }"

definition SeedRoutes :: "route list \<Rightarrow> ('x sys, unit) state" where
  "SeedRoutes rs = modify (\<lambda>s. s\<lparr>routes := fold (\<lambda>r m. AList.update (rt_domain r) r m) rs []\<rparr>)"

definition Healthy :: "'x env \<Rightarrow> ('x sys, bool) state" where
  "Healthy env = call (caddy_config env) \<bind>
     (\<lambda>r. ret (case r of Inl _ \<Rightarrow> False | Inr status \<Rightarrow> 200 \<le> status \<and> status < 300))"

section \<open>Bringing Caddy up\<close>

definition findCaddy :: "'x env \<Rightarrow> ('x sys, container option res) state" where
  "findCaddy env =
     attempt (call (n_list (node_at env LocalNode) [])) (\<lambda>e. ret (Inl e))
       (\<lambda>cs. ret (Inr (List.find (\<lambda>c. c_name c = caddyContainerName) cs)))"

definition waitForAdminReady :: "'x env \<Rightarrow> ('x sys, unit res) state" where
  "waitForAdminReady env = now \<bind> (\<lambda>t. State (poll env PAdmin (t + adminReadyTimeout)))"

definition caddy_spec :: run_spec where
  "caddy_spec =
     \<lparr>r_name = caddyContainerName, r_image = ''caddy:2'',
      r_env = [(''LWD_BOOTSTRAP_CADDYFILE'', GenerateCaddyfile adminAddr [])],
      r_labels = [(''lwd.role'', ''system'')], r_port = 0, r_network = lwdNetwork,
      r_publish = [\<lparr>p_host_ip = [], p_host_port = 80, p_container_port = 80\<rparr>,
                   \<lparr>p_host_ip = [], p_host_port = 443, p_container_port = 443\<rparr>,
                   \<lparr>p_host_ip = [], p_host_port = 2019, p_container_port = 2019\<rparr>],
      r_cmd = [''sh'', ''-c'',
        ''printf '' @ [CHR 0x27] @ ''%s'' @ [CHR 0x27] @
        '' \"$LWD_BOOTSTRAP_CADDYFILE\" > /etc/caddy/Caddyfile && exec caddy run --config /etc/caddy/Caddyfile --adapter caddyfile''],
      r_cpus = 0, r_memory = 0\<rparr>"

text \<open>Running a container, and removing one, on a node; both are logged.\<close>

definition RunContainer :: "'x env \<Rightarrow> node_ref \<Rightarrow> run_spec \<Rightarrow> ('x sys, container res) state" where
  "RunContainer env n sp = do {
     c \<leftarrow> call (n_run (node_at env n) sp);
     log_event (EvRun n sp c);
     ret c
   }"

definition RemoveContainer :: "'x env \<Rightarrow> node_ref \<Rightarrow> string \<Rightarrow> ('x sys, unit res) state" where
  "RemoveContainer env n cid = do {
     e \<leftarrow> call_unit (n_remove (node_at env n) cid);
     log_event (EvRemove n cid);
     ret e
   }"

text \<open>\<open>_ = f()\<close>: the error is dropped.\<close>

definition ignore :: "('s, 'a) state \<Rightarrow> ('s, unit) state" where
  "ignore m = m \<bind> (\<lambda>_. ret ())"

text \<open>The switch on the text of a failed create.\<close>

definition create_caddy :: "'x env \<Rightarrow> ('x sys, unit res) state" where
  "create_caddy env =
     attempt (RunContainer env LocalNode caddy_spec)
       (\<lambda>e. if err_mentions ''already allocated'' e \<or> err_mentions ''address already in use'' e
          then wrap_err ''router: cannot start lwd's ingress proxy - host port 80 or 443 is already in use: %w'' [] e
          else if err_mentions ''already in use'' e then do {
            again \<leftarrow> findCaddy env;
            (case again of
               Inr (Some c) \<Rightarrow> ignore (RemoveContainer env LocalNode (c_id c))
             | _ \<Rightarrow> ret ());
            attempt (RunContainer env LocalNode caddy_spec)
              (wrap_err ''router: run caddy container: %w'' []) (\<lambda>_. ret (Inr ()))
          }
          else wrap_err ''router: run caddy container: %w'' [] e)
       (\<lambda>_. ret (Inr ()))"

definition EnsureUp :: "'x env \<Rightarrow> ('x sys, unit res) state" where
  "EnsureUp env =
     attempt (call_unit (n_ensure_network (node_at env LocalNode) lwdNetwork))
       (wrap_err ''router: ensure network: %w'' []) (\<lambda>_.
     attempt (findCaddy env) (wrap_err ''router: check caddy container: %w'' []) (\<lambda>ct.
     attempt
       (case ct of
          Some c \<Rightarrow>
            if c_state c = ''running'' then ret (Inr ())
            else attempt (RemoveContainer env LocalNode (c_id c))
              (wrap_err ''router: remove stale caddy container: %w'' []) (\<lambda>_.
              attempt (call_unit (n_ensure_image (node_at env LocalNode) ''caddy:2''))
                (wrap_err ''router: ensure caddy image: %w'' []) (\<lambda>_. create_caddy env))
        | None \<Rightarrow>
            attempt (call_unit (n_ensure_image (node_at env LocalNode) ''caddy:2''))
              (wrap_err ''router: ensure caddy image: %w'' []) (\<lambda>_. create_caddy env))
       (\<lambda>e. ret (Inl e)) (\<lambda>_.
     attempt (waitForAdminReady env) (\<lambda>e. ret (Inl e)) (\<lambda>_. Reload env))))"

section \<open>Frames of the router\<close>

text \<open>
  \<open>edge_only\<close>: the database and the reconciler's bookkeeping are untouched; \<open>edge_quiet\<close>:
  the committed tables are too, though Caddy and the file may have changed.
\<close>

definition kept_core :: "'x sys \<Rightarrow> db \<times> (string \<times> remote_entry) list \<times> (string \<times> heal_state) list
    \<times> (string \<times> int) list \<times> health \<times> bool" where
  "kept_core s = (sdb s, remotes s, heals s, unreachable_since s, health_view s, nudged s)"

definition edge_only :: "'x sys \<Rightarrow> 'x sys \<Rightarrow> bool" where
  "edge_only s s' = (later s s' \<and> kept_core s' = kept_core s)"

definition edge_quiet :: "'x sys \<Rightarrow> 'x sys \<Rightarrow> bool" where
  "edge_quiet s s' = (edge_only s s' \<and> routes s' = routes s \<and> staging s' = staging s)"

interpretation edge_only: frame edge_only
  by unfold_locales (auto simp: edge_only_def intro: later.refl later.trans)

interpretation edge_quiet: frame edge_quiet
  by unfold_locales (auto simp: edge_quiet_def intro: edge_only.refl edge_only.trans)

lemma edge_only_fields:
  assumes "edge_only s s'"
  shows "sdb s' = sdb s" "remotes s' = remotes s" "heals s' = heals s"
    "unreachable_since s' = unreachable_since s" "health_view s' = health_view s"
    "nudged s' = nudged s" "clock s \<le> clock s'" "prefix (trace s) (trace s')"
  using assms by (simp_all add: edge_only_def later_def kept_core_def)

lemma edge_quiet_only: "edge_quiet s s' \<Longrightarrow> edge_only s s'"
  by (simp add: edge_quiet_def)

lemma calm_edge_quiet: "calm s s' \<Longrightarrow> edge_quiet s s'"
  by (simp add: calm_def aside_def kept_def edge_quiet_def edge_only_def kept_core_def)

lemma pres_calm_edge: "pres calm m \<Longrightarrow> pres edge_quiet m"
  by (erule pres_mono) (rule calm_edge_quiet)

lemma pres_quiet_only: "pres edge_quiet m \<Longrightarrow> pres edge_only m"
  by (erule pres_mono) (rule edge_quiet_only)

lemmas edge_leaves [pres_rules] =
  pres_call [THEN pres_calm_edge] pres_call_unit [THEN pres_calm_edge]
  pres_log [THEN pres_calm_edge] pres_now [THEN pres_calm_edge]
  pres_wrap [THEN pres_calm_edge] pres_poll [THEN pres_calm_edge]

lemma pres_acked [pres_rules]: "pres edge_quiet (modify (\<lambda>s. s\<lparr>acked := v\<rparr>))"
  by (rule presI) (auto simp: edge_quiet_def edge_only_def later_def kept_core_def)

lemma pres_on_disk [pres_rules]: "pres edge_quiet (modify (\<lambda>s. s\<lparr>on_disk := v\<rparr>))"
  by (rule presI) (auto simp: edge_quiet_def edge_only_def later_def kept_core_def)

lemma pres_postConfig [pres_rules]: "pres edge_quiet (postConfig env f)"
  unfolding postConfig_def by (intro pres_rules)

lemma pres_applyConfig [pres_rules]: "pres edge_quiet (applyConfig env rts stg)"
  unfolding applyConfig_def by (intro pres_rules)

lemma pres_Reload [pres_rules]: "pres edge_quiet (Reload env)"
  unfolding Reload_def by (intro pres_rules)

lemma pres_RunContainer [pres_rules]: "pres calm (RunContainer env n sp)"
  unfolding RunContainer_def by (intro pres_rules)

lemma pres_RemoveContainer [pres_rules]: "pres calm (RemoveContainer env n c)"
  unfolding RemoveContainer_def by (intro pres_rules)

lemma pres_findCaddy [pres_rules]: "pres calm (findCaddy env)"
  unfolding findCaddy_def by (intro pres_rules)

lemma pres_ignore_calm [pres_rules]: "pres calm m \<Longrightarrow> pres calm (ignore m)"
  unfolding ignore_def by (intro pres_rules)

lemma pres_create_caddy [pres_rules]: "pres calm (create_caddy env)"
  unfolding create_caddy_def by (intro pres_rules)

lemma pres_waitForAdminReady [pres_rules]: "pres calm (waitForAdminReady env)"
  unfolding waitForAdminReady_def by (intro pres_rules)

lemmas router_leaves [pres_rules] =
  pres_RunContainer [THEN pres_calm_edge] pres_RemoveContainer [THEN pres_calm_edge]
  pres_findCaddy [THEN pres_calm_edge] pres_create_caddy [THEN pres_calm_edge]
  pres_waitForAdminReady [THEN pres_calm_edge]

lemma pres_EnsureUp [pres_rules]: "pres edge_quiet (EnsureUp env)"
  unfolding EnsureUp_def by (intro pres_rules)

section \<open>Caddy and the committed tables agree\<close>

definition in_sync :: "'x sys \<Rightarrow> bool" where
  "in_sync s = (acked s = Some (config_of (routes s) (staging s)))"

lemma applyConfig_ok:
  assumes "run_state (applyConfig env rts stg) s = (Inr (), s')"
  shows "acked s' = Some (config_of rts stg) \<and> (has_data_dir env \<longrightarrow> on_disk s' = Some (config_of rts stg))
     \<and> routes s' = routes s \<and> staging s' = staging s \<and> edge_only s s'"
proof -
  have "edge_quiet s s'" by (rule presD [OF pres_applyConfig assms])
  moreover have "acked s' = Some (config_of rts stg) \<and>
     (has_data_dir env \<longrightarrow> on_disk s' = Some (config_of rts stg))"
    using assms
    by (auto simp: applyConfig_def postConfig_def call_def call_unit_def log_event_def wrap_err_def
        unit_res_def Let_def split: prod.splits sum.splits option.splits if_splits)
  ultimately show ?thesis by (simp add: edge_quiet_def)
qed

lemma applyConfig_err:
  assumes "run_state (applyConfig env rts stg) s = (Inl e, s')"
  shows "routes s' = routes s \<and> staging s' = staging s \<and> edge_only s s'"
  using presD [OF pres_applyConfig assms] by (simp add: edge_quiet_def)

text \<open>One statement for the four mutators: \<open>f\<close> is what a success commits.\<close>

definition commits :: "('x sys \<Rightarrow> 'x sys) \<Rightarrow> ('x sys, unit res) state \<Rightarrow> bool" where
  "commits f m = (\<forall>s r s'. run_state m s = (r, s') \<longrightarrow>
     edge_only s s' \<and>
     (case r of
        Inl _ \<Rightarrow> routes s' = routes s \<and> staging s' = staging s
      | Inr _ \<Rightarrow> routes s' = routes (f s) \<and> staging s' = staging (f s) \<and> in_sync s'))"

lemma commitsD:
  "commits f m \<Longrightarrow> run_state m s = (r, s') \<Longrightarrow> edge_only s s' \<and>
     (case r of
        Inl _ \<Rightarrow> routes s' = routes s \<and> staging s' = staging s
      | Inr _ \<Rightarrow> routes s' = routes (f s) \<and> staging s' = staging (f s) \<and> in_sync s')"
  by (simp add: commits_def)

lemma edge_only_tables:
  "edge_only s s' \<Longrightarrow> edge_only s (s'\<lparr>routes := a\<rparr>)" "edge_only s s' \<Longrightarrow> edge_only s (s'\<lparr>staging := b\<rparr>)"
  by (simp_all add: edge_only_def later_def kept_core_def)

lemma commits_SetRoute:
  "commits (\<lambda>s. s\<lparr>routes := AList.update (rt_domain r) r (routes s)\<rparr>) (SetRoute env r)"
  unfolding commits_def SetRoute_def
  by (auto simp: Let_def in_sync_def edge_only_tables split: prod.splits sum.splits
      dest!: applyConfig_ok applyConfig_err)

lemma commits_RemoveRoute:
  "commits (\<lambda>s. s\<lparr>routes := AList.delete d (routes s)\<rparr>) (RemoveRoute env d)"
  unfolding commits_def RemoveRoute_def
  by (auto simp: Let_def in_sync_def edge_only_tables split: prod.splits sum.splits
      dest!: applyConfig_ok applyConfig_err)

lemma commits_SetStaging:
  "commits (\<lambda>s. s\<lparr>staging := AList.update h \<lparr>rt_domain = h, rt_upstreams = ups, rt_tls_internal = True\<rparr> (staging s)\<rparr>)
     (SetStaging env h ups)"
  unfolding commits_def SetStaging_def
  by (auto simp: Let_def in_sync_def edge_only_tables split: prod.splits sum.splits
      dest!: applyConfig_ok applyConfig_err)

lemma commits_RemoveStaging:
  "commits (\<lambda>s. s\<lparr>staging := AList.delete h (staging s)\<rparr>) (RemoveStaging env h)"
  unfolding commits_def RemoveStaging_def
  by (auto simp: Let_def in_sync_def edge_only_tables split: prod.splits sum.splits
      dest!: applyConfig_ok applyConfig_err)

section \<open>A table of the router as an interface\<close>

text \<open>
  What a deploy relies on: a change of a table is committed together with Caddy's
  configuration, or not at all.
\<close>

locale transactional_table =
  fixes tbl :: "'x sys \<Rightarrow> (string \<times> route) list"
    and put :: "'x env \<Rightarrow> route \<Rightarrow> ('x sys, unit res) state"
    and drop :: "'x env \<Rightarrow> string \<Rightarrow> ('x sys, unit res) state"
    and stored :: "route \<Rightarrow> route"
  assumes put_ok: "run_state (put env r) s = (Inr u, s') \<Longrightarrow>
      tbl s' = AList.update (rt_domain r) (stored r) (tbl s) \<and> in_sync s'"
    and put_err: "run_state (put env r) s = (Inl e, s') \<Longrightarrow> tbl s' = tbl s"
    and drop_ok: "run_state (drop env k) s = (Inr u, s') \<Longrightarrow> tbl s' = AList.delete k (tbl s) \<and> in_sync s'"
    and drop_err: "run_state (drop env k) s = (Inl e, s') \<Longrightarrow> tbl s' = tbl s"
begin

lemma put_lookup:
  "run_state (put env r) s = (Inr u, s') \<Longrightarrow>
     map_of (tbl s') d = (if d = rt_domain r then Some (stored r) else map_of (tbl s) d)"
  using put_ok by (simp add: update_conv')

lemma drop_lookup:
  "run_state (drop env k) s = (Inr u, s') \<Longrightarrow>
     map_of (tbl s') d = (if d = k then None else map_of (tbl s) d)"
  using drop_ok by (simp add: delete_conv')

lemma put_others:
  "run_state (put env r) s = (res, s') \<Longrightarrow> d \<noteq> rt_domain r \<Longrightarrow> map_of (tbl s') d = map_of (tbl s) d"
  by (cases res) (auto simp: put_lookup put_err)

lemma drop_others:
  "run_state (drop env k) s = (res, s') \<Longrightarrow> d \<noteq> k \<Longrightarrow> map_of (tbl s') d = map_of (tbl s) d"
  by (cases res) (auto simp: drop_lookup drop_err)

end

interpretation route_table: transactional_table routes SetRoute RemoveRoute "\<lambda>r. r"
  by unfold_locales
     (auto dest!: commitsD [OF commits_SetRoute] commitsD [OF commits_RemoveRoute])

lemma staged_route: "\<lparr>rt_domain = rt_domain r, rt_upstreams = rt_upstreams r, rt_tls_internal = True\<rparr>
    = r\<lparr>rt_tls_internal := True\<rparr>"
  by (cases r) simp

interpretation staging_table: transactional_table staging
  "\<lambda>env r. SetStaging env (rt_domain r) (rt_upstreams r)" RemoveStaging "\<lambda>r. r\<lparr>rt_tls_internal := True\<rparr>"
  by unfold_locales
     (auto simp: staged_route dest!: commitsD [OF commits_SetStaging] commitsD [OF commits_RemoveStaging])

lemma commits_pres: "commits f m \<Longrightarrow> pres edge_only m"
  by (rule presI) (auto dest: commitsD)

lemma pres_mutators [pres_rules]:
  "pres edge_only (SetRoute env r)" "pres edge_only (RemoveRoute env d)"
  "pres edge_only (SetStaging env h ups)" "pres edge_only (RemoveStaging env h)"
  using commits_pres commits_SetRoute commits_RemoveRoute commits_SetStaging commits_RemoveStaging
  by blast+

text \<open>The staging mutators leave the live routes alone.\<close>

lemma staging_keeps_routes:
  "run_state (SetStaging env h ups) s = (r, s') \<Longrightarrow> routes s' = routes s"
  "run_state (RemoveStaging env h) s = (r, s') \<Longrightarrow> routes s' = routes s"
  by (auto dest!: commitsD [OF commits_SetStaging] commitsD [OF commits_RemoveStaging] split: sum.splits)

section \<open>What the mutators promise\<close>

text \<open>
  C9: \<open>SetRoute\<close> is a transaction: on success the domain, and only it, maps to the new route,
  Caddy has acknowledged the configuration generated from exactly the committed tables, and the
  file on disk is that configuration; on an error both tables are what they were.
\<close>

theorem SetRoute_transactional:
  "wp (SetRoute env r) (\<lambda>res s'.
     staging s' = staging s \<and> sdb s' = sdb s \<and>
     (case res of
        Inl _ \<Rightarrow> routes s' = routes s
      | Inr _ \<Rightarrow> (\<forall>d. map_of (routes s') d = (if d = rt_domain r then Some r else map_of (routes s) d))
               \<and> in_sync s' \<and> on_disk s' = (if has_data_dir env then acked s' else on_disk s))) s"
  unfolding wp_iff
proof (intro allI impI)
  fix res s'
  assume run: "run_state (SetRoute env r) s = (res, s')"
  note c = commitsD [OF commits_SetRoute run]
  have disk: "on_disk s' = (if has_data_dir env then acked s' else on_disk s)" if "res = Inr ()"
    using run that
    by (auto simp: SetRoute_def applyConfig_def postConfig_def call_def call_unit_def log_event_def
        wrap_err_def unit_res_def Let_def split: prod.splits sum.splits option.splits if_splits)
  show "staging s' = staging s \<and> sdb s' = sdb s \<and>
     (case res of
        Inl _ \<Rightarrow> routes s' = routes s
      | Inr _ \<Rightarrow> (\<forall>d. map_of (routes s') d = (if d = rt_domain r then Some r else map_of (routes s) d))
               \<and> in_sync s' \<and> on_disk s' = (if has_data_dir env then acked s' else on_disk s))"
    using c edge_only_fields(1) [of s s'] disk
    by (auto simp: update_conv' split: sum.splits)
qed

text \<open>Any event but handing Caddy a configuration.\<close>

definition beyond_config :: "event \<Rightarrow> bool" where
  "beyond_config e = (case e of EvConfig _ \<Rightarrow> False | _ \<Rightarrow> True)"

definition new_events :: "'x sys \<Rightarrow> 'x sys \<Rightarrow> event list" where
  "new_events s s' = drop (length (trace s)) (trace s')"

text \<open>Steps that log nothing but configurations.\<close>

definition only_config :: "'x sys \<Rightarrow> 'x sys \<Rightarrow> bool" where
  "only_config s s' = (\<exists>es. trace s' = trace s @ es \<and> list_all (\<lambda>e. \<not> beyond_config e) es)"

interpretation only_config: frame only_config
  by unfold_locales (auto simp: only_config_def)

lemma pres_only_config [pres_rules]:
  "pres only_config (call f)" "pres only_config (call_unit g)" "pres only_config now"
  "pres only_config (wrap_err fmt as e)" "pres only_config (modify (\<lambda>s. s\<lparr>acked := v\<rparr>))"
  "pres only_config (modify (\<lambda>s. s\<lparr>on_disk := v\<rparr>))" "pres only_config (log_event (EvConfig f'))"
  "pres only_config (sleep env d)"
  by (auto intro!: presI simp: only_config_def call_def call_unit_def now_def wrap_err_def
      log_event_def beyond_config_def sleep_def split: prod.splits option.splits)

lemma pres_only_config_config [pres_rules]: "pres only_config (applyConfig env rts stg)"
  unfolding applyConfig_def postConfig_def by (intro pres_rules)

lemma pres_only_config_probe [pres_rules]: "pres only_config (probe_step env p)"
  by (cases p) (auto simp: probe_step.simps ProbeThroughCaddy_def pingAdmin_def intro!: pres_rules)

lemma pres_only_config_wait [pres_rules]: "pres only_config (waitOrDeadline env i d)"
  unfolding waitOrDeadline_def by (intro pres_rules)

lemma poll_only_config: "poll env p d s = (r, s') \<Longrightarrow> only_config s s'"
proof (induction env p d s rule: poll.induct)
  case (1 env p d s)
  obtain v s1 where v: "run_state (probe_step env p) s = (v, s1)" by fastforce
  have c1: "only_config s s1" using presD [OF pres_only_config_probe v] .
  show ?case
  proof (cases v)
    case (Stop x)
    then show ?thesis using 1(2) v c1 by (simp add: poll.simps)
  next
    case (Again e)
    obtain w s2 where w: "run_state (waitOrDeadline env (poll_interval p) d) s1 = (w, s2)" by fastforce
    have c2: "only_config s s2"
      using presD [OF pres_only_config_wait w] c1 only_config.trans by blast
    show ?thesis
    proof (cases w)
      case None
      then have "poll env p d s2 = (r, s')" using 1(2) v w Again by (simp add: poll.simps [of _ _ _ s])
      then show ?thesis using 1(1) [OF v [symmetric] Again w [symmetric] None] c2 only_config.trans by blast
    next
      case (Some y)
      then show ?thesis using 1(2) v w Again c2
        by (cases y) (simp_all add: poll.simps [of _ _ _ s])
    qed
  qed
qed

lemma pres_only_config_wait_admin [pres_rules]: "pres only_config (waitForAdminReady env)"
  unfolding waitForAdminReady_def
  by (intro pres_rules presI) (auto dest: poll_only_config)

lemma pres_only_config_find [pres_rules]: "pres only_config (findCaddy env)"
  unfolding findCaddy_def by (intro pres_rules)

lemma pres_only_config_reload [pres_rules]: "pres only_config (Reload env)"
  unfolding Reload_def by (intro pres_rules)

text \<open>
  \<open>EnsureUp\<close> never changes a route: when it succeeds Caddy runs the configuration of the
  committed tables, seeded ones included.
\<close>

lemma EnsureUp_keeps_routes:
  "wp (EnsureUp env) (\<lambda>r s'.
     routes s' = routes s \<and> staging s' = staging s \<and> sdb s' = sdb s \<and>
     (case r of Inl _ \<Rightarrow> True | Inr _ \<Rightarrow> in_sync s')) s"
  unfolding wp_iff
proof (intro allI impI)
  fix r s'
  assume run: "run_state (EnsureUp env) s = (r, s')"
  have q: "edge_quiet s s'" by (rule presD [OF pres_EnsureUp run])
  have "in_sync s'" if "r = Inr ()"
  proof -
    have "\<exists>t. run_state (Reload env) t = (Inr (), s')"
      using run that unfolding EnsureUp_def
      by (auto simp: wrap_err_def split: prod.splits sum.splits)
    then show ?thesis
      by (auto simp: Reload_def in_sync_def dest!: applyConfig_ok)
  qed
  then show "routes s' = routes s \<and> staging s' = staging s \<and> sdb s' = sdb s \<and>
     (case r of Inl _ \<Rightarrow> True | Inr _ \<Rightarrow> in_sync s')"
    using q edge_only_fields(1) [of s s'] by (cases r) (auto simp: edge_quiet_def)
qed

text \<open>
  An \<open>lwd-caddy\<close> found running is adopted: bringing the router up then starts and removes no
  container, whatever the outcome.
\<close>

lemma EnsureUp_adopts:
  assumes net: "run_state (call_unit (n_ensure_network (node_at env LocalNode) lwdNetwork)) s = (Inr (), s1)"
    and found: "run_state (findCaddy env) s1 = (Inr (Some c), s2)" and up: "c_state c = ''running''"
    and run: "run_state (EnsureUp env) s = (r, s')"
  shows "list_all (\<lambda>e. \<not> beyond_config e) (new_events s s')"
proof -
  have "run_state (EnsureUp env) s =
     run_state (attempt (waitForAdminReady env) (\<lambda>e. ret (Inl e)) (\<lambda>_. Reload env)) s2"
    using net found up by (simp add: EnsureUp_def)
  moreover have "pres only_config (attempt (waitForAdminReady env) (\<lambda>e. ret (Inl e)) (\<lambda>_. Reload env))"
    by (intro pres_rules)
  ultimately have n2: "only_config s2 s'" using presD run by metis
  have n1: "only_config s s1" using presD [OF pres_only_config(2) net] .
  have "only_config s1 s2" using presD [OF pres_only_config_find found] .
  then have "only_config s s'" using n1 n2 only_config.trans by blast
  then show ?thesis by (auto simp: only_config_def new_events_def)
qed

end
