(* ===== verification/Placement.thy ===== *)
theory Placement
  imports Resolver
begin

text \<open>
  Where a surface runs (\<open>src/internal/reconciler/schedule.go\<close>): gathering the candidates of a
  pool from the registry and their live capacity, and handing them to the scheduler.
\<close>

section \<open>Requirements of an app\<close>

definition reqCPU :: "app \<Rightarrow> rat" where
  "reqCPU a = (case a_requirements a of None \<Rightarrow> 0 | Some q \<Rightarrow> q_cpu q)"

definition reqMem :: "app \<Rightarrow> int" where
  "reqMem a = (case a_requirements a of None \<Rightarrow> 0
     | Some q \<Rightarrow> (case ParseSize (q_memory q) of Inl _ \<Rightarrow> 0 | Inr b \<Rightarrow> b))"

definition poolOf :: "app \<Rightarrow> string" where
  "poolOf a = (if a_pool a = [] then ''default'' else a_pool a)"

definition excludes :: "string list \<Rightarrow> string \<Rightarrow> bool" where
  "excludes exclude name = list_ex (\<lambda>x. x = name) exclude"

lemma excludes_iff [simp]: "excludes xs n \<longleftrightarrow> n \<in> set xs"
  by (auto simp: excludes_def list_ex_iff)

section \<open>Candidates\<close>

definition capacityBounded :: "'x env \<Rightarrow> node_ref \<Rightarrow> ('x sys, capacity res) state" where
  "capacityBounded env n = call (n_capacity (node_at env n))"

text \<open>The body of the loop over the registered nodes.\<close>

definition remote_candidate :: "'x env \<Rightarrow> node_row \<Rightarrow> ('x sys, node_info) state" where
  "remote_candidate env n = do {
     lost \<leftarrow> known_unreachable env (nd_name n);
     let info = (\<lambda>ok cap. \<lparr>i_name = nd_name n, i_pool = nd_pool n, i_reachable = ok,
                           i_schedulable = nd_schedulable n, i_cap = cap\<rparr>);
     if lost then ret (info False no_capacity)
     else Resolve env (nd_name n) \<bind> (\<lambda>target. case target of
       Inl _ \<Rightarrow> ret (info False no_capacity)
     | Inr t \<Rightarrow> capacityBounded env t \<bind> (\<lambda>c. ret (case c of
         Inl _ \<Rightarrow> info False no_capacity
       | Inr cap \<Rightarrow> info True cap)))
   }"

fun gather :: "'x env \<Rightarrow> string \<Rightarrow> string list \<Rightarrow> node_row list \<Rightarrow> ('x sys, node_info list) state" where
  "gather env pool exclude [] = ret []"
| "gather env pool exclude (n # ns) =
     (if nd_pool n \<noteq> pool \<or> excludes exclude (nd_name n) then gather env pool exclude ns
      else do {
        c \<leftarrow> remote_candidate env n;
        cs \<leftarrow> gather env pool exclude ns;
        ret (c # cs)
      })"

definition local_candidate :: "'x env \<Rightarrow> ('x sys, node_info list) state" where
  "local_candidate env =
     localNode env \<bind> (\<lambda>l. case l of
       Inl _ \<Rightarrow> ret []
     | Inr n \<Rightarrow> capacityBounded env n \<bind> (\<lambda>c. ret
         [\<lparr>i_name = ''local'', i_pool = ''default'', i_reachable = True, i_schedulable = True,
           i_cap = (case c of Inl _ \<Rightarrow> no_capacity | Inr cap \<Rightarrow> cap)\<rparr>]))"

definition schedulableCandidates :: "'x env \<Rightarrow> app \<Rightarrow> string list \<Rightarrow> ('x sys, node_info list) state" where
  "schedulableCandidates env a exclude = do {
     let pool = poolOf a;
     locals \<leftarrow> (if pool = ''default'' \<and> \<not> excludes exclude ''local'' then local_candidate env else ret []);
     r \<leftarrow> ListNodes env;
     rest \<leftarrow> gather env pool exclude (case r of Inl _ \<Rightarrow> [] | Inr ns \<Rightarrow> ns);
     ret (locals @ rest)
   }"

definition app_req :: "app \<Rightarrow> sched_req" where
  "app_req a = \<lparr>sr_cpu = reqCPU a, sr_mem = reqMem a\<rparr>"

definition placeExcludingSet :: "'x env \<Rightarrow> app \<Rightarrow> string list \<Rightarrow> ('x sys, string res) state" where
  "placeExcludingSet env a exclude = do {
     candidates \<leftarrow> schedulableCandidates env a exclude;
     ret (Place candidates (poolOf a) (app_req a))
   }"

definition placeExcluding :: "'x env \<Rightarrow> app \<Rightarrow> string \<Rightarrow> ('x sys, string res) state" where
  "placeExcluding env a exclude = placeExcludingSet env a [exclude]"

definition resolvePlacement :: "'x env \<Rightarrow> app \<Rightarrow> ('x sys, (string \<times> bool) res) state" where
  "resolvePlacement env a =
     (if a_node a \<noteq> [] then ret (Inr (a_node a, False))
      else do {
        candidates \<leftarrow> schedulableCandidates env a [];
        ret (case Place candidates (poolOf a) (app_req a) of
          Inl e \<Rightarrow> Inl e | Inr chosen \<Rightarrow> Inr (chosen, True))
      })"

section \<open>Spreading replicas\<close>

text \<open>
  One replica beyond the first: a node not used so far, or, when there is none, the most free
  one. The rule is written out twice in the source, here and in \<open>deployReplicaSet\<close>.
\<close>

definition spread_step :: "'x env \<Rightarrow> app \<Rightarrow> string list \<Rightarrow> ('x sys, string res) state" where
  "spread_step env a used =
     attempt (placeExcludingSet env a used) (\<lambda>_. placeExcludingSet env a []) (\<lambda>n. ret (Inr n))"

fun spread_more :: "'x env \<Rightarrow> app \<Rightarrow> nat \<Rightarrow> string list \<Rightarrow> ('x sys, string list res) state" where
  "spread_more env a 0 nodes = ret (Inr nodes)"
| "spread_more env a (Suc k) nodes =
     attempt (spread_step env a nodes) (\<lambda>e. ret (Inl e)) (\<lambda>n. spread_more env a k (nodes @ [n]))"

definition placeReplicas :: "'x env \<Rightarrow> app \<Rightarrow> int \<Rightarrow> ('x sys, (string list \<times> bool) res) state" where
  "placeReplicas env a n0 =
     (let n = (if n0 \<le> 0 then 1 else nat n0) in
      if a_node a \<noteq> [] \<and> a_node a \<noteq> ''local'' then ret (Inr (replicate n (a_node a), False))
      else attempt (placeExcludingSet env a []) (\<lambda>e. ret (Inl e)) (\<lambda>first.
           attempt (spread_more env a (n - 1) [first]) (\<lambda>e. ret (Inl e)) (\<lambda>nodes. ret (Inr (nodes, True)))))"

section \<open>Frames\<close>

lemma pres_capacityBounded [pres_rules]: "pres calm (capacityBounded env n)"
  unfolding capacityBounded_def by (intro pres_rules)

lemmas placement_leaves [pres_rules] =
  pres_capacityBounded [THEN pres_calm_aside] pres_store_reads [THEN pres_calm_aside]

lemma pres_remote_candidate [pres_rules]: "pres aside (remote_candidate env n)"
  unfolding remote_candidate_def Let_def by (intro pres_rules)

lemma pres_gather [pres_rules]: "pres aside (gather env pool ex ns)"
  by (induction ns) (auto intro!: pres_rules)

lemma pres_local_candidate [pres_rules]: "pres aside (local_candidate env)"
  unfolding local_candidate_def by (intro pres_rules)

lemma pres_schedulableCandidates [pres_rules]: "pres aside (schedulableCandidates env a ex)"
  unfolding schedulableCandidates_def Let_def by (intro pres_rules)

lemma pres_placeExcludingSet [pres_rules]: "pres aside (placeExcludingSet env a ex)"
  unfolding placeExcludingSet_def by (intro pres_rules)

lemma pres_placeExcluding [pres_rules]: "pres aside (placeExcluding env a x)"
  unfolding placeExcluding_def by (intro pres_rules)

lemma pres_resolvePlacement [pres_rules]: "pres aside (resolvePlacement env a)"
  unfolding resolvePlacement_def by (intro pres_rules)

lemma pres_spread_step [pres_rules]: "pres aside (spread_step env a used)"
  unfolding spread_step_def by (intro pres_rules)

lemma pres_spread_more [pres_rules]: "pres aside (spread_more env a k nodes)"
  by (induction k arbitrary: nodes) (auto intro!: pres_rules)

section \<open>What placement promises\<close>

text \<open>A node the scheduler may use for an app, from what the registry says.\<close>

definition placeable :: "db \<Rightarrow> app \<Rightarrow> string \<Rightarrow> bool" where
  "placeable t a n =
     ((n = ''local'' \<and> poolOf a = ''default'') \<or>
      (\<exists>row \<in> set (db_nodes t). nd_name row = n \<and> nd_schedulable row \<and> nd_pool row = poolOf a))"

definition candidate_ok :: "db \<Rightarrow> app \<Rightarrow> string list \<Rightarrow> node_info \<Rightarrow> bool" where
  "candidate_ok t a ex c =
     (i_name c \<notin> set ex \<and>
      ((i_name c = ''local'' \<and> poolOf a = ''default'') \<or>
       (\<exists>row \<in> set (db_nodes t). nd_name row = i_name c \<and> nd_schedulable row = i_schedulable c \<and> nd_pool row = poolOf a)))"

lemma remote_candidate_row:
  "run_state (remote_candidate env n) s = (c, s') \<Longrightarrow>
     i_name c = nd_name n \<and> i_schedulable c = nd_schedulable n \<and> i_pool c = nd_pool n"
  by (auto simp: remote_candidate_def Let_def split: prod.splits sum.splits if_splits)

lemma gather_ok:
  "run_state (gather env pool ex ns) s = (cs, s') \<Longrightarrow> c \<in> set cs \<Longrightarrow>
     \<exists>n \<in> set ns. i_name c = nd_name n \<and> i_schedulable c = nd_schedulable n \<and> nd_pool n = pool \<and> nd_name n \<notin> set ex"
proof (induction ns arbitrary: s cs)
  case Nil
  then show ?case by simp
next
  case (Cons n ns)
  show ?case
  proof (cases "nd_pool n \<noteq> pool \<or> excludes ex (nd_name n)")
    case True
    then show ?thesis using Cons by auto
  next
    case False
    then obtain c0 s1 cs0 where "run_state (remote_candidate env n) s = (c0, s1)"
      "run_state (gather env pool ex ns) s1 = (cs0, s')" "cs = c0 # cs0"
      using Cons.prems(1) by (auto split: prod.splits)
    then show ?thesis using Cons.IH Cons.prems(2) False remote_candidate_row
      by (metis (no_types, lifting) excludes_iff list.set_intros set_ConsD)
  qed
qed

lemma ListNodes_result:
  "run_state (ListNodes env) s = (Inr ns, s') \<Longrightarrow> ns = sql_list_nodes (sdb s)"
  by (auto simp: ListNodes_def wrap_err_def split: prod.splits sum.splits dest!: db_read_result)

lemma local_candidate_name:
  "run_state (local_candidate env) s = (cs, s') \<Longrightarrow> c \<in> set cs \<Longrightarrow> i_name c = ''local'' \<and> i_schedulable c"
  by (auto simp: local_candidate_def split: prod.splits sum.splits)

lemma schedulableCandidates_ok:
  assumes run: "run_state (schedulableCandidates env a ex) s = (cs, s')" and c: "c \<in> set cs"
  shows "candidate_ok (sdb s) a ex c"
proof -
  let ?loc = "if poolOf a = ''default'' \<and> \<not> excludes ex ''local'' then local_candidate env else ret []"
  obtain ls s1 r s2 rest where l: "run_state ?loc s = (ls, s1)"
    and r: "run_state (ListNodes env) s1 = (r, s2)"
    and g: "run_state (gather env (poolOf a) ex (case r of Inl _ \<Rightarrow> [] | Inr ns \<Rightarrow> ns)) s2 = (rest, s')"
    and cs: "cs = ls @ rest"
    using run by (auto simp: schedulableCandidates_def Let_def split: prod.splits)
  have "pres aside ?loc" by (intro pres_rules)
  then have d1: "sdb s1 = sdb s" using aside_fields(1) presD l by metis
  from c cs consider "c \<in> set ls" | "c \<in> set rest" by auto
  then show ?thesis
  proof cases
    case 1
    then show ?thesis using l local_candidate_name [of env s ls s1 c]
      by (auto simp: candidate_ok_def split: if_splits)
  next
    case 2
    obtain n where n: "n \<in> set (case r of Inl _ \<Rightarrow> [] | Inr ns \<Rightarrow> ns)" "i_name c = nd_name n"
      "i_schedulable c = nd_schedulable n" "nd_pool n = poolOf a" "nd_name n \<notin> set ex"
      using gather_ok [OF g 2] by blast
    then have "n \<in> set (db_nodes (sdb s))" using r d1
      by (cases r) (auto dest!: ListNodes_result)
    then show ?thesis using n by (auto simp: candidate_ok_def)
  qed
qed

lemma Place_candidate_ok:
  assumes "\<And>c. c \<in> set cs \<Longrightarrow> candidate_ok t a ex c" and "Place cs pool req = Inr n"
  shows "n \<notin> set ex \<and> placeable t a n"
proof -
  obtain c where "c \<in> set cs" "i_name c = n" "eligible pool req c"
    using Place_choice [OF assms(2)] by blast
  moreover have "i_schedulable c" using calculation(3) by (auto simp: eligible_def in_pool_def split: if_splits)
  ultimately show ?thesis using assms(1) [of c] by (auto simp: candidate_ok_def placeable_def)
qed

lemma placeExcludingSet_wp:
  "wp (placeExcludingSet env a exclude) (\<lambda>r s'. sdb s' = sdb s \<and> routes s' = routes s \<and>
     (case r of Inl _ \<Rightarrow> True | Inr n \<Rightarrow> n \<notin> set exclude \<and> placeable (sdb s) a n)) s"
  unfolding wp_iff
proof (intro allI impI)
  fix r s'
  assume run: "run_state (placeExcludingSet env a exclude) s = (r, s')"
  then obtain cs where "run_state (schedulableCandidates env a exclude) s = (cs, s')"
    "r = Place cs (poolOf a) (app_req a)"
    by (auto simp: placeExcludingSet_def split: prod.splits)
  then have "case r of Inl _ \<Rightarrow> True | Inr n \<Rightarrow> n \<notin> set exclude \<and> placeable (sdb s) a n"
    using schedulableCandidates_ok Place_candidate_ok by (metis (no_types, lifting) old.sum.exhaust sum.case)
  then show "sdb s' = sdb s \<and> routes s' = routes s \<and>
     (case r of Inl _ \<Rightarrow> True | Inr n \<Rightarrow> n \<notin> set exclude \<and> placeable (sdb s) a n)"
    using aside_fields [OF presD [OF pres_placeExcludingSet run]] by simp
qed

text \<open>
  A surface is only ever placed on the host itself, for an app of the default pool, or on a
  registered node of the app's pool that is not cordoned, and never on an excluded one; placing
  changes no table of the daemon.
\<close>

lemma placeExcludingSet_sound:
  "wp (placeExcludingSet env a exclude) (\<lambda>r s'. sdb s' = sdb s \<and> routes s' = routes s \<and>
     (case r of Inl _ \<Rightarrow> True | Inr n \<Rightarrow> n \<notin> set exclude \<and> placeable (sdb s) a n)) s"
  by (rule placeExcludingSet_wp)

lemma placeExcludingSet_ok:
  "run_state (placeExcludingSet env a ex) s = (Inr n, s') \<Longrightarrow> n \<notin> set ex \<and> placeable (sdb s) a n \<and> sdb s' = sdb s"
  using wp_run [OF placeExcludingSet_wp] by fastforce

lemma placeExcludingSet_db:
  "run_state (placeExcludingSet env a ex) s = (r, s') \<Longrightarrow> sdb s' = sdb s"
  using aside_fields(1) presD [OF pres_placeExcludingSet] by metis

lemma resolvePlacement_wp:
  "wp (resolvePlacement env a) (\<lambda>r s'. sdb s' = sdb s \<and>
     (case r of
        Inl _ \<Rightarrow> a_node a = []
      | Inr (n, scheduled) \<Rightarrow>
          if a_node a = [] then scheduled \<and> placeable (sdb s) a n
          else \<not> scheduled \<and> n = a_node a \<and> s' = s)) s"
proof (cases "a_node a = []")
  case False
  then show ?thesis by (simp add: resolvePlacement_def wp_def)
next
  case True
  have "wp (resolvePlacement env a) (\<lambda>r s'. sdb s' = sdb s \<and>
     (case r of Inl _ \<Rightarrow> True | Inr (n, scheduled) \<Rightarrow> scheduled \<and> placeable (sdb s) a n)) s"
    unfolding wp_iff
  proof (intro allI impI)
    fix r s'
    assume run: "run_state (resolvePlacement env a) s = (r, s')"
    then obtain cs where cs: "run_state (schedulableCandidates env a []) s = (cs, s')"
      "r = (case Place cs (poolOf a) (app_req a) of Inl e \<Rightarrow> Inl e | Inr c \<Rightarrow> Inr (c, True))"
      using True by (auto simp: resolvePlacement_def split: prod.splits)
    have "case r of Inl _ \<Rightarrow> True | Inr (n, scheduled) \<Rightarrow> scheduled \<and> placeable (sdb s) a n"
      using cs Place_candidate_ok [OF schedulableCandidates_ok [OF cs(1)]]
      by (auto split: sum.splits)
    then show "sdb s' = sdb s \<and>
       (case r of Inl _ \<Rightarrow> True | Inr (n, scheduled) \<Rightarrow> scheduled \<and> placeable (sdb s) a n)"
      using aside_fields(1) [OF presD [OF pres_resolvePlacement run]] by simp
  qed
  then show ?thesis by (rule wp_weaken) (auto simp: True split: sum.splits)
qed

text \<open>
  A pinned app, \<open>local\<close> included, stays where its spec says and is not the scheduler's; an
  app without a node is placed by the scheduler and marked as its own.
\<close>

lemma resolvePlacement_provenance:
  "wp (resolvePlacement env a) (\<lambda>r s'. sdb s' = sdb s \<and>
     (case r of
        Inl _ \<Rightarrow> a_node a = []
      | Inr (n, scheduled) \<Rightarrow>
          if a_node a = [] then scheduled \<and> placeable (sdb s) a n
          else \<not> scheduled \<and> n = a_node a \<and> s' = s)) s"
  by (rule resolvePlacement_wp)

lemma spread_step_ok:
  assumes "run_state (spread_step env a used) s = (Inr n, s')"
  shows "placeable (sdb s) a n \<and> sdb s' = sdb s"
proof -
  obtain r s1 where r: "run_state (placeExcludingSet env a used) s = (r, s1)" by fastforce
  show ?thesis
  proof (cases r)
    case (Inl e)
    then have "run_state (placeExcludingSet env a []) s1 = (Inr n, s')"
      using assms r by (simp add: spread_step_def)
    then show ?thesis using placeExcludingSet_ok placeExcludingSet_db [OF r] by metis
  next
    case (Inr m)
    then have "m = n" "s' = s1" using assms r by (simp_all add: spread_step_def)
    then show ?thesis using r Inr placeExcludingSet_ok by metis
  qed
qed

lemma spread_more_ok:
  "run_state (spread_more env a k nodes) s = (Inr ns, s') \<Longrightarrow>
     \<exists>more. ns = nodes @ more \<and> length more = k \<and> list_all (placeable (sdb s) a) more"
proof (induction k arbitrary: nodes s)
  case 0
  then show ?case by simp
next
  case (Suc k)
  obtain n s1 where n: "run_state (spread_step env a nodes) s = (Inr n, s1)"
    and r: "run_state (spread_more env a k (nodes @ [n])) s1 = (Inr ns, s')"
    using Suc.prems by (auto split: prod.splits sum.splits)
  have ok: "placeable (sdb s) a n" "sdb s1 = sdb s" using spread_step_ok [OF n] by auto
  obtain more where "ns = (nodes @ [n]) @ more" "length more = k" "list_all (placeable (sdb s1) a) more"
    using Suc.IH [OF r] by blast
  then show ?case using ok by (intro exI [of _ "n # more"]) simp
qed

text \<open>
  A replica set has exactly the requested number of nodes, at least one; a pinned app's are
  all its own node, otherwise each is a node the scheduler may use.
\<close>

lemma placeReplicas_sound:
  "wp (placeReplicas env a n) (\<lambda>r s'.
     (case r of
        Inl _ \<Rightarrow> True
      | Inr (nodes, scheduled) \<Rightarrow> length nodes = max 1 (nat n) \<and>
          scheduled = (a_node a = [] \<or> a_node a = ''local'') \<and>
          list_all (\<lambda>x. if scheduled then placeable (sdb s) a x else x = a_node a) nodes)) s"
  unfolding wp_iff
proof (intro allI impI)
  fix r s'
  assume run: "run_state (placeReplicas env a n) s = (r, s')"
  show "case r of
        Inl _ \<Rightarrow> True
      | Inr (nodes, scheduled) \<Rightarrow> length nodes = max 1 (nat n) \<and>
          scheduled = (a_node a = [] \<or> a_node a = ''local'') \<and>
          list_all (\<lambda>x. if scheduled then placeable (sdb s) a x else x = a_node a) nodes"
  proof (cases "a_node a \<noteq> [] \<and> a_node a \<noteq> ''local''")
    case True
    then show ?thesis using run by (auto simp: placeReplicas_def list_all_iff max_def split: if_splits)
  next
    case False
    show ?thesis
    proof (cases r)
      case (Inr p)
      obtain first s1 nodes where f: "run_state (placeExcludingSet env a []) s = (Inr first, s1)"
        and m: "run_state (spread_more env a ((if n \<le> 0 then 1 else nat n) - 1) [first]) s1 = (Inr nodes, s')"
        and p: "p = (nodes, True)"
        using run False Inr by (auto simp: placeReplicas_def Let_def split: prod.splits sum.splits)
      have ok: "placeable (sdb s) a first" "sdb s1 = sdb s" using placeExcludingSet_ok [OF f] by auto
      show ?thesis using spread_more_ok [OF m] ok p Inr False
        by (auto simp: max_def split: if_splits)
    qed simp
  qed
qed

text \<open>
  The two readings of \<open>node = "local"\<close>: \<open>resolvePlacement\<close> takes it as a pin, \<open>placeReplicas\<close> as
  no node at all.
\<close>

lemma local_is_pinned:
  "a_node a = ''local'' \<Longrightarrow> run_state (resolvePlacement env a) s = (Inr (''local'', False), s)"
  by (simp add: resolvePlacement_def)

lemma placeExcludingSet_node_irrelevant:
  "placeExcludingSet env (a\<lparr>a_node := n\<rparr>) ex = placeExcludingSet env a ex"
  by (simp add: placeExcludingSet_def schedulableCandidates_def poolOf_def app_req_def reqCPU_def reqMem_def)

lemma spread_more_node_irrelevant:
  "spread_more env (a\<lparr>a_node := n\<rparr>) k nodes = spread_more env a k nodes"
  by (induction k arbitrary: nodes) (simp_all add: spread_step_def placeExcludingSet_node_irrelevant)

lemma placeReplicas_local_unpinned:
  "placeReplicas env (a\<lparr>a_node := ''local''\<rparr>) n = placeReplicas env (a\<lparr>a_node := []\<rparr>) n"
  by (simp add: placeReplicas_def placeExcludingSet_node_irrelevant spread_more_node_irrelevant)

end
