(* ===== verification/Secrets.thy ===== *)
theory Secrets
  imports Store
begin

text \<open>
  Package \<open>secrets\<close> (\<open>src/internal/secrets/cipher.go\<close>, \<open>store.go\<close>): the key file, the
  nonce-prefixed AES-GCM blobs and the per-app store. AES-GCM itself is the pair \<open>gcm_seal\<close>,
  \<open>gcm_open\<close> of the environment; \<open>aead_ok\<close> is its documented inverse law.
\<close>

section \<open>The cipher\<close>

definition keySize :: nat where "keySize = 32"
definition nonceSize :: nat where "nonceSize = 12"

definition aead_ok :: "'x env \<Rightarrow> bool" where
  "aead_ok env = (\<forall>k n p. gcm_open env k n (gcm_seal env k n p) = Inr p)"

definition rand_ok :: "'x env \<Rightarrow> bool" where
  "rand_ok env = (\<forall>n x b dt y. rand_bytes env n x = (Inr b, dt, y) \<longrightarrow> length b = n)"

definition loadOrCreateKey :: "'x env \<Rightarrow> ('x sys, string res) state" where
  "loadOrCreateKey env =
     attempt (call (key_read env)) (wrap_err ''read key file: %w'' []) (\<lambda>data. case data of
       Some key \<Rightarrow>
         if length key \<noteq> keySize
         then fail_with (Errf ''key file %s is %d bytes, want %d'' [])
         else ret (Inr key)
     | None \<Rightarrow>
         attempt (call_unit (key_mkdir env)) (wrap_err ''mkdir key dir: %w'' []) (\<lambda>_.
         attempt (call (rand_bytes env keySize)) (wrap_err ''generate key: %w'' []) (\<lambda>key.
         attempt (call_unit (key_write env key)) (wrap_err ''write key file: %w'' []) (\<lambda>_.
         ret (Inr key)))))"

definition Encrypt :: "'x env \<Rightarrow> string \<Rightarrow> ('x sys, string res) state" where
  "Encrypt env plaintext =
     attempt (call (rand_bytes env nonceSize)) (wrap_err ''nonce: %w'' [])
       (\<lambda>nonce. ret (Inr (nonce @ gcm_seal env (cipher_key env) nonce plaintext)))"

definition Decrypt :: "'x env \<Rightarrow> string \<Rightarrow> string res" where
  "Decrypt env blob =
     (if length blob < nonceSize then Inl (Errf ''ciphertext too short'' [])
      else case gcm_open env (cipher_key env) (take nonceSize blob) (drop nonceSize blob) of
        Inl e \<Rightarrow> Inl (Wrapf ''decrypt: %w'' [] e)
      | Inr pt \<Rightarrow> Inr pt)"

section \<open>The per-app store\<close>

definition secret_Set :: "'x env \<Rightarrow> string \<Rightarrow> string \<Rightarrow> string \<Rightarrow> ('x sys, unit res) state" where
  "secret_Set env app key v =
     attempt (Encrypt env v) (wrap_err ''encrypt: %w'' []) (\<lambda>enc. SetSecret env app key enc)"

definition secret_Get :: "'x env \<Rightarrow> string \<Rightarrow> string \<Rightarrow> ('x sys, string option res) state" where
  "secret_Get env app key =
     attempt (GetSecret env app key) (\<lambda>e. ret (Inl e)) (\<lambda>enc. case enc of
       None \<Rightarrow> ret (Inr None)
     | Some blob \<Rightarrow> (case Decrypt env blob of
         Inl e \<Rightarrow> wrap_err ''decrypt %s/%s: %w'' [app, key] e
       | Inr pt \<Rightarrow> ret (Inr (Some pt))))"

definition secret_List :: "'x env \<Rightarrow> string \<Rightarrow> ('x sys, string list res) state" where
  "secret_List env app = ListSecretKeys env app"

definition secret_Delete :: "'x env \<Rightarrow> string \<Rightarrow> string \<Rightarrow> ('x sys, unit res) state" where
  "secret_Delete env app key = DeleteSecret env app key"

fun resolve_from :: "'x env \<Rightarrow> string \<Rightarrow> env_map \<Rightarrow> string list \<Rightarrow> ('x sys, env_map res) state" where
  "resolve_from env app out [] = ret (Inr out)"
| "resolve_from env app out (name # names) =
     attempt (secret_Get env app name) (\<lambda>e. ret (Inl e)) (\<lambda>v. case v of
       None \<Rightarrow> fail_with (Errf ''secret %q is not set for app %q'' [name, app])
     | Some pt \<Rightarrow> resolve_from env app (AList.update name pt out) names)"

definition Resolve_secrets :: "'x env \<Rightarrow> string \<Rightarrow> string list \<Rightarrow> ('x sys, env_map res) state" where
  "Resolve_secrets env app names = resolve_from env app [] names"

section \<open>Frames\<close>

lemma pres_secret_Get [pres_rules]: "pres calm (secret_Get env a k)"
  unfolding secret_Get_def by (intro pres_rules)

lemma pres_Encrypt [pres_rules]: "pres calm (Encrypt env v)"
  unfolding Encrypt_def by (intro pres_rules)

lemma pres_resolve_from: "pres calm (resolve_from env a out ns)"
  by (induction ns arbitrary: out) (auto intro!: pres_rules)

lemma pres_Resolve_secrets [pres_rules]: "pres calm (Resolve_secrets env a ns)"
  unfolding Resolve_secrets_def by (rule pres_resolve_from)

section \<open>What the store promises\<close>

text \<open>The value a name resolves to in a table.\<close>

definition secret_value :: "'x env \<Rightarrow> db \<Rightarrow> string \<Rightarrow> string \<Rightarrow> string option" where
  "secret_value env t app key = (case sql_get_secret app key t of
     None \<Rightarrow> None
   | Some blob \<Rightarrow> (case Decrypt env blob of Inl _ \<Rightarrow> None | Inr pt \<Rightarrow> Some pt))"

lemma secret_Get_result:
  "run_state (secret_Get env a k) s = (Inr v, s') \<Longrightarrow> v = secret_value env (sdb s) a k"
  by (auto simp: secret_Get_def secret_value_def wrap_err_def split: prod.splits sum.splits option.splits
      dest!: GetSecret_result)

lemma Decrypt_Encrypt:
  assumes "aead_ok env" "rand_ok env" "run_state (Encrypt env v) s = (Inr blob, s')"
  shows "Decrypt env blob = Inr v"
proof -
  obtain nonce where n: "length nonce = nonceSize" "blob = nonce @ gcm_seal env (cipher_key env) nonce v"
    using assms(2,3) unfolding Encrypt_def call_def wrap_err_def rand_ok_def
    by (auto split: prod.splits sum.splits) blast
  then show ?thesis using assms(1) by (simp add: Decrypt_def aead_ok_def)
qed

text \<open>
  C24: a stored secret is read back as it was set, and setting it changes no other secret.
\<close>

theorem secret_roundtrip:
  assumes "aead_ok env" "rand_ok env" "wf_db (sdb s)"
    and "run_state (secret_Set env app key v) s = (Inr (), s')"
  shows "secret_value env (sdb s') a k =
     (if (a, k) = (app, key) then Some v else secret_value env (sdb s) a k)"
proof -
  obtain blob s1 where enc: "run_state (Encrypt env v) s = (Inr blob, s1)"
    and set: "run_state (SetSecret env app key blob) s1 = (Inr (), s')"
    using assms(4) by (auto simp: secret_Set_def wrap_err_def split: prod.splits sum.splits)
  have d1: "sdb s1 = sdb s" using aside_fields(1) calm_aside presD [OF pres_Encrypt enc] by metis
  have "sdb s' = sql_set_secret app key blob (sdb s)"
    using writesD [OF writes_store(4) set] d1 by simp
  then have "sql_get_secret a k (sdb s') = (if (a, k) = (app, key) then Some blob else sql_get_secret a k (sdb s))"
    using secret_table.lookup_upsert [OF assms(3), of "(a, k)" "(app, key)"] by simp
  then show ?thesis using Decrypt_Encrypt [OF assms(1,2) enc] by (simp add: secret_value_def)
qed

lemma resolve_from_ok:
  "run_state (resolve_from env app out ns) s = (Inr m, s') \<Longrightarrow>
     (\<forall>n \<in> set ns. secret_value env (sdb s) app n \<noteq> None) \<and>
     map_of m = (\<lambda>n. if n \<in> set ns then secret_value env (sdb s) app n else map_of out n)"
proof (induction ns arbitrary: out s)
  case Nil
  then show ?case by auto
next
  case (Cons n ns)
  obtain v s1 where g: "run_state (secret_Get env app n) s = (Inr (Some v), s1)"
    and r: "run_state (resolve_from env app (AList.update n v out) ns) s1 = (Inr m, s')"
    using Cons.prems by (auto split: prod.splits sum.splits option.splits)
  have d1: "sdb s1 = sdb s" using aside_fields(1) calm_aside presD [OF pres_secret_Get g] by metis
  show ?case using Cons.IH [OF r] secret_Get_result [OF g, symmetric] d1
    by (auto simp: update_conv' fun_eq_iff)
qed

text \<open>
  Resolving is all or nothing: it yields a value for exactly the names asked for, each the
  stored one, and fails as soon as one of them is not set or cannot be decrypted.
\<close>

lemma Resolve_secrets_fail_closed:
  "wp (Resolve_secrets env app names) (\<lambda>r s'. sdb s' = sdb s \<and>
     (case r of
        Inl _ \<Rightarrow> True
      | Inr m \<Rightarrow> dom (map_of m) = set names \<and>
          list_all (\<lambda>n. map_of m n = secret_value env (sdb s) app n) names)) s"
  unfolding wp_iff
proof (intro allI impI)
  fix r s'
  assume run: "run_state (Resolve_secrets env app names) s = (r, s')"
  have "sdb s' = sdb s" using aside_fields(1) calm_aside presD [OF pres_Resolve_secrets run] by metis
  then show "sdb s' = sdb s \<and>
     (case r of
        Inl _ \<Rightarrow> True
      | Inr m \<Rightarrow> dom (map_of m) = set names \<and>
          list_all (\<lambda>n. map_of m n = secret_value env (sdb s) app n) names)"
    using resolve_from_ok [of env app "[]" names s _ s'] run
    by (auto simp: Resolve_secrets_def list_all_iff dom_def split: sum.splits)
qed

end
