(* ===== verification/Isolation.thy ===== *)
theory Isolation
  imports Router Placement Secrets
begin

text \<open>
  The two frames a deploy is judged by: \<open>isolated\<close>, what a failed attempt may leave behind, and
  \<open>adds P\<close>, which events a step may log; with the rules that put the operations of the store, the
  resolver, placement and the router into them.
\<close>

section \<open>What a failed attempt may leave behind\<close>

text \<open>
  The live routes and the reconciler's bookkeeping are as before, and the database has at most
  gained rows of failed attempts.
\<close>

definition insert_rows :: "dep_row list \<Rightarrow> db \<Rightarrow> db" where
  "insert_rows ws t = fold (\<lambda>w t. snd (sql_insert_deployment w t)) ws t"

definition failed_rows :: "db \<Rightarrow> db \<Rightarrow> bool" where
  "failed_rows t t' = (\<exists>ws. list_all (\<lambda>w. w_status w = StatusFailed) ws \<and> t' = insert_rows ws t)"

definition isolated :: "'x sys \<Rightarrow> 'x sys \<Rightarrow> bool" where
  "isolated s s' = (later s s' \<and> routes s' = routes s \<and> failed_rows (sdb s) (sdb s') \<and> heals s' = heals s
     \<and> unreachable_since s' = unreachable_since s \<and> health_view s' = health_view s \<and> nudged s' = nudged s)"

lemma failed_rows_refl: "failed_rows t t"
  unfolding failed_rows_def insert_rows_def by (intro exI [of _ "[]"]) simp

lemma failed_rows_trans: "failed_rows t u \<Longrightarrow> failed_rows u v \<Longrightarrow> failed_rows t v"
  unfolding failed_rows_def insert_rows_def by (metis (no_types, lifting) comp_apply fold_append list_all_append)

lemma failed_rows_insert: "w_status w = StatusFailed \<Longrightarrow> failed_rows t (snd (sql_insert_deployment w t))"
  unfolding failed_rows_def insert_rows_def by (intro exI [of _ "[w]"]) simp

text \<open>Failed rows keep the database well formed and change no app's current deployment.\<close>

lemma insert_failed:
  "wf_db t \<Longrightarrow> list_all (\<lambda>w. w_status w = StatusFailed) ws \<Longrightarrow>
     wf_db (insert_rows ws t) \<and>
     sql_last_with_status a StatusRunning (insert_rows ws t) = sql_last_with_status a StatusRunning t \<and>
     db_secrets (insert_rows ws t) = db_secrets t \<and> db_nodes (insert_rows ws t) = db_nodes t"
proof (induction ws arbitrary: t)
  case Nil
  then show ?case by (simp add: insert_rows_def)
next
  case (Cons w ws)
  then have "wf_db (snd (sql_insert_deployment w t))" using wf_insert by blast
  moreover have "sql_last_with_status a StatusRunning (snd (sql_insert_deployment w t)) = sql_last_with_status a StatusRunning t"
    using dlog.insert_newest [OF Cons.prems(1), of a StatusRunning w] Cons.prems(2) by simp
  moreover have "db_secrets (snd (sql_insert_deployment w t)) = db_secrets t"
    "db_nodes (snd (sql_insert_deployment w t)) = db_nodes t"
    by (simp_all add: sql_insert_deployment_def Let_def)
  ultimately show ?case using Cons by (simp add: insert_rows_def)
qed

lemma failed_rows_current:
  "wf_db t \<Longrightarrow> failed_rows t t' \<Longrightarrow> wf_db t' \<and>
     sql_last_with_status a StatusRunning t' = sql_last_with_status a StatusRunning t \<and>
     db_secrets t' = db_secrets t \<and> db_nodes t' = db_nodes t"
  using insert_failed by (auto simp: failed_rows_def)

interpretation isolated: frame isolated
  by unfold_locales (auto simp: isolated_def intro: later.refl later.trans failed_rows_refl failed_rows_trans)

lemma aside_isolated: "aside s s' \<Longrightarrow> isolated s s'"
  by (simp add: isolated_def aside_def kept_def failed_rows_refl)

lemma edge_isolated: "edge_only s s' \<Longrightarrow> routes s' = routes s \<Longrightarrow> isolated s s'"
  by (simp add: isolated_def edge_only_def kept_core_def failed_rows_refl)

lemma pres_aside_isolated: "pres aside m \<Longrightarrow> pres isolated m"
  by (erule pres_mono) (rule aside_isolated)

lemma pres_calm_isolated: "pres calm m \<Longrightarrow> pres isolated m"
  by (rule pres_aside_isolated) (rule pres_calm_aside)

lemma pres_edge_isolated: "pres edge_quiet m \<Longrightarrow> pres isolated m"
  by (erule pres_mono) (simp add: edge_isolated edge_quiet_def)

lemmas isolated_leaves [pres_rules] =
  aside_leaves [THEN pres_aside_isolated]
  pres_store_reads [THEN pres_calm_isolated] pres_ResolveMeta [THEN pres_aside_isolated]
  pres_Resolve [THEN pres_aside_isolated] pres_localNode [THEN pres_aside_isolated]
  pres_known_unreachable [THEN pres_calm_isolated] pres_RunContainer [THEN pres_calm_isolated]
  pres_RemoveContainer [THEN pres_calm_isolated] pres_spread_step [THEN pres_aside_isolated]
  pres_resolvePlacement [THEN pres_aside_isolated] pres_Resolve_secrets [THEN pres_calm_isolated]
  pres_EnsureUp [THEN pres_edge_isolated] pres_checkHealth [THEN pres_calm_isolated]
  pres_checkHealthCompose [THEN pres_calm_isolated]

lemma pres_staging_isolated [pres_rules]:
  "pres isolated (SetStaging env h ups)" "pres isolated (RemoveStaging env h)"
  by (auto intro!: presI edge_isolated dest: presD [OF pres_mutators(3)] presD [OF pres_mutators(4)]
      staging_keeps_routes)

lemma pres_isolated_record:
  "d_status d = StatusFailed \<Longrightarrow> pres isolated (RecordDeployment env d)"
proof (rule presI)
  fix s r s'
  assume f: "d_status d = StatusFailed" and run: "run_state (RecordDeployment env d) s = (r, s')"
  note w = writesD [OF writes_store(1) run]
  have "failed_rows (sdb s) (sdb s')"
  proof (cases r)
    case (Inl e)
    then show ?thesis using w by (simp add: failed_rows_refl)
  next
    case (Inr i)
    then have "sdb s' = snd (sql_insert_deployment (row_of d) (sdb s))" using w by (auto dest: arg_cong [where f = snd])
    then show ?thesis using failed_rows_insert [of "row_of d"] f by simp
  qed
  then show "isolated s s'"
    using w by (simp add: isolated_def calm_def aside_def kept_def later_def)
qed

section \<open>What a step logs\<close>

definition adds :: "(event \<Rightarrow> bool) \<Rightarrow> 'x sys \<Rightarrow> 'x sys \<Rightarrow> bool" where
  "adds P s s' = (\<exists>es. trace s' = trace s @ es \<and> list_all P es)"

interpretation adds: frame "adds P" for P
  by unfold_locales (auto simp: adds_def)

lemma adds_mono: "adds P s s' \<Longrightarrow> (\<And>e. P e \<Longrightarrow> Q e) \<Longrightarrow> adds Q s s'"
  by (auto simp: adds_def list_all_iff)

lemma adds_events: "adds P s s' \<longleftrightarrow> prefix (trace s) (trace s') \<and> list_all P (new_events s s')"
  by (auto simp: adds_def new_events_def prefix_def)

lemma only_config_adds: "only_config s s' = adds (\<lambda>e. \<not> beyond_config e) s s'"
  by (simp add: only_config_def adds_def)

lemma pres_adds_quiet:
  "pres only_config m \<Longrightarrow> (\<And>e. \<not> beyond_config e \<Longrightarrow> P e) \<Longrightarrow> pres (adds P) m"
  by (erule pres_mono) (auto simp: only_config_adds intro: adds_mono)

lemma pres_adds_log: "P e \<Longrightarrow> pres (adds P) (log_event e)"
  by (rule presI) (auto simp: adds_def log_event_def)

lemma pres_only_config_modify: "(\<And>s. trace (f s) = trace s) \<Longrightarrow> pres only_config (modify f)"
  by (rule presI) (auto simp: only_config_def)

lemma pres_only_config_db [pres_rules]: "pres only_config (db_exec env stmt f)"
  unfolding db_exec_def
  by (intro pres_rules) (auto intro!: presI simp: only_config_def split: prod.splits)

lemma pres_only_config_store [pres_rules]:
  "pres only_config (CurrentDeployment env a)" "pres only_config (PreviousDeployment env a)"
  "pres only_config (NextDeployID env)" "pres only_config (GetNode env n)" "pres only_config (ListNodes env)"
  "pres only_config (GetSecret env a k)" "pres only_config (RecordDeployment env d)"
  "pres only_config (SetStatus env i st)" "pres only_config (UpdateReplicas env i rs c)"
  unfolding CurrentDeployment_def PreviousDeployment_def NextDeployID_def GetNode_def ListNodes_def
    GetSecret_def RecordDeployment_def SetStatus_def UpdateReplicas_def
  by (intro pres_rules)+

lemma pres_only_config_table [pres_rules]:
  "pres only_config (modify (\<lambda>s. s\<lparr>routes := v1 s\<rparr>))" "pres only_config (modify (\<lambda>s. s\<lparr>staging := v2 s\<rparr>))"
  "pres only_config (modify (\<lambda>s. s\<lparr>remotes := v3 s\<rparr>))" "pres only_config (modify (\<lambda>s. s\<lparr>heals := v4 s\<rparr>))"
  by (simp_all add: pres_only_config_modify)

lemma pres_only_config_mutators [pres_rules]:
  "pres only_config (SetRoute env r)" "pres only_config (RemoveRoute env d)"
  "pres only_config (SetStaging env h ups)" "pres only_config (RemoveStaging env h)"
  unfolding SetRoute_def RemoveRoute_def SetStaging_def RemoveStaging_def Let_def
  by (intro pres_rules)+

lemma pres_only_config_lookup [pres_rules]:
  "pres only_config (lookup_node env n)" "pres only_config (pingOK env x)"
  unfolding lookup_node_def pingOK_def by (intro pres_rules)+

lemma pres_only_config_transport [pres_rules]: "pres only_config (buildTransport env h u)"
  unfolding buildTransport_def build_ssh_def by (intro pres_rules)

lemma pres_only_config_resolver [pres_rules]:
  "pres only_config (ResolveMeta env n)" "pres only_config (Reachable env n)"
  unfolding ResolveMeta_def Reachable_def Let_def by (intro pres_rules)+

lemma pres_only_config_resolve [pres_rules]:
  "pres only_config (Resolve env n)" "pres only_config (known_unreachable env n)"
  unfolding Resolve_def known_unreachable_def by (intro pres_rules)+

lemma pres_only_config_local [pres_rules]: "pres only_config (localNode env)"
  unfolding localNode_def by (intro pres_rules)

lemma pres_only_config_candidate [pres_rules]:
  "pres only_config (capacityBounded env r)" "pres only_config (local_candidate env)"
  "pres only_config (remote_candidate env n)"
  unfolding local_candidate_def remote_candidate_def capacityBounded_def Let_def by (intro pres_rules)+

lemma pres_only_config_gather [pres_rules]: "pres only_config (gather env pool ex ns)"
  by (induction ns) (auto intro!: pres_rules)

lemma pres_only_config_placement [pres_rules]:
  "pres only_config (schedulableCandidates env a ex)" "pres only_config (placeExcludingSet env a ex)"
  "pres only_config (spread_step env a ex)" "pres only_config (resolvePlacement env a)"
  unfolding spread_step_def placeExcludingSet_def resolvePlacement_def schedulableCandidates_def Let_def
  by (intro pres_rules)+

lemma pres_only_config_loop [pres_rules]: "pres only_config (State (poll env p d))"
  by (rule presI) (simp add: poll_only_config)

lemma pres_only_config_poll [pres_rules]:
  "pres only_config (checkHealth env n a h c)" "pres only_config (checkHealthCompose env a)"
  unfolding checkHealth_def checkHealthCompose_def checkHealthPath_def checkDockerHealth_def
    checkLiveness_def checkLivenessThroughRoute_def settle_then_def Let_def
  by (intro pres_rules)+

lemma pres_only_config_get [pres_rules]: "pres only_config (secret_Get env a k)"
  unfolding secret_Get_def by (intro pres_rules)

lemma pres_only_config_secrets [pres_rules]: "pres only_config (Resolve_secrets env a ks)"
proof -
  have "pres only_config (resolve_from env a out ks)" for out
    by (induction ks arbitrary: out) (auto intro!: pres_rules)
  then show ?thesis by (simp add: Resolve_secrets_def)
qed

lemma pres_only_config_ignore [pres_rules]: "pres only_config m \<Longrightarrow> pres only_config (ignore m)"
  unfolding ignore_def by (intro pres_rules)

lemma pres_isolated_ignore [pres_rules]: "pres isolated m \<Longrightarrow> pres isolated (ignore m)"
  unfolding ignore_def by (intro pres_rules)

end
