(* ===== verification/Backing.thy ===== *)
theory Backing
  imports AppSpec Caddyfile
begin

text \<open>
  Backing services as a compose document (\<open>src/internal/reconciler/backing.go\<close>):
  \<open>yamlQuote\<close>, \<open>RenderBackingCompose\<close> and, as their specification, how YAML reads a
  double-quoted scalar and how \<open>docker compose\<close> interpolates the result.
\<close>

section \<open>Runes\<close>

text \<open>
  How many bytes the next rune takes, or \<open>None\<close> when the bytes are not UTF-8: ranging over a
  string then yields U+FFFD and skips one byte.
\<close>

definition byte :: "char \<Rightarrow> nat" where
  "byte c = of_char c"

definition cont :: "nat \<Rightarrow> nat \<Rightarrow> string \<Rightarrow> bool" where
  "cont lo hi s = (case s of [] \<Rightarrow> False | c # _ \<Rightarrow> lo \<le> byte c \<and> byte c \<le> hi)"

definition rune_len :: "char \<Rightarrow> string \<Rightarrow> nat option" where
  "rune_len c cs =
     (let b = byte c;
          c1 = (\<lambda>lo hi. cont lo hi cs);
          c2 = cont 128 191 (drop 1 cs);
          c3 = cont 128 191 (drop 2 cs) in
      if b < 128 then Some 1
      else if 194 \<le> b \<and> b \<le> 223 then (if c1 128 191 then Some 2 else None)
      else if b = 224 then (if c1 160 191 \<and> c2 then Some 3 else None)
      else if b = 237 then (if c1 128 159 \<and> c2 then Some 3 else None)
      else if 225 \<le> b \<and> b \<le> 239 then (if c1 128 191 \<and> c2 then Some 3 else None)
      else if b = 240 then (if c1 144 191 \<and> c2 \<and> c3 then Some 4 else None)
      else if 241 \<le> b \<and> b \<le> 243 then (if c1 128 191 \<and> c2 \<and> c3 then Some 4 else None)
      else if b = 244 then (if c1 128 143 \<and> c2 \<and> c3 then Some 4 else None)
      else None)"

definition replacement_rune :: string where
  "replacement_rune = [CHR 0xEF, CHR 0xBF, CHR 0xBD]"

definition hex_digit :: "nat \<Rightarrow> char" where
  "hex_digit n = (if n < 10 then char_of (48 + n) else char_of (87 + n))"

definition escape_control :: "char \<Rightarrow> string" where
  "escape_control c = [CHR 0x5C, CHR ''u'', CHR ''0'', CHR ''0'', hex_digit (byte c div 16), hex_digit (byte c mod 16)]"

text \<open>The loop over the runes, with \<open>\uXXXX\<close> for the control characters left.\<close>

function escape_runes :: "string \<Rightarrow> string" where
  "escape_runes [] = []"
| "escape_runes (c # cs) =
     (case rune_len c cs of
        None \<Rightarrow> replacement_rune @ escape_runes cs
      | Some k \<Rightarrow>
          if byte c < 32 then escape_control c @ escape_runes cs
          else (c # take (k - 1) cs) @ escape_runes (drop (k - 1) cs))"
  by pat_completeness auto
termination by (relation "measure length") auto

definition replace_all :: "char \<Rightarrow> string \<Rightarrow> string \<Rightarrow> string" where
  "replace_all c new s = concat (map (\<lambda>d. if d = c then new else [d]) s)"

abbreviation bs :: char where "bs \<equiv> CHR 0x5C"
abbreviation dq :: char where "dq \<equiv> CHR 0x22"

definition yamlQuote :: "string \<Rightarrow> string" where
  "yamlQuote s0 =
     (let s1 = replace_all bs [bs, bs] s0;
          s2 = replace_all dq [bs, dq] s1;
          s3 = replace_all (CHR 0x0A) [bs, CHR ''n''] s2;
          s4 = replace_all (CHR 0x0D) [bs, CHR ''r''] s3;
          s5 = replace_all (CHR 0x09) [bs, CHR ''t''] s4;
          s6 = escape_runes s5;
          s7 = replace_all (CHR ''$'') ''$$'' s6
      in [dq] @ s7 @ [dq])"

section \<open>The document\<close>

definition isEnvIdent :: "string \<Rightarrow> bool" where
  "isEnvIdent name = (case name of [] \<Rightarrow> False
     | c # cs \<Rightarrow> (is_lower c \<or> is_upper c \<or> c = CHR ''_'')
         \<and> list_all (\<lambda>d. is_alnum d \<or> d = CHR ''_'') cs)"

definition namedVolumeOf :: "string \<Rightarrow> string" where
  "namedVolumeOf vol =
     (if CHR '':'' \<notin> set vol then []
      else let name = takeWhile (\<lambda>c. c \<noteq> CHR '':'') vol
           in if name = [] \<or> CHR ''/'' \<in> set name then [] else name)"

definition unlines :: "string list \<Rightarrow> string" where
  "unlines ls = concat (map (\<lambda>l. l @ nl) ls)"

text \<open>One entry of the \<open>environment\<close> block: nothing for a secret whose name is no identifier.\<close>

definition env_lines :: "svc \<Rightarrow> string \<Rightarrow> string list" where
  "env_lines v k =
     (if k \<in> set (v_secrets v) then
        (if \<not> isEnvIdent k then []
         else [''      '' @ yamlQuote k @ '': '' @ [dq] @ ''${'' @ k @ ''}'' @ [dq]])
      else [''      '' @ yamlQuote k @ '': '' @ yamlQuote (the (map_of (v_env v) k))])"

definition service_lines :: "string \<Rightarrow> svc \<Rightarrow> string list" where
  "service_lines network v =
     [''  '' @ yamlQuote (v_name v) @ '':'',
      ''    image: '' @ yamlQuote (v_image v)] @
     (if v_command v = [] then [] else [''    command: '' @ yamlQuote (v_command v)]) @
     (if v_env v = [] \<and> v_secrets v = [] then []
      else ''    environment:'' #
        concat (map (env_lines v) (sort (remdups (map fst (v_env v) @ v_secrets v))))) @
     (if v_volume v = [] then [] else [''    volumes:'', ''      - '' @ yamlQuote (v_volume v)]) @
     [''    networks:'', ''      - '' @ yamlQuote network, ''    restart: unless-stopped'']"

definition svc_less :: "svc \<Rightarrow> svc \<Rightarrow> bool" where
  "svc_less v w = (v_name v < v_name w)"

definition RenderBackingCompose :: "string \<Rightarrow> svc list \<Rightarrow> string \<times> string" where
  "RenderBackingCompose appName services =
     (if services = [] then ([], [])
      else
        let network = ''lwd-'' @ appName;
            sorted_svcs = sort_stable svc_less services;
            vols = sort (remdups (filter (\<lambda>n. n \<noteq> []) (map (\<lambda>v. namedVolumeOf (v_volume v)) sorted_svcs)))
        in (unlines
              ([''networks:'', ''  '' @ yamlQuote network @ '':''] @
               (if vols = [] then [] else ''volumes:'' # map (\<lambda>v. ''  '' @ yamlQuote v @ '':'') vols) @
               [''services:''] @ concat (map (service_lines network) sorted_svcs)),
            network))"

interpretation svc_order: weak_order svc_less
  by unfold_locales (auto simp: svc_less_def)

section \<open>Reading a scalar back\<close>

definition hex_val :: "char \<Rightarrow> nat" where
  "hex_val c = (if is_digit c then byte c - 48 else byte c - 87)"

text \<open>
  The body of a double-quoted YAML scalar, up to the quote that closes it: the text and what
  follows the quote. \<open>None\<close> when the text is not well-formed.
\<close>

fun yaml_body :: "string \<Rightarrow> (string \<times> string) option" where
  "yaml_body [] = None"
| "yaml_body (c # cs) =
     (if c = dq then Some ([], cs)
      else if c = bs then
        (case cs of
           [] \<Rightarrow> None
         | e # ds \<Rightarrow>
             if e = bs \<or> e = dq then map_option (\<lambda>(t, r). (e # t, r)) (yaml_body ds)
             else if e = CHR ''n'' then map_option (\<lambda>(t, r). (CHR 0x0A # t, r)) (yaml_body ds)
             else if e = CHR ''r'' then map_option (\<lambda>(t, r). (CHR 0x0D # t, r)) (yaml_body ds)
             else if e = CHR ''t'' then map_option (\<lambda>(t, r). (CHR 0x09 # t, r)) (yaml_body ds)
             else if e = CHR ''u'' then
               (case ds of
                  h1 # h2 # h3 # h4 # rest \<Rightarrow>
                    map_option (\<lambda>(t, r). (char_of (16 * hex_val h3 + hex_val h4) # t, r)) (yaml_body rest)
                | _ \<Rightarrow> None)
             else None)
      else if byte c < 32 then None
      else map_option (\<lambda>(t, r). (c # t, r)) (yaml_body cs))"

text \<open>What compose makes of the text: \<open>$$\<close> is a dollar, \<open>${NAME}\<close> the variable.\<close>

function interpolate :: "(string \<Rightarrow> string option) \<Rightarrow> string \<Rightarrow> string option" where
  "interpolate env [] = Some []"
| "interpolate env (c # cs) =
     (if c \<noteq> CHR ''$'' then map_option (\<lambda>t. c # t) (interpolate env cs)
      else case cs of
        [] \<Rightarrow> None
      | d # ds \<Rightarrow>
          if d = CHR ''$'' then map_option (\<lambda>t. d # t) (interpolate env ds)
          else if d = CHR ''{'' then
            (case env (takeWhile (\<lambda>x. x \<noteq> CHR ''}'') ds) of
               None \<Rightarrow> None
             | Some v \<Rightarrow> map_option (\<lambda>t. v @ t) (interpolate env (drop 1 (dropWhile (\<lambda>x. x \<noteq> CHR ''}'') ds))))
          else None)"
  by pat_completeness auto
termination
  by (relation "measure (\<lambda>(env, s). length s)")
     (auto simp: less_Suc_eq_le intro: le_trans [OF diff_le_self] le_SucI length_dropWhile_le)

lemma replace_all_append: "replace_all c new (s @ t) = replace_all c new s @ replace_all c new t"
  by (simp add: replace_all_def)

text \<open>The five replacements before the loop, on one character.\<close>

definition escape_char :: "char \<Rightarrow> string" where
  "escape_char c =
     (if c = bs then [bs, bs] else if c = dq then [bs, dq]
      else if c = CHR 0x0A then [bs, CHR ''n''] else if c = CHR 0x0D then [bs, CHR ''r'']
      else if c = CHR 0x09 then [bs, CHR ''t''] else [c])"

definition escaped :: "string \<Rightarrow> string" where
  "escaped s = concat (map escape_char s)"

lemma replacements:
  "replace_all (CHR 0x09) [bs, CHR ''t''] (replace_all (CHR 0x0D) [bs, CHR ''r'']
     (replace_all (CHR 0x0A) [bs, CHR ''n''] (replace_all dq [bs, dq] (replace_all bs [bs, bs] s)))) = escaped s"
proof (induction s)
  case Nil
  then show ?case by (simp add: replace_all_def escaped_def)
next
  case (Cons c s)
  have "c # s = [c] @ s" by simp
  then show ?case
    using Cons.IH
    by (simp only: replace_all_append) (simp add: replace_all_def escaped_def escape_char_def)
qed

lemma yamlQuote_alt:
  "yamlQuote s = [dq] @ replace_all (CHR ''$'') ''$$'' (escape_runes (escaped s)) @ [dq]"
  by (simp only: yamlQuote_def Let_def replacements)

text \<open>What a string is once its invalid bytes have been replaced.\<close>

function fix_runes :: "string \<Rightarrow> string" where
  "fix_runes [] = []"
| "fix_runes (c # cs) =
     (case rune_len c cs of
        None \<Rightarrow> replacement_rune @ fix_runes cs
      | Some k \<Rightarrow> (c # take (k - 1) cs) @ fix_runes (drop (k - 1) cs))"
  by pat_completeness auto
termination by (relation "measure length") auto

definition ascii :: "char \<Rightarrow> bool" where
  "ascii c = (byte c < 128)"

lemma escape_char_ascii: "ascii c \<Longrightarrow> list_all ascii (escape_char c)"
  by (simp add: escape_char_def ascii_def byte_def)

lemma escape_char_other: "\<not> ascii c \<Longrightarrow> escape_char c = [c]"
  by (auto simp: escape_char_def ascii_def byte_def)

lemma escaped_other: "list_all (\<lambda>c. \<not> ascii c) p \<Longrightarrow> escaped (p @ s) = p @ escaped s"
  by (induction p) (auto simp: escaped_def escape_char_other)

lemma rune_len_ascii [simp]: "ascii c \<Longrightarrow> rune_len c cs = Some 1"
  by (simp add: rune_len_def ascii_def Let_def)

lemma cont_escaped: "128 \<le> lo \<Longrightarrow> cont lo hi (escaped cs) = cont lo hi cs"
proof (cases cs)
  case Nil
  then show ?thesis by (simp add: escaped_def)
next
  case (Cons c ds)
  assume lo: "128 \<le> lo"
  show ?thesis
  proof (cases "ascii c")
    case True
    obtain e es where e: "escape_char c = e # es"
      by (cases "escape_char c") (auto simp: escape_char_def split: if_splits)
    then have "ascii e" using escape_char_ascii [OF True] by simp
    then show ?thesis using Cons True lo e by (simp add: cont_def escaped_def ascii_def)
  next
    case False
    then show ?thesis using Cons by (simp add: cont_def escaped_def escape_char_other)
  qed
qed

lemma cont_other: "128 \<le> lo \<Longrightarrow> cont lo hi cs \<Longrightarrow> \<exists>d ds. cs = d # ds \<and> \<not> ascii d"
  by (auto simp: cont_def ascii_def split: list.splits)

lemma escaped_Cons_other: "\<not> ascii c \<Longrightarrow> escaped (c # cs) = c # escaped cs"
  using escaped_other [of "[c]" cs] by simp

lemma conj_escaped:
  assumes "128 \<le> lo"
  shows "cont lo hi (escaped cs) \<and> cont 128 191 (drop 1 (escaped cs)) \<longleftrightarrow>
         cont lo hi cs \<and> cont 128 191 (drop 1 cs)"
    and "cont lo hi (escaped cs) \<and> cont 128 191 (drop 1 (escaped cs)) \<and> cont 128 191 (drop 2 (escaped cs)) \<longleftrightarrow>
         cont lo hi cs \<and> cont 128 191 (drop 1 cs) \<and> cont 128 191 (drop 2 cs)"
proof -
  note e = cont_escaped [OF assms] and e8 = cont_escaped [of 128 191, simplified]
  have 1: "drop 1 (escaped cs) = escaped (drop 1 cs)" if c: "cont lo hi cs"
  proof -
    obtain d ds where "cs = d # ds" "\<not> ascii d" using cont_other [OF assms c] by blast
    then show ?thesis by (simp add: escaped_Cons_other)
  qed
  show one: "cont lo hi (escaped cs) \<and> cont 128 191 (drop 1 (escaped cs)) \<longleftrightarrow>
         cont lo hi cs \<and> cont 128 191 (drop 1 cs)"
    using 1 by (cases "cont lo hi cs") (simp_all only: e e8 simp_thms)
  have "drop 2 (escaped cs) = escaped (drop 2 cs)" if c: "cont lo hi cs" "cont 128 191 (drop 1 cs)"
  proof -
    obtain d ds where d: "cs = d # ds" "\<not> ascii d" using cont_other [OF assms c(1)] by blast
    obtain f fs where f: "ds = f # fs" "\<not> ascii f" using cont_other [of 128 191 ds] c(2) d by auto
    show ?thesis using d f by (simp add: escaped_Cons_other)
  qed
  then have "cont lo hi cs \<and> cont 128 191 (drop 1 cs) \<Longrightarrow>
      cont 128 191 (drop 2 (escaped cs)) = cont 128 191 (drop 2 cs)"
    by (simp only: e8)
  then show "cont lo hi (escaped cs) \<and> cont 128 191 (drop 1 (escaped cs)) \<and> cont 128 191 (drop 2 (escaped cs)) \<longleftrightarrow>
         cont lo hi cs \<and> cont 128 191 (drop 1 cs) \<and> cont 128 191 (drop 2 cs)"
    using one by argo
qed

lemma rune_len_escaped: "rune_len c (escaped cs) = rune_len c cs"
proof -
  have a: "(if cont lo hi (escaped cs) \<and> cont 128 191 (drop 1 (escaped cs)) then x else y) =
           (if cont lo hi cs \<and> cont 128 191 (drop 1 cs) then x else y)"
    if "128 \<le> lo" for lo hi and x y :: "nat option"
    using conj_escaped(1) [OF that] by (auto simp only:)
  have b: "(if cont lo hi (escaped cs) \<and> cont 128 191 (drop 1 (escaped cs)) \<and> cont 128 191 (drop 2 (escaped cs)) then x else y) =
           (if cont lo hi cs \<and> cont 128 191 (drop 1 cs) \<and> cont 128 191 (drop 2 cs) then x else y)"
    if "128 \<le> lo" for lo hi and x y :: "nat option"
    using conj_escaped(2) [OF that] by (auto simp only:)
  have c: "(if cont 128 191 (escaped cs) then x else y) = (if cont 128 191 cs then x else y)" for x y :: "nat option"
    by (simp only: cont_escaped order_refl)
  show ?thesis
    unfolding rune_len_def Let_def
    by (simp only: a [of 160 191] a [of 128 159] a [of 128 191] b [of 144 191] b [of 128 191] b [of 128 143] c
        order_refl rel_simps)
qed

lemma rune_len_tail:
  assumes "rune_len c cs = Some k" "\<not> ascii c"
  shows "list_all (\<lambda>d. \<not> ascii d) (take (k - 1) cs)"
proof -
  have 1: "list_all (\<lambda>d. \<not> ascii d) (take 1 cs)" if "cont lo hi cs" "128 \<le> lo" for lo hi
    using cont_other [OF that(2,1)] by auto
  have 2: "list_all (\<lambda>d. \<not> ascii d) (take 2 cs)" if "cont lo hi cs" "128 \<le> lo" "cont 128 191 (drop 1 cs)" for lo hi
    using cont_other [OF that(2,1)] cont_other [OF _ that(3)] by auto
  have 3: "list_all (\<lambda>d. \<not> ascii d) (take 3 cs)"
    if "cont lo hi cs" "128 \<le> lo" "cont 128 191 (drop 1 cs)" "cont 128 191 (drop 2 cs)" for lo hi
    using cont_other [OF that(2,1)] cont_other [OF _ that(3)] cont_other [OF _ that(4)] by (auto simp: numeral_3_eq_3)
  have "\<not> byte c < 128" using assms(2) by (simp add: ascii_def)
  then show ?thesis
    using assms(1) 1 2 3 by (auto simp: rune_len_def Let_def split: if_splits)
qed

lemma escaped_take:
  "list_all (\<lambda>c. \<not> ascii c) (take n cs) \<Longrightarrow> take n (escaped cs) = take n cs \<and> drop n (escaped cs) = escaped (drop n cs)
     \<or> length cs < n"
proof (induction n arbitrary: cs)
  case 0
  then show ?case by simp
next
  case (Suc n)
  then show ?case by (cases cs) (auto simp: escaped_Cons_other)
qed

text \<open>How the pieces of a quoted text are read back.\<close>

abbreviation doubled :: "string \<Rightarrow> string" where
  "doubled \<equiv> replace_all (CHR ''$'') ''$$''"

abbreviation read_before :: "string \<Rightarrow> (string \<times> string) option \<Rightarrow> (string \<times> string) option" where
  "read_before p \<equiv> map_option (\<lambda>(t, r). (p @ t, r))"

lemma special_ascii: "ascii bs" "ascii dq" "ascii (CHR ''$'')"
  by (simp_all add: ascii_def byte_def)

lemma other_not_special: "\<not> ascii c \<Longrightarrow> c \<noteq> bs \<and> c \<noteq> dq \<and> c \<noteq> CHR ''$'' \<and> \<not> byte c < 32"
  using special_ascii by (auto simp: ascii_def)

lemma doubled_other: "list_all (\<lambda>c. \<not> ascii c) p \<Longrightarrow> doubled p = p"
  by (induction p) (auto simp: replace_all_def dest!: other_not_special)

lemma yaml_body_other:
  "list_all (\<lambda>c. \<not> ascii c) p \<Longrightarrow> yaml_body (p @ t) = read_before p (yaml_body t)"
proof (induction p)
  case Nil
  then show ?case by (simp add: option.map_id0 case_prod_beta' flip: id_def)
next
  case (Cons c p)
  then show ?case using other_not_special [of c] by (cases "yaml_body t") auto
qed

lemma replacement_other: "list_all (\<lambda>c. \<not> ascii c) replacement_rune"
  by (simp add: replacement_rune_def ascii_def byte_def)

lemma doubled_Nil: "doubled [] = []"
  by (simp add: replace_all_def)

lemma hex_val_digit: "n < 16 \<Longrightarrow> hex_val (hex_digit n) = n"
proof -
  assume "n < 16"
  then have "n \<in> {0,1,2,3,4,5,6,7,8,9,10,11,12,13,14,15}"
    by (simp only: insert_iff empty_iff) presburger
  then show ?thesis
    by (elim insertE emptyE) (simp_all add: hex_val_def hex_digit_def byte_def is_digit_def less_eq_char_def)
qed

lemma hex_digit_not_dollar: "n < 16 \<Longrightarrow> hex_digit n \<noteq> CHR ''$''"
  by (auto simp: hex_digit_def dest!: arg_cong [where f = "of_char :: char \<Rightarrow> nat"])

lemma byte_bound: "byte c < 256"
  by (simp add: byte_def)

lemma yaml_body_control:
  "byte c < 32 \<Longrightarrow> yaml_body (doubled (escape_control c) @ t) = read_before [c] (yaml_body t)"
proof -
  assume c: "byte c < 32"
  have "doubled (escape_control c) = escape_control c"
    using c byte_bound [of c] hex_digit_not_dollar by (simp add: escape_control_def replace_all_def)
  moreover have "char_of (16 * (byte c div 16) + byte c mod 16) = c"
    by (simp add: byte_def)
  ultimately show ?thesis
    using c byte_bound [of c] by (simp add: escape_control_def hex_val_digit)
qed

lemma yaml_body_ascii:
  assumes "ascii c"
  shows "yaml_body (doubled (escape_runes (escape_char c @ w)) @ t) =
         read_before (doubled [c]) (yaml_body (doubled (escape_runes w) @ t))"
proof -
  consider "c = bs" | "c = dq" | "c = CHR 0x0A" | "c = CHR 0x0D" | "c = CHR 0x09"
    | (plain) "escape_char c = [c]" "c \<noteq> bs" "c \<noteq> dq"
    by (metis escape_char_def)
  then show ?thesis
  proof cases
    case plain
    then show ?thesis
      using assms yaml_body_control [of c] yaml_body_control [of c, unfolded replace_all_def]
      by (auto simp: replace_all_append doubled_Nil split: option.splits) (auto simp: replace_all_def byte_def option.map_comp o_def case_prod_beta')
  qed (auto simp: escape_char_def ascii_def byte_def replace_all_def rune_len_def)
qed

lemma read_before_append: "read_before p (read_before q x) = read_before (p @ q) x"
  by (cases x) auto

lemma yaml_body_quoted:
  "yaml_body (doubled (escape_runes (escaped s)) @ [dq] @ r) = Some (doubled (fix_runes s), r)"
proof (induction s rule: fix_runes.induct)
  case 1
  then show ?case by (simp add: escaped_def replace_all_def)
next
  case (2 c cs)
  show ?case
  proof (cases "rune_len c cs")
    case None
    then have "\<not> ascii c" by auto
    then have "escape_runes (escaped (c # cs)) = replacement_rune @ escape_runes (escaped cs)"
      using None by (simp add: escaped_Cons_other rune_len_escaped)
    then show ?thesis
      using None 2(1) by (simp add: replace_all_append doubled_other [OF replacement_other]
          yaml_body_other [OF replacement_other])
  next
    case (Some k)
    show ?thesis
    proof (cases "ascii c")
      case True
      then have "k = 1" using Some by simp
      moreover have "escaped (c # cs) = escape_char c @ escaped cs" by (simp add: escaped_def)
      ultimately show ?thesis
        using Some 2(2) [OF Some] yaml_body_ascii [OF True, of "escaped cs" "[dq] @ r"]
          replace_all_append [of _ _ "[c]" "fix_runes cs"]
        by simp
    next
      case False
      let ?p = "c # take (k - 1) cs"
      note tail = rune_len_tail [OF Some False]
      have len: "k - 1 \<le> length cs"
        using Some by (auto simp: rune_len_def Let_def cont_def drop_Suc split: if_splits list.splits)
      have p: "list_all (\<lambda>d. \<not> ascii d) ?p" using tail False by simp
      have "escape_runes (escaped (c # cs)) = ?p @ escape_runes (escaped (drop (k - 1) cs))"
        using Some False other_not_special [OF False] escaped_take [OF tail] len
        by (simp add: escaped_Cons_other rune_len_escaped)
      then show ?thesis
        using Some 2(2) [OF Some] replace_all_append [of _ _ ?p] doubled_other [OF p] yaml_body_other [OF p]
        by (simp del: replace_all_append)
    qed
  qed
qed

lemma interpolate_doubled: "interpolate env (doubled t) = Some t"
  by (induction t) (auto simp: replace_all_def)

text \<open>
  C29: \<open>yamlQuote\<close> is injection safe: whatever the text \<open>s\<close>, a YAML reader started behind the
  opening quote stops exactly at the closing one and leaves everything that follows in the
  document alone, and what compose then makes of the scalar by interpolating variables, in any
  environment, is \<open>s\<close> again, up to the bytes of \<open>s\<close> that are not UTF-8.
\<close>

theorem yamlQuote_roundtrip:
  "\<exists>text. yamlQuote s @ rest = [dq] @ drop 1 (yamlQuote s) @ rest
     \<and> yaml_body (drop 1 (yamlQuote s) @ rest) = Some (text, rest)
     \<and> interpolate env text = Some (fix_runes s)"
  using yaml_body_quoted [of s rest] interpolate_doubled [of env "fix_runes s"]
  by (simp add: yamlQuote_alt)

text \<open>
  The document does not depend on the order in which an app lists its services, so an
  unchanged app renders to an unchanged document.
\<close>

lemma RenderBackingCompose_order_independent:
  assumes "distinct (map v_name services)" "mset services = mset services'"
  shows "RenderBackingCompose appName services = RenderBackingCompose appName services'"
proof -
  have "sort_stable svc_less services = sort_stable svc_less services'"
  proof (rule svc_order.sort_perm [OF assms(2)])
    fix a b assume "a \<in> set services" "b \<in> set services" "a \<noteq> b"
    then have "v_name a \<noteq> v_name b"
      using assms(1) by (auto simp: distinct_map inj_on_def)
    then show "svc_less a b \<or> svc_less b a"
      unfolding svc_less_def by (simp only: neq_iff)
  qed
  then show ?thesis using assms(2) by (auto simp: RenderBackingCompose_def)
qed

end
