(* ===== verification/Deploy.thy ===== *)
theory Deploy
  imports Isolation Backing
begin

text \<open>
  The blue-green deploy of a set of replicas (\<open>deployReplicaSet\<close> and its helpers in
  \<open>src/internal/reconciler/reconciler.go\<close>): start the new set, stage it, gate it on its health,
  flip the route, retire the old set, record the new one. The function is cut where its text
  moves on: placing the targets, starting the replicas, checking them, retiring the old set.
\<close>

section \<open>Small helpers\<close>

definition containerName :: "app \<Rightarrow> int \<Rightarrow> string" where
  "containerName a deployID = ''lwd-'' @ a_name a @ ''-'' @ show_int deployID"

definition stagingHost :: "int \<Rightarrow> string" where
  "stagingHost deployID = ''stage-'' @ show_int deployID @ ''.lwd.internal''"

definition mergeEnv :: "env_map \<Rightarrow> env_map \<Rightarrow> env_map" where
  "mergeEnv base secretVals = fold (\<lambda>(k, v) m. AList.update k v m) secretVals
     (fold (\<lambda>(k, v) m. AList.update k v m) base [])"

definition shortSHA :: "string \<Rightarrow> string" where
  "shortSHA sha = (if length sha > 12 then take 12 sha else sha)"

fun nodeFromSpec :: "spec_text \<Rightarrow> string" where
  "nodeFromSpec (SpecJSON a) = a_node a"
| "nodeFromSpec _ = []"

fun domainFromSpec :: "spec_text \<Rightarrow> string" where
  "domainFromSpec (SpecJSON a) = a_domain a"
| "domainFromSpec _ = []"

fun isComposeApp :: "spec_text \<Rightarrow> bool" where
  "isComposeApp (SpecJSON a) = (a_compose a \<noteq> [])"
| "isComposeApp _ = False"

definition resetHeal :: "string \<Rightarrow> ('x sys, unit) state" where
  "resetHeal name = modify (\<lambda>s. s\<lparr>heals := AList.delete name (heals s)\<rparr>)"

section \<open>The image on a node\<close>

definition ensureImageOnNode :: "'x env \<Rightarrow> node_ref \<Rightarrow> string \<Rightarrow> ('x sys, unit res) state" where
  "ensureImageOnNode env target ref =
     (let ops = node_at env target in
      attempt (if sublist ''@sha256:'' ref
               then attempt (call (n_present ops ref)) (wrap_err ''check image present: %w'' []) (\<lambda>b. ret (Inr b))
               else ret (Inr False)) (\<lambda>e. ret (Inl e)) (\<lambda>present.
      if present then ret (Inr ())
      else do {
        ignore (call (n_ensure_image ops ref));
        attempt (call (n_present ops ref)) (wrap_err ''check image present after pull: %w'' []) (\<lambda>present.
        if present then ret (Inr ())
        else
          attempt (localNode env) (wrap_err ''resolve local node for image transfer: %w'' []) (\<lambda>loc.
          attempt (call (n_save (node_at env loc) ref)) (wrap_err ''save image %s: %w'' [ref]) (\<lambda>rc.
          attempt (call_unit (n_load ops rc)) (wrap_err ''load image %s on target node: %w'' [ref]) (\<lambda>_.
          attempt (call (n_present ops ref)) (wrap_err ''check image present after transfer: %w'' []) (\<lambda>present.
          if present then ret (Inr ())
          else fail_with (Errf ''image %s still absent on target node after save/load transfer'' [ref]))))))
      }))"

definition ensure_image :: "'x env \<Rightarrow> node_ref \<Rightarrow> bool \<Rightarrow> string \<Rightarrow> ('x sys, unit res) state" where
  "ensure_image env n isLocal img =
     (if isLocal then call_unit (n_ensure_image (node_at env n) img) else ensureImageOnNode env n img)"

section \<open>Backing services\<close>

text \<open>A temporary file written, closed, used and removed: the shape of three places of the source.\<close>

definition with_temp :: "'x env \<Rightarrow> string \<Rightarrow> string \<Rightarrow> (string \<Rightarrow> ('x sys, 'a res) state) \<Rightarrow> ('x sys, 'a res) state" where
  "with_temp env what content body =
     attempt (call (temp_create env)) (wrap_err (''create temp '' @ what @ '': %w'') []) (\<lambda>tmp. do {
       r \<leftarrow> attempt (call_unit (temp_write env tmp content))
              (\<lambda>e. do { ignore (call (temp_close env tmp)); wrap_err (''write temp '' @ what @ '': %w'') [] e })
              (\<lambda>_. attempt (call_unit (temp_close env tmp)) (wrap_err (''close temp '' @ what @ '': %w'') [])
                (\<lambda>_. body tmp));
       ignore (call (file_remove env tmp));
       ret r
     })"

definition compose_Up :: "'x env \<Rightarrow> string \<Rightarrow> string \<Rightarrow> env_map \<Rightarrow> ('x sys, unit res) state" where
  "compose_Up env project file vars = do {
     e \<leftarrow> call_unit (compose_up env project file vars);
     log_event (EvComposeUp project file vars);
     ret e
   }"

definition compose_Down :: "'x env \<Rightarrow> string \<Rightarrow> string \<Rightarrow> env_map \<Rightarrow> ('x sys, unit res) state" where
  "compose_Down env project file vars = do {
     e \<leftarrow> call_unit (compose_down env project file vars);
     log_event (EvComposeDown project);
     ret e
   }"

definition ensureBacking ::
  "'x env \<Rightarrow> node_ref \<Rightarrow> app \<Rightarrow> env_map \<Rightarrow> string \<Rightarrow> ('x sys, (string \<times> string) res) state"
where
  "ensureBacking env n a vars dockerHost =
     (if a_services a = [] then ret (Inr ([], []))
      else
        let (yamlContent, net) = RenderBackingCompose (a_name a) (a_services a) in
        attempt (call_unit (n_ensure_network (node_at env n) net)) (wrap_err ''ensure backing network: %w'' []) (\<lambda>_.
        with_temp env ''backing compose file'' yamlContent (\<lambda>tmp.
          let composeEnv = (if dockerHost = [] then vars else AList.update ''DOCKER_HOST'' dockerHost vars) in
          attempt (compose_Up env (''lwd-'' @ a_name a) tmp composeEnv) (wrap_err ''backing compose up: %w'' [])
            (\<lambda>_. ret (Inr (net, yamlContent))))))"

section \<open>The set of replicas\<close>

record replica_target =
  tg_name :: string
  tg_node :: node_ref
  tg_mesh :: string
  tg_local :: bool

definition target_of :: "string \<Rightarrow> resolved \<Rightarrow> replica_target" where
  "target_of name m = \<lparr>tg_name = name, tg_node = rm_node m, tg_mesh = rm_mesh m, tg_local = rm_local m\<rparr>"

definition replica_count :: "app \<Rightarrow> nat" where
  "replica_count a = (if a_replicas a < 1 then 1 else nat (a_replicas a))"

text \<open>The loop that places replicas \<open>i\<close>, \<open>i + 1\<close>, \<open>...\<close>, \<open>k\<close> of them.\<close>

fun more_targets ::
  "'x env \<Rightarrow> app \<Rightarrow> bool \<Rightarrow> nat \<Rightarrow> string list \<Rightarrow> replica_target list \<Rightarrow> ('x sys, replica_target list res) state"
where
  "more_targets env a scheduled 0 exclude targets = ret (Inr targets)"
| "more_targets env a scheduled (Suc k) exclude targets =
     attempt (if scheduled then spread_step env a exclude else ret (Inr (a_node a)))
       (wrap_err ''place replica %d: %w'' []) (\<lambda>nodeName.
     attempt (ResolveMeta env nodeName) (wrap_err ''resolve node %q for replica %d: %w'' [nodeName]) (\<lambda>m.
     attempt (call_unit (n_ensure_network (node_at env (rm_node m)) lwdNetwork))
       (wrap_err ''ensure network on %q: %w'' [nodeName]) (\<lambda>_.
     more_targets env a scheduled k (if scheduled then exclude @ [nodeName] else exclude)
       (targets @ [target_of nodeName m]))))"

definition surface_name :: "app \<Rightarrow> int \<Rightarrow> nat \<Rightarrow> nat \<Rightarrow> string" where
  "surface_name a deployID cnt i =
     (if cnt > 1 then containerName a deployID @ ''-'' @ show_nat i else containerName a deployID)"

definition surface_spec ::
  "app \<Rightarrow> string \<Rightarrow> env_map \<Rightarrow> int \<Rightarrow> nat \<Rightarrow> nat \<Rightarrow> replica_target \<Rightarrow> run_spec"
where
  "surface_spec a img vars deployID cnt i t =
     \<lparr>r_name = surface_name a deployID cnt i, r_image = img, r_env = vars,
      r_labels = [(''lwd.app'', a_name a), (''lwd.role'', ''surface''),
                  (''lwd.deploy'', show_int deployID), (''lwd.replica'', show_nat i)],
      r_port = a_port a, r_network = lwdNetwork,
      r_publish = (if tg_local t then []
        else [\<lparr>p_host_ip = tg_mesh t, p_host_port = 0, p_container_port = a_port a\<rparr>]),
      r_cmd = [], r_cpus = reqCPU a, r_memory = reqMem a\<rparr>"

text \<open>What Caddy is told to proxy to, and what the row records.\<close>

definition replica_at :: "app \<Rightarrow> string \<Rightarrow> replica_target \<Rightarrow> container \<Rightarrow> replica" where
  "replica_at a name t c =
     \<lparr>x_container = c_id c, x_node = tg_name t,
      x_upstream = (if tg_local t then name else tg_mesh t),
      x_port = (if tg_local t then a_port a else c_host_port c)\<rparr>"

definition upstream_of :: "replica \<Rightarrow> upstream" where
  "upstream_of r = \<lparr>u_host = x_upstream r, u_port = x_port r\<rparr>"

text \<open>
  The body of the start loop for one replica. A failure comes with the container, if it had been
  started already.
\<close>

definition start_one ::
  "'x env \<Rightarrow> app \<Rightarrow> string \<Rightarrow> env_map \<Rightarrow> string \<Rightarrow> int \<Rightarrow> nat \<Rightarrow> nat \<Rightarrow> replica_target
     \<Rightarrow> ('x sys, (goerr \<times> container list) + (container \<times> replica)) state"
where
  "start_one env a img vars backingNetwork deployID cnt i t =
     (if i > 0 then ensure_image env (tg_node t) (tg_local t) img else ret (Inr ())) \<bind> (\<lambda>r. case r of
       Inl e \<Rightarrow> ret (Inl (Wrapf ''ensure image on replica %d: %w'' [] e, []))
     | Inr _ \<Rightarrow>
         RunContainer env (tg_node t) (surface_spec a img vars deployID cnt i t) \<bind> (\<lambda>r. case r of
           Inl e \<Rightarrow> ret (Inl (Wrapf ''run container for replica %d: %w'' [] e, []))
         | Inr c \<Rightarrow>
             (if backingNetwork \<noteq> [] then call_unit (n_connect (node_at env (tg_node t)) (c_id c) backingNetwork)
              else ret (Inr ())) \<bind> (\<lambda>r. ret (case r of
                Inl e \<Rightarrow> Inl (Wrapf ''connect replica %d to backing network: %w'' [] e, [c])
              | Inr _ \<Rightarrow> Inr (c, replica_at a (surface_name a deployID cnt i) t c)))))"

fun start_all ::
  "'x env \<Rightarrow> app \<Rightarrow> string \<Rightarrow> env_map \<Rightarrow> string \<Rightarrow> int \<Rightarrow> nat \<Rightarrow> nat \<Rightarrow> replica_target list
     \<Rightarrow> container list \<Rightarrow> replica list \<Rightarrow> ('x sys, goerr option \<times> container list \<times> replica list) state"
where
  "start_all env a img vars net deployID cnt i [] cs reps = ret (None, cs, reps)"
| "start_all env a img vars net deployID cnt i (t # ts) cs reps =
     start_one env a img vars net deployID cnt i t \<bind> (\<lambda>r. case r of
       Inl (e, c) \<Rightarrow> ret (Some e, cs @ c, reps)
     | Inr (c, rep) \<Rightarrow> start_all env a img vars net deployID cnt (i + 1) ts (cs @ [c]) (reps @ [rep]))"

fun check_all :: "'x env \<Rightarrow> app \<Rightarrow> string \<Rightarrow> (replica_target \<times> container) list \<Rightarrow> ('x sys, unit res) state" where
  "check_all env a stageHost [] = ret (Inr ())"
| "check_all env a stageHost ((t, c) # ps) =
     attempt (checkHealth env (tg_node t) a stageHost (c_id c))
       (wrap_err ''health check failed for replica %d: %w'' []) (\<lambda>_. check_all env a stageHost ps)"

section \<open>A failed attempt\<close>

fun remove_started :: "'x env \<Rightarrow> (replica_target \<times> container) list \<Rightarrow> ('x sys, unit) state" where
  "remove_started env [] = ret ()"
| "remove_started env ((t, c) # ps) =
     ignore (RemoveContainer env (tg_node t) (c_id c)) \<bind> (\<lambda>_. remove_started env ps)"

text \<open>A \<open>StatusFailed\<close> row, its error dropped: \<open>_, _ = r.store.RecordDeployment(...)\<close>.\<close>

definition record_failed ::
  "'x env \<Rightarrow> string \<Rightarrow> string \<Rightarrow> string \<Rightarrow> spec_text \<Rightarrow> string \<Rightarrow> ('x sys, unit) state"
where
  "record_failed env name img cid spec content =
     now \<bind> (\<lambda>t. ignore (RecordDeployment env
       \<lparr>d_id = 0, d_app = name, d_image = img, d_container = cid, d_status = StatusFailed,
        d_created = t, d_spec = spec, d_compose = content, d_scheduled = False, d_replicas = []\<rparr>))"

definition recordFailedReplicaSet ::
  "'x env \<Rightarrow> string \<Rightarrow> replica_target list \<Rightarrow> container list \<Rightarrow> app \<Rightarrow> string \<Rightarrow> spec_text \<Rightarrow> string
     \<Rightarrow> ('x sys, unit) state"
where
  "recordFailedReplicaSet env stageHost targets cs a img spec content = do {
     ignore (RemoveStaging env stageHost);
     remove_started env (zip targets cs);
     record_failed env (a_name a) img (case cs of [] \<Rightarrow> [] | c # _ \<Rightarrow> c_id c) spec content
   }"

section \<open>Retiring the old set\<close>

definition old_replicas :: "deployment \<Rightarrow> replica list" where
  "old_replicas prev =
     (if d_replicas prev = [] \<and> d_container prev \<noteq> []
      then [\<lparr>x_container = d_container prev, x_node = nodeFromSpec (d_spec prev), x_upstream = [], x_port = 0\<rparr>]
      else d_replicas prev)"

fun remove_old :: "'x env \<Rightarrow> replica list \<Rightarrow> ('x sys, unit) state" where
  "remove_old env [] = ret ()"
| "remove_old env (old # olds) = do {
     let name = (if x_node old = [] then ''local'' else x_node old);
     lost \<leftarrow> known_unreachable env name;
     (if lost then ret ()
      else attempt (ResolveMeta env name) (\<lambda>_. ret ())
        (\<lambda>m. ignore (RemoveContainer env (rm_node m) (x_container old))));
     remove_old env olds
   }"

definition retire_previous :: "'x env \<Rightarrow> string \<Rightarrow> ('x sys, unit) state" where
  "retire_previous env name =
     attempt (CurrentDeployment env name) (\<lambda>_. ret ()) (\<lambda>prev. case prev of
       None \<Rightarrow> ret ()
     | Some p \<Rightarrow> do {
         remove_old env (old_replicas p);
         ignore (SetStatus env (d_id p) StatusRetired)
       })"

section \<open>The deploy\<close>

text \<open>From the staged set on: health gate, flip, retire, record.\<close>

definition go_live ::
  "'x env \<Rightarrow> app \<Rightarrow> string \<Rightarrow> string \<Rightarrow> spec_text \<Rightarrow> bool \<Rightarrow> string \<Rightarrow> replica_target list
     \<Rightarrow> container list \<Rightarrow> replica list \<Rightarrow> ('x sys, deployment res) state"
where
  "go_live env a img content spec scheduled stageHost targets cs reps =
     (let ups = map upstream_of reps;
          failed = (\<lambda>fmt e. do {
            recordFailedReplicaSet env stageHost targets cs a img spec content;
            wrap_err fmt [] e }) in
      attempt (SetStaging env stageHost ups) (failed ''set staging route: %w'') (\<lambda>_.
      attempt (check_all env a stageHost (zip targets cs))
        (\<lambda>e. do { recordFailedReplicaSet env stageHost targets cs a img spec content; fail_with e }) (\<lambda>_.
      attempt (SetRoute env \<lparr>rt_domain = a_domain a, rt_upstreams = ups,
          rt_tls_internal = UseInternalTLS (a_domain a)\<rparr>) (failed ''set route: %w'') (\<lambda>_. do {
        ignore (RemoveStaging env stageHost);
        retire_previous env (a_name a);
        t \<leftarrow> now;
        let dep = \<lparr>d_id = 0, d_app = a_name a, d_image = img, d_container = x_container (hd reps),
                   d_status = StatusRunning, d_created = t, d_spec = spec, d_compose = content,
                   d_scheduled = scheduled, d_replicas = reps\<rparr>;
        attempt (RecordDeployment env dep) (wrap_err ''record deployment: %w'' []) (\<lambda>i. do {
          resetHeal (a_name a);
          ret (Inr (dep\<lparr>d_id := i\<rparr>)) })
      }))))"

definition deployReplicaSet ::
  "'x env \<Rightarrow> resolved \<Rightarrow> app \<Rightarrow> string \<Rightarrow> env_map \<Rightarrow> string \<Rightarrow> string \<Rightarrow> spec_text \<Rightarrow> bool
     \<Rightarrow> ('x sys, deployment res) state"
where
  "deployReplicaSet env m a img vars backingNetwork content spec scheduled =
     attempt (NextDeployID env) (wrap_err ''next deploy id: %w'' []) (\<lambda>deployID.
       let stageHost = stagingHost deployID; cnt = replica_count a in
       attempt (more_targets env a scheduled (cnt - 1) [a_node a] [target_of (a_node a) m])
         (\<lambda>e. fail_with e) (\<lambda>targets.
       start_all env a img vars backingNetwork deployID cnt 0 targets [] [] \<bind> (\<lambda>(err, cs, reps).
       case err of
         Some e \<Rightarrow> do {
           recordFailedReplicaSet env stageHost targets cs a img spec content;
           fail_with e
         }
       | None \<Rightarrow> go_live env a img content spec scheduled stageHost targets cs reps)))"

section \<open>Frames of the pieces\<close>

lemma pres_only_config_image [pres_rules]: "pres only_config (ensureImageOnNode env n ref)"
  unfolding ensureImageOnNode_def Let_def by (intro pres_rules)

lemma pres_isolated_image [pres_rules]: "pres isolated (ensureImageOnNode env n ref)"
  unfolding ensureImageOnNode_def Let_def by (intro pres_rules)

lemma pres_ensure_image [pres_rules]:
  "pres only_config (ensure_image env n l ref)" "pres isolated (ensure_image env n l ref)"
  unfolding ensure_image_def by (intro pres_rules)+

lemma pres_with_temp [pres_rules]:
  "(\<And>f. pres isolated (body f)) \<Longrightarrow> pres isolated (with_temp env what content body)"
  unfolding with_temp_def by (intro pres_rules)

lemma pres_ensureBacking [pres_rules]: "pres isolated (ensureBacking env n a vars dh)"
  unfolding ensureBacking_def compose_Up_def Let_def by (intro pres_rules)

lemma pres_more_targets [pres_rules]:
  "pres only_config (more_targets env a sch k ex ts)" "pres isolated (more_targets env a sch k ex ts)"
  by (induction k arbitrary: ex ts) (auto intro!: pres_rules)

lemma pres_start_one [pres_rules]: "pres isolated (start_one env a img vars net i cnt k t)"
  unfolding start_one_def by (intro pres_rules)

lemma pres_check_all [pres_rules]:
  "pres only_config (check_all env a h ps)" "pres isolated (check_all env a h ps)"
  by (induction env a h ps rule: check_all.induct) (auto intro!: pres_rules)

lemma pres_remove_started [pres_rules]: "pres isolated (remove_started env ps)"
  by (induction env ps rule: remove_started.induct) (auto intro!: pres_rules)

lemma pres_record_failed [pres_rules]:
  "pres only_config (record_failed env n img c spec content)"
  "pres isolated (record_failed env n img c spec content)"
  unfolding record_failed_def by (intro pres_rules pres_isolated_record; simp)+

lemma pres_recordFailedReplicaSet [pres_rules]:
  "pres isolated (recordFailedReplicaSet env h ts cs a img spec content)"
  unfolding recordFailedReplicaSet_def by (intro pres_rules)

lemma pres_old [pres_rules]: "pres calm (ignore (RemoveContainer env n c))"
  by (intro pres_rules)

section \<open>Events of a deploy\<close>

definition is_remove :: "event \<Rightarrow> bool" where
  "is_remove e = (case e of EvRemove _ _ \<Rightarrow> True | _ \<Rightarrow> False)"

definition is_run :: "event \<Rightarrow> bool" where
  "is_run e = (case e of EvRun _ _ _ \<Rightarrow> True | _ \<Rightarrow> False)"

lemma quiet_event: "\<not> beyond_config e \<Longrightarrow> \<not> is_remove e \<and> \<not> is_run e"
  by (simp add: beyond_config_def is_remove_def is_run_def split: event.splits)

text \<open>What starting containers \<open>cs\<close> on targets \<open>ts\<close> logs, and the replicas it yields.\<close>

fun runs_of ::
  "app \<Rightarrow> string \<Rightarrow> env_map \<Rightarrow> int \<Rightarrow> nat \<Rightarrow> nat \<Rightarrow> replica_target list \<Rightarrow> container list \<Rightarrow> event list"
where
  "runs_of a img vars i cnt k (t # ts) (c # cs) =
     EvRun (tg_node t) (surface_spec a img vars i cnt k t) (Inr c) # runs_of a img vars i cnt (k + 1) ts cs"
| "runs_of a img vars i cnt k _ _ = []"

fun replicas_of :: "app \<Rightarrow> int \<Rightarrow> nat \<Rightarrow> nat \<Rightarrow> replica_target list \<Rightarrow> container list \<Rightarrow> replica list" where
  "replicas_of a i cnt k (t # ts) (c # cs) =
     replica_at a (surface_name a i cnt k) t c # replicas_of a i cnt (k + 1) ts cs"
| "replicas_of a i cnt k _ _ = []"

lemma runs_of_Nil [simp]: "runs_of a img vars i cnt k ts [] = []"
  by (cases ts) simp_all

lemma new_events_trans:
  "later s t \<Longrightarrow> later t u \<Longrightarrow> new_events s u = new_events s t @ new_events t u"
  by (auto simp: new_events_def later_def prefix_def)

lemma isolated_later: "isolated s s' \<Longrightarrow> later s s'"
  by (simp add: isolated_def)

lemma adds_new: "adds P s s' \<Longrightarrow> e \<in> set (new_events s s') \<Longrightarrow> P e"
  by (auto simp: adds_def new_events_def list_all_iff)

lemma pres_run_adds: "pres (adds (\<lambda>e. \<not> is_remove e)) (RunContainer env n sp)"
proof -
  have "\<not> is_remove (EvRun n sp c)" for c by (simp add: is_remove_def)
  then show ?thesis
    unfolding RunContainer_def
    by (intro adds.pres_bind pres_adds_log pres_adds_quiet [OF pres_only_config(1)] adds.pres_ret)
       (simp add: quiet_event)
qed

lemma pres_start_one_adds: "pres (adds (\<lambda>e. \<not> is_remove e)) (start_one env a img vars net i cnt k t)"
  unfolding start_one_def
  by (intro adds.pres_bind adds.pres_case_sum adds.pres_ret adds.pres_if pres_run_adds)
     (auto intro!: pres_adds_quiet pres_rules simp: quiet_event)

lemma run_logged:
  "run_state (RunContainer env n sp) s = (c, s') \<Longrightarrow> EvRun n sp c \<in> set (new_events s s')"
  by (auto simp: RunContainer_def call_def log_event_def new_events_def split: prod.splits)

lemma new_events_sub:
  assumes "later s t" "later t u" "later u v"
  shows "set (new_events t u) \<subseteq> set (new_events s v)"
  using new_events_trans [OF assms(1) later.trans [OF assms(2,3)]] new_events_trans [OF assms(2,3)] by auto

lemma start_one_ok:
  assumes "run_state (start_one env a img vars net i cnt k t) s = (r, s')"
  shows "case r of
        Inl (e, cs) \<Rightarrow> cs = [] \<or> (\<exists>c. cs = [c] \<and>
          EvRun (tg_node t) (surface_spec a img vars i cnt k t) (Inr c) \<in> set (new_events s s'))
      | Inr (c, rep) \<Rightarrow> rep = replica_at a (surface_name a i cnt k) t c \<and>
          EvRun (tg_node t) (surface_spec a img vars i cnt k t) (Inr c) \<in> set (new_events s s')"
proof -
  let ?I = "if k > 0 then ensure_image env (tg_node t) (tg_local t) img else ret (Inr ())"
  let ?C = "\<lambda>c. if net \<noteq> [] then call_unit (n_connect (node_at env (tg_node t)) (c_id c) net) else ret (Inr ())"
  obtain r1 s1 where r1: "run_state ?I s = (r1, s1)" by fastforce
  obtain r2 s2 where r2: "run_state (RunContainer env (tg_node t) (surface_spec a img vars i cnt k t)) s1 = (r2, s2)"
    by fastforce
  show ?thesis
  proof (cases r1)
    case (Inl e)
    then show ?thesis using assms r1 by (auto simp: start_one_def)
  next
    case I: (Inr u)
    show ?thesis
    proof (cases r2)
      case (Inl e)
      then show ?thesis using assms r1 r2 I by (auto simp: start_one_def)
    next
      case R: (Inr c)
      obtain r3 s3 where r3: "run_state (?C c) s2 = (r3, s3)" by fastforce
      have "pres later ?I"
        by (intro pres_mono [where R = isolated and S = later] pres_rules isolated_later)
      moreover have "pres later (?C c)" by (intro pres_rules)
      ultimately have "later s s1" "later s2 s3" using presD r1 r3 by metis+
      moreover have "later s1 s2"
        using presD [OF pres_RunContainer r2] by (simp add: calm_def aside_def)
      ultimately have "EvRun (tg_node t) (surface_spec a img vars i cnt k t) (Inr c) \<in> set (new_events s s3)"
        using run_logged [OF r2] new_events_sub R by blast
      then show ?thesis using assms r1 r2 r3 I R by (cases r3) (auto simp: start_one_def)
    qed
  qed
qed

text \<open>\<open>quiet_start\<close>: isolated, and nothing removed.\<close>

definition quiet_start :: "'x sys \<Rightarrow> 'x sys \<Rightarrow> bool" where
  "quiet_start s s' = (isolated s s' \<and> adds (\<lambda>e. \<not> is_remove e) s s')"

interpretation quiet_start: frame quiet_start
  by unfold_locales (auto simp: quiet_start_def intro: isolated.refl isolated.trans adds.refl adds.trans)

lemma pres_quiet_start: "pres isolated m \<Longrightarrow> pres only_config m \<Longrightarrow> pres quiet_start m"
proof -
  assume "pres isolated m" and n: "pres only_config m"
  moreover have "pres (adds (\<lambda>e. \<not> is_remove e)) m"
    by (rule pres_adds_quiet [OF n]) (simp add: quiet_event)
  ultimately show ?thesis by (simp add: pres_def quiet_start_def)
qed

lemma quiet_start_later: "quiet_start s s' \<Longrightarrow> later s s'"
  by (simp add: quiet_start_def isolated_def)

lemma start_one_quiet:
  "run_state (start_one env a img vars net i cnt k t) s = (r, s') \<Longrightarrow> quiet_start s s'"
  using presD [OF pres_start_one] presD [OF pres_start_one_adds] by (auto simp: quiet_start_def)

definition started_ok ::
  "app \<Rightarrow> string \<Rightarrow> env_map \<Rightarrow> int \<Rightarrow> nat \<Rightarrow> nat \<Rightarrow> replica_target list \<Rightarrow> goerr option \<Rightarrow> container list
     \<Rightarrow> replica list \<Rightarrow> event list \<Rightarrow> bool"
where
  "started_ok a img vars i cnt k ts err cs reps es =
     (length cs \<le> length ts \<and> set (runs_of a img vars i cnt k ts cs) \<subseteq> set es \<and>
      (err = None \<longrightarrow> length cs = length ts \<and> reps = replicas_of a i cnt k ts cs))"

lemma started_ok_Cons:
  assumes "started_ok a img vars i cnt (k + 1) ts err cs reps es"
    and "EvRun (tg_node t) (surface_spec a img vars i cnt k t) (Inr c) \<in> set es"
  shows "started_ok a img vars i cnt k (t # ts) err (c # cs) (replica_at a (surface_name a i cnt k) t c # reps) es"
  using assms by (auto simp: started_ok_def)

lemma started_ok_mono:
  "started_ok a img vars i cnt k ts err cs reps es \<Longrightarrow> set es \<subseteq> set es' \<Longrightarrow>
     started_ok a img vars i cnt k ts err cs reps es'"
  by (auto simp: started_ok_def)

lemma start_all_ok:
  "run_state (start_all env a img vars net i cnt k ts cs reps) s = ((err, cs', reps'), s') \<Longrightarrow>
     quiet_start s s' \<and> (\<exists>new nreps. cs' = cs @ new \<and> reps' = reps @ nreps \<and>
       started_ok a img vars i cnt k ts err new nreps (new_events s s'))"
proof (induction ts arbitrary: k cs reps s)
  case Nil
  then show ?case by (simp add: started_ok_def quiet_start.refl)
next
  case (Cons t ts)
  obtain r s1 where r: "run_state (start_one env a img vars net i cnt k t) s = (r, s1)" by fastforce
  note q = start_one_quiet [OF r] and ok = start_one_ok [OF r]
  show ?case
  proof (cases r)
    case (Inl ec)
    obtain e c where ec: "ec = (e, c)" by fastforce
    have "err = Some e" "cs' = cs @ c" "reps' = reps" "s' = s1" using Cons.prems r Inl ec by auto
    then show ?thesis using q ok Inl ec by (cases c) (auto simp: started_ok_def)
  next
    case (Inr cr)
    obtain c rep where cr: "cr = (c, rep)" by fastforce
    have rest: "run_state (start_all env a img vars net i cnt (k + 1) ts (cs @ [c]) (reps @ [rep])) s1 = ((err, cs', reps'), s')"
      using Cons.prems r Inr cr by simp
    obtain new nreps where n: "quiet_start s1 s'" "cs' = (cs @ [c]) @ new" "reps' = (reps @ [rep]) @ nreps"
      "started_ok a img vars i cnt (k + 1) ts err new nreps (new_events s1 s')"
      using Cons.IH [OF rest] by blast
    have ev: "new_events s s' = new_events s s1 @ new_events s1 s'"
      using new_events_trans quiet_start_later q n(1) by blast
    have "started_ok a img vars i cnt k (t # ts) err (c # new) (replica_at a (surface_name a i cnt k) t c # nreps) (new_events s s')"
      by (rule started_ok_Cons [OF started_ok_mono [OF n(4)]]) (use ok Inr cr ev in auto)
    then show ?thesis using n ok Inr cr quiet_start.trans [OF q n(1)] by auto
  qed
qed

section \<open>A failed attempt removes only what it started\<close>

definition started :: "event list \<Rightarrow> node_ref \<Rightarrow> string \<Rightarrow> bool" where
  "started es n cid = list_ex (\<lambda>e. case e of EvRun m _ (Inr c) \<Rightarrow> m = n \<and> c_id c = cid | _ \<Rightarrow> False) es"

definition removes_own :: "event list \<Rightarrow> bool" where
  "removes_own es = list_all (\<lambda>e. case e of EvRemove n cid \<Rightarrow> started es n cid | _ \<Rightarrow> True) es"

text \<open>Steps that remove nothing but a container of \<open>ps\<close>.\<close>

definition removes_in :: "(node_ref \<times> string) set \<Rightarrow> event \<Rightarrow> bool" where
  "removes_in R e = (case e of EvRemove n cid \<Rightarrow> (n, cid) \<in> R | EvRun _ _ _ \<Rightarrow> False | _ \<Rightarrow> True)"

lemma quiet_removes_in: "\<not> beyond_config e \<Longrightarrow> removes_in R e"
  by (simp add: beyond_config_def removes_in_def split: event.splits)

lemma pres_remove_in:
  "(n, cid) \<in> R \<Longrightarrow> pres (adds (removes_in R)) (ignore (RemoveContainer env n cid))"
proof -
  assume "(n, cid) \<in> R"
  then have "removes_in R (EvRemove n cid)" by (simp add: removes_in_def)
  then show ?thesis
    unfolding RemoveContainer_def ignore_def
    by (intro adds.pres_bind pres_adds_log pres_adds_quiet [OF pres_only_config(2)] adds.pres_ret)
       (assumption | erule quiet_removes_in)+
qed

lemma pres_remove_started_in:
  "set (map (\<lambda>(t, c). (tg_node t, c_id c)) ps) \<subseteq> R \<Longrightarrow> pres (adds (removes_in R)) (remove_started env ps)"
  by (induction env ps rule: remove_started.induct) (auto intro!: adds.pres_bind adds.pres_ret pres_remove_in)

definition owned :: "replica_target list \<Rightarrow> container list \<Rightarrow> (node_ref \<times> string) set" where
  "owned ts cs = set (map (\<lambda>(t, c). (tg_node t, c_id c)) (zip ts cs))"

lemma pres_recordFailed_in:
  "pres (adds (removes_in (owned ts cs))) (recordFailedReplicaSet env h ts cs a img spec content)"
  unfolding recordFailedReplicaSet_def
  by (intro adds.pres_bind pres_remove_started_in pres_adds_quiet quiet_removes_in)
     (auto simp: owned_def intro!: pres_rules)

lemma owned_started:
  "set (runs_of a img vars i cnt k ts cs) \<subseteq> set es \<Longrightarrow> (n, cid) \<in> owned ts cs \<Longrightarrow> started es n cid"
proof (induction a img vars i cnt k ts cs rule: runs_of.induct)
  case (1 a img vars i cnt k t ts c cs)
  show ?case
  proof (cases "n = tg_node t \<and> cid = c_id c")
    case True
    then show ?thesis using 1(2)
      by (auto simp: started_def list_ex_iff intro!: bexI [of _ "EvRun (tg_node t) (surface_spec a img vars i cnt k t) (Inr c)"])
  next
    case False
    then have "(n, cid) \<in> owned ts cs" using 1(3) by (auto simp: owned_def)
    then show ?thesis using 1 by simp
  qed
qed (auto simp: owned_def)

lemma removes_own_split:
  assumes "list_all (\<lambda>e. \<not> is_remove e) es1" "list_all (removes_in R) es2"
    and "\<And>n cid. (n, cid) \<in> R \<Longrightarrow> started es1 n cid"
  shows "removes_own (es1 @ es2)"
  using assms
  by (auto simp: removes_own_def list_all_iff removes_in_def is_remove_def started_def split: event.splits)

section \<open>Retiring the old set\<close>

text \<open>At most the current row of the app is marked retired.\<close>

definition retired_row :: "string \<Rightarrow> db \<Rightarrow> db \<Rightarrow> bool" where
  "retired_row name t t' = (t' = t \<or> (\<exists>w. sql_last_with_status name StatusRunning t = Some w
     \<and> t' = sql_set_status (w_id w) StatusRetired t))"

lemma filter_map_id:
  assumes "sorted_wrt (<) (map w_id ws)" "w \<in> set ws" "\<not> P w" "\<not> P (f w)"
  shows "filter P (map (\<lambda>v. if w_id v = w_id w then f v else v) ws) = filter P ws"
proof -
  have "v = w" if "v \<in> set ws" "w_id v = w_id w" for v
    using assms(1,2) that by (metis strict_sorted_iff distinct_map inj_onD)
  then show ?thesis using assms(3,4) by (induction ws) auto
qed

lemma retired_row_others:
  assumes "wf_db t" "retired_row name t t'"
  shows "wf_db t' \<and> (b \<noteq> name \<longrightarrow> sql_last_with_status b StatusRunning t' = sql_last_with_status b StatusRunning t)"
proof (cases "t' = t")
  case True
  then show ?thesis using assms by simp
next
  case False
  then obtain w where w: "sql_last_with_status name StatusRunning t = Some w"
    "t' = sql_set_status (w_id w) StatusRetired t" using assms(2) by (auto simp: retired_row_def)
  have wf: "wf_db t'" using w assms(1) by simp
  moreover have "sql_last_with_status b StatusRunning t' = sql_last_with_status b StatusRunning t" if "b \<noteq> name"
  proof (rule last_cong [OF assms(1) wf])
    show "filter (\<lambda>v. w_app v = b \<and> w_status v = StatusRunning) (db_deps t') =
          filter (\<lambda>v. w_app v = b \<and> w_status v = StatusRunning) (db_deps t)"
      using filter_map_id [OF deps_sorted [OF assms(1)], of w "\<lambda>v. w_app v = b \<and> w_status v = StatusRunning"]
        sql_last_Some [OF w(1)] w(2) that
      by (simp add: sql_set_status_def map_id_def)
  qed
  ultimately show ?thesis by blast
qed

text \<open>\<open>settled\<close>: the tables of the router and the bookkeeping are kept, and nothing is started.\<close>

definition kept_routing :: "'x sys \<Rightarrow> (string \<times> route) list \<times> (string \<times> heal_state) list
    \<times> (string \<times> int) list \<times> health \<times> bool" where
  "kept_routing s = (routes s, heals s, unreachable_since s, health_view s, nudged s)"

definition settled :: "'x sys \<Rightarrow> 'x sys \<Rightarrow> bool" where
  "settled s s' = (later s s' \<and> kept_routing s' = kept_routing s \<and> adds (\<lambda>e. \<not> is_run e) s s')"

interpretation settled: frame settled
  by unfold_locales (auto simp: settled_def intro: later.refl later.trans adds.refl adds.trans)

lemma isolated_settled: "isolated s s' \<Longrightarrow> adds (\<lambda>e. \<not> is_run e) s s' \<Longrightarrow> settled s s'"
  by (simp add: settled_def isolated_def kept_routing_def)

lemma pres_settled_quiet: "pres isolated m \<Longrightarrow> pres only_config m \<Longrightarrow> pres settled m"
proof -
  assume "pres isolated m" and n: "pres only_config m"
  moreover have "pres (adds (\<lambda>e. \<not> is_run e)) m"
    by (rule pres_adds_quiet [OF n]) (simp add: quiet_event)
  ultimately show ?thesis by (simp add: pres_def isolated_settled)
qed

lemma pres_remove_settled: "pres settled (ignore (RemoveContainer env n c))"
proof -
  have "pres (adds (\<lambda>e. \<not> is_run e)) (ignore (RemoveContainer env n c))"
    by (rule pres_mono [OF pres_remove_in [where R = UNIV]])
       (auto elim!: adds_mono simp: removes_in_def is_run_def split: event.splits)
  moreover have "pres isolated (ignore (RemoveContainer env n c))" by (intro pres_rules)
  ultimately show ?thesis by (simp add: pres_def isolated_settled)
qed

lemma pres_settled_leaves:
  "pres settled (known_unreachable env n)" "pres settled (ResolveMeta env n)"
  "pres settled (CurrentDeployment env a)"
  by (intro pres_settled_quiet pres_rules)+

lemma pres_remove_old_settled: "pres settled (remove_old env olds)"
  by (induction olds)
     (simp_all only: remove_old.simps Let_def, (intro settled.pres_bind settled.pres_if settled.pres_attempt
       settled.pres_ret pres_settled_leaves pres_remove_settled; assumption?)+)

lemma pres_remove_aside: "pres aside (ignore (RemoveContainer env n c))"
  by (rule pres_calm_aside) (intro pres_rules)

lemma pres_remove_old_aside: "pres aside (remove_old env olds)"
  by (induction olds)
     (simp_all only: remove_old.simps Let_def, (intro pres_rules pres_remove_aside; assumption?)+)

lemmas pres_remove_old = pres_remove_old_settled pres_remove_old_aside

lemma pres_SetStatus_settled: "pres settled (ignore (SetStatus env i st))"
proof (rule presI)
  fix s r s'
  assume "run_state (ignore (SetStatus env i st)) s = (r, s')"
  then obtain x where x: "run_state (SetStatus env i st) s = (x, s')"
    by (auto simp: ignore_def split: prod.splits)
  have "pres (adds (\<lambda>e. \<not> is_run e)) (SetStatus env i st)"
    by (rule pres_adds_quiet [OF pres_only_config_store(8)]) (simp add: quiet_event)
  from presD [OF this x] show "settled s s'"
    using writesD [OF writes_store(2) x]
    by (simp add: settled_def calm_def aside_def kept_def later_def kept_routing_def)
qed

lemma scan_row_id: "scan_option (Some w) = Inr (Some p) \<Longrightarrow> d_id p = w_id w"
  by (auto simp: scan_option_def scan_row_def split: sum.splits)

lemma retire_previous_ok:
  assumes "run_state (retire_previous env name) s = (u, s')"
  shows "settled s s' \<and> retired_row name (sdb s) (sdb s')"
proof -
  obtain r s1 where r: "run_state (CurrentDeployment env name) s = (r, s1)" by fastforce
  have q: "settled s s1"
    by (rule presD [OF pres_settled_leaves(3) r])
  have db1: "sdb s1 = sdb s" using presD [OF pres_store_reads(1) r] by (simp add: calm_def aside_def kept_def)
  show ?thesis
  proof (cases "\<exists>p. r = Inr (Some p)")
    case False
    then have "s' = s1" using assms r by (auto simp: retire_previous_def split: sum.splits option.splits)
    then show ?thesis using q db1 by (simp add: retired_row_def)
  next
    case True
    then obtain p where p: "r = Inr (Some p)" by blast
    obtain u2 s2 where s2: "run_state (remove_old env (old_replicas p)) s1 = (u2, s2)"
      by (cases "run_state (remove_old env (old_replicas p)) s1")
    have s': "run_state (ignore (SetStatus env (d_id p) StatusRetired)) s2 = (u, s')"
      using assms r p s2 by (simp add: retire_previous_def)
    then obtain x where x: "run_state (SetStatus env (d_id p) StatusRetired) s2 = (x, s')"
      by (auto simp: ignore_def split: prod.splits)
    have db2: "sdb s2 = sdb s" using presD [OF pres_remove_old(2) s2] aside_fields(1) db1 by metis
    obtain w where w: "sql_last_with_status name StatusRunning (sdb s) = Some w" "w_id w = d_id p"
      using CurrentDeployment_result [of env name s "Some p"] r p scan_row_id
      by (cases "sql_last_with_status name StatusRunning (sdb s)") (auto simp: scan_option_def)
    have "settled s s'"
      using q presD [OF pres_remove_old(1) s2] presD [OF pres_SetStatus_settled s'] settled.trans by blast
    moreover have "retired_row name (sdb s) (sdb s')"
      using writesD [OF writes_store(2) x] w db2 by (cases x) (auto simp: retired_row_def)
    ultimately show ?thesis by blast
  qed
qed

section \<open>Going live\<close>

definition live_route :: "app \<Rightarrow> replica list \<Rightarrow> route" where
  "live_route a reps = \<lparr>rt_domain = a_domain a, rt_upstreams = map upstream_of reps,
     rt_tls_internal = UseInternalTLS (a_domain a)\<rparr>"

definition is_record_error :: "goerr \<Rightarrow> bool" where
  "is_record_error e = (case e of Wrapf fmt _ _ \<Rightarrow> fmt = ''record deployment: %w'' | _ \<Rightarrow> False)"

lemma SetRoute_logs:
  assumes "run_state (SetRoute env r) s = (Inr u, s')"
  shows "trace s' = trace s @ [EvConfig (config_of (routes s') (staging s'))]"
  using assms
  by (auto simp: SetRoute_def applyConfig_def postConfig_def call_def call_unit_def log_event_def
      wrap_err_def unit_res_def Let_def split: prod.splits sum.splits option.splits if_splits)

text \<open>From the flip on: the new route is live, and what follows starts nothing.\<close>

definition flipped :: "app \<Rightarrow> replica list \<Rightarrow> 'x sys \<Rightarrow> 'x sys \<Rightarrow> bool" where
  "flipped a reps s s' = (later s s' \<and> routes s' = AList.update (a_domain a) (live_route a reps) (routes s) \<and>
     (\<exists>pre post stg. new_events s s' = pre @ [EvConfig (config_of (routes s') stg)] @ post \<and>
        list_all (\<lambda>e. \<not> is_remove e) pre \<and> list_all (\<lambda>e. \<not> is_run e) post))"

lemma flippedI:
  assumes q: "quiet_start s s2"
    and set: "run_state (SetRoute env (live_route a reps)) s2 = (Inr u, s3)"
    and rest: "settled s3 s4"
  shows "flipped a reps s s4"
proof -
  have r3: "routes s3 = AList.update (a_domain a) (live_route a reps) (routes s2)"
    using commitsD [OF commits_SetRoute set] by (simp add: live_route_def)
  have r2: "routes s2 = routes s" using q by (simp add: quiet_start_def isolated_def)
  have r4: "routes s4 = routes s3" using rest by (simp add: settled_def kept_routing_def)
  obtain pre where pre: "trace s2 = trace s @ pre" "list_all (\<lambda>e. \<not> is_remove e) pre"
    using q by (auto simp: quiet_start_def adds_def)
  obtain post where post: "trace s4 = trace s3 @ post" "list_all (\<lambda>e. \<not> is_run e) post"
    using rest by (auto simp: settled_def adds_def)
  have "new_events s s4 = pre @ [EvConfig (config_of (routes s4) (staging s3))] @ post"
    using pre(1) post(1) SetRoute_logs [OF set] r4 by (simp add: new_events_def)
  moreover have "later s s4"
    using quiet_start_later [OF q] commitsD [OF commits_SetRoute set] rest later.trans
    by (metis edge_only_def settled_def)
  ultimately show ?thesis using r2 r3 r4 pre(2) post(2) unfolding flipped_def by metis
qed

lemma flipped_cong:
  assumes "flipped a reps s t" and eq: "trace t' = trace t" "routes t' = routes t" "clock t' = clock t"
  shows "flipped a reps s t'"
  using assms(1) unfolding flipped_def new_events_def later_def eq .

lemma pres_staging_quiet:
  "pres quiet_start (SetStaging env h ups)" "pres quiet_start (RemoveStaging env h)"
  "pres quiet_start (check_all env a h ps)"
  by (intro pres_quiet_start pres_rules)+

lemma pres_staging_settled: "pres settled (ignore (RemoveStaging env h))"
  by (intro pres_settled_quiet pres_rules)

lemma resetHeal_run: "run_state (resetHeal n) s = ((), s\<lparr>heals := AList.delete n (heals s)\<rparr>)"
  by (simp add: resetHeal_def)

text \<open>What is known after a failure before the flip: nothing but the own containers is removed.\<close>

definition aborted :: "replica_target list \<Rightarrow> container list \<Rightarrow> 'x sys \<Rightarrow> 'x sys \<Rightarrow> bool" where
  "aborted ts cs s s' = (\<exists>s1. quiet_start s s1 \<and> isolated s1 s' \<and> adds (removes_in (owned ts cs)) s1 s')"

lemma aborted_record:
  "quiet_start s s1 \<Longrightarrow> run_state (recordFailedReplicaSet env h ts cs a img spec content) s1 = (u, s') \<Longrightarrow>
     aborted ts cs s s'"
  unfolding aborted_def
  by (intro exI [of _ s1] conjI presD [OF pres_recordFailedReplicaSet] presD [OF pres_recordFailed_in])

lemma check_all_wrapped:
  "run_state (check_all env a h ps) s = (Inl e, s') \<Longrightarrow> \<not> is_record_error e"
  by (induction env a h ps arbitrary: s rule: check_all.induct)
     (auto simp: wrap_err_def is_record_error_def split: prod.splits sum.splits)

text \<open>The record of a deploy that went live.\<close>

definition new_deployment ::
  "app \<Rightarrow> string \<Rightarrow> string \<Rightarrow> spec_text \<Rightarrow> bool \<Rightarrow> replica list \<Rightarrow> int \<Rightarrow> deployment"
where
  "new_deployment a img content spec scheduled reps t =
     \<lparr>d_id = 0, d_app = a_name a, d_image = img, d_container = x_container (hd reps),
      d_status = StatusRunning, d_created = t, d_spec = spec, d_compose = content,
      d_scheduled = scheduled, d_replicas = reps\<rparr>"

definition went_live ::
  "app \<Rightarrow> string \<Rightarrow> string \<Rightarrow> spec_text \<Rightarrow> bool \<Rightarrow> replica list \<Rightarrow> 'x sys \<Rightarrow> 'x sys \<Rightarrow> deployment \<Rightarrow> bool"
where
  "went_live a img content spec scheduled reps s s' d =
     (\<exists>t i t1. failed_rows (sdb s) t1 \<and> d = (new_deployment a img content spec scheduled reps t)\<lparr>d_id := i\<rparr> \<and>
        (\<exists>t2. retired_row (a_name a) t1 t2 \<and>
          (i, sdb s') = sql_insert_deployment (row_of (new_deployment a img content spec scheduled reps t)) t2) \<and>
        heals s' = AList.delete (a_name a) (heals s))"

lemma retired_now: "pres settled (ignore m) \<Longrightarrow> run_state (ignore m) s = (u, s') \<Longrightarrow> settled s s'"
  by (rule presD)

lemma record_live:
  assumes run: "run_state (RecordDeployment env d) s = (r, s')"
  shows "settled s s' \<and> (case r of Inl e \<Rightarrow> True | Inr i \<Rightarrow> (i, sdb s') = sql_insert_deployment (row_of d) (sdb s))"
proof -
  have "pres (adds (\<lambda>e. \<not> is_run e)) (RecordDeployment env d)"
    by (rule pres_adds_quiet [OF pres_only_config_store(7)]) (simp add: quiet_event)
  from presD [OF this run] show ?thesis
    using writesD [OF writes_store(1) run]
    by (cases r) (simp_all add: settled_def calm_def aside_def kept_def later_def kept_routing_def)
qed

text \<open>The tail of \<open>go_live\<close>, after the flip.\<close>

definition after_flip ::
  "'x env \<Rightarrow> app \<Rightarrow> string \<Rightarrow> string \<Rightarrow> spec_text \<Rightarrow> bool \<Rightarrow> string \<Rightarrow> replica list \<Rightarrow> ('x sys, deployment res) state"
where
  "after_flip env a img content spec scheduled stageHost reps = do {
     ignore (RemoveStaging env stageHost);
     retire_previous env (a_name a);
     t \<leftarrow> now;
     attempt (RecordDeployment env (new_deployment a img content spec scheduled reps t))
       (wrap_err ''record deployment: %w'' []) (\<lambda>i. do {
         resetHeal (a_name a);
         ret (Inr ((new_deployment a img content spec scheduled reps t)\<lparr>d_id := i\<rparr>)) })
   }"

lemma go_live_alt:
  "go_live env a img content spec scheduled stageHost targets cs reps =
     attempt (SetStaging env stageHost (map upstream_of reps))
       (\<lambda>e. do { recordFailedReplicaSet env stageHost targets cs a img spec content;
                 wrap_err ''set staging route: %w'' [] e }) (\<lambda>_.
     attempt (check_all env a stageHost (zip targets cs))
       (\<lambda>e. do { recordFailedReplicaSet env stageHost targets cs a img spec content; fail_with e }) (\<lambda>_.
     attempt (SetRoute env (live_route a reps))
       (\<lambda>e. do { recordFailedReplicaSet env stageHost targets cs a img spec content;
                 wrap_err ''set route: %w'' [] e })
       (\<lambda>_. after_flip env a img content spec scheduled stageHost reps)))"
  by (simp add: go_live_def after_flip_def live_route_def new_deployment_def Let_def)

lemma after_flip_ok:
  assumes q: "quiet_start s s2"
    and set: "run_state (SetRoute env (live_route a reps)) s2 = (Inr u, s3)"
    and run: "run_state (after_flip env a img content spec scheduled h reps) s3 = (r, s')"
  shows "flipped a reps s s' \<and> (case r of Inl e \<Rightarrow> is_record_error e
     | Inr d \<Rightarrow> went_live a img content spec scheduled reps s s' d)"
proof -
  obtain u1 s4 where s4: "run_state (ignore (RemoveStaging env h)) s3 = (u1, s4)"
    by (cases "run_state (ignore (RemoveStaging env h)) s3")
  obtain u2 s5 where s5: "run_state (retire_previous env (a_name a)) s4 = (u2, s5)"
    by (cases "run_state (retire_previous env (a_name a)) s4")
  let ?d = "new_deployment a img content spec scheduled reps (clock s5)"
  obtain ri s6 where s6: "run_state (RecordDeployment env ?d) s5 = (ri, s6)" by fastforce
  have q4: "settled s3 s4" by (rule presD [OF pres_staging_settled s4])
  note r5 = retire_previous_ok [OF s5] and r6 = record_live [OF s6]
  have s36: "settled s3 s6" using settled.trans q4 r5 r6 by blast
  have db: "failed_rows (sdb s) (sdb s4)"
  proof -
    have "pres isolated (ignore (RemoveStaging env h))" by (intro pres_rules)
    from presD [OF this s4] have "failed_rows (sdb s3) (sdb s4)" by (simp add: isolated_def)
    moreover have "sdb s3 = sdb s2" using commitsD [OF commits_SetRoute set] edge_only_fields(1) by metis
    ultimately show ?thesis using q failed_rows_trans by (auto simp: quiet_start_def isolated_def)
  qed
  have "heals s2 = heals s" using q by (simp add: quiet_start_def isolated_def)
  then have h: "heals s6 = heals s"
    using s36 commitsD [OF commits_SetRoute set] edge_only_fields(3) [of s2 s3]
    by (simp add: settled_def kept_routing_def)
  show ?thesis
  proof (cases ri)
    case (Inl e)
    then have "s' = s6" "is_err r" "r = Inl (Wrapf ''record deployment: %w'' [] e)"
      using run s4 s5 s6 by (auto simp: after_flip_def now_def wrap_err_def)
    then show ?thesis using flippedI [OF q set s36] by (simp add: is_record_error_def)
  next
    case (Inr i)
    then have s': "s' = s6\<lparr>heals := AList.delete (a_name a) (heals s6)\<rparr>" and r: "r = Inr (?d\<lparr>d_id := i\<rparr>)"
      using run s4 s5 s6 by (auto simp: after_flip_def now_def resetHeal_run)
    have "flipped a reps s s'"
      using flipped_cong [OF flippedI [OF q set s36]] s' by simp
    moreover have "went_live a img content spec scheduled reps s s' (?d\<lparr>d_id := i\<rparr>)"
      unfolding went_live_def using db r5 r6 Inr s' h
      by (intro exI [of _ "clock s5"] exI [of _ i] exI [of _ "sdb s4"]) auto
    ultimately show ?thesis using r by simp
  qed
qed

lemma failed_route_quiet:
  assumes "run_state (SetRoute env rt) s = (Inl e, s')"
  shows "quiet_start s s'"
proof -
  have "isolated s s'" using commitsD [OF commits_SetRoute assms] by (simp add: edge_isolated)
  moreover have "pres (adds (\<lambda>e. \<not> is_remove e)) (SetRoute env rt)"
    by (rule pres_adds_quiet [OF pres_only_config_mutators(1)]) (simp add: quiet_event)
  ultimately show ?thesis using presD [OF _ assms] by (simp add: quiet_start_def)
qed

lemma go_live_ok:
  assumes q: "quiet_start s0 s"
    and run: "run_state (go_live env a img content spec scheduled h ts cs reps) s = (r, s')"
  shows "case r of
      Inl e \<Rightarrow> if is_record_error e then flipped a reps s0 s' else aborted ts cs s0 s'
    | Inr d \<Rightarrow> flipped a reps s0 s' \<and> went_live a img content spec scheduled reps s0 s' d"
proof -
  let ?F = "recordFailedReplicaSet env h ts cs a img spec content"
  obtain r1 s1 where s1: "run_state (SetStaging env h (map upstream_of reps)) s = (r1, s1)" by fastforce
  have q1: "quiet_start s0 s1" by (rule quiet_start.trans [OF q presD [OF pres_staging_quiet(1) s1]])
  obtain r2 s2 where s2: "run_state (check_all env a h (zip ts cs)) s1 = (r2, s2)" by fastforce
  have q2: "quiet_start s0 s2" by (rule quiet_start.trans [OF q1 presD [OF pres_staging_quiet(3) s2]])
  obtain r3 s3 where s3: "run_state (SetRoute env (live_route a reps)) s2 = (r3, s3)" by fastforce
  consider (staging) e where "r1 = Inl e" | (health) u e where "r1 = Inr u" "r2 = Inl e"
    | (route) u v e where "r1 = Inr u" "r2 = Inr v" "r3 = Inl e"
    | (live) u v w where "r1 = Inr u" "r2 = Inr v" "r3 = Inr w"
    by (metis obj_sumE)
  then show ?thesis
  proof cases
    case staging
    obtain u t where t: "run_state ?F s1 = (u, t)" by (cases "run_state ?F s1")
    then show ?thesis using run s1 staging aborted_record [OF q1 t]
      by (auto simp: go_live_alt wrap_err_def is_record_error_def)
  next
    case health
    obtain u t where t: "run_state ?F s2 = (u, t)" by (cases "run_state ?F s2")
    then show ?thesis using run s1 s2 health aborted_record [OF q2 t] check_all_wrapped [of env a h "zip ts cs" s1]
      by (auto simp: go_live_alt)
  next
    case route
    have q3: "quiet_start s0 s3" using quiet_start.trans [OF q2 failed_route_quiet] s3 route by simp
    obtain u t where t: "run_state ?F s3 = (u, t)" by (cases "run_state ?F s3")
    then show ?thesis using run s1 s2 s3 route aborted_record [OF q3 t]
      by (auto simp: go_live_alt wrap_err_def is_record_error_def)
  next
    case live
    then have "run_state (after_flip env a img content spec scheduled h reps) s3 = (r, s')"
      using run s1 s2 s3 by (simp add: go_live_alt)
    from after_flip_ok [OF q2 s3 [unfolded live(3)] this] show ?thesis by (auto split: sum.splits)
  qed
qed

section \<open>The whole deploy\<close>

lemma more_targets_ok:
  "run_state (more_targets env a sch k ex ts) s = (Inr ts', s') \<Longrightarrow>
     \<exists>more. ts' = ts @ more \<and> length more = k \<and> (\<not> sch \<longrightarrow> list_all (\<lambda>t. tg_name t = a_node a) more)"
proof (induction k arbitrary: ex ts s)
  case 0
  then show ?case by simp
next
  case (Suc k)
  obtain n m s1 where "run_state (more_targets env a sch k (if sch then ex @ [n] else ex) (ts @ [target_of n m])) s1 = (Inr ts', s')"
    and n: "\<not> sch \<Longrightarrow> n = a_node a"
    using Suc.prems by (auto simp: wrap_err_def split: prod.splits sum.splits if_splits)
  from Suc.IH [OF this(1)] n show ?case by (auto simp: target_of_def)
qed

lemma more_targets_err:
  "run_state (more_targets env a sch k ex ts) s = (Inl e, s') \<Longrightarrow> \<not> is_record_error e"
  by (induction k arbitrary: ex ts s) (auto simp: wrap_err_def is_record_error_def split: prod.splits sum.splits if_splits)

lemma start_one_err:
  "run_state (start_one env a img vars net i cnt k t) s = (Inl (e, cs), s') \<Longrightarrow> \<not> is_record_error e"
  by (auto simp: start_one_def is_record_error_def split: prod.splits sum.splits if_splits)

lemma start_all_err:
  "run_state (start_all env a img vars net i cnt k ts cs reps) s = ((Some e, cs', reps'), s') \<Longrightarrow> \<not> is_record_error e"
  by (induction ts arbitrary: k cs reps s) (auto split: prod.splits sum.splits dest: start_one_err)

lemma aborted_own:
  assumes ab: "aborted ts cs s1 s'" and q: "quiet_start s s1"
    and runs: "set (runs_of a img vars i cnt k ts cs) \<subseteq> set (new_events s s1)"
  shows "isolated s s' \<and> removes_own (new_events s s')"
proof -
  obtain s2 where s2: "quiet_start s1 s2" "isolated s2 s'" "adds (removes_in (owned ts cs)) s2 s'"
    using ab by (auto simp: aborted_def)
  have q2: "quiet_start s s2" by (rule quiet_start.trans [OF q s2(1)])
  have ev: "new_events s s' = new_events s s2 @ new_events s2 s'"
    using new_events_trans quiet_start_later [OF q2] isolated_later [OF s2(2)] by blast
  have "new_events s s2 = new_events s s1 @ new_events s1 s2"
    using new_events_trans quiet_start_later q s2(1) by blast
  then have runs2: "set (runs_of a img vars i cnt k ts cs) \<subseteq> set (new_events s s2)" using runs by auto
  have "removes_own (new_events s s')"
    unfolding ev
  proof (rule removes_own_split)
    show "list_all (\<lambda>e. \<not> is_remove e) (new_events s s2)" using q2 by (simp add: quiet_start_def adds_events)
    show "list_all (removes_in (owned ts cs)) (new_events s2 s')" using s2(3) by (simp add: adds_events)
  qed (rule owned_started [OF runs2])
  moreover have "isolated s s'" using q2 s2(2) isolated.trans by (auto simp: quiet_start_def)
  ultimately show ?thesis by blast
qed

definition deployed ::
  "app \<Rightarrow> string \<Rightarrow> env_map \<Rightarrow> string \<Rightarrow> spec_text \<Rightarrow> bool \<Rightarrow> int \<Rightarrow> replica_target list \<Rightarrow> container list
     \<Rightarrow> 'x sys \<Rightarrow> 'x sys \<Rightarrow> deployment \<Rightarrow> bool"
where
  "deployed a img vars content spec scheduled i ts cs s s' d =
     (length ts = replica_count a \<and> length cs = length ts \<and> tg_name (hd ts) = a_node a \<and>
      set (runs_of a img vars i (replica_count a) 0 ts cs) \<subseteq> set (new_events s s') \<and>
      flipped a (replicas_of a i (replica_count a) 0 ts cs) s s' \<and>
      went_live a img content spec scheduled (replicas_of a i (replica_count a) 0 ts cs) s s' d)"

lemma quiet_start_own: "quiet_start s u \<Longrightarrow> isolated s u \<and> removes_own (new_events s u)"
  by (auto simp: quiet_start_def adds_events removes_own_def is_remove_def list_all_iff split: event.splits)

lemma deploy_elim:
  assumes run: "run_state (deployReplicaSet env m a img vars net content spec sch) s = (r, s')"
  obtains (early) e where "r = Inl e" "\<not> is_record_error e" "quiet_start s s'"
  | (started) ts s2 err cs reps s3 where "length ts = replica_count a" "tg_name (hd ts) = a_node a" "quiet_start s s2"
      "run_state (start_all env a img vars net (sql_next_id (sdb s)) (replica_count a) 0 ts [] []) s2 = ((err, cs, reps), s3)"
      "run_state (case err of
         Some e \<Rightarrow> recordFailedReplicaSet env (stagingHost (sql_next_id (sdb s))) ts cs a img spec content \<bind> (\<lambda>_. fail_with e)
       | None \<Rightarrow> go_live env a img content spec sch (stagingHost (sql_next_id (sdb s))) ts cs reps) s3 = (r, s')"
proof -
  let ?n = "replica_count a"
  obtain ri s1 where s1: "run_state (NextDeployID env) s = (ri, s1)" by fastforce
  have q1: "quiet_start s s1" using presD [OF _ s1] pres_quiet_start [of "NextDeployID env"] by (simp add: pres_rules)
  show thesis
  proof (cases ri)
    case (Inl e)
    then show thesis using run s1 q1 by (auto simp: deployReplicaSet_def wrap_err_def is_record_error_def intro!: early)
  next
    case (Inr i)
    have i: "i = sql_next_id (sdb s)" using NextDeployID_result s1 Inr by blast
    obtain rt s2 where s2: "run_state (more_targets env a sch (?n - 1) [a_node a] [target_of (a_node a) m]) s1 = (rt, s2)"
      by fastforce
    have q2: "quiet_start s s2"
      using quiet_start.trans [OF q1] presD [OF _ s2] pres_quiet_start [OF pres_more_targets(2,1)] by blast
    show thesis
    proof (cases rt)
      case (Inl e)
      then show thesis using run s1 s2 Inr q2 more_targets_err [of env a sch "?n - 1"] s2
        by (auto simp: deployReplicaSet_def Let_def intro!: early)
    next
      case ts: (Inr ts)
      have len: "length ts = ?n" "tg_name (hd ts) = a_node a"
        using more_targets_ok s2 ts by (fastforce simp: replica_count_def target_of_def)+
      obtain err cs reps s3 where s3: "run_state (start_all env a img vars net i ?n 0 ts [] []) s2 = ((err, cs, reps), s3)"
        by (metis surj_pair)
      then show thesis using run s1 s2 Inr ts i
        by (intro started [OF len q2]) (auto simp: deployReplicaSet_def Let_def)
    qed
  qed
qed

lemma deploy_ok:
  assumes run: "run_state (deployReplicaSet env m a img vars net content spec sch) s = (r, s')"
  shows "case r of
      Inl e \<Rightarrow> if is_record_error e then \<exists>reps. flipped a reps s s'
               else isolated s s' \<and> removes_own (new_events s s')
    | Inr d \<Rightarrow> \<exists>ts cs. deployed a img vars content spec sch (sql_next_id (sdb s)) ts cs s s' d \<and>
        (\<exists>s3. quiet_start s s3 \<and>
           set (runs_of a img vars (sql_next_id (sdb s)) (replica_count a) 0 ts cs) \<subseteq> set (new_events s s3) \<and>
           run_state (go_live env a img content spec sch (stagingHost (sql_next_id (sdb s))) ts cs
             (replicas_of a (sql_next_id (sdb s)) (replica_count a) 0 ts cs)) s3 = (Inr d, s'))"
  using run
proof (cases rule: deploy_elim)
  case (early e)
  then show ?thesis using quiet_start_own by auto
next
  case (started ts s2 err cs reps s3)
  let ?n = "replica_count a" and ?i = "sql_next_id (sdb s)"
  have q3: "quiet_start s2 s3" and ok: "started_ok a img vars ?i ?n 0 ts err cs reps (new_events s2 s3)"
    using start_all_ok [OF started(4)] by auto
  have q3s: "quiet_start s s3" by (rule quiet_start.trans [OF started(3) q3])
  have runs: "set (runs_of a img vars ?i ?n 0 ts cs) \<subseteq> set (new_events s s3)"
    using ok new_events_trans quiet_start_later started(3) q3 by (fastforce simp: started_ok_def)
  show ?thesis
  proof (cases err)
    case (Some e)
    let ?F = "recordFailedReplicaSet env (stagingHost ?i) ts cs a img spec content"
    obtain u t where t: "run_state ?F s3 = (u, t)" by (cases "run_state ?F s3")
    have "r = Inl e" "s' = t" using started(5) Some t by auto
    moreover have "\<not> is_record_error e" using start_all_err started(4) Some by blast
    ultimately show ?thesis using aborted_own [OF aborted_record [OF quiet_start.refl t] q3s runs] by auto
  next
    case None
    have reps: "reps = replicas_of a ?i ?n 0 ts cs" "length cs = length ts" using ok None by (auto simp: started_ok_def)
    have live: "run_state (go_live env a img content spec sch (stagingHost ?i) ts cs reps) s3 = (r, s')"
      using started(5) None by simp
    note l0 = go_live_ok [OF quiet_start.refl live] and l = go_live_ok [OF q3s live]
    show ?thesis
    proof (cases r)
      case (Inl e)
      show ?thesis using l l0 aborted_own [OF _ q3s runs] Inl by auto
    next
      case d: (Inr d)
      have "later s3 s'" using l0 d by (simp add: flipped_def)
      then have "new_events s s' = new_events s s3 @ new_events s3 s'"
        using new_events_trans quiet_start_later [OF q3s] by blast
      then have "deployed a img vars content spec sch ?i ts cs s s' d"
        unfolding deployed_def using l d started(1,2) reps runs by auto
      then show ?thesis using d live reps q3s runs by auto
    qed
  qed
qed

lemma replicas_of_length: "length (replicas_of a i cnt k ts cs) = min (length ts) (length cs)"
  by (induction a i cnt k ts cs rule: replicas_of.induct) auto

lemma replicas_of_hd:
  "ts \<noteq> [] \<Longrightarrow> cs \<noteq> [] \<Longrightarrow> x_node (hd (replicas_of a i cnt k ts cs)) = tg_name (hd ts)"
  by (cases ts; cases cs) (simp_all add: replica_at_def)

lemma replica_count_pos: "0 < replica_count a"
  by (simp add: replica_count_def)

text \<open>A replica is backed by a start in the log: the container, and the address Caddy is given.\<close>

definition backed_by :: "string \<Rightarrow> env_map \<Rightarrow> event list \<Rightarrow> replica \<Rightarrow> bool" where
  "backed_by img vars es rep = list_ex (\<lambda>e. case e of
     EvRun n sp (Inr c) \<Rightarrow> c_id c = x_container rep \<and> r_image sp = img \<and> r_env sp = vars \<and>
       (case r_publish sp of
          [] \<Rightarrow> x_upstream rep = r_name sp \<and> x_port rep = r_port sp
        | p # _ \<Rightarrow> x_upstream rep = p_host_ip p \<and> x_port rep = c_host_port c)
   | _ \<Rightarrow> False) es"

lemma backed_by_run:
  "EvRun (tg_node t) (surface_spec a img vars i cnt k t) (Inr c) \<in> set es \<Longrightarrow>
     backed_by img vars es (replica_at a (surface_name a i cnt k) t c)"
  unfolding backed_by_def list_ex_iff
  by (rule bexI) (auto simp: surface_spec_def replica_at_def)

lemma replicas_backed:
  "set (runs_of a img vars i cnt k ts cs) \<subseteq> set es \<Longrightarrow>
     list_all (backed_by img vars es) (replicas_of a i cnt k ts cs)"
  by (induction a img vars i cnt k ts cs rule: runs_of.induct) (auto intro: backed_by_run)

text \<open>
  C1: a deploy that fails is isolated: no live route changed, no database row but rows of failed
  attempts was added, the heal and failover bookkeeping is as it was, and every container the
  attempt removed is one it had itself started on that node. The one error that comes after the
  flip, the failure to record the deployment, is excepted.
\<close>

theorem deployReplicaSet_isolated:
  "wp (deployReplicaSet env m a img vars net content spec sch) (\<lambda>r s'. case r of
       Inr d \<Rightarrow> True
     | Inl e \<Rightarrow> if is_record_error e then map_of (routes s') (a_domain a) \<noteq> None
               else isolated s s' \<and> removes_own (new_events s s')) s"
  unfolding wp_iff
proof (intro allI impI)
  fix r s'
  assume "run_state (deployReplicaSet env m a img vars net content spec sch) s = (r, s')"
  from deploy_ok [OF this] show "case r of
       Inr d \<Rightarrow> True
     | Inl e \<Rightarrow> if is_record_error e then map_of (routes s') (a_domain a) \<noteq> None
               else isolated s s' \<and> removes_own (new_events s s')"
    by (auto simp: flipped_def update_conv' split: sum.splits)
qed

lemma deploy_live:
  "wp (deployReplicaSet env m a img vars net content spec sch) (\<lambda>r s'. case r of
       Inl e \<Rightarrow> True
     | Inr d \<Rightarrow>
         (\<forall>dom. map_of (routes s') dom =
            (if dom = a_domain a then Some (live_route a (d_replicas d)) else map_of (routes s) dom)) \<and>
         length (d_replicas d) = replica_count a \<and> x_node (hd (d_replicas d)) = a_node a \<and>
         list_all (backed_by img vars (new_events s s')) (d_replicas d) \<and>
         d_app d = a_name a \<and> d_image d = img \<and> d_spec d = spec \<and> d_scheduled d = sch \<and>
         map_of (heals s') (a_name a) = None) s"
  unfolding wp_iff
proof (intro allI impI)
  fix r s'
  assume run: "run_state (deployReplicaSet env m a img vars net content spec sch) s = (r, s')"
  show "case r of
       Inl e \<Rightarrow> True
     | Inr d \<Rightarrow>
         (\<forall>dom. map_of (routes s') dom =
            (if dom = a_domain a then Some (live_route a (d_replicas d)) else map_of (routes s) dom)) \<and>
         length (d_replicas d) = replica_count a \<and> x_node (hd (d_replicas d)) = a_node a \<and>
         list_all (backed_by img vars (new_events s s')) (d_replicas d) \<and>
         d_app d = a_name a \<and> d_image d = img \<and> d_spec d = spec \<and> d_scheduled d = sch \<and>
         map_of (heals s') (a_name a) = None"
  proof (cases r)
    case (Inr d)
    obtain ts cs where D: "deployed a img vars content spec sch (sql_next_id (sdb s)) ts cs s s' d"
      using deploy_ok [OF run] Inr by auto
    let ?reps = "replicas_of a (sql_next_id (sdb s)) (replica_count a) 0 ts cs"
    have d: "d_replicas d = ?reps" "d_app d = a_name a" "d_image d = img" "d_spec d = spec" "d_scheduled d = sch"
      using D by (auto simp: deployed_def went_live_def new_deployment_def)
    have "ts \<noteq> []" "cs \<noteq> []" using D replica_count_pos [of a] by (auto simp: deployed_def)
    then show ?thesis
      using D d replicas_backed [of a img vars _ _ 0 ts cs] Inr
      by (simp add: deployed_def flipped_def update_conv' replicas_of_length replicas_of_hd went_live_def)
         (auto simp: delete_conv')
  qed simp
qed


text \<open>
  C3: the order of a successful deploy is zero-downtime: everything it starts, it starts before
  Caddy is given the configuration that routes the domain to the new set, and whatever it removes
  it removes after that.
\<close>

theorem deployReplicaSet_flip_before_removal:
  "wp (deployReplicaSet env m a img vars net content spec sch) (\<lambda>r s'. case r of
       Inl e \<Rightarrow> True
     | Inr d \<Rightarrow> \<exists>pre post stg. new_events s s' = pre @ [EvConfig (config_of (routes s') stg)] @ post \<and>
         list_all (\<lambda>e. \<not> is_remove e) pre \<and> list_all (\<lambda>e. \<not> is_run e) post) s"
  unfolding wp_iff
  using deploy_ok by (fastforce simp: deployed_def flipped_def split: sum.splits)

lemma deploy_current:
  assumes wf: "wf_db (sdb s)"
    and run: "run_state (deployReplicaSet env m a img vars net content spec sch) s = (Inr d, s')"
  shows "wf_db (sdb s') \<and> scan_option (sql_last_with_status (a_name a) StatusRunning (sdb s')) = Inr (Some (stored d)) \<and>
     (\<forall>b. b \<noteq> a_name a \<longrightarrow> sql_last_with_status b StatusRunning (sdb s') = sql_last_with_status b StatusRunning (sdb s))"
proof -
  obtain reps where "went_live a img content spec sch reps s s' d"
    using deploy_ok [OF run] by (auto simp: deployed_def)
  then obtain t i t1 t2 where g: "failed_rows (sdb s) t1" "retired_row (a_name a) t1 t2"
    "d = (new_deployment a img content spec sch reps t)\<lparr>d_id := i\<rparr>"
    "(i, sdb s') = sql_insert_deployment (row_of (new_deployment a img content spec sch reps t)) t2"
    by (auto simp: went_live_def)
  let ?row = "row_of (new_deployment a img content spec sch reps t)"
  have wf1: "wf_db t1" using failed_rows_current [OF wf g(1)] by blast
  note r = retired_row_others [OF wf1 g(2)]
  have wf2: "wf_db t2" using r by blast
  have t': "sdb s' = snd (sql_insert_deployment ?row t2)" using g(4) by (metis snd_conv)
  have "i = sql_next_id t2" using dlog.insert_id [OF wf2, of ?row] g(4) by (metis fst_conv)
  then have "sql_last_with_status (a_name a) StatusRunning (sdb s') = Some (row_of d)"
    unfolding t' using dlog.insert_newest [OF wf2, of "a_name a" StatusRunning ?row] g(3)
    by (simp add: row_of_stamp) (simp add: new_deployment_def)
  moreover have "sql_last_with_status b StatusRunning (sdb s') = sql_last_with_status b StatusRunning (sdb s)"
    if "b \<in> - {a_name a}" for b
  proof -
    have "w_app ?row \<noteq> b" using that by (simp add: new_deployment_def)
    then show ?thesis
      unfolding t' using dlog.newest_other_app [OF wf2] r that failed_rows_current [OF wf g(1)] by simp
  qed
  ultimately show ?thesis using wf_insert [OF wf2] t' by (simp add: scan_option_def)
qed

text \<open>
  After a successful deploy on a well-formed database the recorded deployment is the app's
  current one, under the id the result carries, and no other app's current deployment changed.
\<close>

lemma deployReplicaSet_becomes_current:
  "wp (deployReplicaSet env m a img vars net content spec sch) (\<lambda>r s'. case r of
       Inl e \<Rightarrow> True
     | Inr d \<Rightarrow> if wf_db (sdb s)
         then wf_db (sdb s') \<and> (\<forall>b. scan_option (sql_last_with_status b StatusRunning (sdb s')) =
                (if b = a_name a then Inr (Some (stored d)) else scan_option (sql_last_with_status b StatusRunning (sdb s))))
         else True) s"
  unfolding wp_iff using deploy_current by (fastforce split: sum.splits)

section \<open>The health gate\<close>

lemma evidence_calm: "health_evidence env n a h cid s s' \<Longrightarrow> calm s s'"
  unfolding health_evidence_def probed_ok_def container_says_def ProbeThroughCaddy_def
  by (auto split: if_splits dest!: presD [OF pres_call] intro: calm.trans)

lemma adds_between: "adds P s s' \<Longrightarrow> later s t \<Longrightarrow> later t s' \<Longrightarrow> adds P s t"
  by (auto simp: adds_def later_def prefix_def)

lemma checked_quietly:
  assumes "run_state (checkHealth env n a h cid) s = (Inr (), s')"
  shows "quiet_start s s' \<and> (\<exists>s1. quiet_start s s1 \<and> health_evidence env n a h cid s1 s')"
proof -
  have "quiet_start s s'" by (rule presD [OF pres_quiet_start assms]) (intro pres_rules)+
  moreover obtain s1 where s1: "calm s s1" "health_evidence env n a h cid s1 s'"
    using checkHealth_evidence [OF assms] by blast
  moreover have "later s s1" "later s1 s'" using s1(1) evidence_calm [OF s1(2)] by (simp_all add: calm_def aside_def)
  ultimately have "quiet_start s s1"
    using adds_between aside_isolated calm_aside unfolding quiet_start_def by blast
  with \<open>quiet_start s s'\<close> s1(2) show ?thesis by blast
qed

lemma check_all_evidence:
  "run_state (check_all env a h ps) s = (Inr (), s') \<Longrightarrow>
     list_all (\<lambda>(t, c). \<exists>s1 s2. quiet_start s s1 \<and> quiet_start s s2 \<and> later s2 s' \<and>
       health_evidence env (tg_node t) a h (c_id c) s1 s2) ps"
proof (induction env a h ps arbitrary: s rule: check_all.induct)
  case (2 env a h t c ps)
  obtain r s1 where r: "run_state (checkHealth env (tg_node t) a h (c_id c)) s = (r, s1)" by fastforce
  then have run: "r = Inr ()" "run_state (check_all env a h ps) s1 = (Inr (), s')"
    using 2(2) by (auto simp: wrap_err_def split: sum.splits)
  note q = checked_quietly [OF r [unfolded run(1)]]
  have "later s1 s'" by (rule quiet_start_later [OF presD [OF pres_staging_quiet(3) run(2)]])
  with q have "\<exists>u v. quiet_start s u \<and> quiet_start s v \<and> later v s' \<and> health_evidence env (tg_node t) a h (c_id c) u v"
    by blast
  moreover have "list_all (\<lambda>(t, c). \<exists>u v. quiet_start s u \<and> quiet_start s v \<and> later v s' \<and>
      health_evidence env (tg_node t) a h (c_id c) u v) ps"
    by (rule list.pred_mono_strong [OF 2(1) [OF run(2)]]) (use q quiet_start.trans in \<open>clarsimp, blast\<close>)
  ultimately show ?case by simp
qed simp

text \<open>
  A recorded replica was found healthy on the node it was started on, after its start and before the
  route was flipped: up to then the live routes are the old ones and nothing has been removed.
\<close>

definition gated :: "'x env \<Rightarrow> app \<Rightarrow> string \<Rightarrow> 'x sys \<Rightarrow> 'x sys \<Rightarrow> replica \<Rightarrow> bool" where
  "gated env a h s s' rep = (\<exists>n s1 s2. quiet_start s s1 \<and> quiet_start s s2 \<and> later s2 s' \<and>
     started (new_events s s1) n (x_container rep) \<and> health_evidence env n a h (x_container rep) s1 s2)"

lemma replicas_of_checked:
  assumes "length cs = length ts" "set (runs_of a img vars i cnt k ts cs) \<subseteq> set es"
    "list_all (\<lambda>(t, c). Q (tg_node t) (c_id c)) (zip ts cs)"
  shows "list_all (\<lambda>rep. \<exists>n. started es n (x_container rep) \<and> Q n (x_container rep)) (replicas_of a i cnt k ts cs)"
  using assms
proof (induction a img vars i cnt k ts cs rule: runs_of.induct)
  case (1 a img vars i cnt k t ts c cs)
  have "started es (tg_node t) (c_id c)"
    by (rule owned_started [OF 1(3)]) (simp add: owned_def)
  then have "\<exists>n. started es n (x_container (replica_at a (surface_name a i cnt k) t c)) \<and>
      Q n (x_container (replica_at a (surface_name a i cnt k) t c))"
    using 1(4) by (auto simp: replica_at_def)
  then show ?case using 1 by simp
qed auto

lemma started_mono: "started es n c \<Longrightarrow> set es \<subseteq> set es' \<Longrightarrow> started es' n c"
  by (auto simp: started_def list_ex_iff)

lemma go_live_gate:
  assumes run: "run_state (go_live env a img content spec sch h ts cs reps) s = (Inr d, s')"
  shows "list_all (\<lambda>(t, c). \<exists>s1 s2. quiet_start s s1 \<and> quiet_start s s2 \<and> later s2 s' \<and>
      health_evidence env (tg_node t) a h (c_id c) s1 s2) (zip ts cs)"
proof -
  obtain s1 s2 s3 where s1: "run_state (SetStaging env h (map upstream_of reps)) s = (Inr (), s1)"
    and s2: "run_state (check_all env a h (zip ts cs)) s1 = (Inr (), s2)"
    and s3: "run_state (SetRoute env (live_route a reps)) s2 = (Inr (), s3)"
    and s4: "run_state (after_flip env a img content spec sch h reps) s3 = (Inr d, s')"
    using run by (auto simp: go_live_alt wrap_err_def split: prod.splits sum.splits)
  have q1: "quiet_start s s1" by (rule presD [OF pres_staging_quiet(1) s1])
  have "quiet_start s s2" by (rule quiet_start.trans [OF q1 presD [OF pres_staging_quiet(3) s2]])
  then have "flipped a reps s s'" using after_flip_ok [OF _ s3 s4] by blast
  have "later s2 s'" using after_flip_ok [OF quiet_start.refl s3 s4] by (simp add: flipped_def)
  then show ?thesis
    by (intro list.pred_mono_strong [OF check_all_evidence [OF s2]])
       (use quiet_start.trans [OF q1] later.trans in \<open>clarsimp, blast\<close>)
qed


text \<open>
  With a health path the check of a replica does not depend on the replica: every one asks the
  shared staging host, so one replica that answers lets the whole set pass.
\<close>

lemma checkHealth_path_ignores_replica:
  "h_path (a_health a) \<noteq> [] \<Longrightarrow> checkHealth env n a h cid = checkHealth env n' a h cid'"
  by (simp add: checkHealth_def Let_def)

section \<open>The image\<close>

text \<open>
  When making an image available on a remote node reports success, the last thing it did was
  to ask that node, and the node said the image is there; and it started and removed nothing.
\<close>

lemma ensureImageOnNode_present:
  "wp (ensureImageOnNode env target ref) (\<lambda>r s'.
     isolated s s' \<and> list_all (\<lambda>e. \<not> beyond_config e) (new_events s s') \<and> (case r of
       Inl e \<Rightarrow> True
     | Inr _ \<Rightarrow> \<exists>s1. run_state (call (n_present (node_at env target) ref)) s1 = (Inr True, s'))) s"
  unfolding wp_iff
proof (intro allI impI conjI)
  fix r s'
  assume run: "run_state (ensureImageOnNode env target ref) s = (r, s')"
  show "isolated s s'" by (rule presD [OF pres_isolated_image run])
  show "list_all (\<lambda>e. \<not> beyond_config e) (new_events s s')"
    using presD [OF pres_only_config_image run] by (simp add: only_config_adds adds_events)
  show "case r of
       Inl e \<Rightarrow> True
     | Inr _ \<Rightarrow> \<exists>s1. run_state (call (n_present (node_at env target) ref)) s1 = (Inr True, s')"
    using run
    by (auto simp: ensureImageOnNode_def wrap_err_def Let_def split: prod.splits sum.splits if_splits)
qed

end
