(* ===== verification/Apply.thy ===== *)
theory Apply
  imports Deploy
begin

text \<open>
  The entry points of a deploy (\<open>Apply\<close>, \<open>applyImage\<close>, \<open>applyGit\<close>, \<open>applyCompose\<close>, \<open>Rollback\<close>
  and \<open>healSurfaceLocked\<close> in \<open>src/internal/reconciler/reconciler.go\<close>). They run one at a time under
  the reconciler's mutex, so each is a program over the state as it finds it.
\<close>

section \<open>What the three surface paths share\<close>

definition signalNudge :: "'x env \<Rightarrow> ('x sys, unit) state" where
  "signalNudge env = (if has_nudge env then modify (\<lambda>s. s\<lparr>nudged := True\<rparr>) else ret ())"

text \<open>Wake the loop after a success, and hand the result on.\<close>

definition nudging :: "'x env \<Rightarrow> ('x sys, 'a res) state \<Rightarrow> ('x sys, 'a res) state" where
  "nudging env m = do {
     r \<leftarrow> m;
     (case r of Inl _ \<Rightarrow> ret () | Inr _ \<Rightarrow> signalNudge env);
     ret r
   }"

text \<open>Record the failed attempt, then return the wrapped error.\<close>

definition failing ::
  "'x env \<Rightarrow> app \<Rightarrow> string \<Rightarrow> spec_text \<Rightarrow> string \<Rightarrow> string \<Rightarrow> string list \<Rightarrow> goerr \<Rightarrow> ('x sys, 'a res) state"
where
  "failing env a img spec content fmt as e =
     do { record_failed env (a_name a) img [] spec content; wrap_err fmt as e }"

text \<open>
  From the placed node to the running backing services: resolve the node, bring the router and
  the network up, pull the image (only where the path does it here), resolve the secrets, and
  bring the backing services up.
\<close>

definition prepare ::
  "'x env \<Rightarrow> app \<Rightarrow> string \<Rightarrow> spec_text \<Rightarrow> bool \<Rightarrow> ('x sys, (resolved \<times> env_map \<times> string \<times> string) res) state"
where
  "prepare env a img spec pull =
     attempt (ResolveMeta env (a_node a)) (failing env a img spec [] ''resolve node %q: %w'' [a_node a]) (\<lambda>m.
     attempt (EnsureUp env) (wrap_err ''ensure router: %w'' []) (\<lambda>_.
     attempt (call_unit (n_ensure_network (node_at env (rm_node m)) lwdNetwork)) (wrap_err ''ensure network: %w'' []) (\<lambda>_.
     attempt (if pull then ensure_image env (rm_node m) (rm_local m) img else ret (Inr ()))
       (wrap_err ''ensure image: %w'' []) (\<lambda>_.
     attempt (Resolve_secrets env (a_name a) (a_secrets a)) (failing env a img spec [] ''resolve secrets: %w'' []) (\<lambda>secretVals.
       let vars = mergeEnv (a_env a) secretVals in
     attempt (ensureBacking env (rm_node m) a vars (rm_docker_host m)) (failing env a img spec [] ''ensure backing: %w'' [])
       (\<lambda>(network, content). ret (Inr (m, vars, network, content))))))))"

section \<open>Image apps\<close>

definition applyImageProvenance :: "'x env \<Rightarrow> app \<Rightarrow> bool option \<Rightarrow> ('x sys, deployment res) state" where
  "applyImageProvenance env a0 scheduledOverride =
     attempt (resolvePlacement env a0) (failing env a0 (a_image a0) SpecEmpty [] ''schedule: %w'' []) (\<lambda>(chosen, placed).
       let scheduled = (case scheduledOverride of None \<Rightarrow> placed | Some b \<Rightarrow> b);
           a = a0\<lparr>a_node := chosen\<rparr>;
           spec = SpecJSON a in
     attempt (prepare env a (a_image a) spec True) (\<lambda>e. fail_with e) (\<lambda>(m, vars, network, content).
     deployReplicaSet env m a (a_image a) vars network content spec scheduled))"

definition applyImage :: "'x env \<Rightarrow> app \<Rightarrow> ('x sys, deployment res) state" where
  "applyImage env a = applyImageProvenance env a None"

section \<open>Git apps\<close>

definition git_Clone :: "'x env \<Rightarrow> string \<Rightarrow> string \<Rightarrow> string \<Rightarrow> ('x sys, string res) state" where
  "git_Clone env url ref dir = do { r \<leftarrow> call (git_clone env url ref dir); log_event (EvClone url ref); ret r }"

definition build_Build :: "'x env \<Rightarrow> string \<Rightarrow> string \<Rightarrow> string \<Rightarrow> ('x sys, unit res) state" where
  "build_Build env contextDir dockerfile tag = do {
     r \<leftarrow> call_unit (image_build env contextDir dockerfile tag);
     log_event (EvBuild tag);
     ret r
   }"

text \<open>\<open>filepath.Join(dir, path)\<close>: empty elements are ignored and the result is cleaned.\<close>

definition join_path :: "string \<Rightarrow> string \<Rightarrow> string" where
  "join_path dir path =
     (let p = (if path = [] then dir else dir @ ''/'' @ path) in
      if prefix ''/'' p
      then ''/'' @ join_with ''/'' (dropWhile (\<lambda>w. w = ''..'') (clean_segs [] (split_on (CHR ''/'') p)))
      else join_with ''/'' (cleaned_segments p))"

definition build_tag :: "app \<Rightarrow> string \<Rightarrow> string" where
  "build_tag a sha = ''lwd-build/'' @ a_name a @ '':'' @ shortSHA sha"

definition dockerfile_of :: "app \<Rightarrow> string" where
  "dockerfile_of a = (case a_build a of
     None \<Rightarrow> ''Dockerfile''
   | Some b \<Rightarrow> if b_dockerfile b \<noteq> [] then b_dockerfile b else ''Dockerfile'')"

text \<open>With the clone directory at hand: clone, build unless the tag exists, transfer, deploy.\<close>

definition clone_and_build ::
  "'x env \<Rightarrow> app \<Rightarrow> git \<Rightarrow> resolved \<Rightarrow> env_map \<Rightarrow> string \<Rightarrow> string \<Rightarrow> spec_text \<Rightarrow> bool \<Rightarrow> string
     \<Rightarrow> ('x sys, deployment res) state"
where
  "clone_and_build env a g m vars network content spec scheduled dir =
     attempt (git_Clone env (g_url g) (g_ref g) dir) (failing env a [] spec content ''clone: %w'' []) (\<lambda>sha.
       let tag = build_tag a sha in
     attempt (call (image_exists env tag)) (failing env a tag spec content ''check image exists: %w'' []) (\<lambda>exists.
     attempt (if exists then ret (Inr ())
              else build_Build env (join_path dir (g_path g)) (dockerfile_of a) tag)
       (failing env a tag spec content ''build: %w'' []) (\<lambda>_.
     attempt (if rm_local m then ret (Inr ()) else ensureImageOnNode env (rm_node m) tag)
       (failing env a tag spec content ''ensure image on node %q: %w'' [a_node a]) (\<lambda>_.
     deployReplicaSet env m a tag vars network content spec scheduled))))"

definition applyGit :: "'x env \<Rightarrow> app \<Rightarrow> git \<Rightarrow> ('x sys, deployment res) state" where
  "applyGit env a0 g =
     attempt (resolvePlacement env a0) (failing env a0 [] SpecEmpty [] ''schedule: %w'' []) (\<lambda>(chosen, scheduled).
       let a = a0\<lparr>a_node := chosen\<rparr>; spec = SpecJSON a in
     attempt (prepare env a [] spec False) (\<lambda>e. fail_with e) (\<lambda>(m, vars, network, content).
     attempt (call (mkdir_temp env)) (wrap_err ''create temp clone dir: %w'' []) (\<lambda>dir. do {
       r \<leftarrow> clone_and_build env a g m vars network content spec scheduled dir;
       ignore (call (remove_all env dir));
       ret r
     })))"

definition rollbackGitLocked :: "'x env \<Rightarrow> app \<Rightarrow> bool \<Rightarrow> ('x sys, deployment res) state" where
  "rollbackGitLocked env a scheduled =
     (case Validate (a\<lparr>a_image := []\<rparr>) of
        Some e \<Rightarrow> wrap_err ''invalid spec: %w'' [] e
      | None \<Rightarrow>
          if a_image a = [] then fail_with (Errf ''no built image tag recorded to roll back to for %q'' [a_name a])
          else
            let spec = SpecJSON a in
            attempt (prepare env a (a_image a) spec False) (\<lambda>e. fail_with e) (\<lambda>(m, vars, network, content).
            attempt (if rm_local m then ret (Inr ()) else ensureImageOnNode env (rm_node m) (a_image a))
              (failing env a (a_image a) spec content ''ensure image on node %q: %w'' [a_node a]) (\<lambda>_.
            deployReplicaSet env m a (a_image a) vars network content spec scheduled)))"

section \<open>Compose apps\<close>

definition recordComposeFailed ::
  "'x env \<Rightarrow> app \<Rightarrow> string \<Rightarrow> spec_text \<Rightarrow> string \<Rightarrow> string \<Rightarrow> string list \<Rightarrow> goerr \<Rightarrow> ('x sys, 'a res) state"
where
  "recordComposeFailed env a cid spec content fmt as e =
     do { record_failed env (a_name a) (a_image a) cid spec content; wrap_err fmt as e }"

definition retire_row :: "'x env \<Rightarrow> string \<Rightarrow> ('x sys, unit) state" where
  "retire_row env name =
     attempt (CurrentDeployment env name) (\<lambda>_. ret ()) (\<lambda>prev. case prev of
       None \<Rightarrow> ret ()
     | Some p \<Rightarrow> ignore (SetStatus env (d_id p) StatusRetired))"

text \<open>From the compose stack that is up on: route it, check it, record it.\<close>

definition compose_live ::
  "'x env \<Rightarrow> app \<Rightarrow> node_ref \<Rightarrow> spec_text \<Rightarrow> string \<Rightarrow> string \<Rightarrow> string \<Rightarrow> ('x sys, deployment res) state"
where
  "compose_live env a n spec content cid name =
     (let bad = recordComposeFailed env a cid spec content in
      attempt (call_unit (n_connect (node_at env n) cid lwdNetwork)) (bad ''connect container to network: %w'' []) (\<lambda>_.
      attempt (SetRoute env \<lparr>rt_domain = a_domain a, rt_upstreams = [\<lparr>u_host = name, u_port = a_port a\<rparr>],
          rt_tls_internal = UseInternalTLS (a_domain a)\<rparr>) (bad ''set route: %w'' []) (\<lambda>_.
      attempt (checkHealthCompose env a) (bad ''health check failed: %w'' []) (\<lambda>_. do {
        retire_row env (a_name a);
        t \<leftarrow> now;
        let dep = \<lparr>d_id = 0, d_app = a_name a, d_image = a_image a, d_container = cid, d_status = StatusRunning,
                   d_created = t, d_spec = spec, d_compose = content, d_scheduled = False, d_replicas = []\<rparr>;
        attempt (RecordDeployment env dep) (wrap_err ''record deployment: %w'' [])
          (\<lambda>i. ret (Inr (dep\<lparr>d_id := i\<rparr>)))
      }))))"

definition applyCompose :: "'x env \<Rightarrow> app \<Rightarrow> ('x sys, deployment res) state" where
  "applyCompose env a =
     (let spec = SpecJSON a; project = ''lwd-'' @ a_name a in
      attempt (Resolve env (a_node a)) (recordComposeFailed env a [] spec [] ''resolve node %q: %w'' [a_node a]) (\<lambda>n.
      attempt (EnsureUp env) (wrap_err ''ensure router: %w'' []) (\<lambda>_.
      attempt (call_unit (n_ensure_network (node_at env n) lwdNetwork)) (wrap_err ''ensure network: %w'' []) (\<lambda>_. do {
        file \<leftarrow> call (read_file env (a_compose a));
        let content = (case file of Inl _ \<Rightarrow> [] | Inr text \<Rightarrow> text);
        attempt (Resolve_secrets env (a_name a) (a_secrets a))
          (recordComposeFailed env a [] spec content ''resolve secrets: %w'' []) (\<lambda>secretVals.
        case file of
          Inl e \<Rightarrow> recordComposeFailed env a [] spec [] ''read compose file %s: %w'' [a_compose a] e
        | Inr _ \<Rightarrow>
            attempt (compose_Up env project (a_compose a) (mergeEnv (a_env a) secretVals))
              (recordComposeFailed env a [] spec content ''compose up: %w'' []) (\<lambda>_.
            attempt (call (compose_service env project (a_service a)))
              (recordComposeFailed env a [] spec content ''resolve service container: %w'' []) (\<lambda>(cid, name).
            compose_live env a n spec content cid name)))
      }))))"

section \<open>Apply and Rollback\<close>

definition Apply :: "'x env \<Rightarrow> app \<Rightarrow> ('x sys, deployment res) state" where
  "Apply env a =
     (case Validate a of
        Some e \<Rightarrow> wrap_err ''invalid spec: %w'' [] e
      | None \<Rightarrow> nudging env (case a_git a of
          Some g \<Rightarrow> applyGit env a g
        | None \<Rightarrow> if a_compose a \<noteq> [] then applyCompose env a else applyImage env a))"

definition rollbackImage :: "'x env \<Rightarrow> app \<Rightarrow> bool \<Rightarrow> ('x sys, deployment res) state" where
  "rollbackImage env a scheduled =
     (case Validate a of
        Some e \<Rightarrow> wrap_err ''invalid spec: %w'' [] e
      | None \<Rightarrow> applyImageProvenance env a (Some scheduled))"

text \<open>The previous deployment's spec with the recorded image pinned.\<close>

definition restored_app :: "string \<Rightarrow> string \<Rightarrow> deployment \<Rightarrow> app res" where
  "restored_app missing name d = (case d_spec d of
     SpecEmpty \<Rightarrow> Inl (Errf missing [name])
   | SpecBad t \<Rightarrow> Inl (Wrapf ''unmarshal spec snapshot for %q: %w'' [name] (Errf t []))
   | SpecJSON a \<Rightarrow> Inr (a\<lparr>a_image := d_image d\<rparr>))"

definition Rollback :: "'x env \<Rightarrow> string \<Rightarrow> ('x sys, deployment res) state" where
  "Rollback env name =
     attempt (PreviousDeployment env name) (wrap_err ''load previous deployment: %w'' []) (\<lambda>prev. case prev of
       None \<Rightarrow> fail_with (Errf ''no previous deployment for %q'' [name])
     | Some p \<Rightarrow> (case restored_app ''no spec snapshot recorded for previous deployment of %q'' name p of
         Inl e \<Rightarrow> fail_with e
       | Inr a \<Rightarrow>
           if a_git a \<noteq> None then nudging env (rollbackGitLocked env a (d_scheduled p))
           else if a_compose a \<noteq> [] then
             with_temp env ''compose file'' (d_compose p) (\<lambda>tmp. Apply env (a\<lparr>a_compose := tmp\<rparr>))
           else nudging env (rollbackImage env a (d_scheduled p))))"

definition healSurfaceLocked :: "'x env \<Rightarrow> deployment \<Rightarrow> ('x sys, deployment res) state" where
  "healSurfaceLocked env cur = (case restored_app ''no spec snapshot to heal %q'' (d_app cur) cur of
     Inl e \<Rightarrow> fail_with e
   | Inr a \<Rightarrow>
       if a_git a \<noteq> None then rollbackGitLocked env a (d_scheduled cur)
       else (case Validate a of
         Some e \<Rightarrow> wrap_err ''invalid spec snapshot for %q: %w'' [d_app cur] e
       | None \<Rightarrow> applyImageProvenance env a (Some (d_scheduled cur))))"

definition surfaceIsDead :: "(string \<times> string) res \<Rightarrow> bool" where
  "surfaceIsDead r = (case r of Inl _ \<Rightarrow> True | Inr (st, _) \<Rightarrow> st \<noteq> ''running'')"

section \<open>Frames\<close>

lemma pres_failing [pres_rules]: "pres isolated (failing env a img spec content fmt as e)"
  unfolding failing_def by (intro pres_rules)

lemma pres_prepare [pres_rules]: "pres isolated (prepare env a img spec pull)"
  unfolding prepare_def Let_def by (intro pres_rules)

lemma pres_compose_failed [pres_rules]: "pres isolated (recordComposeFailed env a cid spec content fmt as e)"
  unfolding recordComposeFailed_def by (intro pres_rules)

lemma pres_compose_Up [pres_rules]: "pres isolated (compose_Up env p f v)"
  unfolding compose_Up_def by (intro pres_rules)

lemma pres_git_tools [pres_rules]: "pres isolated (git_Clone env u r d)" "pres isolated (build_Build env c d t)"
  unfolding git_Clone_def build_Build_def by (intro pres_rules)+

lemma prepare_err:
  "run_state (prepare env a img spec pull) s = (Inl e, s') \<Longrightarrow> \<not> is_record_error e"
  by (auto simp: prepare_def failing_def wrap_err_def is_record_error_def Let_def split: prod.splits sum.splits)

lemma failing_err:
  "run_state (failing env a img spec content fmt as e) s = (r, s') \<Longrightarrow> r = Inl (Wrapf fmt as e)"
  by (auto simp: failing_def wrap_err_def split: prod.splits)

section \<open>A failed deploy is isolated\<close>

text \<open>What a path promises: an error other than the late ones, \<open>L\<close>, is isolated.\<close>

definition isolating :: "(goerr \<Rightarrow> bool) \<Rightarrow> ('x sys, deployment res) state \<Rightarrow> bool" where
  "isolating L m = (\<forall>s. wp m (\<lambda>r s'. case r of
     Inr d \<Rightarrow> True | Inl e \<Rightarrow> L e \<or> isolated s s') s)"

definition compose_app :: "app \<Rightarrow> bool" where
  "compose_app a = (a_git a = None \<and> a_compose a \<noteq> [])"

definition image_app :: "app \<Rightarrow> bool" where
  "image_app a = (a_git a = None \<and> a_compose a = [])"

text \<open>The errors that come when the new deployment is already live.\<close>

definition is_live_error :: "goerr \<Rightarrow> bool" where
  "is_live_error e = (is_record_error e \<or>
     (case e of Wrapf fmt _ _ \<Rightarrow> fmt = ''health check failed: %w'' | _ \<Rightarrow> False))"

lemma isolatingD: "isolating L m \<Longrightarrow> run_state m s = (Inl e, s') \<Longrightarrow> L e \<or> isolated s s'"
  by (fastforce simp: isolating_def wp_iff)

lemma isolatingI:
  "(\<And>s e s'. run_state m s = (Inl e, s') \<Longrightarrow> L e \<or> isolated s s') \<Longrightarrow> isolating L m"
  by (auto simp: isolating_def wp_iff split: sum.splits)

lemma isolating_weak: "isolating L m \<Longrightarrow> (\<And>e. L e \<Longrightarrow> L' e) \<Longrightarrow> isolating L' m"
  by (rule isolatingI) (auto dest: isolatingD)

lemma isolating_deploy: "isolating is_record_error (deployReplicaSet env m a img vars net content spec sch)"
  by (rule isolatingI) (auto dest!: deploy_ok split: if_splits)

lemma isolating_pres: "pres isolated m \<Longrightarrow> isolating L m"
  by (rule isolatingI) (auto dest: presD)

lemma isolating_wrap: "isolating L (wrap_err fmt as e)" "isolating L (fail_with e)"
  by (intro isolating_pres pres_rules)+

text \<open>A call that is isolated when it fails, then a path that is, given that it succeeded.\<close>

lemma isolating_attempt_on:
  assumes m: "\<And>s e s'. run_state m s = (Inl e, s') \<Longrightarrow> isolated s s'" and h: "\<And>e. pres isolated (h e)"
    and k: "\<And>s v s1 e s'. run_state m s = (Inr v, s1) \<Longrightarrow> run_state (k v) s1 = (Inl e, s') \<Longrightarrow> L e \<or> isolated s s'"
  shows "isolating L (attempt m h k)"
proof (rule isolatingI)
  fix s e s'
  assume run: "run_state (attempt m h k) s = (Inl e, s')"
  obtain r s1 where r: "run_state m s = (r, s1)" by fastforce
  show "L e \<or> isolated s s'"
  proof (cases r)
    case (Inl x)
    then have "isolated s1 s'" using presD [OF h] run r by auto
    then show ?thesis using m r Inl isolated.trans by blast
  next
    case (Inr v)
    then show ?thesis using k run r by auto
  qed
qed

lemma isolating_attempt:
  assumes m: "pres isolated m" and h: "\<And>e. pres isolated (h e)" and k: "\<And>v. isolating L (k v)"
  shows "isolating L (attempt m h k)"
proof (rule isolating_attempt_on)
  show "isolated s s'" if "run_state m s = (Inl e, s')" for s e s' using presD [OF m that] .
  show "L e \<or> isolated s s'"
    if "run_state m s = (Inr v, s1)" "run_state (k v) s1 = (Inl e, s')" for s v s1 e s'
    using presD [OF m that(1)] isolatingD [OF k that(2)] isolated.trans by blast
qed (rule h)

lemma isolating_bind: "pres isolated m \<Longrightarrow> (\<And>v. isolating L (k v)) \<Longrightarrow> isolating L (m \<bind> k)"
  by (rule isolatingI) (auto split: prod.splits dest!: presD isolatingD intro: isolated.trans)

lemma isolating_then:
  assumes m: "isolating L m" and k: "pres isolated k"
  shows "isolating L (m \<bind> (\<lambda>r. k \<bind> (\<lambda>_. ret r)))"
proof (rule isolatingI)
  fix s e s'
  assume run: "run_state (m \<bind> (\<lambda>r. k \<bind> (\<lambda>_. ret r))) s = (Inl e, s')"
  obtain r s1 where r: "run_state m s = (r, s1)" by fastforce
  obtain u s2 where u: "run_state k s1 = (u, s2)" by fastforce
  have "r = Inl e" "s' = s2" using run r u by auto
  then show "L e \<or> isolated s s'"
    using isolatingD [OF m] r presD [OF k u] isolated.trans by blast
qed

lemma isolating_cases:
  "isolating L m \<Longrightarrow> isolating L n \<Longrightarrow> isolating L (if b then m else n)"
  "isolating L m \<Longrightarrow> (\<And>v. isolating L (k v)) \<Longrightarrow> isolating L (case w of None \<Rightarrow> m | Some v \<Rightarrow> k v)"
  "(\<And>x y. isolating L (l x y)) \<Longrightarrow> isolating L (case p of (x, y) \<Rightarrow> l x y)"
  "(\<And>e. isolating L (f e)) \<Longrightarrow> (\<And>v. isolating L (g v)) \<Longrightarrow> isolating L (case q of Inl e \<Rightarrow> f e | Inr v \<Rightarrow> g v)"
  by (auto split: option.splits prod.splits sum.splits)

lemmas isolating_rules = isolating_attempt isolating_cases isolating_deploy

lemma isolating_image: "isolating is_record_error (applyImageProvenance env a ov)"
  unfolding applyImageProvenance_def Let_def by (intro isolating_rules pres_rules)

lemma isolating_build: "isolating is_record_error (clone_and_build env a g m vars net content spec sch dir)"
  unfolding clone_and_build_def Let_def by (intro isolating_rules pres_rules)

lemma isolating_git: "isolating is_record_error (applyGit env a g)"
  unfolding applyGit_def Let_def by (intro isolating_rules isolating_then isolating_build pres_rules)

lemma isolating_rollbackGit: "isolating is_record_error (rollbackGitLocked env a sch)"
  unfolding rollbackGitLocked_def Let_def
  by (intro isolating_rules isolating_wrap pres_rules)

lemma isolating_rollbackImage: "isolating is_record_error (rollbackImage env a sch)"
  unfolding rollbackImage_def
  by (intro isolating_rules isolating_image isolating_pres pres_rules)

lemma isolating_heal: "isolating is_record_error (healSurfaceLocked env cur)"
  unfolding healSurfaceLocked_def
  by (intro isolating_rules isolating_image isolating_rollbackGit isolating_pres pres_rules)

lemma isolating_nudging: "isolating L m \<Longrightarrow> isolating L (nudging env m)"
  by (rule isolatingI) (auto simp: nudging_def split: prod.splits sum.splits dest: isolatingD)

text \<open>Once the stack is routed, only the two late errors are left.\<close>

lemma SetRoute_err_isolated:
  "run_state (SetRoute env r) s = (Inl e, s') \<Longrightarrow> isolated s s'"
  using commitsD [OF commits_SetRoute] by (fastforce intro: edge_isolated)

lemma isolating_compose_live: "isolating is_live_error (compose_live env a n spec content cid name)"
  unfolding compose_live_def Let_def
proof (intro isolating_attempt isolating_attempt_on pres_rules SetRoute_err_isolated disjI1, assumption)
qed (auto simp: is_live_error_def is_record_error_def recordComposeFailed_def wrap_err_def
    split: prod.splits sum.splits)

lemma isolating_compose: "isolating is_live_error (applyCompose env a)"
  unfolding applyCompose_def Let_def
  by (intro isolating_attempt isolating_bind isolating_cases isolating_compose_live pres_rules
      isolating_pres [where m = "recordComposeFailed env a cid spec content fmt as e" for cid spec content fmt as e])


section \<open>Provenance\<close>

lemma deploy_result:
  assumes "run_state (deployReplicaSet env m a img vars net content spec sch) s = (Inr d, s')"
  shows "d_app d = a_name a \<and> d_image d = img \<and> d_spec d = spec \<and> d_scheduled d = sch \<and>
     d_status d = StatusRunning \<and> length (d_replicas d) = replica_count a \<and> x_node (hd (d_replicas d)) = a_node a"
proof -
  obtain ts cs where "deployed a img vars content spec sch (sql_next_id (sdb s)) ts cs s s' d"
    using deploy_ok [OF assms] by auto
  then have "d_status d = StatusRunning" by (auto simp: deployed_def went_live_def new_deployment_def)
  then show ?thesis using wp_run [OF deploy_live assms] by simp
qed

definition restores :: "app \<Rightarrow> bool \<Rightarrow> deployment \<Rightarrow> bool" where
  "restores a scheduled d = (d_app d = a_name a \<and> d_image d = a_image a \<and> d_scheduled d = scheduled \<and>
     d_status d = StatusRunning \<and> length (d_replicas d) = replica_count a \<and>
     d_spec d = SpecJSON (a\<lparr>a_node := x_node (hd (d_replicas d))\<rparr>) \<and>
     (a_node a = [] \<or> x_node (hd (d_replicas d)) = a_node a))"

lemma applyImage_result:
  assumes run: "run_state (applyImageProvenance env a ov) s = (Inr d, s')"
  shows "restores a (case ov of None \<Rightarrow> a_node a = [] | Some b \<Rightarrow> b) d \<and>
     (a_node a \<noteq> [] \<or> placeable (sdb s) a (x_node (hd (d_replicas d))))"
proof -
  obtain p s1 where p: "run_state (resolvePlacement env a) s = (p, s1)" by fastforce
  note prov = wp_run [OF resolvePlacement_wp p]
  obtain n b where nb: "p = Inr (n, b)"
    using run p by (cases p) (auto simp: applyImageProvenance_def failing_def wrap_err_def split: prod.splits)
  let ?a = "a\<lparr>a_node := n\<rparr>" and ?sch = "case ov of None \<Rightarrow> b | Some b \<Rightarrow> b"
  obtain m vars net content s2 where
    "run_state (deployReplicaSet env m ?a (a_image a) vars net content (SpecJSON ?a) ?sch) s2 = (Inr d, s')"
    using run p nb by (auto simp: applyImageProvenance_def Let_def split: prod.splits sum.splits)
  then show ?thesis
    using deploy_result [of env m ?a "a_image a" vars net content "SpecJSON ?a" ?sch s2 d s'] prov nb
    by (auto simp: restores_def replica_count_def split: option.splits if_splits)
qed

text \<open>
  The provenance of an image app is recorded for good. An app without a node is marked as
  scheduled and lands on a node it is placeable on; a pinned one, \<open>local\<close> included, is not
  marked and stays where it is pinned. The recorded snapshot is the app itself, with the node the
  first replica runs on.
\<close>

lemma Apply_image_provenance:
  "wp (Apply env a) (\<lambda>r s'. case r of
       Inl e \<Rightarrow> True
     | Inr d \<Rightarrow> if image_app a then restores a (a_node a = []) d \<and>
                    (if a_node a = [] then placeable (sdb s) a (x_node (hd (d_replicas d))) else True)
               else True) s"
  unfolding wp_iff
proof (intro allI impI)
  fix r s'
  assume run: "run_state (Apply env a) s = (r, s')"
  have img: "\<exists>s1. run_state (applyImageProvenance env a None) s = (r, s1)"
    if "a_git a = None" "a_compose a = []" "r = Inr d" for d
    using run that by (auto simp: Apply_def nudging_def applyImage_def wrap_err_def split: option.splits prod.splits)
  show "case r of
       Inl e \<Rightarrow> True
     | Inr d \<Rightarrow> if image_app a then restores a (a_node a = []) d \<and>
                    (if a_node a = [] then placeable (sdb s) a (x_node (hd (d_replicas d))) else True)
               else True"
    using img by (cases r) (auto simp: image_app_def dest!: applyImage_result)
qed

lemma rollbackGit_result:
  assumes run: "run_state (rollbackGitLocked env a sch) s = (Inr d, s')"
  shows "d_app d = a_name a \<and> d_image d = a_image a \<and> d_scheduled d = sch \<and> d_status d = StatusRunning \<and>
     d_spec d = SpecJSON a \<and> length (d_replicas d) = replica_count a \<and> x_node (hd (d_replicas d)) = a_node a"
  using run by (auto simp: rollbackGitLocked_def failing_def wrap_err_def Let_def
      split: option.splits if_splits prod.splits sum.splits dest!: deploy_result)

definition rolled_back :: "deployment \<Rightarrow> deployment \<Rightarrow> bool" where
  "rolled_back p d = (case d_spec p of
     SpecJSON a \<Rightarrow>
       if a_git a = None \<and> a_compose a \<noteq> [] then True
       else d_app d = a_name a \<and> d_image d = d_image p \<and> d_scheduled d = d_scheduled p \<and>
            d_status d = StatusRunning \<and> length (d_replicas d) = replica_count a \<and>
            d_spec d = SpecJSON (a\<lparr>a_image := d_image p, a_node := x_node (hd (d_replicas d))\<rparr>) \<and>
            (a_node a = [] \<or> x_node (hd (d_replicas d)) = a_node a)
   | _ \<Rightarrow> False)"

lemma PreviousDeployment_result:
  "run_state (PreviousDeployment env a) s = (Inr d, s') \<Longrightarrow>
     scan_option (sql_last_with_status a StatusRetired (sdb s)) = Inr d"
  by (auto simp: PreviousDeployment_def wrap_err_def split: prod.splits sum.splits dest!: db_read_result)


section \<open>Secrets are resolved before anything is touched\<close>

text \<open>What bringing the edge up may log: configurations, and replacing the \<open>lwd-caddy\<close> container.\<close>

definition edge_event :: "event \<Rightarrow> bool" where
  "edge_event e = (case e of
     EvConfig _ \<Rightarrow> True | EvRun n sp _ \<Rightarrow> n = LocalNode \<and> sp = caddy_spec | EvRemove n _ \<Rightarrow> n = LocalNode | _ \<Rightarrow> False)"

definition resolvable :: "'x env \<Rightarrow> db \<Rightarrow> string \<Rightarrow> string list \<Rightarrow> bool" where
  "resolvable env t name keys = list_all (\<lambda>k. secret_value env t name k \<noteq> None) keys"

definition edge_step :: "'x sys \<Rightarrow> 'x sys \<Rightarrow> bool" where
  "edge_step s s' = (sdb s' = sdb s \<and> adds edge_event s s')"

interpretation edge_step: frame edge_step
  by unfold_locales (auto simp: edge_step_def intro: adds.refl adds.trans)

lemma pres_adds_edge: "pres only_config m \<Longrightarrow> pres (adds edge_event) m"
  by (erule pres_adds_quiet) (simp add: beyond_config_def edge_event_def split: event.splits)

lemma pres_edge_run:
  "pres (adds edge_event) (RunContainer env LocalNode caddy_spec)"
  "pres (adds edge_event) (RemoveContainer env LocalNode c)"
proof -
  have ev: "edge_event (EvRun LocalNode caddy_spec r)" "edge_event (EvRemove LocalNode c)" for r
    by (simp_all add: edge_event_def)
  show "pres (adds edge_event) (RunContainer env LocalNode caddy_spec)"
    unfolding RunContainer_def
    by (intro adds.pres_bind pres_adds_log ev pres_adds_edge pres_only_config adds.pres_ret)
  show "pres (adds edge_event) (RemoveContainer env LocalNode c)"
    unfolding RemoveContainer_def
    by (intro adds.pres_bind pres_adds_log ev pres_adds_edge pres_only_config adds.pres_ret)
qed

lemma pres_edge_ensure: "pres (adds edge_event) (EnsureUp env)"
  unfolding EnsureUp_def create_caddy_def ignore_def
  by (intro adds.pres_attempt adds.pres_bind adds.pres_if adds.pres_case_option adds.pres_case_sum adds.pres_ret
      pres_edge_run pres_adds_edge pres_rules)

lemma pres_edge_aside: "pres aside m \<Longrightarrow> pres only_config m \<Longrightarrow> pres edge_step m"
  using pres_adds_edge [of m] by (auto simp: pres_def edge_step_def aside_fields)

lemma pres_edge_EnsureUp: "pres edge_step (EnsureUp env)"
  using pres_edge_ensure [of env] pres_EnsureUp [of env]
  by (auto simp: pres_def edge_step_def edge_quiet_def edge_only_fields)

text \<open>Fails, having touched nothing but the edge, when a secret is missing.\<close>

definition closed :: "'x env \<Rightarrow> string \<Rightarrow> string list \<Rightarrow> ('x sys, 'a res) state \<Rightarrow> bool" where
  "closed env name keys m = (\<forall>s. resolvable env (sdb s) name keys \<or> wp m (\<lambda>r s'. is_err r \<and> adds edge_event s s') s)"

lemma closedD:
  "closed env name keys m \<Longrightarrow> \<not> resolvable env (sdb s) name keys \<Longrightarrow> run_state m s = (r, s') \<Longrightarrow>
     is_err r \<and> adds edge_event s s'"
  by (auto simp: closed_def wp_iff)

lemma closedI:
  "(\<And>s r s'. \<not> resolvable env (sdb s) name keys \<Longrightarrow> run_state m s = (r, s') \<Longrightarrow> is_err r \<and> adds edge_event s s')
     \<Longrightarrow> closed env name keys m"
  by (auto simp: closed_def wp_iff)

definition errs :: "('x sys, 'a res) state \<Rightarrow> bool" where
  "errs m = (pres (adds edge_event) m \<and> (\<forall>s. is_err (fst (run_state m s))))"

lemma errs_wrap: "errs (wrap_err fmt as e)" "errs (fail_with e)"
  by (simp_all add: errs_def wrap_err_def adds.pres_ret)

lemma errs_record: "errs (do { record_failed env n img c spec content; wrap_err fmt as e })"
  unfolding errs_def
  by (auto simp: wrap_err_def split: prod.splits intro!: pres_adds_edge pres_rules)

lemma errs_failing: "errs (failing env a img spec content fmt as e)"
  unfolding failing_def by (rule errs_record)

lemma errs_compose: "errs (recordComposeFailed env a cid spec content fmt as e)"
  unfolding recordComposeFailed_def by (rule errs_record)

lemma closed_errs: "errs m \<Longrightarrow> closed env name keys m"
  by (rule closedI) (metis errs_def fst_conv presD)

lemma closed_attempt:
  assumes m: "pres edge_step m" and h: "\<And>e. errs (h e)" and k: "\<And>v. closed env name keys (k v)"
  shows "closed env name keys (attempt m h k)"
proof (rule closedI)
  fix s r s'
  assume miss: "\<not> resolvable env (sdb s) name keys" and run: "run_state (attempt m h k) s = (r, s')"
  obtain x s1 where x: "run_state m s = (x, s1)" by fastforce
  have e: "sdb s1 = sdb s" "adds edge_event s s1" using presD [OF m x] by (simp_all add: edge_step_def)
  show "is_err r \<and> adds edge_event s s'"
  proof (cases x)
    case (Inl y)
    then have "run_state (h y) s1 = (r, s')" using run x by simp
    then show ?thesis using h [of y] e adds.trans unfolding errs_def by (metis fst_conv presD)
  next
    case (Inr v)
    then have "run_state (k v) s1 = (r, s')" using run x by simp
    then show ?thesis using closedD [OF k, of s1] miss e adds.trans by metis
  qed
qed

lemma closed_bind:
  assumes m: "pres edge_step m" and k: "\<And>v. closed env name keys (k v)"
  shows "closed env name keys (m \<bind> k)"
proof (rule closedI)
  fix s r s'
  assume miss: "\<not> resolvable env (sdb s) name keys" and run: "run_state (m \<bind> k) s = (r, s')"
  obtain x s1 where x: "run_state m s = (x, s1)" by fastforce
  have e: "sdb s1 = sdb s" "adds edge_event s s1" using presD [OF m x] by (simp_all add: edge_step_def)
  have "run_state (k x) s1 = (r, s')" using run x by simp
  then show "is_err r \<and> adds edge_event s s'" using closedD [OF k, of s1] miss e adds.trans by metis
qed

lemma closed_cases:
  "closed env name keys m \<Longrightarrow> closed env name keys n \<Longrightarrow> closed env name keys (if b then m else n)"
  "closed env name keys m \<Longrightarrow> (\<And>v. closed env name keys (k v)) \<Longrightarrow> closed env name keys (case w of None \<Rightarrow> m | Some v \<Rightarrow> k v)"
  "(\<And>x y. closed env name keys (l x y)) \<Longrightarrow> closed env name keys (case p of (x, y) \<Rightarrow> l x y)"
  by (auto split: option.splits prod.splits)

text \<open>The step itself: with a secret missing it can only fail.\<close>

lemma closed_secrets:
  assumes h: "\<And>e. errs (h e)"
  shows "closed env name keys (attempt (Resolve_secrets env name keys) h k)"
proof (rule closedI)
  fix s r s'
  assume miss: "\<not> resolvable env (sdb s) name keys"
    and run: "run_state (attempt (Resolve_secrets env name keys) h k) s = (r, s')"
  obtain x s1 where x: "run_state (Resolve_secrets env name keys) s = (x, s1)" by fastforce
  have "pres only_config (Resolve_secrets env name keys)" by (rule pres_only_config_secrets)
  then have e: "adds edge_event s s1" using presD pres_adds_edge x by metis
  obtain y where "x = Inl y"
    using x miss resolve_from_ok [of env name "[]" keys s _ s1]
    by (cases x) (auto simp: Resolve_secrets_def resolvable_def list_all_iff)
  then have "run_state (h y) s1 = (r, s')" using run x by simp
  then show "is_err r \<and> adds edge_event s s'"
    using h [of y] e adds.trans unfolding errs_def by (metis fst_conv presD)
qed

lemma pres_edge_leaves:
  "pres edge_step (ResolveMeta env n)" "pres edge_step (Resolve env n)" "pres edge_step (resolvePlacement env a)"
  "pres edge_step (call f)" "pres edge_step (call_unit g)"
  by (intro pres_edge_aside pres_rules)+

lemma pres_edge_image: "pres edge_step (ensure_image env n l ref)"
proof (rule pres_edge_aside)
  show "pres aside (ensure_image env n l ref)"
    unfolding ensure_image_def ensureImageOnNode_def ignore_def Let_def by (intro pres_rules)
qed (rule pres_ensure_image)

lemma closed_prepare: "closed env (a_name a) (a_secrets a) (prepare env a img spec pull)"
  unfolding prepare_def Let_def
  by (intro closed_attempt closed_secrets pres_edge_leaves pres_edge_EnsureUp errs_failing errs_wrap
      edge_step.pres_if pres_edge_image edge_step.pres_ret)

lemma closed_passed_on:
  "closed env name keys m \<Longrightarrow> closed env name keys (attempt m (\<lambda>e. fail_with e) k)"
proof (rule closedI)
  fix s r s'
  assume m: "closed env name keys m" and miss: "\<not> resolvable env (sdb s) name keys"
    and run: "run_state (attempt m (\<lambda>e. fail_with e) k) s = (r, s')"
  obtain x s1 where x: "run_state m s = (x, s1)" by fastforce
  then show "is_err r \<and> adds edge_event s s'"
    using closedD [OF m miss x] run by (cases x) auto
qed

lemma closed_image: "closed env (a_name a) (a_secrets a) (applyImageProvenance env a ov)"
  unfolding applyImageProvenance_def Let_def
  by (intro closed_attempt closed_cases pres_edge_leaves errs_failing closed_passed_on)
     (use closed_prepare [of env "a\<lparr>a_node := n\<rparr>" for n] in simp)

lemma closed_git: "closed env (a_name a) (a_secrets a) (applyGit env a g)"
  unfolding applyGit_def Let_def
  by (intro closed_attempt closed_cases pres_edge_leaves errs_failing closed_passed_on)
     (use closed_prepare [of env "a\<lparr>a_node := n\<rparr>" for n] in simp)

lemma closed_compose: "closed env (a_name a) (a_secrets a) (applyCompose env a)"
  unfolding applyCompose_def Let_def
  by (intro closed_attempt closed_bind closed_secrets pres_edge_leaves pres_edge_EnsureUp errs_compose errs_wrap)

lemma closed_nudging: "closed env name keys m \<Longrightarrow> closed env name keys (nudging env m)"
proof (rule closedI)
  fix s r s'
  assume m: "closed env name keys m" and miss: "\<not> resolvable env (sdb s) name keys"
    and run: "run_state (nudging env m) s = (r, s')"
  obtain x s1 where x: "run_state m s = (x, s1)" by fastforce
  then show "is_err r \<and> adds edge_event s s'"
    using closedD [OF m miss x] run by (cases x) (auto simp: nudging_def)
qed


section \<open>Compose apps\<close>

definition stack_route :: "app \<Rightarrow> string \<Rightarrow> route" where
  "stack_route a name = \<lparr>rt_domain = a_domain a, rt_upstreams = [\<lparr>u_host = name, u_port = a_port a\<rparr>],
     rt_tls_internal = UseInternalTLS (a_domain a)\<rparr>"

lemma retire_row_ok:
  assumes "run_state (retire_row env name) s = (u, s')"
  shows "routes s' = routes s \<and> retired_row name (sdb s) (sdb s')"
proof -
  obtain r s1 where r: "run_state (CurrentDeployment env name) s = (r, s1)" by fastforce
  have c: "calm s s1" by (rule presD [OF pres_store_reads(1) r])
  then have d1: "sdb s1 = sdb s" "routes s1 = routes s" by (simp_all add: aside_fields calm_aside)
  show ?thesis
  proof (cases "\<exists>p. r = Inr (Some p)")
    case False
    then have "s' = s1" using assms r by (auto simp: retire_row_def split: sum.splits option.splits)
    then show ?thesis using d1 by (simp add: retired_row_def)
  next
    case True
    then obtain p where p: "r = Inr (Some p)" by blast
    obtain x where x: "run_state (SetStatus env (d_id p) StatusRetired) s1 = (x, s')"
      using assms r p by (auto simp: retire_row_def ignore_def split: prod.splits)
    obtain w where w: "sql_last_with_status name StatusRunning (sdb s) = Some w" "w_id w = d_id p"
      using CurrentDeployment_result [of env name s "Some p"] r p scan_row_id
      by (cases "sql_last_with_status name StatusRunning (sdb s)") (auto simp: scan_option_def)
    have rt: "routes s' = routes s1"
      using writesD [OF writes_store(2) x] by (simp add: calm_def aside_def kept_def)
    show ?thesis
      using writesD [OF writes_store(2) x] w d1 rt by (cases x) (auto simp: retired_row_def)
  qed
qed

definition stack_deployed :: "app \<Rightarrow> db \<Rightarrow> db \<Rightarrow> deployment \<Rightarrow> bool" where
  "stack_deployed a t0 t' d = (d_app d = a_name a \<and> d_spec d = SpecJSON a \<and> d_status d = StatusRunning \<and>
     d_replicas d = [] \<and> \<not> d_scheduled d \<and>
     (\<exists>t i. retired_row (a_name a) t0 t \<and> (i, t') = sql_insert_deployment (row_of (d\<lparr>d_id := 0\<rparr>)) t \<and> d_id d = i))"

lemma compose_live_ok:
  assumes run: "run_state (compose_live env a n (SpecJSON a) content cid name) s = (Inr d, s')"
  shows "routes s' = AList.update (a_domain a) (stack_route a name) (routes s) \<and> stack_deployed a (sdb s) (sdb s') d"
proof -
  obtain x1 s1 where s1: "run_state (call_unit (n_connect (node_at env n) cid lwdNetwork)) s = (Inr x1, s1)"
    using run by (auto simp: compose_live_def recordComposeFailed_def wrap_err_def Let_def split: prod.splits sum.splits)
  obtain x2 s2 where s2: "run_state (SetRoute env (stack_route a name)) s1 = (Inr x2, s2)"
    using run s1 by (auto simp: compose_live_def recordComposeFailed_def wrap_err_def stack_route_def Let_def
        split: prod.splits sum.splits)
  obtain x3 s3 where s3: "run_state (checkHealthCompose env a) s2 = (Inr x3, s3)"
    using run s1 s2 by (auto simp: compose_live_def recordComposeFailed_def wrap_err_def stack_route_def Let_def
        split: prod.splits sum.splits)
  obtain u s4 where s4: "run_state (retire_row env (a_name a)) s3 = (u, s4)"
    by (cases "run_state (retire_row env (a_name a)) s3")
  define dep where "dep = \<lparr>d_id = 0, d_app = a_name a, d_image = a_image a, d_container = cid,
     d_status = StatusRunning, d_created = clock s4, d_spec = SpecJSON a, d_compose = content,
     d_scheduled = False, d_replicas = []\<rparr>"
  obtain i where s5: "run_state (RecordDeployment env dep) s4 = (Inr i, s')" and d: "d = dep\<lparr>d_id := i\<rparr>"
    using run s1 s2 s3 s4 by (auto simp: compose_live_def wrap_err_def stack_route_def now_def dep_def Let_def
        split: prod.splits sum.splits)
  have c1: "routes s1 = routes s" "sdb s1 = sdb s"
    using presD [OF pres_call_unit s1] by (simp_all add: aside_fields calm_aside)
  have c2: "routes s2 = AList.update (a_domain a) (stack_route a name) (routes s1)" "sdb s2 = sdb s1"
    using commitsD [OF commits_SetRoute s2] edge_only_fields(1) [of s1 s2] by (simp_all add: stack_route_def)
  have c3: "routes s3 = routes s2" "sdb s3 = sdb s2"
    using presD [OF pres_checkHealthCompose s3] by (simp_all add: aside_fields calm_aside)
  note c4 = retire_row_ok [OF s4]
  have c5: "routes s' = routes s4" "(i, sdb s') = sql_insert_deployment (row_of dep) (sdb s4)"
    using record_live [OF s5] by (simp_all add: settled_def kept_routing_def)
  have "dep = d\<lparr>d_id := 0\<rparr>" by (simp add: d dep_def)
  then show ?thesis
    using c1 c2 c3 c4 c5 d unfolding stack_deployed_def by (auto simp: dep_def)
qed

lemma applyCompose_ok:
  assumes run: "run_state (applyCompose env a) s = (Inr d, s')"
  shows "\<exists>name. routes s' = AList.update (a_domain a) (stack_route a name) (routes s) \<and> stack_deployed a (sdb s) (sdb s') d"
proof -
  let ?bad = "recordComposeFailed env a"
  obtain n s1 where s1: "run_state (Resolve env (a_node a)) s = (Inr n, s1)"
    using run by (auto simp: applyCompose_def recordComposeFailed_def wrap_err_def Let_def split: prod.splits sum.splits)
  obtain x2 s2 where s2: "run_state (EnsureUp env) s1 = (Inr x2, s2)"
    using run s1 by (auto simp: applyCompose_def wrap_err_def Let_def split: prod.splits sum.splits)
  obtain x3 s3 where s3: "run_state (call_unit (n_ensure_network (node_at env n) lwdNetwork)) s2 = (Inr x3, s3)"
    using run s1 s2 by (auto simp: applyCompose_def wrap_err_def Let_def split: prod.splits sum.splits)
  obtain cf s4 where s4: "run_state (call (read_file env (a_compose a))) s3 = (cf, s4)" by fastforce
  obtain sec s5 where s5: "run_state (Resolve_secrets env (a_name a) (a_secrets a)) s4 = (Inr sec, s5)"
    using run s1 s2 s3 s4 by (auto simp: applyCompose_def recordComposeFailed_def wrap_err_def Let_def split: prod.splits sum.splits)
  obtain body where cf: "cf = Inr body"
    using run s1 s2 s3 s4 s5 by (cases cf) (auto simp: applyCompose_def recordComposeFailed_def wrap_err_def Let_def split: prod.splits)
  obtain x6 s6 where s6: "run_state (compose_Up env (''lwd-'' @ a_name a) (a_compose a) (mergeEnv (a_env a) sec)) s5 = (Inr x6, s6)"
    using run s1 s2 s3 s4 s5 cf
    by (auto simp: applyCompose_def recordComposeFailed_def wrap_err_def Let_def split: prod.splits sum.splits)
  obtain cid name s7 where s7: "run_state (call (compose_service env (''lwd-'' @ a_name a) (a_service a))) s6 = (Inr (cid, name), s7)"
    using run s1 s2 s3 s4 s5 cf s6
    by (auto simp: applyCompose_def recordComposeFailed_def wrap_err_def Let_def split: prod.splits sum.splits)
  have live: "run_state (compose_live env a n (SpecJSON a) body cid name) s7 = (Inr d, s')"
    using run s1 s2 s3 s4 s5 cf s6 s7 by (simp add: applyCompose_def Let_def)
  have q: "edge_quiet s1 s2" by (rule presD [OF pres_EnsureUp s2])
  have up: "pres calm (compose_Up env p f v)" for p f v unfolding compose_Up_def by (intro pres_rules)
  have "routes s7 = routes s" "sdb s7 = sdb s"
    using aside_fields(1,2) [OF presD [OF pres_Resolve s1]] q edge_only_fields(1) [of s1 s2]
      aside_fields(1,2) [OF calm_aside [OF presD [OF pres_call_unit s3]]]
      aside_fields(1,2) [OF calm_aside [OF presD [OF pres_call s4]]]
      aside_fields(1,2) [OF calm_aside [OF presD [OF pres_Resolve_secrets s5]]]
      aside_fields(1,2) [OF calm_aside [OF presD [OF up s6]]]
      aside_fields(1,2) [OF calm_aside [OF presD [OF pres_call s7]]]
    by (simp_all add: edge_quiet_def)
  then show ?thesis using compose_live_ok [OF live] by auto
qed

text \<open>
  A compose deploy that succeeds has routed the app's domain, and no other, to the service's
  container at the app's port, and is recorded as the app's current deployment, without replicas
  and never as scheduled.
\<close>

lemma applyCompose_live:
  "wp (applyCompose env a) (\<lambda>r s'. case r of
       Inl e \<Rightarrow> True
     | Inr d \<Rightarrow> (\<exists>name. \<forall>dom. map_of (routes s') dom =
           (if dom = a_domain a then Some (stack_route a name) else map_of (routes s) dom)) \<and>
         d_replicas d = [] \<and> \<not> d_scheduled d \<and> d_spec d = SpecJSON a \<and>
         (if wf_db (sdb s)
          then scan_option (sql_last_with_status (a_name a) StatusRunning (sdb s')) = Inr (Some (stored d)) else True)) s"
  unfolding wp_iff
proof (intro allI impI)
  fix r s'
  assume run: "run_state (applyCompose env a) s = (r, s')"
  show "case r of
       Inl e \<Rightarrow> True
     | Inr d \<Rightarrow> (\<exists>name. \<forall>dom. map_of (routes s') dom =
           (if dom = a_domain a then Some (stack_route a name) else map_of (routes s) dom)) \<and>
         d_replicas d = [] \<and> \<not> d_scheduled d \<and> d_spec d = SpecJSON a \<and>
         (if wf_db (sdb s)
          then scan_option (sql_last_with_status (a_name a) StatusRunning (sdb s')) = Inr (Some (stored d)) else True)"
  proof (cases r)
    case (Inr d)
    obtain name where rt: "routes s' = AList.update (a_domain a) (stack_route a name) (routes s)"
      and st: "stack_deployed a (sdb s) (sdb s') d" using applyCompose_ok run Inr by blast
    have cur: "scan_option (sql_last_with_status (a_name a) StatusRunning (sdb s')) = Inr (Some (stored d))" if wf: "wf_db (sdb s)"
    proof -
      obtain t i where t: "retired_row (a_name a) (sdb s) t" "(i, sdb s') = sql_insert_deployment (row_of (d\<lparr>d_id := 0\<rparr>)) t"
        "d_id d = i" using st by (auto simp: stack_deployed_def)
      have wft: "wf_db t" using retired_row_others [OF wf t(1)] by blast
      have "sdb s' = snd (sql_insert_deployment (row_of (d\<lparr>d_id := 0\<rparr>)) t)" "i = sql_next_id t"
        using t(2) dlog.insert_id [OF wft] by (metis snd_conv, metis fst_conv)
      then show ?thesis
        using dlog.insert_newest [OF wft, of "a_name a" StatusRunning "row_of (d\<lparr>d_id := 0\<rparr>)"] st t(3)
        by (simp add: stack_deployed_def row_of_stamp scan_option_def stored_def)
    qed
    have "map_of (routes s') dom = (if dom = a_domain a then Some (stack_route a name) else map_of (routes s) dom)" for dom
      by (simp add: rt update_conv')
    then show ?thesis using Inr st cur by (auto simp: stack_deployed_def)
  qed simp
qed

end
