(* ===== verification/Remove.thy ===== *)
theory Remove
  imports Apply
begin

text \<open>
  Removing an app (\<open>Remove\<close>, \<open>removeCompose\<close>, \<open>removeSingleService\<close>, \<open>replicaNodeNames\<close> and
  \<open>downBacking\<close> in \<open>src/internal/reconciler/reconciler.go\<close>).
\<close>

section \<open>The operations\<close>

definition or_local :: "string \<Rightarrow> string" where
  "or_local n = (if n = [] then ''local'' else n)"

fun add_names :: "string list \<Rightarrow> string list \<Rightarrow> string list" where
  "add_names names [] = names"
| "add_names names (n # ns) =
     add_names (if or_local n \<in> set names then names else names @ [or_local n]) ns"

definition replicaNodeNames :: "deployment option \<Rightarrow> string list" where
  "replicaNodeNames cur = (case cur of
     None \<Rightarrow> [''local'']
   | Some d \<Rightarrow> if d_replicas d \<noteq> [] then add_names [] (map x_node (d_replicas d))
               else add_names [] [nodeFromSpec (d_spec d)])"

definition downBacking :: "'x env \<Rightarrow> string \<Rightarrow> string \<Rightarrow> string \<Rightarrow> ('x sys, unit res) state" where
  "downBacking env name content dockerHost =
     with_temp env ''backing compose file'' content (\<lambda>tmp.
       attempt (compose_Down env (''lwd-'' @ name) tmp (if dockerHost = [] then [] else [(''DOCKER_HOST'', dockerHost)]))
         (wrap_err ''backing compose down: %w'' []) (\<lambda>_. ret (Inr ())))"

definition retire_app :: "'x env \<Rightarrow> string \<Rightarrow> deployment \<Rightarrow> ('x sys, unit res) state" where
  "retire_app env domain cur = do {
     (if domain \<noteq> [] then ignore (RemoveRoute env domain) else ret ());
     SetStatus env (d_id cur) StatusRetired
   }"

definition removeCompose :: "'x env \<Rightarrow> string \<Rightarrow> deployment \<Rightarrow> ('x sys, unit res) state" where
  "removeCompose env name cur =
     with_temp env ''compose file'' (d_compose cur) (\<lambda>tmp.
       attempt (compose_Down env (''lwd-'' @ name) tmp []) (wrap_err ''compose down: %w'' [])
         (\<lambda>_. retire_app env (domainFromSpec (d_spec cur)) cur))"

fun remove_listed :: "'x env \<Rightarrow> node_ref \<Rightarrow> string \<Rightarrow> container list \<Rightarrow> ('x sys, unit res) state" where
  "remove_listed env n nodeName [] = ret (Inr ())"
| "remove_listed env n nodeName (c # cs) =
     attempt (RemoveContainer env n (c_id c)) (wrap_err ''remove container %s on %q: %w'' [c_id c, nodeName])
       (\<lambda>_. remove_listed env n nodeName cs)"

text \<open>The body of the loop over the nodes; a name that no longer resolves is skipped.\<close>

definition remove_on :: "'x env \<Rightarrow> string \<Rightarrow> string \<Rightarrow> string \<Rightarrow> string \<Rightarrow> ('x sys, unit res) state" where
  "remove_on env name content anchorNode nodeName =
     attempt (ResolveMeta env nodeName) (\<lambda>_. ret (Inr ())) (\<lambda>m.
     attempt (call (n_list (node_at env (rm_node m)) [(''lwd.app'', name)]))
       (wrap_err ''list containers on %q: %w'' [nodeName]) (\<lambda>cs.
     attempt (remove_listed env (rm_node m) nodeName cs) (\<lambda>e. fail_with e) (\<lambda>_.
     if content \<noteq> [] \<and> nodeName = anchorNode then downBacking env name content (rm_docker_host m)
     else ret (Inr ()))))"

fun remove_on_all :: "'x env \<Rightarrow> string \<Rightarrow> string \<Rightarrow> string \<Rightarrow> string list \<Rightarrow> ('x sys, unit res) state" where
  "remove_on_all env name content anchorNode [] = ret (Inr ())"
| "remove_on_all env name content anchorNode (n # ns) =
     attempt (remove_on env name content anchorNode n) (\<lambda>e. fail_with e)
       (\<lambda>_. remove_on_all env name content anchorNode ns)"

definition removeSingleService :: "'x env \<Rightarrow> string \<Rightarrow> deployment option \<Rightarrow> ('x sys, unit res) state" where
  "removeSingleService env name cur =
     (let nodeNames = replicaNodeNames cur in
      attempt (remove_on_all env name (case cur of None \<Rightarrow> [] | Some d \<Rightarrow> d_compose d) (hd nodeNames) nodeNames)
        (\<lambda>e. fail_with e) (\<lambda>_. case cur of
          None \<Rightarrow> ret (Inr ())
        | Some d \<Rightarrow> retire_app env (domainFromSpec (d_spec d)) d))"

definition Remove :: "'x env \<Rightarrow> string \<Rightarrow> ('x sys, unit res) state" where
  "Remove env name =
     attempt (CurrentDeployment env name) (wrap_err ''current deployment: %w'' []) (\<lambda>cur. case cur of
       Some d \<Rightarrow> if d_compose d \<noteq> [] \<and> isComposeApp (d_spec d) then removeCompose env name d
                 else removeSingleService env name cur
     | None \<Rightarrow> removeSingleService env name None)"

section \<open>Which nodes are visited\<close>

lemma add_names_set: "set (add_names names ns) = set names \<union> or_local ` set ns"
  by (induction names ns rule: add_names.induct) auto

lemma add_names_distinct: "distinct names \<Longrightarrow> distinct (add_names names ns)"
  by (induction names ns rule: add_names.induct) auto

lemma add_names_hd: "names \<noteq> [] \<Longrightarrow> hd (add_names names ns) = hd names"
  by (induction names ns rule: add_names.induct) auto

text \<open>
  Removing an app visits every node a replica is recorded on, each once, the anchor first; a
  row without replicas falls back to the node of its snapshot, and no row to the host.
\<close>

lemma replicaNodeNames_exact:
  "distinct (replicaNodeNames cur) \<and>
   (case cur of
      None \<Rightarrow> replicaNodeNames cur = [''local'']
    | Some d \<Rightarrow> (case d_replicas d of
        [] \<Rightarrow> replicaNodeNames cur = [or_local (nodeFromSpec (d_spec d))]
      | r # rs \<Rightarrow> set (replicaNodeNames cur) = or_local ` x_node ` set (d_replicas d) \<and>
          hd (replicaNodeNames cur) = or_local (x_node r)))"
  by (auto simp: replicaNodeNames_def add_names_set add_names_hd image_image intro: add_names_distinct
      split: option.splits list.splits)

section \<open>Frames\<close>

lemma pres_compose_Down: "pres calm (compose_Down env p f v)"
  unfolding compose_Down_def by (intro pres_rules)

lemma pres_with_temp_aside:
  "(\<And>f. pres aside (body f)) \<Longrightarrow> pres aside (with_temp env what content body)"
  unfolding with_temp_def ignore_def by (intro pres_rules)

lemma pres_remove_listed: "pres aside (remove_listed env n nm cs)"
  by (induction cs) (auto intro!: pres_rules pres_calm_aside [OF pres_RemoveContainer])

lemma pres_downBacking: "pres aside (downBacking env name content dh)"
  unfolding downBacking_def
  by (intro pres_with_temp_aside aside.pres_attempt pres_calm_aside [OF pres_compose_Down] pres_rules)

lemma pres_remove_on: "pres aside (remove_on env name content anchor n)"
  unfolding remove_on_def
  by (intro pres_downBacking pres_remove_listed pres_rules)

lemma pres_remove_on_all: "pres aside (remove_on_all env name content anchor ns)"
  by (induction ns) (auto intro!: pres_rules pres_remove_on)

section \<open>What a removal changes\<close>

lemma with_temp_result:
  assumes "run_state (with_temp env what content body) s = (r, s')"
  shows "(\<exists>e. r = Inl e \<and> calm s s') \<or>
     (\<exists>f s1 s2. calm s s1 \<and> run_state (body f) s1 = (r, s2) \<and> calm s2 s')"
proof -
  obtain t s1 where t: "run_state (call (temp_create env)) s = (t, s1)" by fastforce
  have c1: "calm s s1" by (rule presD [OF pres_call t])
  show ?thesis
  proof (cases t)
    case (Inl e)
    then show ?thesis using assms t c1 by (auto simp: with_temp_def wrap_err_def)
  next
    case f: (Inr f)
    obtain w s2 where w: "run_state (call_unit (temp_write env f content)) s1 = (w, s2)" by fastforce
    have c2: "calm s s2" using calm.trans [OF c1 presD [OF pres_call_unit w]] .
    note done_calm = presD [OF pres_ignore_calm [OF pres_call]]
    show ?thesis
    proof (cases w)
      case (Inl e)
      obtain u3 s3 where s3: "run_state (ignore (call (temp_close env f))) s2 = (u3, s3)"
        by (cases "run_state (ignore (call (temp_close env f))) s2")
      obtain u4 s4 where s4: "run_state (ignore (call (file_remove env f))) s3 = (u4, s4)"
        by (cases "run_state (ignore (call (file_remove env f))) s3")
      have "\<exists>x. r = Inl x" "s' = s4" using assms t f w Inl s3 s4 by (auto simp: with_temp_def wrap_err_def)
      then show ?thesis using calm.trans c2 done_calm [OF s3] done_calm [OF s4] by blast
    next
      case (Inr v)
      obtain x s3 where x: "run_state (call_unit (temp_close env f)) s2 = (x, s3)" by fastforce
      have c3: "calm s s3" using calm.trans [OF c2 presD [OF pres_call_unit x]] .
      show ?thesis
      proof (cases x)
        case (Inl e)
        obtain u4 s4 where s4: "run_state (ignore (call (file_remove env f))) s3 = (u4, s4)"
          by (cases "run_state (ignore (call (file_remove env f))) s3")
        have "\<exists>x. r = Inl x" "s' = s4" using assms t f w Inr x Inl s4 by (auto simp: with_temp_def wrap_err_def)
        then show ?thesis using calm.trans c3 done_calm [OF s4] by blast
      next
        case y: (Inr y)
        obtain z s4 where z: "run_state (body f) s3 = (z, s4)" by fastforce
        obtain u5 s5 where s5: "run_state (ignore (call (file_remove env f))) s4 = (u5, s5)"
          by (cases "run_state (ignore (call (file_remove env f))) s4")
        have "r = z" "s' = s5" using assms t f w Inr x y z s5 by (auto simp: with_temp_def)
        then show ?thesis using c3 z done_calm [OF s5] by blast
      qed
    qed
  qed
qed

definition app_domain :: "deployment option \<Rightarrow> string option" where
  "app_domain cur = (case cur of
     None \<Rightarrow> None
   | Some d \<Rightarrow> if domainFromSpec (d_spec d) = [] then None else Some (domainFromSpec (d_spec d)))"

text \<open>The only route that may go is the app's, the only row that may change the current one.\<close>

definition removed :: "deployment option \<Rightarrow> 'x sys \<Rightarrow> unit res \<Rightarrow> 'x sys \<Rightarrow> bool" where
  "removed cur s r s' =
     ((\<forall>k. map_of (routes s') k = map_of (routes s) k \<or> Some k = app_domain cur \<and> map_of (routes s') k = None) \<and>
      sdb s' = (case r of
        Inl _ \<Rightarrow> sdb s
      | Inr _ \<Rightarrow> (case cur of None \<Rightarrow> sdb s | Some d \<Rightarrow> sql_set_status (d_id d) StatusRetired (sdb s))))"

lemma removed_aside:
  "aside s s1 \<Longrightarrow> removed cur s1 r s2 \<Longrightarrow> aside s2 s3 \<Longrightarrow> removed cur s r s3"
  unfolding removed_def by (simp only: aside_fields(1,2) simp_thms)

lemma removed_err: "aside s s' \<Longrightarrow> removed cur s (Inl e) s'"
  by (simp add: removed_def aside_fields)

lemma retire_app_ok:
  assumes "run_state (retire_app env (domainFromSpec (d_spec d)) d) s = (r, s')"
  shows "removed (Some d) s r s'"
proof -
  let ?D = "domainFromSpec (d_spec d)"
  let ?R = "if ?D \<noteq> [] then ignore (RemoveRoute env ?D) else ret ()"
  obtain u s1 where s1: "run_state ?R s = (u, s1)" by (cases "run_state ?R s")
  have s2: "run_state (SetStatus env (d_id d) StatusRetired) s1 = (r, s')"
    using assms s1 by (auto simp: retire_app_def split: if_splits)
  have db: "sdb s1 = sdb s"
    using s1 presD [OF pres_mutators(2)] edge_only_fields(1)
    by (fastforce simp: ignore_def split: if_splits prod.splits)
  have rt: "map_of (routes s1) k = map_of (routes s) k \<or> Some k = app_domain (Some d) \<and> map_of (routes s1) k = None" for k
  proof (cases "?D = []")
    case True
    then show ?thesis using s1 by simp
  next
    case False
    then obtain x where x: "run_state (RemoveRoute env ?D) s = (x, s1)"
      using s1 by (auto simp: ignore_def split: prod.splits)
    show ?thesis
      using route_table.drop_others [OF x, of k] route_table.drop_lookup [of env ?D s _ s1] route_table.drop_err [of env ?D s _ s1] x False
      by (cases x) (auto simp: app_domain_def)
  qed
  have "routes s' = routes s1"
    using writesD [OF writes_store(2) s2] by (simp add: calm_def aside_def kept_def)
  then show ?thesis
    using writesD [OF writes_store(2) s2] db rt by (cases r) (auto simp: removed_def)
qed

lemma removeCompose_ok:
  assumes "run_state (removeCompose env name d) s = (r, s')"
  shows "removed (Some d) s r s'"
  using with_temp_result [OF assms [unfolded removeCompose_def]]
proof (elim disjE exE conjE)
  fix e assume "r = Inl e" "calm s s'"
  then show ?thesis using removed_err calm_aside by blast
next
  fix f s1 s2
  let ?C = "compose_Down env (''lwd-'' @ name) f []"
  assume c: "calm s s1" "calm s2 s'"
    and body: "run_state (attempt ?C (wrap_err ''compose down: %w'' [])
         (\<lambda>_. retire_app env (domainFromSpec (d_spec d)) d)) s1 = (r, s2)"
  obtain x t where x: "run_state ?C s1 = (x, t)" by fastforce
  have ct: "aside s1 t" using presD [OF pres_compose_Down x] calm_aside by blast
  have "removed (Some d) s1 r s2"
  proof (cases x)
    case (Inl e)
    then show ?thesis using body x ct by (auto simp: wrap_err_def intro: removed_err)
  next
    case (Inr u)
    then have "run_state (retire_app env (domainFromSpec (d_spec d)) d) t = (r, s2)" using body x by simp
    then show ?thesis using removed_aside [OF ct retire_app_ok aside.refl] by blast
  qed
  then show ?thesis using removed_aside c calm_aside by blast
qed

lemma removeSingleService_ok:
  assumes "run_state (removeSingleService env name cur) s = (r, s')"
  shows "removed cur s r s'"
proof -
  let ?ns = "replicaNodeNames cur"
  let ?all = "remove_on_all env name (case cur of None \<Rightarrow> [] | Some d \<Rightarrow> d_compose d) (hd ?ns) ?ns"
  obtain x t where x: "run_state ?all s = (x, t)" by fastforce
  have ct: "aside s t" by (rule presD [OF pres_remove_on_all x])
  show ?thesis
  proof (cases x)
    case (Inl e)
    then show ?thesis using assms x ct by (auto simp: removeSingleService_def Let_def intro: removed_err)
  next
    case (Inr u)
    show ?thesis
    proof (cases cur)
      case None
      then show ?thesis using assms x Inr ct by (auto simp: removeSingleService_def removed_def aside_fields Let_def)
    next
      case (Some d)
      then have "run_state (retire_app env (domainFromSpec (d_spec d)) d) t = (r, s')"
        using assms x Inr by (simp add: removeSingleService_def Let_def)
      then show ?thesis using removed_aside [OF ct retire_app_ok aside.refl] Some by blast
    qed
  qed
qed

text \<open>
  C23: removing an app touches nothing but the app: at most the route of its current deployment's
  domain goes, no other. A removal that fails leaves every row as it is, so the app stays
  recorded as running; one that succeeds retires exactly the current row.
\<close>

theorem Remove_effect:
  "wp (Remove env name) (\<lambda>r s'.
     case scan_option (sql_last_with_status name StatusRunning (sdb s)) of
       Inl e \<Rightarrow> is_err r \<and> sdb s' = sdb s \<and> routes s' = routes s
     | Inr cur \<Rightarrow> removed cur s r s') s"
  unfolding wp_iff
proof (intro allI impI)
  fix r s'
  assume run: "run_state (Remove env name) s = (r, s')"
  obtain x t where x: "run_state (CurrentDeployment env name) s = (x, t)" by fastforce
  have ct: "aside s t" using presD [OF pres_store_reads(1) x] calm_aside by blast
  show "case scan_option (sql_last_with_status name StatusRunning (sdb s)) of
       Inl e \<Rightarrow> is_err r \<and> sdb s' = sdb s \<and> routes s' = routes s
     | Inr cur \<Rightarrow> removed cur s r s'"
  proof (cases x)
    case (Inl e)
    then have "is_err r" "s' = t" "\<exists>y. r = Inl y" using run x by (auto simp: Remove_def wrap_err_def)
    then show ?thesis using ct by (auto simp: aside_fields intro: removed_err split: sum.splits)
  next
    case (Inr cur)
    have cur: "scan_option (sql_last_with_status name StatusRunning (sdb s)) = Inr cur"
      using CurrentDeployment_result x Inr by blast
    have "removed cur t r s'"
    proof (cases cur)
      case None
      then have "run_state (removeSingleService env name None) t = (r, s')" using run x Inr by (simp add: Remove_def)
      then show ?thesis using removeSingleService_ok None by blast
    next
      case (Some d)
      then show ?thesis using run x Inr removeCompose_ok removeSingleService_ok
        by (auto simp: Remove_def split: if_splits)
    qed
    then show ?thesis using cur removed_aside [OF ct _ aside.refl] by simp
  qed
qed

end
