(* ===== verification/Heal.thy ===== *)
theory Heal
  imports Remove
begin

text \<open>
  Recreating the dead replicas of a deployment in place (\<open>healDeadReplicasLocked\<close> in
  \<open>src/internal/reconciler/replicaheal.go\<close>): on their own nodes, staged and checked before the live
  route points at them, with every other replica left alone. Indexes are natural numbers here; the
  code's test for a negative one has no counterpart.
\<close>

section \<open>What heal and evacuation share\<close>

text \<open>The app of a deployment row with its recorded image, valid and with an image to run.\<close>

definition snapshot_app :: "string \<Rightarrow> string \<Rightarrow> deployment \<Rightarrow> app res" where
  "snapshot_app no_spec no_image cur = (case restored_app no_spec (d_app cur) cur of
     Inl e \<Rightarrow> Inl e
   | Inr a \<Rightarrow> (case Validate (if a_git a \<noteq> None then a\<lparr>a_image := []\<rparr> else a) of
       Some e \<Rightarrow> Inl (Wrapf ''invalid spec snapshot for %q: %w'' [d_app cur] e)
     | None \<Rightarrow> if a_image a = [] then Inl (Errf no_image [d_app cur]) else Inr a))"

definition backing_network :: "app \<Rightarrow> string" where
  "backing_network a = (if a_services a = [] then [] else snd (RenderBackingCompose (a_name a) (a_services a)))"

text \<open>A node with the network and the image on it.\<close>

definition ready_node :: "'x env \<Rightarrow> string \<Rightarrow> string \<Rightarrow> ('x sys, resolved res) state" where
  "ready_node env img nodeName =
     attempt (ResolveMeta env nodeName) (wrap_err ''resolve node %q for replica %d: %w'' [nodeName]) (\<lambda>m.
     attempt (call_unit (n_ensure_network (node_at env (rm_node m)) lwdNetwork))
       (wrap_err ''ensure network on %q: %w'' [nodeName]) (\<lambda>_.
     attempt (ensure_image env (rm_node m) (rm_local m) img) (wrap_err ''ensure image for replica %d: %w'' [])
       (\<lambda>_. ret (Inr m))))"

text \<open>
  Run the replica and attach it to the backing network. A failure comes with the container, if it
  had been started already.
\<close>

definition run_replica ::
  "'x env \<Rightarrow> app \<Rightarrow> env_map \<Rightarrow> int \<Rightarrow> nat \<Rightarrow> nat \<Rightarrow> replica_target
     \<Rightarrow> ('x sys, (goerr \<times> container list) + (container \<times> replica)) state"
where
  "run_replica env a vars deployID cnt i t =
     RunContainer env (tg_node t) (surface_spec a (a_image a) vars deployID cnt i t) \<bind> (\<lambda>r. case r of
       Inl e \<Rightarrow> ret (Inl (Wrapf ''run container for replica %d: %w'' [] e, []))
     | Inr c \<Rightarrow>
         (if backing_network a \<noteq> []
          then call_unit (n_connect (node_at env (tg_node t)) (c_id c) (backing_network a))
          else ret (Inr ())) \<bind> (\<lambda>r. ret (case r of
            Inl e \<Rightarrow> Inl (Wrapf ''connect replica %d to backing network: %w'' [] e, [c])
          | Inr _ \<Rightarrow> Inr (c, replica_at a (surface_name a deployID cnt i) t c))))"

section \<open>Recreating the dead replicas\<close>

record recreated =
  rc_node :: node_ref
  rc_id :: string

definition recreate ::
  "'x env \<Rightarrow> app \<Rightarrow> string \<Rightarrow> env_map \<Rightarrow> int \<Rightarrow> replica list \<Rightarrow> nat
     \<Rightarrow> ('x sys, (goerr \<times> recreated list) + (recreated \<times> replica)) state"
where
  "recreate env a name vars deployID reps i =
     (if length reps \<le> i then ret (Inl (Errf ''replica index %d out of range for %q (%d replicas)'' [name], []))
      else
        let old = reps ! i; nodeName = or_local (x_node old) in
        ready_node env (a_image a) nodeName \<bind> (\<lambda>r. case r of
          Inl e \<Rightarrow> ret (Inl (e, []))
        | Inr m \<Rightarrow> do {
            (if x_container old \<noteq> [] then ignore (RemoveContainer env (rm_node m) (x_container old)) else ret ());
            r \<leftarrow> run_replica env a vars deployID (length reps) i (target_of nodeName m);
            ret (case r of
              Inl (e, cs) \<Rightarrow> Inl (e, map (\<lambda>c. \<lparr>rc_node = rm_node m, rc_id = c_id c\<rparr>) cs)
            | Inr (c, rep) \<Rightarrow> Inr (\<lparr>rc_node = rm_node m, rc_id = c_id c\<rparr>, rep))
          }))"

text \<open>
  The loop over the dead indexes: the error that stopped it, the containers created, the replicas
  with the healed ones replaced, and the fresh replicas alone (the staging upstreams).
\<close>

fun recreate_all ::
  "'x env \<Rightarrow> app \<Rightarrow> string \<Rightarrow> env_map \<Rightarrow> int \<Rightarrow> nat list \<Rightarrow> replica list \<Rightarrow> recreated list \<Rightarrow> replica list
     \<Rightarrow> ('x sys, goerr option \<times> recreated list \<times> replica list \<times> replica list) state"
where
  "recreate_all env a name vars deployID [] reps created fresh = ret (None, created, reps, fresh)"
| "recreate_all env a name vars deployID (i # is) reps created fresh =
     recreate env a name vars deployID reps i \<bind> (\<lambda>r. case r of
       Inl (e, cs) \<Rightarrow> ret (Some e, created @ cs, reps, fresh)
     | Inr (rc, rep) \<Rightarrow>
         recreate_all env a name vars deployID is (reps[i := rep]) (created @ [rc]) (fresh @ [rep]))"

fun remove_recreated :: "'x env \<Rightarrow> recreated list \<Rightarrow> ('x sys, unit) state" where
  "remove_recreated env [] = ret ()"
| "remove_recreated env (rc # rcs) =
     ignore (RemoveContainer env (rc_node rc) (rc_id rc)) \<bind> (\<lambda>_. remove_recreated env rcs)"

text \<open>\<open>cleanup()\<close>, and the error returned after it.\<close>

definition heal_failed :: "'x env \<Rightarrow> string \<Rightarrow> recreated list \<Rightarrow> goerr \<Rightarrow> ('x sys, 'a res) state" where
  "heal_failed env stageHost created e = do {
     ignore (RemoveStaging env stageHost);
     remove_recreated env created;
     fail_with e
   }"

fun check_recreated :: "'x env \<Rightarrow> app \<Rightarrow> string \<Rightarrow> recreated list \<Rightarrow> ('x sys, unit res) state" where
  "check_recreated env a stageHost [] = ret (Inr ())"
| "check_recreated env a stageHost (rc # rcs) =
     attempt (checkHealth env (rc_node rc) a stageHost (rc_id rc))
       (wrap_err ''health check failed for replica %d: %w'' []) (\<lambda>_. check_recreated env a stageHost rcs)"

definition heal_live ::
  "'x env \<Rightarrow> deployment \<Rightarrow> app \<Rightarrow> string \<Rightarrow> recreated list \<Rightarrow> replica list \<Rightarrow> replica list
     \<Rightarrow> ('x sys, deployment res) state"
where
  "heal_live env cur a stageHost created reps fresh =
     attempt (SetStaging env stageHost (map upstream_of fresh))
       (\<lambda>e. heal_failed env stageHost created (Wrapf ''set staging route: %w'' [] e)) (\<lambda>_.
     attempt (check_recreated env a stageHost created) (heal_failed env stageHost created) (\<lambda>_.
     attempt (SetRoute env (live_route a reps))
       (\<lambda>e. heal_failed env stageHost created (Wrapf ''set route: %w'' [] e)) (\<lambda>_. do {
     ignore (RemoveStaging env stageHost);
     attempt (UpdateReplicas env (d_id cur) reps (x_container (hd reps)))
       (wrap_err ''persist healed replicas: %w'' [])
       (\<lambda>_. ret (Inr (cur\<lparr>d_replicas := reps, d_container := x_container (hd reps)\<rparr>))) })))"

definition healDeadReplicasLocked :: "'x env \<Rightarrow> deployment \<Rightarrow> nat list \<Rightarrow> ('x sys, deployment res) state" where
  "healDeadReplicasLocked env cur deadIdx =
     (if d_spec cur = SpecEmpty then fail_with (Errf ''no spec snapshot to heal %q'' [d_app cur])
      else if deadIdx = [] then ret (Inr cur)
      else case snapshot_app ''no spec snapshot to heal %q'' ''no image recorded to heal %q'' cur of
        Inl e \<Rightarrow> fail_with e
      | Inr a \<Rightarrow>
          attempt (Resolve_secrets env (a_name a) (a_secrets a)) (wrap_err ''resolve secrets: %w'' []) (\<lambda>secretVals.
          attempt (NextDeployID env) (wrap_err ''next deploy id: %w'' []) (\<lambda>deployID.
          recreate_all env a (d_app cur) (mergeEnv (a_env a) secretVals) deployID deadIdx (d_replicas cur) [] []
            \<bind> (\<lambda>(err, created, reps, fresh). case err of
              Some e \<Rightarrow> heal_failed env (stagingHost deployID) created e
            | None \<Rightarrow> heal_live env cur a (stagingHost deployID) created reps fresh))))"

section \<open>Frames\<close>

text \<open>\<open>steady\<close>: the database, the live routes and the bookkeeping are kept.\<close>

definition steady :: "'x sys \<Rightarrow> 'x sys \<Rightarrow> bool" where
  "steady s s' = (later s s' \<and> sdb s' = sdb s \<and> kept_routing s' = kept_routing s)"

interpretation steady: frame steady
  by unfold_locales (auto simp: steady_def intro: later.refl later.trans)

lemma aside_steady: "aside s s' \<Longrightarrow> steady s s'"
  by (simp add: steady_def aside_def kept_def kept_routing_def)

lemma steady_later: "steady s s' \<Longrightarrow> later s s'"
  by (simp add: steady_def)

lemma steady_fields:
  assumes "steady s s'"
  shows "sdb s' = sdb s" "routes s' = routes s" "heals s' = heals s"
    "unreachable_since s' = unreachable_since s" "health_view s' = health_view s" "nudged s' = nudged s"
  using assms by (simp_all add: steady_def kept_routing_def)

lemma pres_aside_steady: "pres aside m \<Longrightarrow> pres steady m"
  by (erule pres_mono) (rule aside_steady)

lemma pres_calm_steady: "pres calm m \<Longrightarrow> pres steady m"
  by (rule pres_aside_steady) (rule pres_calm_aside)

lemma pres_aside_image [pres_rules]: "pres aside (ensureImageOnNode env n ref)" "pres aside (ensure_image env n l ref)"
  unfolding ensure_image_def ensureImageOnNode_def Let_def
  by (intro pres_rules pres_ignore_calm [THEN pres_calm_aside])+

lemma pres_ready_node [pres_rules]:
  "pres aside (ready_node env img n)" "pres only_config (ready_node env img n)"
  unfolding ready_node_def by (intro pres_rules)+

lemma pres_run_replica [pres_rules]: "pres calm (run_replica env a vars i cnt k t)"
  unfolding run_replica_def by (intro pres_rules)

lemma pres_recreate [pres_rules]: "pres aside (recreate env a n vars i reps k)"
  unfolding recreate_def Let_def
  by (intro pres_rules pres_run_replica [THEN pres_calm_aside] pres_remove_aside)

lemma pres_recreate_all [pres_rules]: "pres aside (recreate_all env a n vars i is reps created fresh)"
  by (induction "is" arbitrary: reps created fresh) (auto intro!: pres_rules)

lemma pres_remove_recreated [pres_rules]: "pres calm (remove_recreated env rcs)"
  by (induction rcs) (auto intro!: pres_rules)

lemma pres_check_recreated [pres_rules]: "pres calm (check_recreated env a h rcs)"
  by (induction rcs) (auto intro!: pres_rules)

lemma edge_steady: "edge_only s s' \<Longrightarrow> routes s' = routes s \<Longrightarrow> steady s s'"
  by (simp add: steady_def edge_only_def kept_core_def kept_routing_def)

lemma pres_staging_steady [pres_rules]:
  "pres steady (SetStaging env h ups)" "pres steady (RemoveStaging env h)" "pres steady (ignore (RemoveStaging env h))"
proof -
  show s: "pres steady (SetStaging env h ups)" "pres steady (RemoveStaging env h)"
    by (auto intro!: presI edge_steady dest: presD [OF pres_mutators(3)] presD [OF pres_mutators(4)]
        staging_keeps_routes)
  show "pres steady (ignore (RemoveStaging env h))"
    unfolding ignore_def by (intro steady.pres_bind s steady.pres_ret)
qed

lemma pres_heal_failed [pres_rules]: "pres steady (heal_failed env h created e)"
  unfolding heal_failed_def
  by (intro steady.pres_bind steady.pres_ret pres_staging_steady pres_calm_steady pres_remove_recreated)

section \<open>What is started, and what is removed\<close>

definition removes_only :: "string set \<Rightarrow> event \<Rightarrow> bool" where
  "removes_only R e = (case e of EvRemove _ cid \<Rightarrow> cid \<in> R | _ \<Rightarrow> True)"

lemma quiet_removes_only: "\<not> beyond_config e \<Longrightarrow> removes_only R e"
  by (simp add: beyond_config_def removes_only_def split: event.splits)

lemma pres_removes_only:
  "pres only_config m \<Longrightarrow> pres (adds (removes_only R)) m"
  "pres (adds (removes_only R)) (RunContainer env n sp)"
  "cid \<in> R \<Longrightarrow> pres (adds (removes_only R)) (ignore (RemoveContainer env n cid))"
proof -
  show q: "pres (adds (removes_only R)) m" if "pres only_config m" for m :: "('a sys, 'b) state"
    by (rule pres_adds_quiet [OF that]) (rule quiet_removes_only)
  have ev: "removes_only R (EvRun n sp c)" for c by (simp add: removes_only_def)
  then show "pres (adds (removes_only R)) (RunContainer env n sp)"
    unfolding RunContainer_def
    by (intro adds.pres_bind pres_adds_log pres_adds_quiet [OF pres_only_config(1)] adds.pres_ret)
       (assumption | rule ev | erule quiet_removes_only)+
  show "pres (adds (removes_only R)) (ignore (RemoveContainer env n cid))" if "cid \<in> R"
    by (rule pres_mono [OF pres_remove_in [where R = "UNIV \<times> R"]])
       (use that in \<open>auto elim!: adds_mono simp: removes_only_def removes_in_def split: event.splits\<close>)
qed

lemma pres_run_replica_removes: "pres (adds (removes_only R)) (run_replica env a vars i cnt k t)"
  unfolding run_replica_def
  by (intro adds.pres_bind adds.pres_case_sum adds.pres_ret adds.pres_if pres_removes_only(2))
     (auto intro!: pres_removes_only(1) pres_rules)

lemma run_replica_ok:
  assumes "run_state (run_replica env a vars i cnt k t) s = (r, s')"
  shows "case r of
        Inl (e, cs) \<Rightarrow> cs = [] \<or> (\<exists>c. cs = [c] \<and>
          EvRun (tg_node t) (surface_spec a (a_image a) vars i cnt k t) (Inr c) \<in> set (new_events s s'))
      | Inr (c, rep) \<Rightarrow> rep = replica_at a (surface_name a i cnt k) t c \<and>
          EvRun (tg_node t) (surface_spec a (a_image a) vars i cnt k t) (Inr c) \<in> set (new_events s s')"
proof -
  let ?C = "\<lambda>c. if backing_network a \<noteq> []
      then call_unit (n_connect (node_at env (tg_node t)) (c_id c) (backing_network a)) else ret (Inr ())"
  obtain r2 s2 where r2: "run_state (RunContainer env (tg_node t) (surface_spec a (a_image a) vars i cnt k t)) s = (r2, s2)"
    by fastforce
  show ?thesis
  proof (cases r2)
    case (Inl e)
    then show ?thesis using assms r2 by (auto simp: run_replica_def)
  next
    case (Inr c)
    obtain r3 s3 where r3: "run_state (?C c) s2 = (r3, s3)" by (cases "run_state (?C c) s2")
    have "later s2 s3" using presD [OF _ r3] by (metis later.pres_if later.pres_ret later_leaves(2))
    moreover have "later s s2" using presD [OF pres_RunContainer r2] by (simp add: calm_def aside_def)
    ultimately have "EvRun (tg_node t) (surface_spec a (a_image a) vars i cnt k t) (Inr c) \<in> set (new_events s s3)"
      using run_logged [OF r2] new_events_trans Inr by fastforce
    then show ?thesis using assms r2 r3 Inr by (cases r3) (auto simp: run_replica_def)
  qed
qed

lemma started_run: "EvRun n sp (Inr c) \<in> set es \<Longrightarrow> started es n (c_id c)"
  by (auto simp: started_def list_ex_iff intro!: bexI [of _ "EvRun n sp (Inr c)"])

text \<open>In terms of what was started, for the node a name resolved to.\<close>

lemma run_replica_started:
  assumes "run_state (run_replica env a vars i cnt k (target_of n m)) s = (r, s')"
  shows "case r of
        Inl (e, cs) \<Rightarrow> list_all (\<lambda>c. started (new_events s s') (rm_node m) (c_id c)) cs
      | Inr (c, rep) \<Rightarrow> started (new_events s s') (rm_node m) (c_id c) \<and> backed_by (a_image a) vars (new_events s s') rep \<and>
          x_container rep = c_id c \<and> x_node rep = n"
proof -
  have tg: "tg_node (target_of n m) = rm_node m" "tg_name (target_of n m) = n" by (simp_all add: target_of_def)
  show ?thesis
  proof (cases r)
    case (Inl ec)
    then show ?thesis using run_replica_ok [OF assms] tg started_run by (auto split: prod.splits)
  next
    case (Inr cr)
    obtain c rep where cr: "cr = (c, rep)" by fastforce
    then have rep: "rep = replica_at a (surface_name a i cnt k) (target_of n m) c"
      and ev: "EvRun (tg_node (target_of n m)) (surface_spec a (a_image a) vars i cnt k (target_of n m)) (Inr c) \<in> set (new_events s s')"
      using run_replica_ok [OF assms] Inr by auto
    have "backed_by (a_image a) vars (new_events s s') rep" unfolding rep by (rule backed_by_run [OF ev])
    then show ?thesis using started_run [OF ev] rep tg Inr cr by (simp add: replica_at_def)
  qed
qed

text \<open>A replica recreated on its node, with the image and the environment.\<close>

definition recreated_as :: "string \<Rightarrow> env_map \<Rightarrow> event list \<Rightarrow> replica \<Rightarrow> replica \<Rightarrow> bool" where
  "recreated_as img vars es old rep = (x_node rep = or_local (x_node old) \<and> backed_by img vars es rep)"

text \<open>The containers a list of dead indexes names.\<close>

definition dead_ids :: "replica list \<Rightarrow> nat list \<Rightarrow> string set" where
  "dead_ids reps is = set (map (\<lambda>k. x_container (reps ! k)) (filter (\<lambda>k. k < length reps) is))"

lemma dead_ids_update: "k \<notin> set is \<Longrightarrow> dead_ids (reps[k := r]) is = dead_ids reps is"
  unfolding dead_ids_def set_map
  by (rule image_cong) (simp, metis (mono_tags, lifting) filter_set mem_Collect_eq nth_list_update_neq set_filter)

lemma dead_ids_Cons: "dead_ids reps [k] \<subseteq> dead_ids reps (k # is)" "dead_ids reps is \<subseteq> dead_ids reps (k # is)"
  by (auto simp: dead_ids_def)

lemma backed_by_mono: "backed_by img vars es r \<Longrightarrow> set es \<subseteq> set es' \<Longrightarrow> backed_by img vars es' r"
  unfolding backed_by_def list_ex_iff by (erule bexE, rule bexI) auto

lemma recreate_ok:
  assumes "run_state (recreate env a name vars i reps k) s = (r, s')"
  shows "aside s s' \<and> adds (removes_only (dead_ids reps [k])) s s' \<and> (case r of
        Inl (e, rcs) \<Rightarrow> list_all (\<lambda>rc. started (new_events s s') (rc_node rc) (rc_id rc)) rcs
      | Inr (rc, rep) \<Rightarrow> k < length reps \<and> rc_id rc = x_container rep \<and>
          started (new_events s s') (rc_node rc) (rc_id rc) \<and>
          recreated_as (a_image a) vars (new_events s s') (reps ! k) rep)"
proof (cases "length reps \<le> k")
  case True
  then show ?thesis using assms by (auto simp: recreate_def adds.refl aside.refl)
next
  case False
  let ?n = "or_local (x_node (reps ! k))" and ?R = "removes_only (dead_ids reps [k])"
  obtain r1 s1 where r1: "run_state (ready_node env (a_image a) ?n) s = (r1, s1)" by fastforce
  have a1: "aside s s1" "adds ?R s s1"
    using presD [OF pres_ready_node(1) r1] presD [OF pres_removes_only(1) [OF pres_ready_node(2)] r1] by auto
  show ?thesis
  proof (cases r1)
    case (Inl e)
    then show ?thesis using assms False r1 a1 by (auto simp: recreate_def Let_def)
  next
    case (Inr m)
    let ?O = "if x_container (reps ! k) \<noteq> [] then ignore (RemoveContainer env (rm_node m) (x_container (reps ! k))) else ret ()"
    let ?t = "target_of ?n m"
    obtain u s2 where s2: "run_state ?O s1 = (u, s2)" by (cases "run_state ?O s1")
    have a2: "aside s1 s2" by (rule presD [OF _ s2]) (intro aside.pres_if aside.pres_ret pres_remove_aside)
    have e2: "adds ?R s1 s2"
      by (rule presD [OF _ s2]) (intro adds.pres_if adds.pres_ret pres_removes_only(3); use False in \<open>simp add: dead_ids_def\<close>)
    obtain r3 where r3: "run_state (run_replica env a vars i (length reps) k ?t) s2 = (r3, s')"
      and r: "r = (case r3 of
              Inl (e, cs) \<Rightarrow> Inl (e, map (\<lambda>c. \<lparr>rc_node = rm_node m, rc_id = c_id c\<rparr>) cs)
            | Inr (c, rep) \<Rightarrow> Inr (\<lparr>rc_node = rm_node m, rc_id = c_id c\<rparr>, rep))"
      using assms False r1 Inr s2 by (auto simp: recreate_def Let_def split: prod.splits)
    have a3: "aside s2 s'" "adds ?R s2 s'"
      using presD [OF pres_calm_aside [OF pres_run_replica] r3] presD [OF pres_run_replica_removes r3] by auto
    have A: "aside s s'" "adds ?R s s'"
      using aside.trans [OF a1(1) aside.trans [OF a2 a3(1)]] adds.trans [OF a1(2) adds.trans [OF e2 a3(2)]] by auto
    have sub: "set (new_events s2 s') \<subseteq> set (new_events s s')"
      using new_events_trans [OF aside_later aside_later, OF aside.trans [OF a1(1) a2] a3(1)] by simp
    show ?thesis
      using A r run_replica_started [OF r3] started_mono [OF _ sub] backed_by_mono [OF _ sub] False
      by (cases r3) (auto simp: recreated_as_def list_all_iff)
  qed
qed

lemma removes_only_mono: "adds (removes_only R) s s' \<Longrightarrow> R \<subseteq> S \<Longrightarrow> adds (removes_only S) s s'"
  by (auto elim!: adds_mono simp: removes_only_def split: event.splits)

lemma recreated_as_mono: "recreated_as img vars es r r' \<Longrightarrow> set es \<subseteq> set es' \<Longrightarrow> recreated_as img vars es' r r'"
  using backed_by_mono by (auto simp: recreated_as_def)

lemma started_all_mono:
  "list_all (\<lambda>rc. started es (rc_node rc) (rc_id rc)) rcs \<Longrightarrow> set es \<subseteq> set es' \<Longrightarrow>
     list_all (\<lambda>rc. started es' (rc_node rc) (rc_id rc)) rcs"
  using started_mono by (auto simp: list_all_iff)

text \<open>The replicas with the indexes \<open>is\<close> recreated and the others as they were.\<close>

definition patched ::
  "string \<Rightarrow> env_map \<Rightarrow> event list \<Rightarrow> nat list \<Rightarrow> replica list \<Rightarrow> replica list \<Rightarrow> bool"
where
  "patched img vars es is reps reps' = (length reps' = length reps \<and> list_all (\<lambda>k. k < length reps) is \<and>
     list_all (\<lambda>k. if k \<in> set is then recreated_as img vars es (reps ! k) (reps' ! k) else reps' ! k = reps ! k)
       [0..<length reps])"

lemma patched_Nil: "patched img vars es [] reps reps"
  by (simp add: patched_def list_all_iff)

lemma patched_Cons:
  assumes p: "patched img vars es is (reps[k := r]) reps'" and k: "k \<notin> set is" "k < length reps"
    and r: "recreated_as img vars es' (reps ! k) r" and sub: "set es \<subseteq> set es''" "set es' \<subseteq> set es''"
  shows "patched img vars es'' (k # is) reps reps' \<and> reps' ! k = r"
proof -
  have "reps' ! k = r" using p k by (auto simp: patched_def list_all_iff)
  moreover have "if j \<in> set (k # is) then recreated_as img vars es'' (reps ! j) (reps' ! j) else reps' ! j = reps ! j"
    if "j < length reps" for j
  proof (cases "j = k")
    case True
    then show ?thesis using recreated_as_mono [OF r sub(2)] \<open>reps' ! k = r\<close> by simp
  next
    case False
    then have eq: "reps[k := r] ! j = reps ! j" by simp
    have "j \<in> set [0..<length (reps[k := r])]" using that by simp
    then have "if j \<in> set is then recreated_as img vars es (reps[k := r] ! j) (reps' ! j) else reps' ! j = reps[k := r] ! j"
      using p unfolding patched_def list_all_iff by blast
    then show ?thesis using False eq recreated_as_mono [OF _ sub(1)] by (simp split: if_splits)
  qed
  ultimately show ?thesis using p k by (auto simp: patched_def list_all_iff)
qed

lemma recreate_all_ok:
  assumes "run_state (recreate_all env a name vars i is reps created fresh) s = ((err, created', reps', fresh'), s')"
    and "distinct is"
  shows "aside s s' \<and> adds (removes_only (dead_ids reps is)) s s' \<and>
    (\<exists>new. created' = created @ new \<and> list_all (\<lambda>rc. started (new_events s s') (rc_node rc) (rc_id rc)) new \<and>
      (err = None \<longrightarrow> patched (a_image a) vars (new_events s s') is reps reps' \<and>
         map rc_id new = map (\<lambda>k. x_container (reps' ! k)) is))"
  using assms
proof (induction "is" arbitrary: reps created fresh s)
  case Nil
  then show ?case by (simp add: aside.refl adds.refl patched_Nil)
next
  case (Cons k ks)
  obtain r s1 where r: "run_state (recreate env a name vars i reps k) s = (r, s1)" by fastforce
  note ok = recreate_ok [OF r]
  show ?case
  proof (cases r)
    case (Inl ec)
    obtain e rcs where ec: "ec = (e, rcs)" by fastforce
    have "err = Some e" "created' = created @ rcs" "s' = s1" using Cons.prems(1) r Inl ec by auto
    then show ?thesis using ok Inl ec removes_only_mono [OF _ dead_ids_Cons(1)] by auto
  next
    case (Inr cr)
    obtain rc rep where cr: "cr = (rc, rep)" by fastforce
    have rest: "run_state (recreate_all env a name vars i ks (reps[k := rep]) (created @ [rc]) (fresh @ [rep])) s1
        = ((err, created', reps', fresh'), s')"
      using Cons.prems(1) r Inr cr by simp
    have dk: "distinct ks" "k \<notin> set ks" using Cons.prems(2) by auto
    obtain new where n: "aside s1 s'" "adds (removes_only (dead_ids (reps[k := rep]) ks)) s1 s'"
      "created' = (created @ [rc]) @ new" "list_all (\<lambda>rc. started (new_events s1 s') (rc_node rc) (rc_id rc)) new"
      "err = None \<Longrightarrow> patched (a_image a) vars (new_events s1 s') ks (reps[k := rep]) reps' \<and>
         map rc_id new = map (\<lambda>k. x_container (reps' ! k)) ks"
      using Cons.IH [OF rest dk(1)] by auto
    have ev: "new_events s s' = new_events s s1 @ new_events s1 s'"
      using new_events_trans [OF aside_later aside_later] ok n(1) by blast
    have sub: "set (new_events s1 s') \<subseteq> set (new_events s s')" "set (new_events s s1) \<subseteq> set (new_events s s')"
      using ev by auto
    have A: "aside s s'" using ok n(1) aside.trans by blast
    have R: "adds (removes_only (dead_ids reps (k # ks))) s s'"
      using adds.trans removes_only_mono [OF _ dead_ids_Cons(1)] removes_only_mono [OF n(2)] ok
        dead_ids_update [OF dk(2)] dead_ids_Cons(2) by metis
    have k: "k < length reps" "rc_id rc = x_container rep" "started (new_events s s1) (rc_node rc) (rc_id rc)"
      "recreated_as (a_image a) vars (new_events s s1) (reps ! k) rep"
      using ok Inr cr by auto
    have st: "list_all (\<lambda>rc. started (new_events s s') (rc_node rc) (rc_id rc)) (rc # new)"
      using started_all_mono [OF n(4) sub(1)] started_mono [OF k(3) sub(2)] by simp
    have "patched (a_image a) vars (new_events s s') (k # ks) reps reps' \<and>
       map rc_id (rc # new) = map (\<lambda>k. x_container (reps' ! k)) (k # ks)" if "err = None"
      using patched_Cons [OF _ dk(2) k(1,4) sub, of reps'] n(5) [OF that] k(2) by auto
    then show ?thesis using A R st n(3) by (intro conjI exI [of _ "rc # new"]) auto
  qed
qed

section \<open>Cleaning up and going live\<close>

definition owned_by :: "recreated list \<Rightarrow> (node_ref \<times> string) set" where
  "owned_by rcs = set (map (\<lambda>rc. (rc_node rc, rc_id rc)) rcs)"

lemma pres_remove_recreated_in: "owned_by rcs \<subseteq> R \<Longrightarrow> pres (adds (removes_in R)) (remove_recreated env rcs)"
  by (induction rcs) (auto simp: owned_by_def intro!: adds.pres_bind adds.pres_ret pres_remove_in)

lemma pres_heal_failed_in: "pres (adds (removes_in (owned_by created))) (heal_failed env h created e)"
  unfolding heal_failed_def
  by (intro adds.pres_bind adds.pres_ret pres_remove_recreated_in subset_refl pres_adds_quiet quiet_removes_in)
     (auto intro!: pres_rules)

lemma heal_failed_ok:
  assumes "run_state (heal_failed env h created e) s = (r, s')"
  shows "r = Inl e \<and> steady s s' \<and> adds (removes_in (owned_by created)) s s'"
proof -
  have "adds (removes_in (owned_by created)) s s'" by (rule presD [OF pres_heal_failed_in assms])
  moreover have "r = Inl e" using assms by (auto simp: heal_failed_def split: prod.splits)
  ultimately show ?thesis using presD [OF pres_heal_failed assms] by blast
qed

lemma check_recreated_evidence:
  "run_state (check_recreated env a h rcs) s = (Inr (), s') \<Longrightarrow>
     list_all (\<lambda>rc. \<exists>s1 s2. calm s s1 \<and> calm s s2 \<and> calm s2 s' \<and>
       health_evidence env (rc_node rc) a h (rc_id rc) s1 s2) rcs"
proof (induction rcs arbitrary: s)
  case (Cons rc rcs)
  obtain r s1 where r: "run_state (checkHealth env (rc_node rc) a h (rc_id rc)) s = (r, s1)" by fastforce
  then have run: "r = Inr ()" "run_state (check_recreated env a h rcs) s1 = (Inr (), s')"
    using Cons.prems by (auto simp: wrap_err_def split: sum.splits)
  have c: "calm s s1" "calm s1 s'" using presD [OF pres_checkHealth r] presD [OF pres_check_recreated run(2)] by auto
  have "list_all (\<lambda>rc. \<exists>u v. calm s u \<and> calm s v \<and> calm v s' \<and> health_evidence env (rc_node rc) a h (rc_id rc) u v) rcs"
    by (rule list.pred_mono_strong [OF Cons.IH [OF run(2)]]) (use calm.trans [OF c(1)] in blast)
  moreover have "\<exists>u v. calm s u \<and> calm s v \<and> calm v s' \<and> health_evidence env (rc_node rc) a h (rc_id rc) u v"
    using checkHealth_evidence [OF r [unfolded run(1)]] c by blast
  ultimately show ?case by simp
qed simp

definition is_persist_error :: "goerr \<Rightarrow> bool" where
  "is_persist_error e = (case e of Wrapf fmt _ _ \<Rightarrow> fmt = ''persist healed replicas: %w'' | _ \<Rightarrow> False)"

text \<open>After a healthy staging the route is live; the row follows, unless the write fails.\<close>

definition heal_flipped :: "deployment \<Rightarrow> app \<Rightarrow> replica list \<Rightarrow> 'x sys \<Rightarrow> 'x sys \<Rightarrow> bool" where
  "heal_flipped cur a reps s s' =
     (routes s' = AList.update (a_domain a) (live_route a reps) (routes s) \<and>
      sdb s' = sql_update_replicas (d_id cur) (replicasJSON reps) (x_container (hd reps)) (sdb s) \<and>
      heals s' = heals s \<and> unreachable_since s' = unreachable_since s)"

lemma flip_stored:
  assumes "steady s t" and "run_state (SetRoute env (live_route a reps)) t = (Inr w, u)" and "steady u v"
    and "run_state (UpdateReplicas env (d_id cur) reps (x_container (hd reps))) v = (Inr x, s')"
  shows "heal_flipped cur a reps s s'"
  using commitsD [OF commits_SetRoute assms(2)] writesD [OF writes_store(3) assms(4)] steady_fields [OF assms(1)]
    steady_fields [OF assms(3)]
  by (simp add: heal_flipped_def live_route_def edge_only_def kept_core_def calm_def aside_def kept_def)

lemma pres_check_recreated_config [pres_rules]: "pres only_config (check_recreated env a h rcs)"
  by (induction rcs) (auto intro!: pres_rules)

text \<open>Either it ends in the clean-up, from a state with the old routes, or it goes all the way.\<close>

lemma heal_live_elim:
  assumes run: "run_state (heal_live env cur a h created reps fresh) s = (r, s')"
  obtains (failed) e t where "steady s t" "only_config s t"
      "run_state (heal_failed env h created e :: ('a sys, deployment res) state) t = (r, s')"
  | (live) s1 s2 s3 s4 r5 where "steady s s1" "only_config s s1" "run_state (check_recreated env a h created) s1 = (Inr (), s2)"
      "run_state (SetRoute env (live_route a reps)) s2 = (Inr (), s3)" "run_state (ignore (RemoveStaging env h)) s3 = ((), s4)"
      "run_state (UpdateReplicas env (d_id cur) reps (x_container (hd reps))) s4 = (r5, s')"
      "r = (case r5 of Inl e \<Rightarrow> Inl (Wrapf ''persist healed replicas: %w'' [] e)
        | Inr _ \<Rightarrow> Inr (cur\<lparr>d_replicas := reps, d_container := x_container (hd reps)\<rparr>))"
proof -
  obtain r1 s1 where s1: "run_state (SetStaging env h (map upstream_of fresh)) s = (r1, s1)" by fastforce
  have q1: "steady s s1" "only_config s s1"
    using presD [OF pres_staging_steady(1) s1] presD [OF pres_only_config_mutators(3) s1] by auto
  obtain r2 s2 where s2: "run_state (check_recreated env a h created) s1 = (r2, s2)" by fastforce
  have q2: "steady s s2" "only_config s s2"
    using steady.trans [OF q1(1) aside_steady [OF calm_aside [OF presD [OF pres_check_recreated s2]]]]
      only_config.trans [OF q1(2) presD [OF pres_check_recreated_config s2]] by auto
  obtain r3 s3 where s3: "run_state (SetRoute env (live_route a reps)) s2 = (r3, s3)" by fastforce
  have o3: "only_config s s3" using only_config.trans [OF q2(2) presD [OF pres_only_config_mutators(1) s3]] .
  obtain s4 where s4: "run_state (ignore (RemoveStaging env h)) s3 = ((), s4)" by (metis surj_pair old.unit.exhaust)
  consider (staging) e where "r1 = Inl e" | (health) e where "r1 = Inr ()" "r2 = Inl e"
    | (route) e where "r1 = Inr ()" "r2 = Inr ()" "r3 = Inl e" | (live) "r1 = Inr ()" "r2 = Inr ()" "r3 = Inr ()"
    by (metis obj_sumE old.unit.exhaust)
  then show thesis
  proof cases
    case staging
    show ?thesis by (rule failed [OF q1]) (use run s1 staging in \<open>simp add: heal_live_def\<close>)
  next
    case health
    show ?thesis by (rule failed [OF q2]) (use run s1 s2 health in \<open>simp add: heal_live_def\<close>)
  next
    case route
    have "steady s2 s3" using commitsD [OF commits_SetRoute s3] route by (simp add: edge_steady)
    then show ?thesis
      using run s1 s2 s3 route by (intro failed [OF steady.trans [OF q2(1)] o3]) (simp_all add: heal_live_def)
  next
    case live
    with run s1 s2 s3 s4 show ?thesis
      by (auto simp: heal_live_def wrap_err_def split: prod.splits sum.splits intro!: that(2) [OF q1, of s2 s3 s4])
  qed
qed

lemma evidence_within:
  assumes "run_state (check_recreated env a h created) s1 = (Inr (), s2)" and "steady s s1" and "later s2 s'"
  shows "list_all (\<lambda>rc. \<exists>u v. steady s u \<and> steady s v \<and> later v s' \<and>
    health_evidence env (rc_node rc) a h (rc_id rc) u v) created"
proof (rule list.pred_mono_strong [OF check_recreated_evidence [OF assms(1)]])
  have "steady s u" if "calm s1 u" for u
    using steady.trans [OF assms(2)] that aside_steady calm_aside by blast
  moreover have "later v s'" if "calm v s2" for v
    using later.trans [OF _ assms(3)] that aside_later calm_aside by blast
  ultimately show "\<exists>u v. steady s u \<and> steady s v \<and> later v s' \<and> health_evidence env (rc_node rc) a h (rc_id rc) u v"
    if "\<exists>u v. calm s1 u \<and> calm s1 v \<and> calm v s2 \<and> health_evidence env (rc_node rc) a h (rc_id rc) u v" for rc
    using that by blast
qed

lemma heal_live_ok:
  assumes run: "run_state (heal_live env cur a h created reps fresh) s = (r, s')"
  shows "later s s' \<and> (case r of
      Inl e \<Rightarrow> (is_persist_error e \<or> steady s s') \<and>
        (\<exists>t. only_config s t \<and> later s t \<and> later t s' \<and> adds (removes_in (owned_by created)) t s')
    | Inr d \<Rightarrow> only_config s s' \<and> heal_flipped cur a reps s s' \<and>
        d = cur\<lparr>d_replicas := reps, d_container := x_container (hd reps)\<rparr> \<and>
        list_all (\<lambda>rc. \<exists>s1 s2. steady s s1 \<and> steady s s2 \<and> later s2 s' \<and>
          health_evidence env (rc_node rc) a h (rc_id rc) s1 s2) created)"
  using run
proof (cases rule: heal_live_elim)
  case (failed e t)
  have f: "r = Inl e" "steady t s'" "adds (removes_in (owned_by created)) t s'" using heal_failed_ok [OF failed(3)] by auto
  moreover have "steady s s'" using failed(1) f(2) by (rule steady.trans)
  ultimately show ?thesis using failed(1,2) steady_later by auto
next
  case (live s1 s2 s3 s4 r5)
  have c2: "steady s s2" using steady.trans [OF live(1)] aside_steady calm_aside presD [OF pres_check_recreated live(3)] by blast
  have q4: "steady s3 s4" by (rule presD [OF pres_staging_steady(3) live(5)])
  have o: "only_config s1 s2" "only_config s2 s3" "only_config s3 s4" "only_config s4 s'"
    by (rule presD [OF _ live(3)] presD [OF _ live(4)] presD [OF _ live(5)] presD [OF _ live(6)], intro pres_rules)+
  have os: "only_config s s'" using live(2) o only_config.trans by metis
  have l: "later s2 s3" "later s4 s'"
    using commitsD [OF commits_SetRoute live(4)] writesD [OF writes_store(3) live(6)]
    by (auto simp: edge_only_def calm_def aside_def later_def)
  have l2: "later s2 s'" using l steady_later [OF q4] later.trans by metis
  have ls: "later s s'" using later.trans [OF steady_later [OF c2] l2] .
  show ?thesis
  proof (cases r5)
    case (Inl e)
    then show ?thesis using live(7) ls os later.refl adds.refl by (auto simp: is_persist_error_def)
  next
    case (Inr u)
    have "heal_flipped cur a reps s s'" using flip_stored [OF c2 live(4) q4] live(6) Inr by simp
    then show ?thesis using evidence_within [OF live(3,1) l2] live(7) Inr ls os by simp
  qed
qed

section \<open>What a heal does\<close>

text \<open>Only the containers \<open>R\<close>, and what was started in the same run, are removed.\<close>

definition spares :: "string set \<Rightarrow> event list \<Rightarrow> bool" where
  "spares R es = list_all (\<lambda>e. case e of EvRemove n cid \<Rightarrow> cid \<in> R \<or> started es n cid | _ \<Rightarrow> True) es"

lemma spares_split:
  assumes "list_all (removes_only R) es1" "list_all (removes_in S) es2"
    and "\<And>n cid. (n, cid) \<in> S \<Longrightarrow> started es1 n cid"
  shows "spares R (es1 @ es2)"
proof -
  have "case e of EvRemove n cid \<Rightarrow> cid \<in> R \<or> started (es1 @ es2) n cid | _ \<Rightarrow> True" if "e \<in> set (es1 @ es2)" for e
    using assms that started_mono [of es1 _ _ "es1 @ es2"]
    by (auto simp: list_all_iff removes_only_def removes_in_def split: event.splits)
  then show ?thesis by (simp add: spares_def list_all_iff)
qed

lemma spares_none: "only_config s s' \<Longrightarrow> spares R (new_events s s')"
  unfolding only_config_adds adds_events spares_def
  by (auto simp: list_all_iff beyond_config_def split: event.splits)

text \<open>
  A replica was started, and then found healthy, while the routes, the database and the bookkeeping
  were still the old ones.
\<close>

definition heal_gated :: "'x env \<Rightarrow> app \<Rightarrow> string \<Rightarrow> 'x sys \<Rightarrow> 'x sys \<Rightarrow> replica \<Rightarrow> bool" where
  "heal_gated env a h s s' rep = (\<exists>n s1 s2. steady s s1 \<and> steady s s2 \<and> later s2 s' \<and>
     started (new_events s s1) n (x_container rep) \<and> health_evidence env n a h (x_container rep) s1 s2)"

definition healed :: "'x env \<Rightarrow> deployment \<Rightarrow> nat list \<Rightarrow> 'x sys \<Rightarrow> 'x sys \<Rightarrow> deployment \<Rightarrow> bool" where
  "healed env cur dead s s' d =
     (case snapshot_app ''no spec snapshot to heal %q'' ''no image recorded to heal %q'' cur of
        Inl _ \<Rightarrow> False
      | Inr a \<Rightarrow> \<exists>vars reps. patched (a_image a) vars (new_events s s') dead (d_replicas cur) reps \<and>
          heal_flipped cur a reps s s' \<and> d = cur\<lparr>d_replicas := reps, d_container := x_container (hd reps)\<rparr> \<and>
          list_all (\<lambda>k. heal_gated env a (stagingHost (sql_next_id (sdb s))) s s' (reps ! k)) dead)"

lemma patched_mono:
  assumes "patched img vars es is reps reps'" "set es \<subseteq> set es'"
  shows "patched img vars es' is reps reps'"
proof -
  have "if k \<in> set is then recreated_as img vars es' (reps ! k) (reps' ! k) else reps' ! k = reps ! k"
    if "k \<in> set [0..<length reps]" for k
    using assms(1) that recreated_as_mono [OF _ assms(2)] unfolding patched_def list_all_iff by (metis (full_types))
  then show ?thesis using assms(1) by (simp add: patched_def list_all_iff)
qed

lemma spares_recreated:
  assumes R2: "adds (removes_only R) s s2" and l2: "later s s2"
    and st: "list_all (\<lambda>rc. started (new_events s s2) (rc_node rc) (rc_id rc)) rcs"
    and l: "later s2 u" "later u t" and m: "only_config s2 u" "adds (removes_in (owned_by rcs)) u t"
  shows "spares R (new_events s t)"
proof -
  have e: "new_events s t = (new_events s s2 @ new_events s2 u) @ new_events u t"
    using new_events_trans [OF l2 later.trans [OF l]] new_events_trans [OF l] by simp
  have "adds (removes_only R) s2 u" using m(1) quiet_removes_only adds_mono unfolding only_config_adds by metis
  then have "list_all (removes_only R) (new_events s s2 @ new_events s2 u)" using R2 by (auto simp: adds_events)
  moreover have "list_all (removes_in (owned_by rcs)) (new_events u t)" using m(2) by (simp add: adds_events)
  moreover have "started (new_events s s2 @ new_events s2 u) n cid" if "(n, cid) \<in> owned_by rcs" for n cid
    using that st started_mono by (fastforce simp: owned_by_def list_all_iff)
  ultimately show ?thesis unfolding e by (rule spares_split)
qed

lemma gated_recreated:
  assumes s2: "steady s s2" and c: "c \<in> set rcs" "rc_id c = x_container rep"
    and st: "list_all (\<lambda>rc. started (new_events s s2) (rc_node rc) (rc_id rc)) rcs"
    and ev: "list_all (\<lambda>rc. \<exists>u v. steady s2 u \<and> steady s2 v \<and> later v s' \<and>
      health_evidence env (rc_node rc) a h (rc_id rc) u v) rcs"
  shows "heal_gated env a h s s' rep"
proof -
  obtain u v where uv: "steady s2 u" "steady s2 v" "later v s'" "health_evidence env (rc_node c) a h (rc_id c) u v"
    using ev c(1) by (auto simp: list_all_iff)
  have "started (new_events s u) (rc_node c) (rc_id c)"
    using started_mono [of "new_events s s2"] st c(1) new_events_trans [OF steady_later [OF s2] steady_later [OF uv(1)]]
    by (auto simp: list_all_iff)
  then show ?thesis unfolding heal_gated_def using uv c(2) steady.trans [OF s2] by auto
qed

lemma heal_tail_ok:
  assumes dk: "distinct dead" and s1: "steady s s1" "only_config s s1" and i: "i = sql_next_id (sdb s)"
    and a: "snapshot_app ''no spec snapshot to heal %q'' ''no image recorded to heal %q'' cur = Inr a"
    and run: "run_state (recreate_all env a (d_app cur) vars i dead (d_replicas cur) [] []
        \<bind> (\<lambda>(err, created, reps, fresh). case err of
            Some e \<Rightarrow> heal_failed env (stagingHost i) created e
          | None \<Rightarrow> heal_live env cur a (stagingHost i) created reps fresh)) s1 = (r, s')"
  shows "spares (dead_ids (d_replicas cur) dead) (new_events s s') \<and>
     (case r of
        Inl e \<Rightarrow> is_persist_error e \<or> steady s s'
      | Inr d \<Rightarrow> healed env cur dead s s' d)"
proof -
  let ?R = "dead_ids (d_replicas cur) dead"
  obtain err rcs reps fresh s2 where s2: "run_state (recreate_all env a (d_app cur) vars i dead (d_replicas cur) [] []) s1
      = ((err, rcs, reps, fresh), s2)" by (metis surj_pair)
  have rc: "aside s1 s2" "adds (removes_only ?R) s1 s2"
    "list_all (\<lambda>rc. started (new_events s1 s2) (rc_node rc) (rc_id rc)) rcs"
    "err = None \<Longrightarrow> patched (a_image a) vars (new_events s1 s2) dead (d_replicas cur) reps \<and>
       map rc_id rcs = map (\<lambda>k. x_container (reps ! k)) dead"
    using recreate_all_ok [OF s2 dk] by auto
  have q2: "steady s s2" by (rule steady.trans [OF s1(1) aside_steady [OF rc(1)]])
  have "adds (removes_only ?R) s s1" using s1(2) quiet_removes_only adds_mono unfolding only_config_adds by metis
  then have R2: "adds (removes_only ?R) s s2" using rc(2) adds.trans by blast
  have sub: "set (new_events s1 s2) \<subseteq> set (new_events s s2)"
    using new_events_trans [OF steady_later [OF s1(1)] aside_later [OF rc(1)]] by simp
  note st = started_all_mono [OF rc(3) sub]
  note spare = spares_recreated [OF R2 steady_later [OF q2] st]
  consider (failed) e where "err = Some e" "run_state (heal_failed env (stagingHost i) rcs e) s2 = (r, s')"
    | (live) "err = None" "run_state (heal_live env cur a (stagingHost i) rcs reps fresh) s2 = (r, s')"
    using run s2 by (cases err) auto
  then show ?thesis
  proof cases
    case failed
    have "steady s2 s'" "adds (removes_in (owned_by rcs)) s2 s'" "r = Inl e" using heal_failed_ok [OF failed(2)] by auto
    then show ?thesis using spare [OF later.refl _ only_config.refl] steady.trans [OF q2] steady_later by auto
  next
    case live
    note ok = heal_live_ok [OF live(2)]
    show ?thesis
    proof (cases r)
      case (Inl e)
      then obtain t where t: "only_config s2 t" "later s2 t" "adds (removes_in (owned_by rcs)) t s'"
        and later: "later t s'" and e: "is_persist_error e \<or> steady s2 s'" using ok by (auto split: if_splits)
      then show ?thesis using spare [OF t(2) later t(1,3)] e Inl steady.trans [OF q2] by auto
    next
      case (Inr d)
      have l: "later s2 s'" using ok by blast
      have p: "patched (a_image a) vars (new_events s s') dead (d_replicas cur) reps"
        by (rule patched_mono) (use rc(4) live sub new_events_trans [OF steady_later [OF q2] l] in auto)
      have fl: "heal_flipped cur a reps s s'" using ok Inr steady_fields [OF q2] by (simp add: heal_flipped_def)
      have "heal_gated env a (stagingHost i) s s' (reps ! k)" if "k \<in> set dead" for k
      proof -
        have "x_container (reps ! k) \<in> set (map rc_id rcs)" using rc(4) live that by auto
        then show ?thesis using gated_recreated [OF q2 _ _ st] ok Inr by auto
      qed
      then show ?thesis using spare [OF l later.refl _ adds.refl] ok Inr a p fl i by (auto simp: healed_def list_all_iff)
    qed
  qed
qed

lemma heal_targeted:
  assumes distinct: "distinct dead"
  shows "wp (healDeadReplicasLocked env cur dead) (\<lambda>r s'.
     spares (dead_ids (d_replicas cur) dead) (new_events s s') \<and>
     (case r of
        Inl e \<Rightarrow> is_persist_error e \<or> steady s s'
      | Inr d \<Rightarrow> if dead = [] then d = cur \<and> s' = s else healed env cur dead s s' d)) s"
  unfolding wp_iff
proof (intro allI impI)
  fix r s'
  assume run: "run_state (healDeadReplicasLocked env cur dead) s = (r, s')"
  have none: "spares (dead_ids (d_replicas cur) dead) (new_events s u) \<and> steady s u"
    if "calm s u" "only_config s u" for u
    using that spares_none aside_steady calm_aside by blast
  let ?snap = "snapshot_app ''no spec snapshot to heal %q'' ''no image recorded to heal %q'' cur"
  show "spares (dead_ids (d_replicas cur) dead) (new_events s s') \<and>
     (case r of
        Inl e \<Rightarrow> is_persist_error e \<or> steady s s'
      | Inr d \<Rightarrow> if dead = [] then d = cur \<and> s' = s else healed env cur dead s s' d)"
  proof (cases "d_spec cur = SpecEmpty \<or> dead = [] \<or> is_err ?snap")
    case True
    then show ?thesis using run none [OF calm.refl only_config.refl]
      by (auto simp: healDeadReplicasLocked_def is_err_iff split: if_splits)
  next
    case False
    then obtain a where a: "?snap = Inr a" by (cases ?snap) auto
    obtain r1 s1 where s1: "run_state (Resolve_secrets env (a_name a) (a_secrets a)) s = (r1, s1)" by fastforce
    have c1: "calm s s1" "only_config s s1"
      using presD [OF pres_Resolve_secrets s1] presD [OF pres_only_config_secrets s1] by auto
    obtain r2 s2 where s2: "run_state (NextDeployID env) s1 = (r2, s2)" by fastforce
    have "calm s1 s2" "only_config s1 s2" by (rule presD [OF _ s2], intro pres_rules)+
    then have c2: "calm s s2" "only_config s s2" using c1 calm.trans only_config.trans by blast+
    have db1: "sdb s1 = sdb s" using c1(1) by (simp add: calm_def aside_def kept_def)
    note unfolds = healDeadReplicasLocked_def wrap_err_def
    consider (secrets) e where "r1 = Inl e" | (id) sv e where "r1 = Inr sv" "r2 = Inl e"
      | (both) sv i where "r1 = Inr sv" "r2 = Inr i" by (metis obj_sumE)
    then show ?thesis
    proof cases
      case both
      have i: "i = sql_next_id (sdb s)" using NextDeployID_result s2 both db1 by metis
      show ?thesis
        using heal_tail_ok [OF distinct aside_steady [OF calm_aside [OF c2(1)]] c2(2) i a,
            where vars = "mergeEnv (a_env a) sv" and r = r and s' = s' and env = env] run False a s1 s2 both
        by (cases r) (auto simp: healDeadReplicasLocked_def)
    qed (use run False a s1 s2 none [OF c1] none [OF c2] in \<open>auto simp: unfolds\<close>)
  qed
qed


end
