(* ===== verification/Evacuate.thy ===== *)
theory Evacuate
  imports Heal
begin

text \<open>
  Moving surfaces off a node that is drained or lost (\<open>src/internal/reconciler/evacuate.go\<close>): a
  surface with one replica is deployed anew elsewhere, and of a replica set only the replicas on the
  node are moved, one at a time, within their row. Indexes are natural numbers here; the code's test
  for a negative one has no counterpart.
\<close>

section \<open>The whole surface\<close>

definition redeploy_on :: "'x env \<Rightarrow> deployment \<Rightarrow> app \<Rightarrow> ('x sys, deployment res) state" where
  "redeploy_on env cur a =
     (let wrapped = wrap_err ''redeploy %q on %q: %w'' [d_app cur, a_node a] in
      if a_git a \<noteq> None then attempt (rollbackGitLocked env a True) wrapped (\<lambda>d. ret (Inr d))
      else (case Validate a of
        Some e \<Rightarrow> wrap_err ''invalid spec snapshot for %q: %w'' [d_app cur] e
      | None \<Rightarrow> attempt (applyImageProvenance env a (Some True)) wrapped (\<lambda>d. ret (Inr d))))"

definition rescheduleSurfaceLocked :: "'x env \<Rightarrow> deployment \<Rightarrow> string \<Rightarrow> ('x sys, deployment res) state" where
  "rescheduleSurfaceLocked env cur excludeNode =
     (case restored_app ''no spec snapshot to reschedule %q'' (d_app cur) cur of
        Inl e \<Rightarrow> fail_with e
      | Inr a \<Rightarrow>
          attempt (placeExcluding env a excludeNode) (wrap_err ''place %q off %q: %w'' [d_app cur, excludeNode])
            (\<lambda>newNode. redeploy_on env cur (a\<lparr>a_node := newNode\<rparr>)))"

section \<open>Who is affected\<close>

definition normalizeNode :: "string \<Rightarrow> string" where
  "normalizeNode n = (if n = [] then ''local'' else n)"

lemma normalizeNode_or_local: "normalizeNode = or_local"
  by (rule ext) (simp add: normalizeNode_def or_local_def)

text \<open>Whether the deployment is affected, and the indexes of its replicas that are.\<close>

definition affectedByNode :: "deployment \<Rightarrow> string \<Rightarrow> bool \<times> nat list" where
  "affectedByNode cur name =
     (if d_replicas cur = [] then (nodeFromSpec (d_spec cur) = name, [])
      else let movingIdx = filter (\<lambda>i. normalizeNode (x_node (d_replicas cur ! i)) = name) [0..<length (d_replicas cur)]
           in (movingIdx \<noteq> [], movingIdx))"

section \<open>One replica\<close>

text \<open>The node to leave, and the nodes of every other replica.\<close>

definition excluded_nodes :: "string \<Rightarrow> replica list \<Rightarrow> nat \<Rightarrow> string list" where
  "excluded_nodes excludeNode reps i =
     excludeNode # map (\<lambda>j. normalizeNode (x_node (reps ! j))) (filter (\<lambda>j. j \<noteq> i) [0..<length reps])"

definition evac_failed :: "'x env \<Rightarrow> string \<Rightarrow> node_ref \<Rightarrow> container list \<Rightarrow> goerr \<Rightarrow> ('x sys, 'a res) state" where
  "evac_failed env stageHost n cs e = (case cs of
     [] \<Rightarrow> fail_with e
   | c # _ \<Rightarrow> do {
       ignore (RemoveStaging env stageHost);
       ignore (RemoveContainer env n (c_id c));
       fail_with e
     })"

text \<open>The new container runs: health gate, flip to the merged set, retire the old one, update the row.\<close>

definition evac_live ::
  "'x env \<Rightarrow> deployment \<Rightarrow> app \<Rightarrow> string \<Rightarrow> nat \<Rightarrow> node_ref \<Rightarrow> container \<Rightarrow> replica \<Rightarrow> ('x sys, deployment res) state"
where
  "evac_live env cur a stageHost i n c rep =
     (let reps = (d_replicas cur)[i := rep] in
      attempt (SetStaging env stageHost [upstream_of rep])
        (\<lambda>e. evac_failed env stageHost n [c] (Wrapf ''set staging route: %w'' [] e)) (\<lambda>_.
      attempt (checkHealth env n a stageHost (c_id c))
        (\<lambda>e. evac_failed env stageHost n [c] (Wrapf ''health check failed for replica %d: %w'' [] e)) (\<lambda>_. do {
      ignore (RemoveStaging env stageHost);
      attempt (SetRoute env (live_route a reps))
        (\<lambda>e. do { ignore (RemoveContainer env n (c_id c)); wrap_err ''set route for replica %d: %w'' [] e }) (\<lambda>_. do {
      remove_old env [d_replicas cur ! i];
      attempt (UpdateReplicas env (d_id cur) reps (x_container (hd reps)))
        (wrap_err ''persist evacuated replica %d: %w'' [])
        (\<lambda>_. ret (Inr (cur\<lparr>d_replicas := reps, d_container := x_container (hd reps)\<rparr>))) }) })))"

definition evacuate_one ::
  "'x env \<Rightarrow> app \<Rightarrow> env_map \<Rightarrow> string \<Rightarrow> deployment \<Rightarrow> nat \<Rightarrow> ('x sys, deployment res) state"
where
  "evacuate_one env a vars excludeNode cur i =
     (if length (d_replicas cur) \<le> i
      then fail_with (Errf ''replica index %d out of range for %q (%d replicas)'' [d_app cur])
      else
      attempt (placeExcludingSet env a (excluded_nodes excludeNode (d_replicas cur) i))
        (wrap_err ''place replica %d off %q: %w'' [excludeNode]) (\<lambda>newNode.
      attempt (ready_node env (a_image a) newNode) (\<lambda>e. fail_with e) (\<lambda>m.
      attempt (NextDeployID env) (wrap_err ''next deploy id: %w'' []) (\<lambda>deployID.
      run_replica env a vars deployID (length (d_replicas cur)) i (target_of newNode m) \<bind> (\<lambda>r. case r of
        Inl (e, cs) \<Rightarrow> evac_failed env (stagingHost deployID) (rm_node m) cs e
      | Inr (c, rep) \<Rightarrow> evac_live env cur a (stagingHost deployID) i (rm_node m) c rep)))))"

section \<open>The moving replicas of a set\<close>

text \<open>The moved indexes and the errors of those that could not be; the row moves along.\<close>

fun evacuate_each ::
  "'x env \<Rightarrow> app \<Rightarrow> env_map \<Rightarrow> string \<Rightarrow> deployment \<Rightarrow> nat list \<Rightarrow> nat list \<Rightarrow> (nat \<times> goerr) list
     \<Rightarrow> ('x sys, nat list \<times> (nat \<times> goerr) list) state"
where
  "evacuate_each env a vars excludeNode cur [] moved failed = ret (moved, failed)"
| "evacuate_each env a vars excludeNode cur (i # is) moved failed =
     evacuate_one env a vars excludeNode cur i \<bind> (\<lambda>r. case r of
       Inl e \<Rightarrow> evacuate_each env a vars excludeNode cur is moved (AList.update i e failed)
     | Inr cur' \<Rightarrow> evacuate_each env a vars excludeNode cur' is (moved @ [i]) failed)"

definition evacuateReplicasLocked ::
  "'x env \<Rightarrow> deployment \<Rightarrow> string \<Rightarrow> nat list \<Rightarrow> ('x sys, nat list \<times> (nat \<times> goerr) list) state"
where
  "evacuateReplicasLocked env cur excludeNode movingIdx =
     (let failAll = (\<lambda>e. ret ([], fold (\<lambda>i m. AList.update i e m) movingIdx [])) in
      case snapshot_app ''no spec snapshot to evacuate %q'' ''no image recorded to evacuate %q'' cur of
        Inl e \<Rightarrow> failAll e
      | Inr a \<Rightarrow>
          attempt (Resolve_secrets env (a_name a) (a_secrets a)) (\<lambda>e. failAll (Wrapf ''resolve secrets: %w'' [] e))
            (\<lambda>secretVals. evacuate_each env a (mergeEnv (a_env a) secretVals) excludeNode cur movingIdx [] []))"

section \<open>A node\<close>

record evacuate_result =
  ev_moved :: "string list"
  ev_skipped :: "string list"
  ev_failed :: "(string \<times> goerr) list"

text \<open>The body of the loop over the apps.\<close>

definition evacuate_app :: "'x env \<Rightarrow> string \<Rightarrow> string \<Rightarrow> evacuate_result \<Rightarrow> ('x sys, evacuate_result) state" where
  "evacuate_app env name app result =
     CurrentDeployment env app \<bind> (\<lambda>r. case r of
       Inl _ \<Rightarrow> ret result
     | Inr None \<Rightarrow> ret result
     | Inr (Some cur) \<Rightarrow>
         if d_container cur = [] \<or> isComposeApp (d_spec cur) then ret result
         else (let (affected, movingIdx) = affectedByNode cur name in
           if \<not> affected then ret result
           else if \<not> d_scheduled cur then ret (result\<lparr>ev_skipped := ev_skipped result @ [app]\<rparr>)
           else if length (d_replicas cur) \<le> 1 then
             attempt (rescheduleSurfaceLocked env cur name)
               (\<lambda>e. ret (result\<lparr>ev_failed := ev_failed result @ [(app, e)]\<rparr>))
               (\<lambda>_. ret (result\<lparr>ev_moved := ev_moved result @ [app]\<rparr>))
           else
             evacuateReplicasLocked env cur name movingIdx \<bind> (\<lambda>(moved, failed). ret
               (result\<lparr>ev_moved := ev_moved result @ (if moved \<noteq> [] then [app] else []),
                  ev_failed := ev_failed result @ map (\<lambda>i. (app, Wrapf ''replica %d: %v'' [] (the (map_of failed i))))
                    (filter (\<lambda>i. map_of failed i \<noteq> None) movingIdx)\<rparr>))))"

fun evacuate_apps :: "'x env \<Rightarrow> string \<Rightarrow> string list \<Rightarrow> evacuate_result \<Rightarrow> ('x sys, evacuate_result) state" where
  "evacuate_apps env name [] result = ret result"
| "evacuate_apps env name (app # apps) result = evacuate_app env name app result \<bind> evacuate_apps env name apps"

definition no_moves :: evacuate_result where
  "no_moves = \<lparr>ev_moved = [], ev_skipped = [], ev_failed = []\<rparr>"

definition EvacuateNode :: "'x env \<Rightarrow> string \<Rightarrow> ('x sys, evacuate_result res) state" where
  "EvacuateNode env name =
     attempt (ListApps env) (wrap_err ''list apps: %w'' []) (\<lambda>apps.
       evacuate_apps env name apps no_moves \<bind> (\<lambda>result. ret (Inr result)))"

section \<open>Moving one replica\<close>

lemma evac_failed_ok:
  assumes "run_state (evac_failed env h n cs e) s = (r, s')"
  shows "r = Inl e \<and> steady s s' \<and> adds (removes_in (set (map (\<lambda>c. (n, c_id c)) cs))) s s'"
proof -
  have "pres steady (evac_failed env h n cs e)"
    unfolding evac_failed_def
    by (intro steady.pres_bind steady.pres_ret steady.pres_case_list pres_staging_steady pres_aside_steady pres_remove_aside)
  moreover have "pres (adds (removes_in (set (map (\<lambda>c. (n, c_id c)) cs)))) (evac_failed env h n cs e)"
    unfolding evac_failed_def
    by (cases cs) (auto intro!: adds.pres_bind adds.pres_ret pres_remove_in
      pres_adds_quiet [OF pres_only_config_ignore [OF pres_only_config_mutators(4)] quiet_removes_in])
  moreover have "r = Inl e" using assms by (auto simp: evac_failed_def split: list.splits prod.splits)
  ultimately show ?thesis using presD [OF _ assms] by blast
qed

lemma pres_remove_old_only: "pres (adds (removes_only {x_container old})) (remove_old env [old])"
  unfolding remove_old.simps Let_def
  by (intro adds.pres_bind adds.pres_if adds.pres_attempt adds.pres_ret pres_removes_only(3)
      pres_removes_only(1) [OF pres_only_config_resolve(2)] pres_removes_only(1) [OF pres_only_config_resolver(1)]) simp

definition is_evac_persist :: "goerr \<Rightarrow> bool" where
  "is_evac_persist e = (case e of Wrapf fmt _ _ \<Rightarrow> fmt = ''persist evacuated replica %d: %w'' | _ \<Rightarrow> False)"

text \<open>
  Between \<open>s\<close> and \<open>s'\<close> nothing is started, and what is removed (only \<open>R\<close>) is removed after a
  point where \<open>P\<close> holds.
\<close>

definition removes_after :: "('x sys \<Rightarrow> bool) \<Rightarrow> (event \<Rightarrow> bool) \<Rightarrow> 'x sys \<Rightarrow> 'x sys \<Rightarrow> bool" where
  "removes_after P R s s' = (\<exists>t. only_config s t \<and> later s t \<and> later t s' \<and> P t \<and> adds R t s')"

lemma evac_live_elim:
  assumes run: "run_state (evac_live env cur a h i n c rep) s = (r, s')"
  obtains (failed) e t where "steady s t" "only_config s t"
      "run_state (evac_failed env h n [c] e :: ('a sys, deployment res) state) t = (r, s')"
  | (route) e t where "steady s t" "only_config s t" "run_state (ignore (RemoveContainer env n (c_id c))) t = ((), s')"
      "r = Inl (Wrapf ''set route for replica %d: %w'' [] e)"
  | (live) s1 s2 s3 s4 s5 r6 where "steady s s1" "run_state (checkHealth env n a h (c_id c)) s1 = (Inr (), s2)"
      "steady s s2" "steady s2 s3" "only_config s s4" "later s3 s4" "run_state (SetRoute env (live_route a ((d_replicas cur)[i := rep]))) s3 = (Inr (), s4)"
      "run_state (remove_old env [d_replicas cur ! i]) s4 = ((), s5)"
      "run_state (UpdateReplicas env (d_id cur) ((d_replicas cur)[i := rep]) (x_container (hd ((d_replicas cur)[i := rep])))) s5 = (r6, s')"
      "r = (case r6 of Inl e \<Rightarrow> Inl (Wrapf ''persist evacuated replica %d: %w'' [] e)
        | Inr _ \<Rightarrow> Inr (cur\<lparr>d_replicas := (d_replicas cur)[i := rep], d_container := x_container (hd ((d_replicas cur)[i := rep]))\<rparr>))"
proof -
  let ?reps = "(d_replicas cur)[i := rep]"
  obtain r1 s1 where s1: "run_state (SetStaging env h [upstream_of rep]) s = (r1, s1)" by fastforce
  have q1: "steady s s1" "only_config s s1"
    using presD [OF pres_staging_steady(1) s1] presD [OF pres_only_config_mutators(3) s1] by auto
  obtain r2 s2 where s2: "run_state (checkHealth env n a h (c_id c)) s1 = (r2, s2)" by fastforce
  have "calm s1 s2" "only_config s1 s2" by (rule presD [OF _ s2], intro pres_rules)+
  then have q2: "steady s s2" "only_config s s2"
    using steady.trans [OF q1(1) aside_steady [OF calm_aside]] only_config.trans [OF q1(2)] by auto
  obtain s3 where s3: "run_state (ignore (RemoveStaging env h)) s2 = ((), s3)" by (metis surj_pair old.unit.exhaust)
  have t3: "steady s2 s3" by (rule presD [OF pres_staging_steady(3) s3])
  have "only_config s2 s3" by (rule presD [OF _ s3]) (intro pres_rules)
  then have q3: "steady s s3" "only_config s s3" using steady.trans [OF q2(1) t3] only_config.trans [OF q2(2)] by auto
  obtain r4 s4 where s4: "run_state (SetRoute env (live_route a ?reps)) s3 = (r4, s4)" by fastforce
  have o4: "only_config s s4" by (rule only_config.trans [OF q3(2) presD [OF pres_only_config_mutators(1) s4]])
  obtain s5 where s5: "run_state (remove_old env [d_replicas cur ! i]) s4 = ((), s5)" by (metis surj_pair old.unit.exhaust)
  consider (staging) e where "r1 = Inl e" | (health) e where "r1 = Inr ()" "r2 = Inl e"
    | (route) e where "r1 = Inr ()" "r2 = Inr ()" "r4 = Inl e" | (live) "r1 = Inr ()" "r2 = Inr ()" "r4 = Inr ()"
    by (metis obj_sumE old.unit.exhaust)
  then show thesis
  proof cases
    case staging
    show ?thesis by (rule failed [OF q1]) (use run s1 staging in \<open>simp add: evac_live_def Let_def\<close>)
  next
    case health
    show ?thesis by (rule failed [OF q2]) (use run s1 s2 health in \<open>simp add: evac_live_def Let_def\<close>)
  next
    case route
    have "steady s s4" using commitsD [OF commits_SetRoute s4] route steady.trans [OF q3(1)] by (simp add: edge_steady)
    then show ?thesis using run s1 s2 s3 s4 route
      by (auto simp: evac_live_def Let_def wrap_err_def split: prod.splits intro!: that(2) [OF _ o4])
  next
    case live
    have l4: "later s3 s4" using commitsD [OF commits_SetRoute s4] by (simp add: edge_only_def)
    with live run s1 s2 s3 s4 s5 show ?thesis
      by (auto simp del: remove_old.simps simp: evac_live_def Let_def wrap_err_def split: prod.splits sum.splits
          intro!: that(3) [OF q1(1) _ q2(1) t3 o4 l4, of s5])
  qed
qed

lemma removes_afterI:
  "only_config s t \<Longrightarrow> later s t \<Longrightarrow> later t s' \<Longrightarrow> P t \<Longrightarrow> adds R t s' \<Longrightarrow> removes_after P R s s'"
  unfolding removes_after_def by blast

text \<open>From the flip on: the old container goes, then the row follows.\<close>

lemma flip_then_remove:
  assumes o: "only_config s t" "later s t" and rm: "run_state (remove_old env [old]) t = ((), u)"
    and up: "run_state (UpdateReplicas env i reps c) u = (r, s')"
  shows "aside t u" "later t s'" "routes s' = routes t" "P t \<Longrightarrow> removes_after P (removes_only {x_container old}) s s'"
proof -
  let ?W = "removes_only {x_container old}"
  have a: "aside t u" "adds ?W t u" using presD [OF pres_remove_old_aside rm] presD [OF pres_remove_old_only rm] by auto
  note w = writesD [OF writes_store(3) up]
  have l: "later u s'" using w by (auto simp: calm_def aside_def later_def)
  have "only_config u s'" by (rule presD [OF _ up]) (intro pres_rules)
  then have "adds ?W u s'" unfolding only_config_adds by (rule adds_mono) (rule quiet_removes_only)
  then have W: "adds ?W t s'" by (rule adds.trans [OF a(2)])
  show "aside t u" by (rule a(1))
  show lt: "later t s'" using later.trans [OF aside_later [OF a(1)] l] .
  show "routes s' = routes t" using w a(1) by (simp add: calm_def aside_def kept_def)
  show "removes_after P ?W s s'" if "P t" by (rule removes_afterI [where P = P, OF o lt that W])
qed

lemma evac_live_failed:
  assumes run: "run_state (evac_live env cur a h i n c rep) s = (Inl e, s')"
  shows "later s s' \<and> ((steady s s' \<and> removes_after (\<lambda>_. True) (removes_in {(n, c_id c)}) s s') \<or>
    (is_evac_persist e \<and> removes_after (\<lambda>_. True) (removes_only {x_container (d_replicas cur ! i)}) s s'))"
  using run
proof (cases rule: evac_live_elim)
  case (failed e' t)
  have "steady t s'" "adds (removes_in {(n, c_id c)}) t s'" using evac_failed_ok [OF failed(3)] by auto
  then show ?thesis
    using removes_afterI [OF failed(2), of s' "\<lambda>_. True"] steady.trans [OF failed(1)] steady_later failed(1) by blast
next
  case (route e' t)
  have "steady t s'" "adds (removes_in {(n, c_id c)}) t s'"
    using aside_steady [OF presD [OF pres_remove_aside route(3)]]
      presD [OF pres_remove_in [of n "c_id c" "{(n, c_id c)}"] route(3)] by auto
  then show ?thesis
    using removes_afterI [OF route(2), of s' "\<lambda>_. True"] steady.trans [OF route(1)] steady_later route(1) by blast
next
  case (live s1 s2 s3 s4 s5 r6)
  have l4: "later s s4" using steady_later [OF steady.trans [OF live(3,4)]] live(6) by (rule later.trans)
  note f = flip_then_remove [OF live(5) l4 live(8,9)]
  have "is_evac_persist e" using live(10) by (auto simp: is_evac_persist_def split: sum.splits)
  then show ?thesis using later.trans [OF l4 f(2)] f(4) [of "\<lambda>_. True"] by blast
qed

lemma evac_live_moved:
  assumes run: "run_state (evac_live env cur a h i n c rep) s = (Inr d, s')"
  shows "later s s' \<and> heal_flipped cur a ((d_replicas cur)[i := rep]) s s' \<and>
    d = cur\<lparr>d_replicas := (d_replicas cur)[i := rep], d_container := x_container (hd ((d_replicas cur)[i := rep]))\<rparr> \<and>
    removes_after (\<lambda>t. routes t = routes s') (removes_only {x_container (d_replicas cur ! i)}) s s' \<and>
    (\<exists>s1 s2. steady s s1 \<and> steady s s2 \<and> later s2 s' \<and> health_evidence env n a h (c_id c) s1 s2)"
  using run
proof (cases rule: evac_live_elim)
  case (failed e t)
  then show ?thesis using evac_failed_ok [OF failed(3)] by simp
next
  case (live s1 s2 s3 s4 s5 r6)
  then obtain u where r6: "r6 = Inr u" by (cases r6) auto
  have l4: "later s s4" using steady_later [OF steady.trans [OF live(3,4)]] live(6) by (rule later.trans)
  note f = flip_then_remove [OF live(5) l4 live(8,9)]
  obtain v where v: "calm s1 v" "health_evidence env n a h (c_id c) v s2"
    using checkHealth_evidence [OF live(2)] by auto
  have "steady s v" using steady.trans [OF live(1) aside_steady [OF calm_aside [OF v(1)]]] .
  moreover have "later s2 s'" using later.trans [OF steady_later [OF live(4)] later.trans [OF live(6) f(2)]] .
  ultimately have "\<exists>s1 s2. steady s s1 \<and> steady s s2 \<and> later s2 s' \<and> health_evidence env n a h (c_id c) s1 s2"
    using live(3) v(2) by blast
  moreover have "heal_flipped cur a ((d_replicas cur)[i := rep]) s s'"
    using flip_stored [OF steady.trans [OF live(3,4)] live(7) aside_steady [OF f(1)]] live(9) r6 by simp
  ultimately show ?thesis using later.trans [OF l4 f(2)] f(4) [of "\<lambda>t. routes t = routes s'"] f(3) live(10) r6 by simp
qed simp

text \<open>
  What moving replica \<open>i\<close> has done when it succeeds: the new replica is on a node the scheduler may
  use that is neither the one to leave nor any other replica's, was healthy before the flip, and the
  old container is the only one removed, after the flip.
\<close>

definition keeps_spread :: "string \<Rightarrow> replica list \<Rightarrow> nat \<Rightarrow> string \<Rightarrow> bool" where
  "keeps_spread excludeNode reps i n = (n \<noteq> excludeNode \<and>
     list_all (\<lambda>j. j = i \<or> n \<noteq> normalizeNode (x_node (reps ! j))) [0..<length reps])"

lemma excluded_spread: "n \<notin> set (excluded_nodes ex reps i) \<Longrightarrow> keeps_spread ex reps i n"
  by (auto simp: excluded_nodes_def keeps_spread_def list_all_iff)

definition evacuated ::
  "'x env \<Rightarrow> app \<Rightarrow> env_map \<Rightarrow> string \<Rightarrow> deployment \<Rightarrow> nat \<Rightarrow> 'x sys \<Rightarrow> 'x sys \<Rightarrow> deployment \<Rightarrow> bool"
where
  "evacuated env a vars excludeNode cur i s s' d = (i < length (d_replicas cur) \<and> (\<exists>rep.
     d = cur\<lparr>d_replicas := (d_replicas cur)[i := rep], d_container := x_container (hd ((d_replicas cur)[i := rep]))\<rparr> \<and>
     keeps_spread excludeNode (d_replicas cur) i (x_node rep) \<and> placeable (sdb s) a (x_node rep) \<and>
     backed_by (a_image a) vars (new_events s s') rep \<and>
     heal_gated env a (stagingHost (sql_next_id (sdb s))) s s' rep \<and>
     heal_flipped cur a ((d_replicas cur)[i := rep]) s s' \<and>
     (\<exists>t. later s t \<and> later t s' \<and> routes t = routes s' \<and> spares {} (new_events s t)) \<and>
     spares {x_container (d_replicas cur ! i)} (new_events s s')))"

lemma spares_after:
  assumes "adds (removes_only {}) s u" "later s u" "removes_after P (removes_in S) u s'"
    and "\<And>n cid. (n, cid) \<in> S \<Longrightarrow> started (new_events s u) n cid"
  shows "spares R (new_events s s')"
proof -
  obtain t where t: "only_config u t" "later u t" "later t s'" "adds (removes_in S) t s'"
    using assms(3) by (auto simp: removes_after_def)
  have "adds (removes_only {}) u t" using t(1) quiet_removes_only adds_mono unfolding only_config_adds by metis
  then have "adds (removes_only R) s t" using removes_only_mono [OF adds.trans [OF assms(1)]] by blast
  moreover have e: "new_events s s' = new_events s t @ new_events t s'" "new_events s t = new_events s u @ new_events u t"
    using new_events_trans [OF later.trans [OF assms(2) t(2)] t(3)] new_events_trans [OF assms(2) t(2)] by auto
  ultimately show ?thesis
    unfolding e(1) using t(4) started_mono [OF assms(4)] e(2)
    by (intro spares_split [where S = S]) (auto simp: adds_events)
qed

lemma removes_only_spares: "adds (removes_only R) s s' \<Longrightarrow> spares R (new_events s s')"
  by (auto simp: adds_events spares_def list_all_iff removes_only_def split: event.splits)

lemma removes_after_only:
  assumes "adds (removes_only {}) s u" "later s u" "removes_after P (removes_only R) u s'"
  shows "spares R (new_events s s') \<and> (\<exists>t. later s t \<and> later t s' \<and> P t \<and> spares {} (new_events s t))"
proof -
  obtain t where t: "only_config u t" "later u t" "later t s'" "P t" "adds (removes_only R) t s'"
    using assms(3) by (auto simp: removes_after_def)
  have "adds (removes_only {}) u t" using t(1) quiet_removes_only adds_mono unfolding only_config_adds by metis
  then have st: "adds (removes_only {}) s t" by (rule adds.trans [OF assms(1)])
  have "adds (removes_only R) s s'" by (rule adds.trans [OF removes_only_mono [OF st] t(5)]) simp
  then show ?thesis
    using removes_only_spares st t later.trans [OF assms(2)] by blast
qed

text \<open>The new replica, once it runs: it is moved in, or cleaned up.\<close>

lemma evac_run_ok:
  assumes i: "i < length (d_replicas cur)" and place: "keeps_spread ex (d_replicas cur) i n" "placeable (sdb s) a n"
    and k: "k = sql_next_id (sdb s)"
    and e2: "adds (removes_only {}) s s2" and a2: "aside s s2"
    and st: "started (new_events s s2) m (c_id c)" and bk: "backed_by (a_image a) vars (new_events s s2) rep"
    and rep: "x_container rep = c_id c" "x_node rep = n"
    and live: "run_state (evac_live env cur a (stagingHost k) i m c rep) s2 = (r, s')"
  shows "case r of
      Inl e \<Rightarrow> (steady s s' \<and> spares {} (new_events s s')) \<or>
        (is_evac_persist e \<and> spares {x_container (d_replicas cur ! i)} (new_events s s'))
    | Inr d \<Rightarrow> evacuated env a vars ex cur i s s' d"
proof (cases r)
  case (Inl e)
  consider (clean) "steady s2 s'" "removes_after (\<lambda>_. True) (removes_in {(m, c_id c)}) s2 s'"
    | (persist) "is_evac_persist e" "removes_after (\<lambda>_. True) (removes_only {x_container (d_replicas cur ! i)}) s2 s'"
    using evac_live_failed live Inl by blast
  then show ?thesis
  proof cases
    case clean
    have "spares {} (new_events s s')" by (rule spares_after [OF e2 aside_later [OF a2] clean(2)]) (use st in auto)
    then show ?thesis using Inl clean(1) steady.trans [OF aside_steady [OF a2]] by auto
  next
    case persist
    then show ?thesis using Inl removes_after_only [OF e2 aside_later [OF a2] persist(2)] by auto
  qed
next
  case (Inr d)
  note mo = evac_live_moved [OF live [unfolded Inr]]
  obtain u v where uv: "steady s2 u" "steady s2 v" "later v s'" "health_evidence env m a (stagingHost k) (c_id c) u v"
    using mo by auto
  have sub: "set (new_events s s2) \<subseteq> set (new_events s s')" "set (new_events s s2) \<subseteq> set (new_events s u)"
    using new_events_trans [OF aside_later [OF a2]] mo steady_later [OF uv(1)] by auto
  have gate: "heal_gated env a (stagingHost k) s s' rep"
    unfolding heal_gated_def
    using uv started_mono [OF st sub(2)] rep(1) steady.trans [OF aside_steady [OF a2]] by (metis (full_types))
  have "heal_flipped cur a ((d_replicas cur)[i := rep]) s s'"
    using mo aside_fields [OF a2] by (simp add: heal_flipped_def)
  then show ?thesis
    using Inr i place gate backed_by_mono [OF bk sub(1)] k rep mo
      removes_after_only [OF e2 aside_later [OF a2], of "\<lambda>t. routes t = routes s'"]
    by (auto simp: evacuated_def intro!: exI [of _ rep])
qed

lemma evac_tail_ok:
  assumes i: "i < length (d_replicas cur)" and place: "keeps_spread ex (d_replicas cur) i n" "placeable (sdb s) a n"
    and s1: "aside s s1" "only_config s s1" and k: "k = sql_next_id (sdb s)"
    and run: "run_state (run_replica env a vars k (length (d_replicas cur)) i (target_of n m) \<bind> (\<lambda>r. case r of
        Inl (e, cs) \<Rightarrow> evac_failed env (stagingHost k) (rm_node m) cs e
      | Inr (c, rep) \<Rightarrow> evac_live env cur a (stagingHost k) i (rm_node m) c rep)) s1 = (r, s')"
  shows "case r of
      Inl e \<Rightarrow> (steady s s' \<and> spares {} (new_events s s')) \<or>
        (is_evac_persist e \<and> spares {x_container (d_replicas cur ! i)} (new_events s s'))
    | Inr d \<Rightarrow> evacuated env a vars ex cur i s s' d"
proof -
  obtain r2 s2 where s2: "run_state (run_replica env a vars k (length (d_replicas cur)) i (target_of n m)) s1 = (r2, s2)"
    by fastforce
  have c: "calm s1 s2" by (rule presD [OF pres_run_replica s2])
  have a2: "aside s s2" by (rule aside.trans [OF s1(1) calm_aside [OF c]])
  have e1: "adds (removes_only {}) s s1" using s1(2) quiet_removes_only adds_mono unfolding only_config_adds by metis
  have e2: "adds (removes_only {}) s s2" by (rule adds.trans [OF e1 presD [OF pres_run_replica_removes s2]])
  have sub: "set (new_events s1 s2) \<subseteq> set (new_events s s2)"
    using new_events_trans [OF aside_later [OF s1(1)] aside_later [OF calm_aside [OF c]]] by simp
  note ok = run_replica_started [OF s2]
  consider (failed) e cs where "r2 = Inl (e, cs)" "run_state (evac_failed env (stagingHost k) (rm_node m) cs e) s2 = (r, s')"
    | (runs) cc rep where "r2 = Inr (cc, rep)" "run_state (evac_live env cur a (stagingHost k) i (rm_node m) cc rep) s2 = (r, s')"
    using run s2 by (cases r2) auto
  then show ?thesis
  proof cases
    case failed
    note fo = evac_failed_ok [OF failed(2)]
    have "started (new_events s s2) x cid" if "(x, cid) \<in> set (map (\<lambda>c. (rm_node m, c_id c)) cs)" for x cid
      using that ok failed(1) started_mono [OF _ sub] by (auto simp: list_all_iff)
    moreover have "removes_after (\<lambda>_. True) (removes_in (set (map (\<lambda>c. (rm_node m, c_id c)) cs))) s2 s'"
      by (rule removes_afterI [OF only_config.refl later.refl]) (use fo steady_later in auto)
    ultimately have "spares {} (new_events s s')" using spares_after [OF e2 aside_later [OF a2]] by blast
    then show ?thesis using fo steady.trans [OF aside_steady [OF a2]] by auto
  next
    case runs
    have "started (new_events s s2) (rm_node m) (c_id cc)" "backed_by (a_image a) vars (new_events s s2) rep"
      "x_container rep = c_id cc" "x_node rep = n"
      using ok runs(1) started_mono [OF _ sub] backed_by_mono [OF _ sub] by auto
    then show ?thesis by (rule evac_run_ok [OF i place k e2 a2 _ _ _ _ runs(2)])
  qed
qed

text \<open>The steps before: nothing has changed when one of them fails.\<close>

lemma evacuate_one_elim:
  assumes run: "run_state (evacuate_one env a vars excludeNode cur i) s = (r, s')"
  obtains (early) e where "r = Inl e" "aside s s'" "only_config s s'"
  | (ready) n m s3 where "i < length (d_replicas cur)" "keeps_spread excludeNode (d_replicas cur) i n" "placeable (sdb s) a n"
      "aside s s3" "only_config s s3"
      "run_state (run_replica env a vars (sql_next_id (sdb s)) (length (d_replicas cur)) i (target_of n m) \<bind> (\<lambda>r. case r of
        Inl (e, cs) \<Rightarrow> evac_failed env (stagingHost (sql_next_id (sdb s))) (rm_node m) cs e
      | Inr (c, rep) \<Rightarrow> evac_live env cur a (stagingHost (sql_next_id (sdb s))) i (rm_node m) c rep)) s3 = (r, s')"
proof (cases "length (d_replicas cur) \<le> i")
  case True
  then show thesis using run by (intro early) (auto simp: evacuate_one_def aside.refl only_config.refl)
next
  case False
  let ?ex = "excluded_nodes excludeNode (d_replicas cur) i"
  obtain r1 s1 where s1: "run_state (placeExcludingSet env a ?ex) s = (r1, s1)" by fastforce
  have f1: "aside s s1" "only_config s s1"
    using presD [OF pres_placeExcludingSet s1] presD [OF pres_only_config_placement(2) s1] by auto
  show thesis
  proof (cases r1)
    case (Inl e)
    then show thesis using run False s1 f1 by (intro early) (auto simp: evacuate_one_def wrap_err_def)
  next
    case n: (Inr n)
    obtain r2 s2 where s2: "run_state (ready_node env (a_image a) n) s1 = (r2, s2)" by fastforce
    have f2: "aside s s2" "only_config s s2"
      using aside.trans [OF f1(1) presD [OF pres_ready_node(1) s2]]
        only_config.trans [OF f1(2) presD [OF pres_ready_node(2) s2]] by auto
    obtain r3 s3 where s3: "run_state (NextDeployID env) s2 = (r3, s3)" by fastforce
    have "calm s2 s3" "only_config s2 s3" by (rule presD [OF _ s3], intro pres_rules)+
    then have f3: "aside s s3" "only_config s s3"
      using aside.trans [OF f2(1) calm_aside] only_config.trans [OF f2(2)] by auto
    consider (node) e where "r2 = Inl e" | (id) m e where "r2 = Inr m" "r3 = Inl e" | (both) m k where "r2 = Inr m" "r3 = Inr k"
      by (metis obj_sumE)
    then show thesis
    proof cases
      case both
      have k: "k = sql_next_id (sdb s)" using NextDeployID_result s3 both(2) aside_fields(1) [OF f2(1)] by metis
      have "n \<notin> set ?ex" "placeable (sdb s) a n" using placeExcludingSet_ok s1 n by metis+
      then show thesis
        using run False s1 n s2 s3 both k by (intro ready [OF _ _ _ f3]) (auto simp: evacuate_one_def excluded_spread)
    qed (use run False s1 n s2 s3 f2 f3 in \<open>auto simp: evacuate_one_def wrap_err_def intro!: that(1)\<close>)
  qed
qed

lemma evac_targeted:
  "wp (evacuate_one env a vars excludeNode cur i) (\<lambda>r s'. case r of
       Inl e \<Rightarrow> (steady s s' \<and> spares {} (new_events s s')) \<or>
         (is_evac_persist e \<and> spares {x_container (d_replicas cur ! i)} (new_events s s'))
     | Inr d \<Rightarrow> evacuated env a vars excludeNode cur i s s' d) s"
  unfolding wp_iff
proof (intro allI impI)
  fix r s'
  assume "run_state (evacuate_one env a vars excludeNode cur i) s = (r, s')"
  then show "case r of
       Inl e \<Rightarrow> (steady s s' \<and> spares {} (new_events s s')) \<or>
         (is_evac_persist e \<and> spares {x_container (d_replicas cur ! i)} (new_events s s'))
     | Inr d \<Rightarrow> evacuated env a vars excludeNode cur i s s' d"
  proof (cases rule: evacuate_one_elim)
    case (early e)
    then show ?thesis using spares_none aside_steady by auto
  next
    case (ready n m s3)
    then show ?thesis by (intro evac_tail_ok [OF ready(1-5) refl ready(6)])
  qed
qed


section \<open>A node\<close>

text \<open>What a drain of node \<open>name\<close> has no business with.\<close>

definition left_alone :: "string \<Rightarrow> deployment \<Rightarrow> bool" where
  "left_alone name d = (d_container d = [] \<or> isComposeApp (d_spec d) \<or> \<not> fst (affectedByNode d name) \<or> \<not> d_scheduled d)"

definition pinned_on :: "string \<Rightarrow> deployment \<Rightarrow> bool" where
  "pinned_on name d = (d_container d \<noteq> [] \<and> \<not> isComposeApp (d_spec d) \<and> fst (affectedByNode d name) \<and> \<not> d_scheduled d)"

definition current_of :: "string \<Rightarrow> db \<Rightarrow> deployment option" where
  "current_of app t = (case scan_option (sql_last_with_status app StatusRunning t) of Inl _ \<Rightarrow> None | Inr d \<Rightarrow> d)"

text \<open>
  An app whose current deployment is a compose stack, pinned, or not on the node: its turn in a
  drain touches nothing at all, and reports it as skipped exactly if it is pinned there.
\<close>

lemma evacuate_app_leaves_pinned:
  "wp (evacuate_app env name app result) (\<lambda>res s'.
     case current_of app (sdb s) of
       None \<Rightarrow> calm s s' \<and> only_config s s' \<and> res = result
     | Some d \<Rightarrow> if left_alone name d
         then calm s s' \<and> only_config s s' \<and>
           (res = result \<or> (pinned_on name d \<and> res = result\<lparr>ev_skipped := ev_skipped result @ [app]\<rparr>))
         else True) s"
  unfolding wp_iff
proof (intro allI impI)
  fix res s'
  assume run: "run_state (evacuate_app env name app result) s = (res, s')"
  obtain r s1 where r: "run_state (CurrentDeployment env app) s = (r, s1)" by fastforce
  have c: "calm s s1" "only_config s s1" by (rule presD [OF _ r], intro pres_rules)+
  show "case current_of app (sdb s) of
       None \<Rightarrow> calm s s' \<and> only_config s s' \<and> res = result
     | Some d \<Rightarrow> if left_alone name d
         then calm s s' \<and> only_config s s' \<and>
           (res = result \<or> (pinned_on name d \<and> res = result\<lparr>ev_skipped := ev_skipped result @ [app]\<rparr>))
         else True"
  proof (cases r)
    case (Inl e)
    then show ?thesis using run r c by (auto simp: evacuate_app_def split: option.splits)
  next
    case (Inr d)
    then have "current_of app (sdb s) = d" using CurrentDeployment_result r by (fastforce simp: current_of_def)
    then show ?thesis using run r c Inr
      by (auto simp: evacuate_app_def left_alone_def pinned_on_def split: option.splits prod.splits if_splits)
  qed
qed

end
