(* ===== verification/Loop.thy ===== *)
theory Loop
  imports Evacuate "HOL-Library.Word"
begin

text \<open>
  The reconciler loop (\<open>src/internal/reconciler/reconcile.go\<close> and \<open>loop.go\<close>): observe every
  app, heal what is dead under a per-app backoff, publish a health snapshot, and evacuate nodes lost
  for longer than the grace period. Observing an app takes no lock in the code, so what it read may
  be stale when the heal starts: \<open>tryHealWith\<close> gets the row it was called with as a parameter, and
  its theorems hold for any such row.
\<close>

section \<open>Backoff\<close>

definition healBackoffBase :: "64 word" where "healBackoffBase = 15000000000"
definition healBackoffMax :: "64 word" where "healBackoffMax = 300000000000"

text \<open>Durations are 64-bit nanosecond counts; the shift drops what leaves the word.\<close>

definition healBackoff :: "int \<Rightarrow> 64 word" where
  "healBackoff n =
     (let attempts = (if n < 1 then 1 else n); d = push_bit (nat (attempts - 1)) healBackoffBase in
      if healBackoffMax <s d \<or> d \<le>s 0 then healBackoffMax else d)"

section \<open>Bookkeeping\<close>

text \<open>The zero \<open>time.Time\<close>, in nanoseconds before the epoch.\<close>

definition zero_time :: int where "zero_time = -62135596800000000000"

definition healAttempts :: "string \<Rightarrow> ('x sys, int) state" where
  "healAttempts app = gets (\<lambda>s. case map_of (heals s) app of None \<Rightarrow> 0 | Some h \<Rightarrow> hl_attempts h)"

definition clearHealAttempts :: "string \<Rightarrow> ('x sys, unit) state" where
  "clearHealAttempts app = modify (\<lambda>s. s\<lparr>heals := AList.delete app (heals s)\<rparr>)"

text \<open>The entry of an app, created on first use.\<close>

definition heal_entry :: "string \<Rightarrow> ('x sys, heal_state) state" where
  "heal_entry app = State (\<lambda>s. case map_of (heals s) app of
     Some h \<Rightarrow> (h, s)
   | None \<Rightarrow> let h = \<lparr>hl_attempts = 0, hl_next = zero_time\<rparr> in (h, s\<lparr>heals := AList.update app h (heals s)\<rparr>))"

text \<open>A write through the pointer to the entry: lost once the entry has been deleted from the map.\<close>

definition set_heal :: "string \<Rightarrow> (heal_state \<Rightarrow> heal_state) \<Rightarrow> ('x sys, unit) state" where
  "set_heal app f = modify (\<lambda>s. s\<lparr>heals := AList.map_entry app f (heals s)\<rparr>)"

definition app_report :: "string \<Rightarrow> surface_state \<Rightarrow> goerr option \<Rightarrow> int \<Rightarrow> int \<Rightarrow> app_health" where
  "app_report app st e n t = \<lparr>ah_app = app, ah_state = st, ah_error = e, ah_attempts = n, ah_updated = t\<rparr>"

section \<open>Healing under backoff\<close>

definition tryHealWith ::
  "'x env \<Rightarrow> string \<Rightarrow> deployment \<Rightarrow> (deployment \<Rightarrow> ('x sys, deployment res) state)
     \<Rightarrow> ('x sys, app_health option) state"
where
  "tryHealWith env app cur healFn =
     attempt (CurrentDeployment env app)
       (\<lambda>e. now \<bind> (\<lambda>t. ret (Some (app_report app SurfaceDegraded
          (Some (Wrapf ''recheck current deployment: %w'' [] e)) 0 t)))) (\<lambda>fresh. case fresh of
       None \<Rightarrow> ret None
     | Some f \<Rightarrow> if d_id f \<noteq> d_id cur then ret None else do {
         hs \<leftarrow> heal_entry app;
         t \<leftarrow> now;
         if hl_attempts hs \<ge> heal_max env then
           ret (Some (app_report app SurfaceFailed (Some (Errf ''gave up after max heal attempts'' [])) (hl_attempts hs) t))
         else if t < hl_next hs then
           ret (Some (app_report app SurfaceDegraded (Some (Errf ''waiting for heal backoff'' [])) (hl_attempts hs) t))
         else do {
           let n = hl_attempts hs + 1;
           set_heal app (\<lambda>h. h\<lparr>hl_attempts := n\<rparr>);
           r \<leftarrow> healFn f;
           case r of
             Inl e \<Rightarrow> do {
               set_heal app (\<lambda>h. h\<lparr>hl_next := t + sint (healBackoff n)\<rparr>);
               ret (Some (app_report app SurfaceFailed (Some e) n t))
             }
           | Inr _ \<Rightarrow> do {
               resetHeal app;
               ret (Some (app_report app SurfaceHealthy None 0 t))
             }
         }
       })"

definition tryHeal :: "'x env \<Rightarrow> string \<Rightarrow> deployment \<Rightarrow> ('x sys, app_health option) state" where
  "tryHeal env app cur = tryHealWith env app cur (healSurfaceLocked env)"

definition tryHealReplicas :: "'x env \<Rightarrow> string \<Rightarrow> deployment \<Rightarrow> nat list \<Rightarrow> ('x sys, app_health option) state" where
  "tryHealReplicas env app cur deadIdx = tryHealWith env app cur (\<lambda>fresh. healDeadReplicasLocked env fresh deadIdx)"

section \<open>Observing an app\<close>

definition container_state :: "'x env \<Rightarrow> node_ref \<Rightarrow> string \<Rightarrow> ('x sys, (string \<times> string) res) state" where
  "container_state env n cid = call (n_container_health (node_at env n) cid)"

definition degraded :: "string \<Rightarrow> goerr \<Rightarrow> int \<Rightarrow> ('x sys, app_health option) state" where
  "degraded app e t = healAttempts app \<bind> (\<lambda>n. ret (Some (app_report app SurfaceDegraded (Some e) n t)))"

definition healthy :: "string \<Rightarrow> int \<Rightarrow> ('x sys, app_health option) state" where
  "healthy app t = clearHealAttempts app \<bind> (\<lambda>_. ret (Some (app_report app SurfaceHealthy None 0 t)))"

definition reconcileLegacySurface :: "'x env \<Rightarrow> string \<Rightarrow> deployment \<Rightarrow> int \<Rightarrow> ('x sys, app_health option) state" where
  "reconcileLegacySurface env app cur t =
     (let nodeName = or_local (nodeFromSpec (d_spec cur)) in
      known_unreachable env nodeName \<bind> (\<lambda>lost.
      if lost then degraded app (Errf ''node %s unreachable'' [nodeName]) t
      else attempt (ResolveMeta env nodeName) (\<lambda>e. degraded app e t) (\<lambda>m.
        container_state env (rm_node m) (d_container cur) \<bind> (\<lambda>st.
        if \<not> surfaceIsDead st then healthy app t else tryHeal env app cur))))"

text \<open>One replica: on an unreachable node, dead, or alive.\<close>

datatype observation = Unreachable string | Dead | Alive

definition observe :: "'x env \<Rightarrow> replica \<Rightarrow> ('x sys, observation) state" where
  "observe env rep =
     (let nodeName = or_local (x_node rep) in
      known_unreachable env nodeName \<bind> (\<lambda>lost.
      if lost then ret (Unreachable nodeName)
      else attempt (ResolveMeta env nodeName) (\<lambda>_. ret (Unreachable nodeName)) (\<lambda>m.
        container_state env (rm_node m) (x_container rep) \<bind> (\<lambda>st.
        ret (if surfaceIsDead st then Dead else Alive)))))"

text \<open>The loop over the replicas: the dead indexes and the unreachable nodes, each in order.\<close>

fun observe_all :: "'x env \<Rightarrow> nat \<Rightarrow> replica list \<Rightarrow> ('x sys, nat list \<times> string list) state" where
  "observe_all env i [] = ret ([], [])"
| "observe_all env i (rep # reps) = do {
     o' \<leftarrow> observe env rep;
     (dead, lost) \<leftarrow> observe_all env (i + 1) reps;
     ret (case o' of Unreachable n \<Rightarrow> (dead, n # lost) | Dead \<Rightarrow> (i # dead, lost) | Alive \<Rightarrow> (dead, lost))
   }"

definition reconcileReplicaSet :: "'x env \<Rightarrow> string \<Rightarrow> deployment \<Rightarrow> int \<Rightarrow> ('x sys, app_health option) state" where
  "reconcileReplicaSet env app cur t =
     observe_all env 0 (d_replicas cur) \<bind> (\<lambda>(deadIdx, unreachable).
       if deadIdx \<noteq> [] then tryHealReplicas env app cur deadIdx
       else if unreachable \<noteq> [] then degraded app (Errf ''node %s unreachable'' [join_with '','' unreachable]) t
       else healthy app t)"

definition reconcileApp :: "'x env \<Rightarrow> string \<Rightarrow> ('x sys, app_health option) state" where
  "reconcileApp env app = do {
     t \<leftarrow> now;
     attempt (CurrentDeployment env app) (\<lambda>e. degraded app e t) (\<lambda>cur. case cur of
       None \<Rightarrow> ret None
     | Some d \<Rightarrow>
         if d_container d = [] \<or> isComposeApp (d_spec d) then ret None
         else if d_replicas d = [] then reconcileLegacySurface env app d t
         else reconcileReplicaSet env app d t)
   }"

section \<open>Probes\<close>

definition probeCapacity :: "'x env \<Rightarrow> string \<Rightarrow> ('x sys, capacity) state" where
  "probeCapacity env nodeName =
     attempt (Resolve env nodeName) (\<lambda>_. ret no_capacity) (\<lambda>n.
     attempt (capacityBounded env n) (\<lambda>_. ret no_capacity) ret)"

definition probe_node :: "'x env \<Rightarrow> int \<Rightarrow> string \<Rightarrow> bool \<Rightarrow> ('x sys, node_health) state" where
  "probe_node env t name cordoned = do {
     (transport, ok) \<leftarrow> Reachable env name;
     c \<leftarrow> probeCapacity env name;
     ret \<lparr>nh_name = name, nh_transport = transport, nh_reachable = ok, nh_updated = t, nh_capacity = c,
          nh_cordoned = cordoned\<rparr>
   }"

fun probe_registered :: "'x env \<Rightarrow> int \<Rightarrow> node_row list \<Rightarrow> ('x sys, node_health list) state" where
  "probe_registered env t [] = ret []"
| "probe_registered env t (n # ns) = do {
     h \<leftarrow> probe_node env t (nd_name n) (\<not> nd_schedulable n);
     hs \<leftarrow> probe_registered env t ns;
     ret (h # hs)
   }"

definition probeNodes :: "'x env \<Rightarrow> ('x sys, node_health list) state" where
  "probeNodes env =
     (if \<not> has_reach env then ret []
      else do {
        t \<leftarrow> now;
        h \<leftarrow> probe_node env t ''local'' False;
        attempt (ListNodes env) (\<lambda>_. ret [h]) (\<lambda>ns. probe_registered env t ns \<bind> (\<lambda>hs. ret (h # hs)))
      })"

definition probeEdge :: "'x env \<Rightarrow> ('x sys, edge_health) state" where
  "probeEdge env = do {
     ok \<leftarrow> Healthy env;
     t \<leftarrow> now;
     ret \<lparr>eh_reachable = ok, eh_updated = t\<rparr>
   }"

definition setHealth :: "health \<Rightarrow> ('x sys, unit) state" where
  "setHealth h = modify (\<lambda>s. s\<lparr>health_view := h\<rparr>)"

section \<open>Failover\<close>

definition clear_timer :: "string \<Rightarrow> ('x sys, unit) state" where
  "clear_timer name = modify (\<lambda>s. s\<lparr>unreachable_since := AList.delete name (unreachable_since s)\<rparr>)"

definition start_timer :: "string \<Rightarrow> int \<Rightarrow> ('x sys, unit) state" where
  "start_timer name t = modify (\<lambda>s. s\<lparr>unreachable_since := AList.update name t (unreachable_since s)\<rparr>)"

text \<open>The body of the loop over the registered nodes. The result of an evacuation is only logged.\<close>

definition failover_one :: "'x env \<Rightarrow> node_row \<Rightarrow> ('x sys, unit) state" where
  "failover_one env n =
     (if nd_name n = ''local'' then ret ()
      else Reachable env (nd_name n) \<bind> (\<lambda>(_, ok).
        if ok then clear_timer (nd_name n)
        else gets unreachable_since \<bind> (\<lambda>m. case map_of m (nd_name n) of
          None \<Rightarrow> now \<bind> start_timer (nd_name n)
        | Some since \<Rightarrow> now \<bind> (\<lambda>t.
            if t - since < failover_grace env then ret ()
            else do {
              ignore (EvacuateNode env (nd_name n));
              clear_timer (nd_name n)
            }))))"

fun failover_all :: "'x env \<Rightarrow> node_row list \<Rightarrow> ('x sys, unit) state" where
  "failover_all env [] = ret ()"
| "failover_all env (n # ns) = failover_one env n \<bind> (\<lambda>_. failover_all env ns)"

definition failoverLostNodes :: "'x env \<Rightarrow> ('x sys, unit) state" where
  "failoverLostNodes env =
     (if \<not> has_reach env then ret ()
      else attempt (ListNodes env) (\<lambda>_. ret ()) (failover_all env))"

section \<open>A pass, and the loop\<close>

fun reconcile_apps :: "'x env \<Rightarrow> string list \<Rightarrow> ('x sys, app_health list) state" where
  "reconcile_apps env [] = ret []"
| "reconcile_apps env (app # apps) = do {
     h \<leftarrow> reconcileApp env app;
     hs \<leftarrow> reconcile_apps env apps;
     ret ((case h of None \<Rightarrow> [] | Some x \<Rightarrow> [x]) @ hs)
   }"

definition Reconcile :: "'x env \<Rightarrow> ('x sys, unit res) state" where
  "Reconcile env =
     attempt (ListApps env) (wrap_err ''reconcile: list apps: %w'' []) (\<lambda>apps. do {
       appHealth \<leftarrow> reconcile_apps env apps;
       nodes \<leftarrow> probeNodes env;
       edge \<leftarrow> probeEdge env;
       setHealth \<lparr>he_nodes = nodes, he_edge = edge, he_apps = appHealth\<rparr>;
       failoverLostNodes env;
       ret (Inr ())
     })"

text \<open>
  \<open>RunLoop\<close> as a step relation: a pass at the start and after every tick or nudge, whose error is
  only logged, until the context is done. The nudge channel holds at most one wake-up, taken when it
  is received.
\<close>

datatype loop_phase = Starting | Waiting | Returned

inductive loop_step :: "'x env \<Rightarrow> loop_phase \<times> 'x sys \<Rightarrow> loop_phase \<times> 'x sys \<Rightarrow> bool" for env where
  loop_start: "run_state (Reconcile env) s = (r, s') \<Longrightarrow> loop_step env (Starting, s) (Waiting, s')"
| loop_tick: "run_state (Reconcile env) s = (r, s') \<Longrightarrow> loop_step env (Waiting, s) (Waiting, s')"
| loop_nudge: "nudged s \<Longrightarrow> run_state (Reconcile env) (s\<lparr>nudged := False\<rparr>) = (r, s') \<Longrightarrow>
    loop_step env (Waiting, s) (Waiting, s')"
| loop_done: "run_state (call (ctx_done env)) s = (Some e, s') \<Longrightarrow> loop_step env (Waiting, s) (Returned, s')"

inductive_cases loop_startE: "loop_step env (Starting, s) p"
inductive_cases loop_waitE: "loop_step env (Waiting, s) p"
inductive_simps loop_returned: "loop_step env (Returned, s) p"

section \<open>The backoff, in closed form\<close>

lemma dvd_signed_take_bit: "(2::int) ^ m dvd k \<Longrightarrow> m \<le> n \<Longrightarrow> 2 ^ m dvd signed_take_bit n k"
proof -
  assume d: "(2::int) ^ m dvd k" and n: "m \<le> n"
  have "(2::int) ^ m dvd take_bit (Suc n) (k + 2 ^ n)"
    using d n by (simp add: take_bit_eq_mod dvd_mod le_imp_power_dvd)
  moreover have "(2::int) ^ m dvd 2 ^ n" using n by (rule le_imp_power_dvd)
  ultimately show ?thesis by (simp add: signed_take_bit_eq_take_bit_shift)
qed

lemma shifted_base: "sint (push_bit k healBackoffBase) = signed_take_bit 63 (15000000000 * 2 ^ k)"
proof -
  have "sint (word_of_int x :: 64 word) = signed_take_bit 63 x" for x by transfer simp
  moreover have "push_bit k healBackoffBase = word_of_int (15000000000 * 2 ^ k)"
    by (simp add: healBackoffBase_def push_bit_eq_mult)
  ultimately show ?thesis by (simp only:)
qed

lemma shifted_base_small:
  assumes "k < 30"
  shows "sint (push_bit k healBackoffBase) = 15000000000 * 2 ^ k"
proof -
  have "(2::int) ^ k \<le> 2 ^ 29" using assms by (intro power_increasing) auto
  moreover have "(0::int) \<le> 2 ^ k" by simp
  moreover have "- (2 ^ 63) \<le> 15000000000 * x \<and> 15000000000 * x < 2 ^ 63" if "0 \<le> x" "x \<le> 2 ^ 29" for x :: int
    using that by simp
  ultimately have "- (2 ^ 63) \<le> 15000000000 * (2::int) ^ k" "15000000000 * (2::int) ^ k < 2 ^ 63" by blast+
  then show ?thesis unfolding shifted_base by (rule signed_take_bit_int_eq_self)
qed

lemma shifted_base_multiple:
  assumes "30 \<le> k"
  shows "(2::int) ^ 39 dvd sint (push_bit k healBackoffBase)"
proof -
  obtain j where k: "k = 30 + j" using assms le_iff_add by auto
  have "(15000000000::int) * 2 ^ k = 2 ^ 39 * (29296875 * 2 ^ j)" by (simp add: k power_add)
  then show ?thesis unfolding shifted_base by (intro dvd_signed_take_bit) auto
qed

lemma healBackoff_closed:
  "sint (healBackoff n) = min 300000000000 (15000000000 * 2 ^ nat (max 1 n - 1))"
proof -
  let ?k = "nat (max 1 n - 1)" and ?m = "sint healBackoffMax"
  let ?d = "push_bit ?k healBackoffBase"
  have k: "nat ((if n < 1 then 1 else n) - 1) = ?k" by (simp add: max_def)
  have m: "?m = 300000000000" by (simp add: healBackoffMax_def)
  have b: "sint (healBackoff n) = (if ?m < sint ?d \<or> sint ?d \<le> 0 then ?m else sint ?d)"
    unfolding healBackoff_def Let_def k by (simp add: word_sless_alt word_sle_eq)
  show ?thesis
  proof (cases "?k < 30")
    case True
    have "sint ?d = 15000000000 * 2 ^ ?k" by (rule shifted_base_small [OF True])
    then show ?thesis unfolding b m by (simp add: min_def)
  next
    case False
    obtain q where q: "sint ?d = 2 ^ 39 * q" using shifted_base_multiple [of ?k] False by (meson dvdE not_less)
    have "?m < sint ?d \<or> sint ?d \<le> 0" unfolding m q by auto
    moreover have "(2::int) ^ 30 \<le> 2 ^ ?k" using False by (intro power_increasing) auto
    ultimately show ?thesis unfolding b m by (simp add: min_def)
  qed
qed

text \<open>
  C21: the backoff is the doubling of fifteen seconds capped at five minutes, for every attempt
  count: no count makes the 64-bit shift wrap into a short or negative delay.
\<close>

theorem healBackoff_capped_doubling:
  "sint (healBackoff n) = min 300000000000 (15000000000 * 2 ^ nat (max 1 n - 1))"
  by (rule healBackoff_closed)

end
