(* ===== verification/Healing.thy ===== *)
theory Healing
  imports Loop
begin

text \<open>
  What self-healing guarantees: the backoff of \<open>tryHealWith\<close> as an abstract machine it refines,
  and which replicas a pass takes for dead.
\<close>

section \<open>Programs that keep something when they fail\<close>

definition keeps_on_err :: "('s \<Rightarrow> 's \<Rightarrow> bool) \<Rightarrow> ('s, 'a res) state \<Rightarrow> bool" where
  "keeps_on_err R m = (\<forall>s e s'. run_state m s = (Inl e, s') \<longrightarrow> R s s')"

named_theorems err_rules "what a failing program leaves alone"

lemma keeps_on_errD: "keeps_on_err R m \<Longrightarrow> run_state m s = (Inl e, s') \<Longrightarrow> R s s'"
  by (simp add: keeps_on_err_def)

lemma pres_keeps_on_err: "pres R m \<Longrightarrow> keeps_on_err R m"
  by (auto simp: keeps_on_err_def dest: presD)

lemma keeps_on_err_ok [err_rules]: "keeps_on_err R (ret (Inr v))"
  by (simp add: keeps_on_err_def)

lemma err_if [err_rules]: "keeps_on_err R m \<Longrightarrow> keeps_on_err R n \<Longrightarrow> keeps_on_err R (if b then m else n)"
  by simp

lemma err_case_option [err_rules]:
  "keeps_on_err R m \<Longrightarrow> (\<And>v. keeps_on_err R (k v)) \<Longrightarrow> keeps_on_err R (case x of None \<Rightarrow> m | Some v \<Rightarrow> k v)"
  by (cases x) auto

lemma err_case_sum [err_rules]:
  "(\<And>e. keeps_on_err R (h e)) \<Longrightarrow> (\<And>v. keeps_on_err R (k v)) \<Longrightarrow>
     keeps_on_err R (case x of Inl e \<Rightarrow> h e | Inr v \<Rightarrow> k v)"
  by (cases x) auto

lemma err_case_prod [err_rules]:
  "(\<And>u v. keeps_on_err R (k u v)) \<Longrightarrow> keeps_on_err R (case x of (u, v) \<Rightarrow> k u v)"
  by (cases x) auto

lemma err_let [err_rules]: "keeps_on_err R (k x) \<Longrightarrow> keeps_on_err R (let v = x in k v)"
  by simp

context frame begin

lemma err_attempt [err_rules]:
  assumes "pres R m" "\<And>e. keeps_on_err R (h e)" "\<And>v. keeps_on_err R (k v)"
  shows "keeps_on_err R (attempt m h k)"
  unfolding keeps_on_err_def
proof (intro allI impI)
  fix s e s'
  assume run: "run_state (attempt m h k) s = (Inl e, s')"
  obtain r s1 where r: "run_state m s = (r, s1)" by fastforce
  have "R s1 s'"
    using run r keeps_on_errD [OF assms(2)] keeps_on_errD [OF assms(3)] by (cases r) simp_all
  then show "R s s'" by (rule trans [OF presD [OF assms(1) r]])
qed

lemma err_bind [err_rules]: "pres R m \<Longrightarrow> (\<And>v. keeps_on_err R (k v)) \<Longrightarrow> keeps_on_err R (m \<bind> k)"
  unfolding keeps_on_err_def by (auto split: prod.splits intro: trans dest: presD)

end

lemma err_then_ok: "keeps_on_err R (m \<bind> (\<lambda>_. ret (Inr v)))"
  by (auto simp: keeps_on_err_def split: prod.splits)

text \<open>The result is an error or not; what was done is \<open>R\<close> in the former case. A retried error.\<close>

lemma err_wrapped [err_rules]:
  "keeps_on_err R m \<Longrightarrow> keeps_on_err R (attempt m (wrap_err fmt as) (\<lambda>v. ret (Inr v)))"
  by (auto simp: keeps_on_err_def wrap_err_def split: prod.splits sum.splits)

section \<open>A heal that fails keeps the bookkeeping\<close>

definition same_heals :: "'x sys \<Rightarrow> 'x sys \<Rightarrow> bool" where
  "same_heals s s' = (heals s' = heals s)"

interpretation same_heals: frame same_heals
  by unfold_locales (auto simp: same_heals_def)

lemma pres_same_heals:
  "pres isolated m \<Longrightarrow> pres same_heals m" "pres settled m \<Longrightarrow> pres same_heals m" "pres edge_only m \<Longrightarrow> pres same_heals m"
  by (auto elim!: pres_mono simp: same_heals_def isolated_def settled_def kept_routing_def edge_only_def kept_core_def)

lemma pres_same_heals_store:
  "pres same_heals (RecordDeployment env d)" "pres same_heals (SetStatus env i st)"
  "pres same_heals (UpdateReplicas env i rs c)"
proof -
  have w: "pres same_heals m" if "writes f m" for f and m :: "('a sys, 'b res) state"
  proof (rule presI)
    fix s r s'
    assume "run_state m s = (r, s')"
    from writesD [OF that this] show "same_heals s s'" by (simp add: same_heals_def calm_def aside_def kept_def)
  qed
  show "pres same_heals (RecordDeployment env d)" "pres same_heals (SetStatus env i st)"
    "pres same_heals (UpdateReplicas env i rs c)"
    by (rule w, rule writes_store)+
qed

lemma pres_same_heals_flip:
  "pres same_heals (SetRoute env r)" "pres same_heals (RemoveRoute env d)" "pres same_heals (retire_previous env name)"
proof -
  show "pres same_heals (SetRoute env r)" "pres same_heals (RemoveRoute env d)"
    by (intro pres_same_heals(3) pres_mutators)+
  show "pres same_heals (retire_previous env name)"
    by (rule presI) (auto dest!: retire_previous_ok simp: same_heals_def settled_def kept_routing_def)
qed

lemma pres_start_all: "pres isolated (start_all env a img vars net i cnt k ts cs reps)"
  by (induction ts arbitrary: k cs reps) (auto intro!: pres_rules)

lemma deploy_err_heals: "keeps_on_err same_heals (deployReplicaSet env m a img vars net content spec sch)"
proof -
  have after: "keeps_on_err same_heals (after_flip env a img content spec sch h reps)" for h reps
    unfolding after_flip_def
    by (intro err_then_ok same_heals.err_bind same_heals.err_attempt pres_same_heals_flip pres_same_heals_store
          pres_keeps_on_err [where m = "wrap_err f as e" for f as e] pres_same_heals(1) pres_rules)
  have fail: "keeps_on_err same_heals (do { recordFailedReplicaSet env h ts cs a img spec content; wrap_err fmt as e })"
    "keeps_on_err same_heals (do { recordFailedReplicaSet env h ts cs a img spec content; fail_with e })"
    for h ts cs fmt as and e :: goerr
    by (intro pres_keeps_on_err pres_same_heals(1) pres_rules)+
  have live: "keeps_on_err same_heals (go_live env a img content spec sch h ts cs reps)" for h ts cs reps
    unfolding go_live_alt
    by (intro same_heals.err_attempt after fail pres_same_heals_flip) (intro pres_same_heals(1) pres_rules)+
  show ?thesis
    unfolding deployReplicaSet_def Let_def
    by (intro same_heals.err_attempt same_heals.err_bind err_case_prod err_case_option live fail
          pres_same_heals(1) pres_start_all pres_rules pres_keeps_on_err [where m = "fail_with e" for e]
          pres_keeps_on_err [where m = "wrap_err f as e" for f as e])
qed

lemma surface_err_heals: "keeps_on_err same_heals (healSurfaceLocked env cur)"
proof -
  have e: "keeps_on_err same_heals (fail_with e)" "keeps_on_err same_heals (wrap_err fmt as e)"
    "keeps_on_err same_heals (failing env a img spec content fmt as e)" for e fmt as a img spec content
    by (intro pres_keeps_on_err pres_same_heals(1) pres_rules)+
  have image: "keeps_on_err same_heals (applyImageProvenance env a ov)" for a ov
    unfolding applyImageProvenance_def Let_def
    by (intro same_heals.err_attempt err_case_prod deploy_err_heals e) (intro pres_same_heals(1) pres_rules)+
  have git: "keeps_on_err same_heals (rollbackGitLocked env a sch)" for a sch
    unfolding rollbackGitLocked_def Let_def
    by (intro same_heals.err_attempt err_case_prod err_case_option err_if deploy_err_heals e)
       (intro pres_same_heals(1) pres_rules)+
  show ?thesis
    unfolding healSurfaceLocked_def by (intro err_case_sum err_case_option err_if e image git)
qed

lemma heal_fails_quietly:
  "keeps_on_err same_heals (healDeadReplicasLocked env cur dead)"
proof -
  have e: "keeps_on_err same_heals (fail_with e)" "keeps_on_err same_heals (wrap_err fmt as e)" for e fmt as
    by (intro pres_keeps_on_err pres_same_heals(1) pres_rules)+
  have s: "pres steady m \<Longrightarrow> pres same_heals m" "pres aside m \<Longrightarrow> pres same_heals m" for m :: "('a sys, 'b) state"
    by (auto elim!: pres_mono simp: same_heals_def steady_def kept_routing_def aside_def kept_def)
  have failed: "keeps_on_err same_heals (heal_failed env h created e)" for h created e
    by (intro pres_keeps_on_err s(1) pres_heal_failed)
  have live: "keeps_on_err same_heals (heal_live env cur a h created reps fresh)" for a h created reps fresh
    unfolding heal_live_def
    by (intro same_heals.err_attempt same_heals.err_bind failed e err_rules pres_same_heals_flip pres_same_heals_store
        s(1) [OF pres_staging_steady(1)] s(1) [OF pres_staging_steady(3)]
        s(2) [OF pres_calm_aside [OF pres_check_recreated]])
  show ?thesis
    unfolding healDeadReplicasLocked_def
    by (intro err_if err_case_sum same_heals.err_attempt same_heals.err_bind err_case_prod err_case_option failed live e err_rules
        s(2) pres_recreate_all) (intro pres_calm_aside pres_rules)+
qed

section \<open>The backoff as an abstract machine\<close>

definition fresh_heal :: heal_state where
  "fresh_heal = \<lparr>hl_attempts = 0, hl_next = zero_time\<rparr>"

text \<open>Where an app stands; an app without an entry is as good as one with a fresh one.\<close>

definition phase :: "string \<Rightarrow> 'x sys \<Rightarrow> heal_state" where
  "phase app s = (case map_of (heals s) app of None \<Rightarrow> fresh_heal | Some h \<Rightarrow> h)"

text \<open>What is reported without trying, if anything.\<close>

definition heal_verdict :: "int \<Rightarrow> int \<Rightarrow> heal_state \<Rightarrow> surface_state option" where
  "heal_verdict mx t h =
     (if hl_attempts h \<ge> mx then Some SurfaceFailed else if t < hl_next h then Some SurfaceDegraded else None)"

definition backed_off :: "int \<Rightarrow> heal_state \<Rightarrow> heal_state" where
  "backed_off t h =
     \<lparr>hl_attempts = hl_attempts h + 1, hl_next = t + min 300000000000 (15000000000 * 2 ^ nat (max 1 (hl_attempts h + 1) - 1))\<rparr>"

text \<open>Nothing moved but the clock, the outside and heal entries.\<close>

definition idle :: "'x sys \<Rightarrow> 'x sys \<Rightarrow> bool" where
  "idle s s' = (calm s (s'\<lparr>heals := heals s\<rparr>) \<and> only_config s s')"

definition heal_outcome ::
  "'x env \<Rightarrow> string \<Rightarrow> deployment \<Rightarrow> 'x sys \<Rightarrow> app_health option \<Rightarrow> 'x sys \<Rightarrow> bool"
where
  "heal_outcome env app cur s r s' = (case r of
     None \<Rightarrow> idle s s' \<and> phase app s' = phase app s \<and>
       (case current_of app (sdb s) of None \<Rightarrow> True | Some f \<Rightarrow> d_id f \<noteq> d_id cur)
   | Some h \<Rightarrow> clock s \<le> ah_updated h \<and>
       ((ah_state h = SurfaceDegraded \<and> ah_attempts h = 0 \<and> idle s s' \<and> phase app s' = phase app s) \<or>
        (\<exists>f. current_of app (sdb s) = Some f \<and> d_id f = d_id cur \<and> ah_attempts h = hl_attempts (phase app s') \<and>
          (case heal_verdict (heal_max env) (ah_updated h) (phase app s) of
             Some st \<Rightarrow> ah_state h = st \<and> phase app s' = phase app s \<and> idle s s'
           | None \<Rightarrow> (ah_state h = SurfaceHealthy \<and> phase app s' = fresh_heal) \<or>
               (ah_state h = SurfaceFailed \<and> phase app s' = backed_off (ah_updated h) (phase app s))))))"

lemma heal_entry_run:
  "run_state (heal_entry app) s = (h, s1) \<Longrightarrow>
     h = phase app s \<and> map_of (heals s1) app = Some (phase app s) \<and> s1\<lparr>heals := heals s\<rparr> = s"
  by (auto simp: heal_entry_def phase_def fresh_heal_def Let_def update_conv' split: option.splits)

text \<open>What is known when an attempt is considered: the row is current, and its entry is there.\<close>

lemma tryHealWith_elim:
  assumes run: "run_state (tryHealWith env app cur healFn) s = (r, s')"
  obtains (unread) e t where "r = Some (app_report app SurfaceDegraded (Some e) 0 t)" "clock s \<le> t" "idle s s'" "heals s' = heals s"
  | (gone) "r = None" "idle s s'" "heals s' = heals s"
      "case current_of app (sdb s) of None \<Rightarrow> True | Some f \<Rightarrow> d_id f \<noteq> d_id cur"
  | (current) f s1 s2 where "current_of app (sdb s) = Some f" "d_id f = d_id cur"
      "run_state (CurrentDeployment env app) s = (Inr (Some f), s1)" "run_state (heal_entry app) s1 = (phase app s, s2)"
      "map_of (heals s2) app = Some (phase app s)" "phase app s2 = phase app s" "idle s s2" "clock s \<le> clock s2"
proof -
  obtain rf s1 where s1: "run_state (CurrentDeployment env app) s = (rf, s1)" by fastforce
  have c1: "calm s s1" "only_config s s1" by (rule presD [OF _ s1], intro pres_rules)+
  have i1: "idle s s1" using c1 by (simp add: idle_def calm_def aside_def kept_def later_def)
  have p1: "heals s1 = heals s" "clock s \<le> clock s1" using c1(1) by (simp_all add: calm_def aside_def kept_def later_def)
  show thesis
  proof (cases rf)
    case (Inl e)
    show thesis by (rule unread [OF _ p1(2)]) (use run s1 Inl i1 p1 in \<open>auto simp: tryHealWith_def now_def\<close>)
  next
    case (Inr fresh)
    have cur: "current_of app (sdb s) = fresh" using CurrentDeployment_result s1 Inr by (fastforce simp: current_of_def)
    show thesis
    proof (cases "\<exists>f. fresh = Some f \<and> d_id f = d_id cur")
      case False
      then show thesis using run s1 Inr i1 p1 cur by (intro gone) (auto simp: tryHealWith_def split: option.splits)
    next
      case True
      then obtain f where f: "fresh = Some f" "d_id f = d_id cur" by blast
      obtain h s2 where s2: "run_state (heal_entry app) s1 = (h, s2)" by fastforce
      have h: "h = phase app s" "map_of (heals s2) app = Some (phase app s)" and s2eq: "s2\<lparr>heals := heals s1\<rparr> = s1"
        using heal_entry_run [OF s2] p1(1) by (simp_all add: phase_def)
      have ts: "trace s2 = trace s1" "clock s2 = clock s1"
        using arg_cong [OF s2eq, of trace] arg_cong [OF s2eq, of clock] by simp_all
      have "s2\<lparr>heals := heals s\<rparr> = s1\<lparr>heals := heals s\<rparr>" using arg_cong [OF s2eq, of "heals_update (\<lambda>_. heals s)"] by simp
      then have "idle s s2" using i1 ts by (simp add: idle_def only_config_def)
      moreover have "phase app s2 = phase app s" using h(2) by (simp add: phase_def)
      ultimately show thesis using cur f s1 Inr s2 h ts p1(2) by (intro current [of f s1 s2]) simp_all
    qed
  qed
qed

locale healer =
  fixes env :: "'x env" and app :: string and healFn :: "deployment \<Rightarrow> ('x sys, deployment res) state"
  assumes fails_keep: "keeps_on_err same_heals (healFn f)"
begin

lemma attempt_made:
  assumes run: "run_state (tryHealWith env app cur healFn) s = (r, s')"
    and cur: "run_state (CurrentDeployment env app) s = (Inr (Some f), s1)" "d_id f = d_id cur"
    and entry: "run_state (heal_entry app) s1 = (h, s2)" "map_of (heals s2) app = Some h"
    and due: "hl_attempts h < heal_max env" "hl_next h \<le> clock s2"
  shows "\<exists>st e n. r = Some (app_report app st e n (clock s2)) \<and> n = hl_attempts (phase app s') \<and>
    (st = SurfaceHealthy \<and> phase app s' = fresh_heal \<or> st = SurfaceFailed \<and> phase app s' = backed_off (clock s2) h)"
proof -
  let ?n = "hl_attempts h + 1"
  let ?s3 = "s2\<lparr>heals := AList.map_entry app (\<lambda>h. h\<lparr>hl_attempts := ?n\<rparr>) (heals s2)\<rparr>"
  obtain r4 s4 where s4: "run_state (healFn f) ?s3 = (r4, s4)" by fastforce
  show ?thesis
  proof (cases r4)
    case (Inl e)
    have k: "heals s4 = heals ?s3" using keeps_on_errD [OF fails_keep s4 [unfolded Inl]] by (simp add: same_heals_def)
    have "r = Some (app_report app SurfaceFailed (Some e) ?n (clock s2))"
      "heals s' = AList.map_entry app (\<lambda>h. h\<lparr>hl_next := clock s2 + sint (healBackoff ?n)\<rparr>) (heals s4)"
      using run cur entry(1) s4 due Inl by (auto simp: tryHealWith_def now_def set_heal_def Let_def)
    then show ?thesis using k entry(2)
      by (simp add: app_report_def phase_def backed_off_def map_of_map_entry healBackoff_closed)
  next
    case (Inr d)
    then have "r = Some (app_report app SurfaceHealthy None 0 (clock s2))" "heals s' = AList.delete app (heals s4)"
      using run cur entry(1) s4 due by (auto simp: tryHealWith_def now_def set_heal_def resetHeal_def Let_def)
    then show ?thesis by (simp add: app_report_def phase_def fresh_heal_def delete_conv')
  qed
qed

lemma outcome: "wp (tryHealWith env app cur healFn) (heal_outcome env app cur s) s"
  unfolding wp_iff
proof (intro allI impI)
  fix r s'
  assume run: "run_state (tryHealWith env app cur healFn) s = (r, s')"
  then show "heal_outcome env app cur s r s'"
  proof (cases rule: tryHealWith_elim)
    case (unread e t)
    then show ?thesis by (simp add: heal_outcome_def app_report_def phase_def)
  next
    case gone
    then show ?thesis by (simp add: heal_outcome_def phase_def)
  next
    case (current f s1 s2)
    show ?thesis
    proof (cases "heal_verdict (heal_max env) (clock s2) (phase app s)")
      case (Some st)
      then have "s' = s2 \<and> (\<exists>e. r = Some (app_report app st e (hl_attempts (phase app s)) (clock s2)))"
        using run current by (auto simp: tryHealWith_def now_def heal_verdict_def split: if_splits)
      then show ?thesis using Some current by (auto simp: heal_outcome_def app_report_def)
    next
      case None
      then have "hl_attempts (phase app s) < heal_max env" "hl_next (phase app s) \<le> clock s2"
        by (auto simp: heal_verdict_def split: if_splits)
      from attempt_made [OF run current(3,2,4,5) this] show ?thesis
        using None current by (auto simp: heal_outcome_def app_report_def fresh_heal_def)
    qed
  qed
qed

end

interpretation surface_healer: healer env app "healSurfaceLocked env" for env app
  by unfold_locales (rule surface_err_heals)

interpretation replica_healer: healer env app "\<lambda>f. healDeadReplicasLocked env f dead" for env app dead
  by unfold_locales (rule heal_fails_quietly)

text \<open>
  C13: self-healing refines the backoff machine, whatever row it was called with. An app whose
  row has been superseded is skipped; one out of attempts is reported failed, and one whose backoff
  runs is reported degraded, with nothing touched; otherwise the heal is tried, and either it
  succeeds and the entry is reset, or the attempts count goes up by one and the next try is due after
  fifteen seconds doubled per attempt, at most five minutes.
\<close>

theorem tryHeal_refines_backoff:
  "wp (tryHeal env app cur) (heal_outcome env app cur s) s \<and>
   wp (tryHealReplicas env app cur dead) (heal_outcome env app cur s) s"
  unfolding tryHeal_def tryHealReplicas_def
  by (intro conjI surface_healer.outcome replica_healer.outcome)

section \<open>Which replicas are taken for dead\<close>

text \<open>
  The replica's node answered (where reachability is known at all), resolved, and its container was
  gone or not running there, between \<open>s\<close> and \<open>s'\<close>.
\<close>

definition found_dead :: "'x env \<Rightarrow> replica \<Rightarrow> 'x sys \<Rightarrow> 'x sys \<Rightarrow> bool" where
  "found_dead env rep s s' = (\<exists>t u v w m st. later s t \<and> later w s' \<and>
     run_state (known_unreachable env (or_local (x_node rep))) t = (False, u) \<and>
     run_state (ResolveMeta env (or_local (x_node rep))) u = (Inr m, v) \<and>
     run_state (container_state env (rm_node m) (x_container rep)) v = (st, w) \<and> surfaceIsDead st)"

lemma found_dead_mono: "found_dead env rep s s' \<Longrightarrow> later t s \<Longrightarrow> later s' t' \<Longrightarrow> found_dead env rep t t'"
  unfolding found_dead_def by (meson later.trans)

lemma pres_observe [pres_rules]: "pres aside (observe env rep)" "pres only_config (observe env rep)"
  unfolding observe_def container_state_def Let_def by (intro pres_rules pres_known_unreachable [THEN pres_calm_aside])+

lemma pres_observe_all [pres_rules]: "pres aside (observe_all env i reps)" "pres only_config (observe_all env i reps)"
  by (induction reps arbitrary: i) (auto intro!: pres_rules)

lemma observe_dead:
  assumes "run_state (observe env rep) s = (Dead, s')"
  shows "found_dead env rep s s'"
proof -
  obtain lost u where u: "run_state (known_unreachable env (or_local (x_node rep))) s = (lost, u)" by fastforce
  obtain rm v where v: "run_state (ResolveMeta env (or_local (x_node rep))) u = (rm, v)" by fastforce
  show ?thesis
    using assms u v later.refl [of s] later.refl [of s']
    by (cases rm) (auto simp: observe_def Let_def found_dead_def split: if_splits prod.splits)
qed

lemma observe_all_dead:
  "run_state (observe_all env i reps) s = ((dead, lost), s') \<Longrightarrow>
     sorted_wrt (<) dead \<and> list_all (\<lambda>k. i \<le> k \<and> k < i + length reps \<and> found_dead env (reps ! (k - i)) s s') dead"
proof (induction reps arbitrary: i s dead lost)
  case (Cons rep reps)
  obtain ob s1 where o1: "run_state (observe env rep) s = (ob, s1)" by fastforce
  obtain dead1 lost1 where o2: "run_state (observe_all env (i + 1) reps) s1 = ((dead1, lost1), s')"
    and d: "dead = (if ob = Dead then i # dead1 else dead1)"
    using Cons.prems o1 by (auto split: prod.splits observation.splits)
  have l: "later s s1" "later s1 s'"
    using aside_later presD [OF pres_observe(1) o1] presD [OF pres_observe_all(1) o2] by blast+
  note ih = Cons.IH [OF o2]
  have "list_all (\<lambda>k. i + 1 \<le> k \<and> k < i + length (rep # reps) \<and> found_dead env ((rep # reps) ! (k - i)) s s') dead1"
    by (rule list.pred_mono_strong [OF conjunct2 [OF ih]])
       (auto simp: nth_Cons' intro: found_dead_mono [OF _ l(1) later.refl])
  moreover have "found_dead env rep s s'" if "ob = Dead"
    using found_dead_mono [OF observe_dead [OF o1 [unfolded that]] later.refl l(2)] .
  ultimately show ?case using ih d by (auto simp: list_all_iff Suc_le_eq)
qed simp

section \<open>A pass over one app\<close>

text \<open>What a heal under backoff did: nothing, or one run of the heal function.\<close>

lemma tryHealWith_run:
  assumes run: "run_state (tryHealWith env app cur healFn) s = (r, s')"
  shows "idle s s' \<or> (\<exists>f t x u. current_of app (sdb s) = Some f \<and> d_id f = d_id cur \<and> idle s t \<and>
     run_state (healFn f) t = (x, u) \<and> s'\<lparr>heals := heals u\<rparr> = u)"
proof -
  obtain rf s1 where s1: "run_state (CurrentDeployment env app) s = (rf, s1)" by fastforce
  have "calm s s1" "only_config s s1" by (rule presD [OF _ s1], intro pres_rules)+
  then have i1: "idle s s1" by (simp add: idle_def calm_def aside_def kept_def later_def)
  show ?thesis
  proof (cases "\<exists>f. rf = Inr (Some f) \<and> d_id f = d_id cur")
    case False
    then have "s' = s1" using run s1 by (auto simp: tryHealWith_def now_def split: sum.splits option.splits)
    then show ?thesis using i1 by simp
  next
    case True
    then obtain f where f: "rf = Inr (Some f)" "d_id f = d_id cur" by blast
    have cur: "current_of app (sdb s) = Some f" using CurrentDeployment_result s1 f(1) by (fastforce simp: current_of_def)
    obtain h s2 where s2: "run_state (heal_entry app) s1 = (h, s2)" by fastforce
    have s2eq: "s2\<lparr>heals := heals s1\<rparr> = s1" using heal_entry_run [OF s2] by blast
    have idle': "idle s (s2\<lparr>heals := v\<rparr>)" for v
    proof -
      have "s2\<lparr>heals := heals s\<rparr> = s1\<lparr>heals := heals s\<rparr>" using arg_cong [OF s2eq, of "heals_update (\<lambda>_. heals s)"] by simp
      moreover have "trace s2 = trace s1" using arg_cong [OF s2eq, of trace] by simp
      ultimately show ?thesis using i1 by (simp add: idle_def only_config_def)
    qed
    show ?thesis
    proof (cases "heal_verdict (heal_max env) (clock s2) h")
      case (Some st)
      then have "s' = s2" using run s1 f s2 by (auto simp: tryHealWith_def now_def heal_verdict_def split: if_splits)
      then show ?thesis using idle' [of "heals s2"] by simp
    next
      case None
      let ?t = "s2\<lparr>heals := AList.map_entry app (\<lambda>h'. h'\<lparr>hl_attempts := hl_attempts h + 1\<rparr>) (heals s2)\<rparr>"
      obtain x u where u: "run_state (healFn f) ?t = (x, u)" by fastforce
      have "s'\<lparr>heals := heals u\<rparr> = u"
        using run s1 f s2 u None
        by (cases x) (auto simp: tryHealWith_def now_def heal_verdict_def set_heal_def resetHeal_def Let_def split: if_splits)
      then show ?thesis using cur f idle' u by blast
    qed
  qed
qed

text \<open>Nothing but heal entries, the resolver's cache, the clock and the outside moved.\<close>

definition quiet_pass :: "'x sys \<Rightarrow> 'x sys \<Rightarrow> bool" where
  "quiet_pass s s' = (aside s (s'\<lparr>heals := heals s\<rparr>) \<and> only_config s s')"

interpretation quiet_pass: frame quiet_pass
  by unfold_locales
    (auto simp: quiet_pass_def aside_def kept_def later_def only_config.refl
      intro: only_config.trans prefix_order.trans)

lemma aside_quiet_pass: "aside s s' \<Longrightarrow> only_config s s' \<Longrightarrow> quiet_pass s s'"
  by (simp add: quiet_pass_def aside_def kept_def later_def)

lemma idle_quiet_pass: "idle s s' \<Longrightarrow> quiet_pass s s'"
  by (simp add: idle_def quiet_pass_def calm_def)

lemma quiet_pass_later: "quiet_pass s s' \<Longrightarrow> later s s' \<and> sdb s' = sdb s"
  by (simp add: quiet_pass_def aside_def later_def kept_def)

lemma pres_quiet_pass:
  "pres aside m \<Longrightarrow> pres only_config m \<Longrightarrow> pres quiet_pass m"
  by (simp add: pres_def aside_quiet_pass)

lemma pres_quiet_pass_heals: "pres quiet_pass (healthy app t)" "pres quiet_pass (degraded app e t)"
  by (rule presI, auto simp: healthy_def clearHealAttempts_def degraded_def healAttempts_def quiet_pass_def
      aside_def later_def kept_def only_config_def)+

lemma healDead_later: "pres later (healDeadReplicasLocked env cur dead)"
proof -
  have aside: "pres later m" if "pres aside m" for m :: "('a sys, 'b) state"
    by (rule pres_aside_later [OF that])
  have failed: "pres later (heal_failed env h created e)" for h created e
    by (rule pres_mono [OF pres_heal_failed]) (rule steady_later)
  have live: "pres later (heal_live env cur a h created reps fresh)" for a h created reps fresh
    by (rule presI) (use heal_live_ok in blast)
  have secrets: "pres later (Resolve_secrets env n ks)" "pres later (NextDeployID env)" for n ks
    by (intro aside pres_calm_aside pres_rules)+
  show ?thesis
    unfolding healDeadReplicasLocked_def
    by (intro pres_rules later.pres_bind later.pres_case_prod failed live secrets aside [OF pres_recreate_all])
qed

definition heals_only_dead :: "'x env \<Rightarrow> deployment \<Rightarrow> 'x sys \<Rightarrow> 'x sys \<Rightarrow> bool" where
  "heals_only_dead env d s s' = (d_container d \<noteq> [] \<and> \<not> isComposeApp (d_spec d) \<and> (\<exists>t. quiet_pass s t \<and>
     (if d_replicas d = [] then found_dead env (hd (old_replicas d)) s t
      else \<exists>dead. dead \<noteq> [] \<and> list_all (\<lambda>k. k < length (d_replicas d) \<and> found_dead env (d_replicas d ! k) s t) dead \<and>
        spares (dead_ids (d_replicas d) dead) (new_events s s'))))"

lemma spares_config:
  assumes "only_config s t" "later s t" "later t u" "spares R (new_events t u)"
  shows "spares R (new_events s u)"
proof -
  have e: "new_events s u = new_events s t @ new_events t u" using new_events_trans assms(2,3) by blast
  have config: "\<not> beyond_config x" if "x \<in> set (new_events s t)" for x
    using assms(1) that by (auto simp: only_config_adds adds_events list_all_iff)
  have "case x of EvRemove n cid \<Rightarrow> cid \<in> R \<or> started (new_events s u) n cid | _ \<Rightarrow> True" if "x \<in> set (new_events s u)" for x
  proof (cases "x \<in> set (new_events s t)")
    case True
    then show ?thesis using config [OF True] by (simp add: beyond_config_def split: event.splits)
  next
    case False
    then have "case x of EvRemove n cid \<Rightarrow> cid \<in> R \<or> started (new_events t u) n cid | _ \<Rightarrow> True"
      using that e assms(4) by (simp add: spares_def list_all_iff)
    then show ?thesis using started_mono [of "new_events t u" _ _ "new_events s u"] e by (auto split: event.splits)
  qed
  then show ?thesis by (simp add: spares_def list_all_iff)
qed

lemma reconcile_set_ok:
  assumes run: "run_state (reconcileReplicaSet env app d t0) s = (r, s')"
    and q0: "quiet_pass s0 s" and cur: "current_of app (sdb s) = Some d"
    and d: "d_container d \<noteq> []" "\<not> isComposeApp (d_spec d)" "d_replicas d \<noteq> []"
  shows "quiet_pass s0 s' \<or> heals_only_dead env d s0 s'"
proof -
  obtain dead lost s1 where o1: "run_state (observe_all env 0 (d_replicas d)) s = ((dead, lost), s1)" by (metis surj_pair)
  have q1: "quiet_pass s0 s1" by (rule quiet_pass.trans [OF q0 presD [OF pres_quiet_pass [OF pres_observe_all] o1]])
  show ?thesis
  proof (cases "dead = []")
    case True
    have "pres quiet_pass (if lost \<noteq> [] then degraded app e t0 else healthy app t0)" for e
      by (intro quiet_pass.pres_if pres_quiet_pass_heals)
    then have "quiet_pass s1 s'"
      using run o1 True by (auto simp: reconcileReplicaSet_def dest: presD)
    then show ?thesis using quiet_pass.trans [OF q1] by blast
  next
    case False
    then have heal: "run_state (tryHealWith env app d (\<lambda>f. healDeadReplicasLocked env f dead)) s1 = (r, s')"
      using run o1 by (simp add: reconcileReplicaSet_def tryHealReplicas_def)
    have dead: "sorted_wrt (<) dead" "list_all (\<lambda>k. k < length (d_replicas d) \<and> found_dead env (d_replicas d ! k) s0 s1) dead"
      using observe_all_dead [OF o1] found_dead_mono [OF _ conjunct1 [OF quiet_pass_later [OF q0]] later.refl]
      by (auto simp: list_all_iff)
    consider (idle) "idle s1 s'"
      | (ran) f t x u where "current_of app (sdb s1) = Some f" "idle s1 t"
        "run_state (healDeadReplicasLocked env f dead) t = (x, u)" "s'\<lparr>heals := heals u\<rparr> = u"
      using tryHealWith_run [OF heal] by blast
    then show ?thesis
    proof cases
      case idle
      then show ?thesis using quiet_pass.trans [OF q1 idle_quiet_pass] by blast
    next
      case ran
      have f: "f = d" using ran(1) cur quiet_pass_later [OF q1] quiet_pass_later [OF q0] by simp
      have qt: "quiet_pass s0 t" by (rule quiet_pass.trans [OF q1 idle_quiet_pass [OF ran(2)]])
      have "distinct dead" using dead(1) by (simp add: strict_sorted_iff)
      then have "spares (dead_ids (d_replicas d) dead) (new_events t u)"
        using wp_run [OF heal_targeted ran(3)] f by simp
      then have "spares (dead_ids (d_replicas d) dead) (new_events s0 u)"
        using spares_config [OF _ _ presD [OF healDead_later ran(3)]] qt quiet_pass_later [OF qt]
        by (auto simp: quiet_pass_def)
      moreover have "trace s' = trace u" using arg_cong [OF ran(4), of trace] by simp
      ultimately show ?thesis
        using d dead(2) False q1 unfolding heals_only_dead_def new_events_def by auto
    qed
  qed
qed

lemma reconcile_legacy_ok:
  assumes run: "run_state (reconcileLegacySurface env app d t0) s = (r, s')"
    and q0: "quiet_pass s0 s" and d: "d_container d \<noteq> []" "\<not> isComposeApp (d_spec d)" "d_replicas d = []"
  shows "quiet_pass s0 s' \<or> heals_only_dead env d s0 s'"
proof -
  let ?rep = "hd (old_replicas d)" and ?n = "or_local (nodeFromSpec (d_spec d))"
  have rep: "x_node ?rep = nodeFromSpec (d_spec d)" "x_container ?rep = d_container d"
    using d by (simp_all add: old_replicas_def)
  obtain lost u where u: "run_state (known_unreachable env ?n) s = (lost, u)" by fastforce
  obtain rm v where v: "run_state (ResolveMeta env ?n) u = (rm, v)" by fastforce
  have qu: "quiet_pass s0 u"
    by (rule quiet_pass.trans [OF q0 presD [OF pres_quiet_pass u]]) (intro pres_known_unreachable [THEN pres_calm_aside] pres_rules)+
  have qv: "quiet_pass s0 v"
    by (rule quiet_pass.trans [OF qu presD [OF pres_quiet_pass v]]) (intro pres_rules)+
  show ?thesis
  proof (cases "lost \<or> is_err rm")
    case True
    have "quiet_pass x s'" if "run_state (degraded app e t0) x = (r, s')" for x e
      by (rule presD [OF pres_quiet_pass_heals(2) that])
    with True have "quiet_pass u s' \<or> quiet_pass v s'"
      using run u v by (cases rm) (auto simp: reconcileLegacySurface_def Let_def split: if_splits)
    then show ?thesis using quiet_pass.trans [OF qu] quiet_pass.trans [OF qv] by blast
  next
    case False
    then obtain m where m: "rm = Inr m" by (cases rm) auto
    obtain st w where w: "run_state (container_state env (rm_node m) (d_container d)) v = (st, w)" by fastforce
    have qw: "quiet_pass s0 w"
      by (rule quiet_pass.trans [OF qv presD [OF pres_quiet_pass w]]; unfold container_state_def) (intro pres_rules)+
    show ?thesis
    proof (cases "surfaceIsDead st")
      case True
      have "found_dead env ?rep s0 w"
        unfolding found_dead_def using u v w m False True quiet_pass_later [OF q0] later.refl rep by (metis (full_types))
      then show ?thesis using d qw by (auto simp: heals_only_dead_def)
    next
      case alive: False
      then have "quiet_pass w s'"
        using run u v w m False presD [OF pres_quiet_pass_heals(1)] by (auto simp: reconcileLegacySurface_def Let_def)
      then show ?thesis using quiet_pass.trans [OF qw] by blast
    qed
  qed
qed


end
