(* ===== verification/Frames.thy ===== *)
theory Frames
  imports Healing
begin

text \<open>
  One contract for every operation of the daemon: a relation between states that the primitive
  operations keep to is kept to by all of them, from the placement of a replica to a whole pass of
  the reconciler. What a relation has to be checked on are the few operations that write the
  database, the route tables and the bookkeeping.
\<close>

section \<open>The contract\<close>

text \<open>Rows are recorded for the app of their own snapshot, as running or as failed.\<close>

definition own_spec :: "deployment \<Rightarrow> bool" where
  "own_spec d = (case d_spec d of SpecJSON a \<Rightarrow> a_name a = d_app d | _ \<Rightarrow> True)"

locale daemon_frame = frame R for R :: "'x sys \<Rightarrow> 'x sys \<Rightarrow> bool" +
  fixes env :: "'x env"
  assumes edge: "edge_quiet s s' \<Longrightarrow> R s s'"
    and resolve: "pres R (ResolveMeta env n)"
    and set_route: "pres R (SetRoute env rt)"
    and drop_route: "pres R (RemoveRoute env dn)"
    and set_staging: "pres R (SetStaging env h ups)"
    and drop_staging: "pres R (RemoveStaging env h)"
    and insert_row: "own_spec d \<Longrightarrow> pres R (RecordDeployment env d)"
    and retire: "pres R (SetStatus env i StatusRetired)"
    and replicas: "pres R (UpdateReplicas env i rs c)"
    and reset: "pres R (resetHeal app)"
    and nudge: "pres R (signalNudge env)"
begin

lemmas leaf_rules [pres_rules] =
  resolve set_route drop_route set_staging drop_staging insert_row retire replicas reset nudge

lemma pres_calm: "pres calm m \<Longrightarrow> pres R m"
  by (erule pres_mono) (rule edge [OF calm_edge_quiet])

lemma calm_leaves [pres_rules]:
  "pres R (call f)" "pres R (call_unit g)" "pres R (log_event ev)" "pres R (sleep env dt)" "pres R now"
  "pres R (wrap_err fmt as e)" "pres R (CurrentDeployment env a)" "pres R (PreviousDeployment env a)"
  "pres R (NextDeployID env)" "pres R (ListApps env)" "pres R (GetNode env n)" "pres R (ListNodes env)"
  "pres R (RunContainer env nd sp)" "pres R (RemoveContainer env nd c)" "pres R (Resolve_secrets env a ks)"
  "pres R (checkHealth env nd ap h c)" "pres R (checkHealthCompose env ap)" "pres R (known_unreachable env n)"
  "pres R (Reachable env n)" "pres R (compose_Up env p fl v)" "pres R (compose_Down env p fl v)"
  "pres R (git_Clone env u rf dir)" "pres R (build_Build env cd dk tag)" "pres R (capacityBounded env nd)"
  by (intro pres_calm pres_rules pres_compose_Down; unfold compose_Up_def git_Clone_def build_Build_def capacityBounded_def Reachable_def;
      intro pres_rules)+

lemma router_up [pres_rules]: "pres R (EnsureUp env)"
  by (rule pres_mono [OF pres_EnsureUp]) (rule edge)

lemma ignored [pres_rules]: "pres R m \<Longrightarrow> pres R (ignore m)"
  unfolding ignore_def by (intro pres_rules)

section \<open>Placement and deploy\<close>

lemma placement [pres_rules]:
  "pres R (Resolve env n)" "pres R (localNode env)"
  unfolding localNode_def Resolve_def by (intro pres_rules)+

lemma candidates [pres_rules]: "pres R (local_candidate env)" "pres R (remote_candidate env nd)"
  unfolding local_candidate_def remote_candidate_def Let_def by (intro pres_rules)+

lemma gathered [pres_rules]: "pres R (gather env pool ex ns)"
  by (induction ns) (auto intro!: pres_rules)

lemma placed [pres_rules]: "pres R (placeExcludingSet env a ex)"
  unfolding placeExcludingSet_def schedulableCandidates_def Let_def by (intro pres_rules)

lemma placed_more [pres_rules]:
  "pres R (spread_step env a ex)" "pres R (resolvePlacement env a)" "pres R (placeExcluding env a x)"
  unfolding spread_step_def resolvePlacement_def schedulableCandidates_def placeExcluding_def Let_def by (intro pres_rules)+

lemma image [pres_rules]: "pres R (ensureImageOnNode env nd ref)" "pres R (ensure_image env nd l ref)"
  unfolding ensure_image_def ensureImageOnNode_def Let_def by (intro pres_rules)+

lemma temp [pres_rules]: "(\<And>f. pres R (body f)) \<Longrightarrow> pres R (with_temp env what content body)"
  unfolding with_temp_def by (intro pres_rules)

lemma backing [pres_rules]: "pres R (ensureBacking env nd a vars dh)"
  unfolding ensureBacking_def Let_def by (intro pres_rules)

lemma targets [pres_rules]: "pres R (more_targets env a sch k ex ts)"
  by (induction k arbitrary: ex ts) (auto intro!: pres_rules)

lemma start [pres_rules]: "pres R (start_one env a img vars net i cnt k t)"
  unfolding start_one_def by (intro pres_rules)

lemma starts [pres_rules]: "pres R (start_all env a img vars net i cnt k ts cs reps)"
  by (induction ts arbitrary: k cs reps) (auto intro!: pres_rules)

lemma checks [pres_rules]: "pres R (check_all env a h ps)"
  by (induction ps) (auto intro!: pres_rules)

lemma removes [pres_rules]: "pres R (remove_started env ps)"
  by (induction ps) (auto intro!: pres_rules)

lemma removes_old [pres_rules]: "pres R (remove_old env olds)"
  by (induction olds) (simp_all only: remove_old.simps Let_def, (intro pres_rules; assumption?)+)

lemma failed [pres_rules]:
  "spec = SpecEmpty \<or> spec = SpecJSON a \<and> a_name a = name \<Longrightarrow> pres R (record_failed env name img cid spec content)"
  unfolding record_failed_def by (intro pres_rules) (auto simp: own_spec_def)

lemma failed_set [pres_rules]:
  "pres R (recordFailedReplicaSet env h ts cs a img (SpecJSON a) content)"
  unfolding recordFailedReplicaSet_def by (intro pres_rules) simp

lemma retired [pres_rules]: "pres R (retire_previous env name)"
  unfolding retire_previous_def by (intro pres_rules)

lemma live [pres_rules]: "pres R (go_live env a img content (SpecJSON a) sch h ts cs reps)"
  unfolding go_live_def Let_def by (intro pres_rules) (simp add: own_spec_def)

lemma deploy [pres_rules]: "pres R (deployReplicaSet env m a img vars net content (SpecJSON a) sch)"
  unfolding deployReplicaSet_def Let_def by (intro pres_rules)

section \<open>Apply, Rollback, Remove\<close>

lemma nudged [pres_rules]: "pres R m \<Longrightarrow> pres R (nudging env m)"
  unfolding nudging_def by (intro pres_rules)

lemma failing [pres_rules]:
  "spec = SpecEmpty \<or> spec = SpecJSON a \<Longrightarrow> pres R (failing env a img spec content fmt as e)"
  unfolding failing_def by (intro pres_rules) auto

lemma prepared [pres_rules]: "pres R (prepare env a img (SpecJSON a) pull)"
  unfolding prepare_def Let_def by (intro pres_rules) simp_all

lemma apply_image [pres_rules]: "pres R (applyImageProvenance env a ov)"
  unfolding applyImageProvenance_def Let_def by (intro pres_rules) simp_all

lemma apply_git [pres_rules]: "pres R (applyGit env a g)"
  unfolding applyGit_def clone_and_build_def Let_def by (intro pres_rules) simp_all

lemma rollback_git [pres_rules]: "pres R (rollbackGitLocked env a sch)"
  unfolding rollbackGitLocked_def Let_def by (intro pres_rules) simp_all

lemma compose_failed [pres_rules]:
  "pres R (recordComposeFailed env a cid (SpecJSON a) content fmt as e)"
  unfolding recordComposeFailed_def by (intro pres_rules) simp

lemma compose_goes_live [pres_rules]: "pres R (compose_live env a nd (SpecJSON a) content cid name)"
  unfolding compose_live_def retire_row_def Let_def by (intro pres_rules) (simp_all add: own_spec_def)

lemma apply_compose [pres_rules]: "pres R (applyCompose env a)"
  unfolding applyCompose_def Let_def by (intro pres_rules)

lemma apply_app [pres_rules]: "pres R (Apply env a)"
  unfolding Apply_def applyImage_def by (intro pres_rules)

lemma rollback [pres_rules]: "pres R (Rollback env name)"
  unfolding Rollback_def rollbackImage_def by (intro pres_rules)

lemma heal_surface [pres_rules]: "pres R (healSurfaceLocked env cur)"
  unfolding healSurfaceLocked_def by (intro pres_rules)

lemma listed [pres_rules]: "pres R (remove_listed env nd nn cs)"
  by (induction cs) (auto intro!: pres_rules)

lemma retire_one [pres_rules]: "pres R (retire_app env dn cur)"
  unfolding retire_app_def by (intro pres_rules)

lemma removed_on [pres_rules]: "pres R (remove_on env name content anchor nn)"
  unfolding remove_on_def downBacking_def by (intro pres_rules)

lemma removed_all [pres_rules]: "pres R (remove_on_all env name content anchor ns)"
  by (induction ns) (auto intro!: pres_rules)

lemma remove_app [pres_rules]: "pres R (Remove env name)"
  unfolding Remove_def removeCompose_def removeSingleService_def Let_def by (intro pres_rules)

section \<open>Heal and evacuation\<close>

lemma ready [pres_rules]: "pres R (ready_node env img n)"
  unfolding ready_node_def by (intro pres_rules)

lemma run_one [pres_rules]: "pres R (run_replica env a vars i cnt k t)"
  unfolding run_replica_def by (intro pres_rules)

lemma recreated [pres_rules]: "pres R (recreate env a n vars i reps k)"
  unfolding recreate_def Let_def by (intro pres_rules)

lemma recreated_all [pres_rules]: "pres R (recreate_all env a n vars i is reps created fresh)"
  by (induction "is" arbitrary: reps created fresh) (auto intro!: pres_rules)

lemma removed_recreated [pres_rules]: "pres R (remove_recreated env rcs)"
  by (induction rcs) (auto intro!: pres_rules)

lemma checked_recreated [pres_rules]: "pres R (check_recreated env a h rcs)"
  by (induction rcs) (auto intro!: pres_rules)

lemma heal_dead [pres_rules]: "pres R (healDeadReplicasLocked env cur dead)"
  unfolding healDeadReplicasLocked_def heal_live_def heal_failed_def by (intro pres_rules)

lemma evac_one [pres_rules]: "pres R (evacuate_one env a vars ex cur i)"
  unfolding evacuate_one_def evac_live_def evac_failed_def Let_def by (intro pres_rules)

lemma evac_each [pres_rules]: "pres R (evacuate_each env a vars ex cur is moved failed)"
  by (induction "is" arbitrary: cur moved failed) (auto intro!: pres_rules)

lemma rescheduled [pres_rules]: "pres R (rescheduleSurfaceLocked env cur ex)"
  unfolding rescheduleSurfaceLocked_def redeploy_on_def Let_def by (intro pres_rules)

lemma evac_app [pres_rules]: "pres R (evacuate_app env name app res)"
  unfolding evacuate_app_def evacuateReplicasLocked_def Let_def by (intro pres_rules)

lemma evac_apps [pres_rules]: "pres R (evacuate_apps env name apps res)"
  by (induction apps arbitrary: res) (auto intro!: pres_rules)

lemma evac_node [pres_rules]: "pres R (EvacuateNode env name)"
  unfolding EvacuateNode_def by (intro pres_rules)

end

section \<open>The loop\<close>

text \<open>What is besides asked of a relation that a pass of the reconciler is to keep to.\<close>

locale loop_frame = daemon_frame R env for R :: "'x sys \<Rightarrow> 'x sys \<Rightarrow> bool" and env :: "'x env" +
  assumes backoff: "(\<And>f. pres R (healFn f)) \<Longrightarrow> pres R (tryHealWith env app cur healFn)"
    and stop_timer: "pres R (clear_timer n)"
    and timer: "pres R (start_timer n t)"
    and publish: "pres R (setHealth h)"
begin

lemmas loop_rules [pres_rules] = stop_timer timer publish

lemma heal_loops [pres_rules]: "pres R (tryHeal env app cur)" "pres R (tryHealReplicas env app cur dead)"
  unfolding tryHeal_def tryHealReplicas_def by (intro backoff pres_rules)+

lemma clears [pres_rules]: "pres R (clearHealAttempts app)" "pres R (healAttempts app)"
  using reset [of app] unfolding clearHealAttempts_def resetHeal_def healAttempts_def by (auto intro: pres_rules)

lemma states [pres_rules]: "pres R (container_state env nd cid)" "pres R (Healthy env)"
  unfolding container_state_def Healthy_def by (intro pres_rules)+

lemma reports [pres_rules]: "pres R (degraded app e t)" "pres R (healthy app t)"
  unfolding degraded_def healthy_def by (intro pres_rules)+

lemma observed [pres_rules]: "pres R (observe env rep)"
  unfolding observe_def Let_def by (intro pres_rules)

lemma observed_all [pres_rules]: "pres R (observe_all env i reps)"
  by (induction reps arbitrary: i) (auto intro!: pres_rules)

lemma reconciled [pres_rules]:
  "pres R (reconcileLegacySurface env app cur t)" "pres R (reconcileReplicaSet env app cur t)"
  unfolding reconcileLegacySurface_def reconcileReplicaSet_def Let_def by (intro pres_rules)+

lemma reconciled_app [pres_rules]: "pres R (reconcileApp env app)"
  unfolding reconcileApp_def by (intro pres_rules)

lemma reconciled_apps [pres_rules]: "pres R (reconcile_apps env apps)"
  by (induction apps) (auto intro!: pres_rules)

lemma probed [pres_rules]: "pres R (probe_node env t n c)" "pres R (probeEdge env)"
  unfolding probe_node_def probeCapacity_def probeEdge_def by (intro pres_rules)+

lemma probed_all [pres_rules]: "pres R (probe_registered env t ns)"
  by (induction ns) (auto intro!: pres_rules)

lemma probed_nodes [pres_rules]: "pres R (probeNodes env)"
  unfolding probeNodes_def by (intro pres_rules)

lemma failed_over [pres_rules]: "pres R (failover_one env n)"
  unfolding failover_one_def by (intro pres_rules)

lemma failed_over_all [pres_rules]: "pres R (failover_all env ns)"
  by (induction ns) (auto intro!: pres_rules)

lemma failover [pres_rules]: "pres R (failoverLostNodes env)"
  unfolding failoverLostNodes_def by (intro pres_rules)

lemma pass [pres_rules]: "pres R (Reconcile env)"
  unfolding Reconcile_def by (intro pres_rules)

end

section \<open>Time and the log\<close>

lemma writes_later: "writes f m \<Longrightarrow> pres later m"
  by (rule presI) (auto dest!: writesD simp: calm_def aside_def later_def)

lemma edge_only_later: "pres edge_only m \<Longrightarrow> pres later m"
  by (erule pres_mono) (simp add: edge_only_def)

lemma modify_later: "(\<And>s. clock (f s) = clock s \<and> trace (f s) = trace s) \<Longrightarrow> pres later (modify f)"
  by (rule presI) (auto simp: later_def)

text \<open>Time never runs backwards and the log only grows, in every operation.\<close>

interpretation later: loop_frame later env for env
proof unfold_locales
  show "later s s'" if "edge_quiet s s'" for s s' :: "'x sys" using that by (simp add: edge_quiet_def edge_only_def)
  show "pres later (ResolveMeta env n)" for n by (rule pres_aside_later [OF pres_ResolveMeta])
  show "pres later (SetRoute env rt)" for rt by (rule edge_only_later) (rule pres_mutators)
  show "pres later (RemoveRoute env dn)" for dn by (rule edge_only_later) (rule pres_mutators)
  show "pres later (SetStaging env h ups)" for h ups by (rule edge_only_later) (rule pres_mutators)
  show "pres later (RemoveStaging env h)" for h by (rule edge_only_later) (rule pres_mutators)
  show "pres later (RecordDeployment env d)" for d by (rule writes_later [OF writes_store(1)])
  show "pres later (SetStatus env i StatusRetired)" for i by (rule writes_later [OF writes_store(2)])
  show "pres later (UpdateReplicas env i rs c)" for i rs c by (rule writes_later [OF writes_store(3)])
  show "pres later (resetHeal app)" for app unfolding resetHeal_def by (intro modify_later) simp
  show "pres later (signalNudge env)" unfolding signalNudge_def by (intro modify_later pres_rules) simp
  show "pres later (clear_timer n)" for n unfolding clear_timer_def by (intro modify_later) simp
  show "pres later (start_timer n t)" for n t unfolding start_timer_def by (intro modify_later) simp
  show "pres later (setHealth h)" for h unfolding setHealth_def by (intro modify_later) simp
  show "pres later (tryHealWith env app cur healFn)" if "\<And>f. pres later (healFn f)" for app cur healFn
  proof (rule presI)
    fix s r s'
    assume "run_state (tryHealWith env app cur healFn) s = (r, s')"
    from tryHealWith_run [OF this] show "later s s'"
    proof (elim disjE exE conjE)
      assume "idle s s'"
      then show ?thesis by (auto simp: idle_def calm_def aside_def later_def)
    next
      fix f t x u
      assume i: "idle s t" and h: "run_state (healFn f) t = (x, u)" and e: "s'\<lparr>heals := heals u\<rparr> = u"
      have "trace s' = trace u" "clock s' = clock u" using arg_cong [OF e, of trace] arg_cong [OF e, of clock] by simp_all
      moreover have "later t u" by (rule presD [OF that h])
      moreover have "later s t" using i by (auto simp: idle_def calm_def aside_def later_def)
      ultimately show ?thesis using later.trans [of s t u] by (simp add: later_def)
    qed
  qed
qed

end
