(* ===== verification/Failover.thy ===== *)
theory Failover
  imports Frames
begin

text \<open>
  When a lost node is evacuated: \<open>failoverLostNodes\<close> in \<open>src/internal/reconciler/reconcile.go\<close>.
\<close>

section \<open>Timers\<close>

definition same_timers :: "'x sys \<Rightarrow> 'x sys \<Rightarrow> bool" where
  "same_timers s s' = (unreachable_since s' = unreachable_since s)"

interpretation same_timers: frame same_timers
  by unfold_locales (auto simp: same_timers_def)

lemma edge_same_timers: "pres edge_only m \<Longrightarrow> pres same_timers m"
  by (erule pres_mono) (simp add: same_timers_def edge_only_def kept_core_def)

lemma writes_same_timers: "writes f m \<Longrightarrow> pres same_timers m"
  by (rule presI) (auto dest!: writesD simp: same_timers_def calm_def aside_def kept_def)

lemma modify_same_timers: "(\<And>s. unreachable_since (f s) = unreachable_since s) \<Longrightarrow> pres same_timers (modify f)"
  by (rule presI) (auto simp: same_timers_def)

interpretation same_timers: daemon_frame same_timers env for env
proof unfold_locales
  show "same_timers s s'" if "edge_quiet s s'" for s s' :: "'x sys"
    using that by (simp add: same_timers_def edge_quiet_def edge_only_def kept_core_def)
  show "pres same_timers (ResolveMeta env n)" for n
    by (rule pres_mono [OF pres_ResolveMeta]) (simp add: same_timers_def aside_def kept_def)
  show "pres same_timers (SetRoute env rt)" for rt by (rule edge_same_timers) (rule pres_mutators)
  show "pres same_timers (RemoveRoute env dn)" for dn by (rule edge_same_timers) (rule pres_mutators)
  show "pres same_timers (SetStaging env h ups)" for h ups by (rule edge_same_timers) (rule pres_mutators)
  show "pres same_timers (RemoveStaging env h)" for h by (rule edge_same_timers) (rule pres_mutators)
  show "pres same_timers (RecordDeployment env d)" for d by (rule writes_same_timers [OF writes_store(1)])
  show "pres same_timers (SetStatus env i StatusRetired)" for i by (rule writes_same_timers [OF writes_store(2)])
  show "pres same_timers (UpdateReplicas env i rs c)" for i rs c by (rule writes_same_timers [OF writes_store(3)])
  show "pres same_timers (resetHeal app)" for app unfolding resetHeal_def by (intro modify_same_timers) simp
  show "pres same_timers (signalNudge env)" unfolding signalNudge_def
    by (intro modify_same_timers same_timers.pres_if same_timers.pres_ret) simp
qed

text \<open>Nothing but the timers, the resolver's cache, the clock and the outside moved.\<close>

definition timers_only :: "'x sys \<Rightarrow> 'x sys \<Rightarrow> bool" where
  "timers_only s s' = (aside s (s'\<lparr>unreachable_since := unreachable_since s\<rparr>) \<and> only_config s s')"

interpretation timers_only: frame timers_only
  by unfold_locales
    (auto simp: timers_only_def aside_def kept_def later_def only_config.refl
      intro: only_config.trans prefix_order.trans)

lemma aside_timers_only: "aside s s' \<Longrightarrow> only_config s s' \<Longrightarrow> timers_only s s'"
  by (simp add: timers_only_def aside_def kept_def later_def)

lemma timers_only_later: "timers_only s s' \<Longrightarrow> later s s' \<and> sdb s' = sdb s"
  by (simp add: timers_only_def aside_def later_def kept_def)

section \<open>One node\<close>

text \<open>The node's timer had been running for the grace period by \<open>s'\<close>.\<close>

definition lost_long :: "'x env \<Rightarrow> string \<Rightarrow> 'x sys \<Rightarrow> 'x sys \<Rightarrow> bool" where
  "lost_long env name s s' = (name \<noteq> ''local'' \<and>
     (\<exists>since. map_of (unreachable_since s) name = Some since \<and> failover_grace env \<le> clock s' - since))"

lemma pres_Reachable_quiet: "pres timers_only (Reachable env n)" "pres same_timers (Reachable env n)"
proof -
  have "pres calm (Reachable env n)" unfolding Reachable_def by (intro pres_rules)
  then show "pres same_timers (Reachable env n)"
    by (rule pres_mono) (simp add: same_timers_def calm_def aside_def kept_def)
  from \<open>pres calm (Reachable env n)\<close> show "pres timers_only (Reachable env n)"
    using pres_only_config_resolver(2) [of env n] by (simp add: pres_def calm_aside aside_timers_only)
qed

lemma failover_one_ok:
  assumes run: "run_state (failover_one env n) s = (u, s')"
  shows "(\<forall>x. x = nd_name n \<or> map_of (unreachable_since s') x = map_of (unreachable_since s) x) \<and>
     (timers_only s s' \<or> lost_long env (nd_name n) s s')"
proof (cases "nd_name n = ''local''")
  case True
  then show ?thesis using run timers_only.refl by (auto simp: failover_one_def)
next
  case nl: False
  obtain tr ok s1 where r: "run_state (Reachable env (nd_name n)) s = ((tr, ok), s1)" by (metis surj_pair)
  have q: "timers_only s s1" "unreachable_since s1 = unreachable_since s"
    using presD [OF pres_Reachable_quiet(1) r] presD [OF pres_Reachable_quiet(2) r] by (simp_all add: same_timers_def)
  have set: "timers_only s (s1\<lparr>unreachable_since := v\<rparr>)" for v
    using q(1) by (simp add: timers_only_def only_config_def)
  consider (up) "ok" | (first) "\<not> ok" "map_of (unreachable_since s) (nd_name n) = None"
    | (soon) since where "\<not> ok" "map_of (unreachable_since s) (nd_name n) = Some since" "clock s1 - since < failover_grace env"
    | (lost) since where "\<not> ok" "map_of (unreachable_since s) (nd_name n) = Some since" "\<not> clock s1 - since < failover_grace env"
    by (metis option.exhaust)
  then show ?thesis
  proof cases
    case up
    then have "s' = s1\<lparr>unreachable_since := AList.delete (nd_name n) (unreachable_since s1)\<rparr>"
      using run r nl by (auto simp: failover_one_def clear_timer_def)
    then show ?thesis using set q(2) by (auto simp: delete_conv')
  next
    case first
    then have "s' = s1\<lparr>unreachable_since := AList.update (nd_name n) (clock s1) (unreachable_since s1)\<rparr>"
      using run r nl q(2) by (auto simp: failover_one_def start_timer_def now_def)
    then show ?thesis using set q(2) by (auto simp: update_conv')
  next
    case soon
    then have "s' = s1" using run r nl q(2) by (auto simp: failover_one_def now_def)
    then show ?thesis using q by auto
  next
    case lost
    obtain x s2 where e: "run_state (EvacuateNode env (nd_name n)) s1 = (x, s2)" by fastforce
    have s': "s' = s2\<lparr>unreachable_since := AList.delete (nd_name n) (unreachable_since s2)\<rparr>"
      using run r nl q(2) lost e by (auto simp: failover_one_def now_def clear_timer_def ignore_def)
    have "unreachable_since s2 = unreachable_since s" "later s1 s2"
      using presD [OF same_timers.evac_node e] presD [OF later.evac_node e] q(2) by (simp_all add: same_timers_def)
    then show ?thesis using s' lost nl by (auto simp: lost_long_def later_def delete_conv')
  qed
qed

lemma failover_all_ok:
  "run_state (failover_all env ns) s = (u, s') \<Longrightarrow> distinct (map nd_name ns) \<Longrightarrow>
     timers_only s s' \<or> (\<exists>n \<in> set ns. lost_long env (nd_name n) s s')"
proof (induction ns arbitrary: s)
  case Nil
  then show ?case by (simp add: timers_only.refl)
next
  case (Cons n ns)
  obtain v s1 where one: "run_state (failover_one env n) s = (v, s1)"
    and rest: "run_state (failover_all env ns) s1 = (u, s')"
    using Cons.prems(1) by (auto split: prod.splits)
  note o1 = failover_one_ok [OF one]
  have l: "later s1 s'" by (rule presD [OF later.failed_over_all rest])
  from Cons.IH [OF rest] Cons.prems(2) consider (t) "timers_only s1 s'"
    | (m) m where "m \<in> set ns" "lost_long env (nd_name m) s1 s'" by auto
  then show ?case
  proof cases
    case t
    then show ?thesis
      using o1 timers_only.trans l by (fastforce simp: lost_long_def later_def)
  next
    case m
    then have "nd_name m \<noteq> nd_name n" using Cons.prems(2) by (metis distinct.simps(2) imageI list.set_map list.simps(9))
    then have "lost_long env (nd_name m) s s'" using m(2) o1 by (auto simp: lost_long_def)
    then show ?thesis using m(1) by auto
  qed
qed


end
