(* ===== verification/Api.thy ===== *)
theory Api
  imports Failover
begin

text \<open>
  The daemon's HTTP API (\<open>src/internal/api/api.go\<close>): one handler per route, from the decoded body
  (or the decoder's error) and the path values to the reply, a status code with a body. The logs of a
  container are all there is of them at once. The two functions of Go's \<open>net\<close> and \<open>net/url\<close> that
  \<open>handleNodeAdd\<close> calls, \<open>ParseIP\<close> and \<open>Parse\<close>, are its arguments.
\<close>

section \<open>Requests and replies\<close>

record app_status =
  as_name :: string
  as_image :: string
  as_container :: string
  as_status :: string
  as_domain :: string
  as_replicas :: nat

record node_request =
  nq_name :: string
  nq_ssh_host :: string
  nq_mesh_addr :: string
  nq_agent_url :: string
  nq_pool :: string

record node_status =
  ns_node :: node_row
  ns_transport :: string
  ns_reachable :: bool

datatype body =
    NoBody
  | ErrBody goerr
  | DeploymentBody deployment
  | AppsBody "app_status list"
  | HistoryBody "deployment list"
  | NamesBody "string list"
  | NodesBody "node_status list"
  | PoolsBody "(string \<times> nat) list"
  | EvacuateBody evacuate_result
  | HealthBody health
  | LogsBody string

type_synonym reply = "nat \<times> body"

definition writeErr :: "nat \<Rightarrow> goerr \<Rightarrow> ('x sys, reply) state" where
  "writeErr code e = ret (code, ErrBody e)"

definition writeJSON :: "nat \<Rightarrow> body \<Rightarrow> ('x sys, reply) state" where
  "writeJSON code b = ret (code, b)"

text \<open>Decode the body, with 400 for one that does not parse.\<close>

definition decoded :: "'b res \<Rightarrow> ('b \<Rightarrow> ('x sys, reply) state) \<Rightarrow> ('x sys, reply) state" where
  "decoded body k = (case body of Inl e \<Rightarrow> writeErr 400 e | Inr v \<Rightarrow> k v)"

definition unmarshal_spec :: "spec_text \<Rightarrow> app res" where
  "unmarshal_spec t = (case t of
     SpecEmpty \<Rightarrow> Inl (Errf ''unexpected end of JSON input'' [])
   | SpecBad x \<Rightarrow> Inl (Errf x [])
   | SpecJSON a \<Rightarrow> Inr a)"

section \<open>Apps\<close>

definition validated :: "app \<Rightarrow> ('x sys, reply) state \<Rightarrow> ('x sys, reply) state" where
  "validated a k = (case Validate a of Some e \<Rightarrow> writeErr 400 e | None \<Rightarrow> k)"

definition deployed_reply :: "('x sys, deployment res) state \<Rightarrow> ('x sys, reply) state" where
  "deployed_reply m = attempt m (writeErr 500) (\<lambda>d. writeJSON 200 (DeploymentBody d))"

definition handleApply :: "'x env \<Rightarrow> app res \<Rightarrow> ('x sys, reply) state" where
  "handleApply env body = decoded body (\<lambda>a0.
     let a = (if a_replicas a0 = 0 then a0\<lparr>a_replicas := 1\<rparr> else a0) in
     validated a (deployed_reply (Apply env a)))"

definition handleRollback :: "'x env \<Rightarrow> string \<Rightarrow> ('x sys, reply) state" where
  "handleRollback env name =
     attempt (Rollback env name)
       (\<lambda>e. if err_mentions ''no previous deployment'' e then writeErr 404 e else writeErr 500 e)
       (\<lambda>d. writeJSON 200 (DeploymentBody d))"

definition handleScale :: "'x env \<Rightarrow> string \<Rightarrow> int res \<Rightarrow> ('x sys, reply) state" where
  "handleScale env name body = decoded body (\<lambda>n.
     if n < 1 then writeErr 400 (Errf ''replicas must be >= 1'' [])
     else attempt (CurrentDeployment env name) (writeErr 500) (\<lambda>cur. case cur of
       None \<Rightarrow> writeErr 404 (Errf ''app %q not found'' [name])
     | Some d \<Rightarrow> (case unmarshal_spec (d_spec d) of
         Inl e \<Rightarrow> writeErr 500 e
       | Inr a0 \<Rightarrow>
           let a = (if d_scheduled d then a0\<lparr>a_node := []\<rparr> else a0)\<lparr>a_replicas := n\<rparr> in
           validated a (deployed_reply (Apply env a)))))"

definition app_status_of :: "string \<Rightarrow> deployment option \<Rightarrow> app_status" where
  "app_status_of name cur = (case cur of
     None \<Rightarrow> \<lparr>as_name = name, as_image = [], as_container = [], as_status = StatusRetired, as_domain = [], as_replicas = 1\<rparr>
   | Some d \<Rightarrow> \<lparr>as_name = name, as_image = d_image d, as_container = d_container d, as_status = d_status d,
       as_domain = (case unmarshal_spec (d_spec d) of Inl _ \<Rightarrow> [] | Inr a \<Rightarrow> a_domain a),
       as_replicas = (if d_replicas d = [] then 1 else length (d_replicas d))\<rparr>)"

fun app_statuses :: "'x env \<Rightarrow> string list \<Rightarrow> ('x sys, app_status list res) state" where
  "app_statuses env [] = ret (Inr [])"
| "app_statuses env (name # names) =
     attempt (CurrentDeployment env name) (\<lambda>e. fail_with e) (\<lambda>cur.
     attempt (app_statuses env names) (\<lambda>e. fail_with e) (\<lambda>sts. ret (Inr (app_status_of name cur # sts))))"

definition handleApps :: "'x env \<Rightarrow> ('x sys, reply) state" where
  "handleApps env =
     attempt (ListApps env) (writeErr 500) (\<lambda>names.
     attempt (app_statuses env names) (writeErr 500) (\<lambda>sts. writeJSON 200 (AppsBody sts)))"

definition handleHistory :: "'x env \<Rightarrow> string \<Rightarrow> ('x sys, reply) state" where
  "handleHistory env name =
     attempt (DeploymentsForApp env name) (writeErr 500) (\<lambda>ds. writeJSON 200 (HistoryBody ds))"

text \<open>The server asks the host for the logs, wherever the container runs.\<close>

definition handleLogs :: "'x env \<Rightarrow> string \<Rightarrow> bool \<Rightarrow> ('x sys, reply) state" where
  "handleLogs env name follow =
     attempt (CurrentDeployment env name) (writeErr 500) (\<lambda>cur. case cur of
       None \<Rightarrow> writeErr 404 (Errf ''app %q not found'' [name])
     | Some d \<Rightarrow> attempt (call (container_logs env (d_container d) follow)) (writeErr 500) (\<lambda>b. writeJSON 200 (LogsBody b)))"

definition handleDelete :: "'x env \<Rightarrow> string \<Rightarrow> ('x sys, reply) state" where
  "handleDelete env name = attempt (Remove env name) (writeErr 500) (\<lambda>_. ret (204, NoBody))"

section \<open>Secrets\<close>

definition handleSecretSet :: "'x env \<Rightarrow> string \<Rightarrow> (string \<times> string) res \<Rightarrow> ('x sys, reply) state" where
  "handleSecretSet env name body = decoded body (\<lambda>(key, value).
     if key = [] then writeErr 400 (Errf ''key is required'' [])
     else attempt (secret_Set env name key value) (writeErr 500) (\<lambda>_. ret (204, NoBody)))"

definition handleSecretList :: "'x env \<Rightarrow> string \<Rightarrow> ('x sys, reply) state" where
  "handleSecretList env name = attempt (secret_List env name) (writeErr 500) (\<lambda>ns. writeJSON 200 (NamesBody ns))"

definition handleSecretDelete :: "'x env \<Rightarrow> string \<Rightarrow> string \<Rightarrow> ('x sys, reply) state" where
  "handleSecretDelete env name key = attempt (secret_Delete env name key) (writeErr 500) (\<lambda>_. ret (204, NoBody))"

section \<open>Nodes\<close>

text \<open>\<open>^[A-Za-z0-9]([A-Za-z0-9.-]*[A-Za-z0-9])?$\<close> and \<open>^[A-Za-z0-9][A-Za-z0-9_-]*$\<close>.\<close>

definition hostnamePattern :: "string \<Rightarrow> bool" where
  "hostnamePattern h = (h \<noteq> [] \<and> is_alnum (hd h) \<and> is_alnum (last h) \<and>
     list_all (\<lambda>c. is_alnum c \<or> c = CHR ''.'' \<or> c = CHR ''-'') h)"

definition poolNamePattern :: "string \<Rightarrow> bool" where
  "poolNamePattern p = (p \<noteq> [] \<and> is_alnum (hd p) \<and> list_all (\<lambda>c. is_alnum c \<or> c = CHR ''_'' \<or> c = CHR ''-'') p)"

text \<open>The checks of a registration, in order: the error of the first that fails.\<close>

definition check_node :: "(string \<Rightarrow> bool) \<Rightarrow> (string \<Rightarrow> (string \<times> string) res) \<Rightarrow> node_request \<Rightarrow> goerr option" where
  "check_node parseIP urlParse q =
     (if nq_name q = [] then Some (Errf ''name is required'' [])
      else if nq_name q = ''local'' then Some (Errf ''node name %q is reserved for the implicit local node'' [nq_name q])
      else if nq_ssh_host q = [] then Some (Errf ''ssh_host is required'' [])
      else if nq_mesh_addr q = [] then Some (Errf ''mesh_addr is required'' [])
      else if \<not> parseIP (nq_mesh_addr q) \<and> \<not> hostnamePattern (nq_mesh_addr q)
      then Some (Errf ''mesh_addr %q is not a valid IP address or hostname'' [nq_mesh_addr q])
      else if nq_agent_url q \<noteq> [] \<and> (case urlParse (nq_agent_url q) of
        Inl _ \<Rightarrow> True | Inr (scheme, host) \<Rightarrow> scheme \<noteq> ''http'' \<and> scheme \<noteq> ''https'' \<or> host = [])
      then Some (Errf ''agent_url %q is not a valid http(s) URL'' [nq_agent_url q])
      else if nq_pool q \<noteq> [] \<and> \<not> poolNamePattern (nq_pool q)
      then Some (Errf ''pool %q is invalid: must match %s'' [nq_pool q, ''^[A-Za-z0-9][A-Za-z0-9_-]*$''])
      else None)"

definition handleNodeAdd ::
  "'x env \<Rightarrow> (string \<Rightarrow> bool) \<Rightarrow> (string \<Rightarrow> (string \<times> string) res) \<Rightarrow> node_request res \<Rightarrow> ('x sys, reply) state"
where
  "handleNodeAdd env parseIP urlParse body = decoded body (\<lambda>q. case check_node parseIP urlParse q of
     Some e \<Rightarrow> writeErr 400 e
   | None \<Rightarrow> now \<bind> (\<lambda>t.
       attempt (AddNode env \<lparr>nd_name = nq_name q, nd_ssh_host = nq_ssh_host q, nd_mesh_addr = nq_mesh_addr q,
           nd_agent_url = nq_agent_url q, nd_pool = nq_pool q, nd_schedulable = False, nd_created = t\<rparr>)
         (writeErr 500) (\<lambda>_. Invalidate (nq_name q) \<bind> (\<lambda>_. ret (204, NoBody)))))"

text \<open>The code pings the nodes in parallel; here they answer one after the other, in the list's order.\<close>

fun node_statuses :: "'x env \<Rightarrow> node_row list \<Rightarrow> ('x sys, node_status list) state" where
  "node_statuses env [] = ret []"
| "node_statuses env (n # ns) = do {
     (transport, ok) \<leftarrow> Reachable env (nd_name n);
     rest \<leftarrow> node_statuses env ns;
     ret (\<lparr>ns_node = n, ns_transport = transport, ns_reachable = ok\<rparr> # rest)
   }"

definition handleNodeList :: "'x env \<Rightarrow> ('x sys, reply) state" where
  "handleNodeList env =
     attempt (ListNodes env) (writeErr 500) (\<lambda>ns. node_statuses env ns \<bind> (\<lambda>sts. writeJSON 200 (NodesBody sts)))"

definition handleNodeDelete :: "'x env \<Rightarrow> string \<Rightarrow> ('x sys, reply) state" where
  "handleNodeDelete env name =
     attempt (DeleteNode env name) (writeErr 500) (\<lambda>_. Invalidate name \<bind> (\<lambda>_. ret (204, NoBody)))"

definition checkCordonTarget :: "'x env \<Rightarrow> string \<Rightarrow> ('x sys, reply) state \<Rightarrow> ('x sys, reply) state" where
  "checkCordonTarget env name k =
     (if name = ''local'' then writeErr 400 (Errf ''cannot cordon/uncordon the local node'' [])
      else attempt (GetNode env name) (writeErr 500) (\<lambda>n. case n of
        None \<Rightarrow> writeErr 404 (Errf ''node %q not found'' [name])
      | Some _ \<Rightarrow> k))"

definition handleNodeUncordon :: "'x env \<Rightarrow> string \<Rightarrow> ('x sys, reply) state" where
  "handleNodeUncordon env name = checkCordonTarget env name
     (attempt (SetSchedulable env name True) (writeErr 500) (\<lambda>_. ret (204, NoBody)))"

definition evacuated_reply :: "'x env \<Rightarrow> string \<Rightarrow> ('x sys, reply) state" where
  "evacuated_reply env name = attempt (EvacuateNode env name) (writeErr 500) (\<lambda>res. writeJSON 200 (EvacuateBody res))"

definition handleNodeEvacuate :: "'x env \<Rightarrow> string \<Rightarrow> ('x sys, reply) state" where
  "handleNodeEvacuate env name = checkCordonTarget env name (evacuated_reply env name)"

definition handleNodeDrain :: "'x env \<Rightarrow> string \<Rightarrow> ('x sys, reply) state" where
  "handleNodeDrain env name = checkCordonTarget env name
     (attempt (SetSchedulable env name False) (writeErr 500) (\<lambda>_. evacuated_reply env name))"

section \<open>Pools and health\<close>

text \<open>\<open>counts[n.Pool]++\<close>\<close>

definition count_pool :: "string \<Rightarrow> (string \<times> nat) list \<Rightarrow> (string \<times> nat) list" where
  "count_pool p counts = AList.update p (Suc (case map_of counts p of None \<Rightarrow> 0 | Some k \<Rightarrow> k)) counts"

definition pool_counts :: "node_row list \<Rightarrow> (string \<times> nat) list" where
  "pool_counts ns = fold (\<lambda>n. count_pool (nd_pool n)) ns [(DefaultPool, 1)]"

definition pool_list :: "node_row list \<Rightarrow> (string \<times> nat) list" where
  "pool_list ns = (let counts = pool_counts ns in
     map (\<lambda>p. (p, case map_of counts p of None \<Rightarrow> 0 | Some k \<Rightarrow> k)) (sort (map fst counts)))"

definition handlePools :: "'x env \<Rightarrow> ('x sys, reply) state" where
  "handlePools env = attempt (ListNodes env) (writeErr 500) (\<lambda>ns. writeJSON 200 (PoolsBody (pool_list ns)))"

definition HealthSnapshot :: "('x sys, health) state" where
  "HealthSnapshot = gets health_view"

definition handleHealth :: "('x sys, reply) state" where
  "handleHealth = HealthSnapshot \<bind> (\<lambda>h. writeJSON 200 (HealthBody h))"

section \<open>The routes\<close>

datatype request =
    PostApply "app res"
  | GetApps
  | GetLogs string bool
  | GetHistory string
  | PostRollback string
  | PostScale string "int res"
  | DeleteApp string
  | PostSecret string "(string \<times> string) res"
  | GetSecrets string
  | DeleteSecretKey string string
  | PostNode "node_request res"
  | GetNodes
  | DeleteNodeNamed string
  | PostUncordon string
  | PostEvacuate string
  | PostDrain string
  | GetPools
  | GetHealth

fun Handler ::
  "'x env \<Rightarrow> (string \<Rightarrow> bool) \<Rightarrow> (string \<Rightarrow> (string \<times> string) res) \<Rightarrow> request \<Rightarrow> ('x sys, reply) state"
where
  "Handler env ip url (PostApply b) = handleApply env b"
| "Handler env ip url GetApps = handleApps env"
| "Handler env ip url (GetLogs n f) = handleLogs env n f"
| "Handler env ip url (GetHistory n) = handleHistory env n"
| "Handler env ip url (PostRollback n) = handleRollback env n"
| "Handler env ip url (PostScale n b) = handleScale env n b"
| "Handler env ip url (DeleteApp n) = handleDelete env n"
| "Handler env ip url (PostSecret n b) = handleSecretSet env n b"
| "Handler env ip url (GetSecrets n) = handleSecretList env n"
| "Handler env ip url (DeleteSecretKey n k) = handleSecretDelete env n k"
| "Handler env ip url (PostNode b) = handleNodeAdd env ip url b"
| "Handler env ip url GetNodes = handleNodeList env"
| "Handler env ip url (DeleteNodeNamed n) = handleNodeDelete env n"
| "Handler env ip url (PostUncordon n) = handleNodeUncordon env n"
| "Handler env ip url (PostEvacuate n) = handleNodeEvacuate env n"
| "Handler env ip url (PostDrain n) = handleNodeDrain env n"
| "Handler env ip url GetPools = handlePools env"
| "Handler env ip url GetHealth = handleHealth"

section \<open>Replies that change nothing\<close>

lemma quiet_reads:
  "pres calm (ListApps env)" "pres only_config (ListApps env)" "pres calm (CurrentDeployment env a)"
  "pres only_config (CurrentDeployment env a)" "pres calm (GetNode env n)" "pres only_config (GetNode env n)"
  unfolding ListApps_def by (intro pres_rules pres_db_read; simp)+

text \<open>\<open>final\<close>: the reply is a success or an internal error; \<open>polite\<close>: or nothing was changed.\<close>

definition final :: "('x sys, reply) state \<Rightarrow> bool" where
  "final m = (\<forall>s. fst (fst (run_state m s)) \<in> {200, 204, 500})"

definition polite :: "('x sys, reply) state \<Rightarrow> bool" where
  "polite m = (\<forall>s. fst (fst (run_state m s)) \<in> {200, 204, 500} \<or>
     (calm s (snd (run_state m s)) \<and> only_config s (snd (run_state m s))))"

lemma final_replies: "final (writeErr 500 e)" "final (writeJSON 200 b)" "final (ret (204, b))"
  by (simp_all add: final_def writeErr_def writeJSON_def)

lemma final_attempt: "(\<And>e. final (h e)) \<Longrightarrow> (\<And>v. final (k v)) \<Longrightarrow> final (attempt m h k)"
  unfolding final_def by (auto simp only: run_state_attempt split: prod.splits sum.splits)

lemma final_bind: "(\<And>v. final (l v)) \<Longrightarrow> final (n \<bind> l)"
  unfolding final_def by (auto simp only: run_state_bind split: prod.splits)

lemma polite_final: "final m \<Longrightarrow> polite m"
  by (simp add: final_def polite_def)

lemma polite_refuse: "polite (writeErr code e)"
  by (simp add: polite_def writeErr_def calm.refl only_config.refl)

lemma polite_read:
  assumes "pres calm m" "pres only_config m" and h: "\<And>e. polite (h e)" and k: "\<And>v. polite (k v)"
  shows "polite (attempt m h k)"
  unfolding polite_def
proof
  fix s
  obtain r s1 where r: "run_state m s = (r, s1)" by fastforce
  have q: "calm s s1" "only_config s s1" using presD [OF assms(1) r] presD [OF assms(2) r] by auto
  have "\<exists>n. polite n \<and> run_state (attempt m h k) s = run_state n s1" using r h k by (cases r) auto
  then show "fst (fst (run_state (attempt m h k) s)) \<in> {200, 204, 500} \<or>
      (calm s (snd (run_state (attempt m h k) s)) \<and> only_config s (snd (run_state (attempt m h k) s)))"
    using calm.trans [OF q(1)] only_config.trans [OF q(2)] unfolding polite_def by metis
qed

lemma polite_cases:
  "polite m \<Longrightarrow> polite n \<Longrightarrow> polite (if b then m else n)"
  "polite m \<Longrightarrow> (\<And>v. polite (k v)) \<Longrightarrow> polite (case x of None \<Rightarrow> m | Some v \<Rightarrow> k v)"
  "(\<And>e. polite (h e)) \<Longrightarrow> (\<And>v. polite (k' v)) \<Longrightarrow> polite (case y of Inl e \<Rightarrow> h e | Inr v \<Rightarrow> k' v)"
  "(\<And>u v. polite (l u v)) \<Longrightarrow> polite (case p of (u, v) \<Rightarrow> l u v)"
  by (auto split: option.splits sum.splits prod.splits)

lemma polite_bodies:
  "(\<And>v. polite (k v)) \<Longrightarrow> polite (decoded body k)" "polite n \<Longrightarrow> polite (validated a n)"
  "polite n \<Longrightarrow> polite (checkCordonTarget env name n)"
  unfolding decoded_def validated_def checkCordonTarget_def
  by (intro polite_cases polite_read polite_refuse quiet_reads; assumption)+

lemmas final_rules = final_replies final_attempt final_bind
lemmas polite_rules = polite_bodies polite_cases polite_refuse polite_read quiet_reads


section \<open>Scaling\<close>


lemma git_image_invalid: "a_git a \<noteq> None \<Longrightarrow> a_image a \<noteq> [] \<Longrightarrow> Validate a \<noteq> None"
  by (auto simp: Validate_def check_git_def first_err_None)

text \<open>A snapshot with both a git source and a built image.\<close>

definition pinned_git :: "deployment \<Rightarrow> bool" where
  "pinned_git d = (case d_spec d of SpecJSON a \<Rightarrow> a_git a \<noteq> None \<and> a_image a \<noteq> [] | _ \<Rightarrow> False)"

lemma rollback_pins_git:
  assumes "run_state (rollbackGitLocked env a sched) s = (Inr d, s')"
  shows "pinned_git d = (a_git a \<noteq> None)"
proof -
  have "d_spec d = SpecJSON a" using rollbackGit_result [OF assms] by blast
  moreover have "a_image a \<noteq> []"
    using assms by (auto simp: rollbackGitLocked_def wrap_err_def split: option.splits if_splits)
  ultimately show ?thesis by (simp add: pinned_git_def)
qed

lemma pinned_git_invalid:
  assumes "pinned_git cur"
  obtains a E where "d_spec cur = SpecJSON a"
    "Validate ((if d_scheduled cur then a\<lparr>a_node := []\<rparr> else a)\<lparr>a_replicas := n\<rparr>) = Some E"
proof -
  obtain a where a: "d_spec cur = SpecJSON a" "a_git a \<noteq> None" "a_image a \<noteq> []"
    using assms by (auto simp: pinned_git_def split: spec_text.splits)
  let ?a = "(if d_scheduled cur then a\<lparr>a_node := []\<rparr> else a)\<lparr>a_replicas := n\<rparr>"
  have "a_git ?a \<noteq> None" "a_image ?a \<noteq> []" using a(2,3) by simp_all
  then show thesis using that [OF a(1)] git_image_invalid by blast
qed

lemma scale_refused:
  assumes run: "run_state (handleScale env name b) s = (r, s')"
    and cur: "current_of name (sdb s) = Some cur" "pinned_git cur"
  shows "fst r \<in> {400, 500} \<and> calm s s'"
proof (cases "\<exists>n. b = Inr n \<and> 1 \<le> n")
  case False
  then show ?thesis using run calm.refl
    by (cases b) (auto simp: handleScale_def decoded_def writeErr_def)
next
  case True
  then obtain n where n: "b = Inr n" "1 \<le> n" by blast
  obtain a E where a: "d_spec cur = SpecJSON a"
    "Validate ((if d_scheduled cur then a\<lparr>a_node := []\<rparr> else a)\<lparr>a_replicas := n\<rparr>) = Some E"
    using pinned_git_invalid [OF cur(2)] .
  obtain rc s1 where s1: "run_state (CurrentDeployment env name) s = (rc, s1)" by fastforce
  have q: "calm s s1" by (rule presD [OF quiet_reads(3) s1])
  show ?thesis
  proof (cases rc)
    case (Inl e)
    then show ?thesis using run q n s1 by (auto simp: handleScale_def decoded_def writeErr_def)
  next
    case (Inr x)
    then have "x = Some cur" using CurrentDeployment_result s1 cur(1) by (fastforce simp: current_of_def)
    then show ?thesis using run q n s1 Inr a
      by (auto simp: handleScale_def decoded_def writeErr_def unmarshal_spec_def validated_def Let_def)
  qed
qed

text \<open>
  A git app that was rolled back, healed or moved can no longer be scaled. The redeploy of the
  recorded tag leaves a snapshot with both a git source and an image, which \<open>Validate\<close> refuses, so
  every scale request for it is turned down.
\<close>

lemma redeployed_git_app_cannot_scale:
  "wp (rollbackGitLocked env a sched) (\<lambda>r s'. case r of
       Inl e \<Rightarrow> True
     | Inr d \<Rightarrow> pinned_git d = (a_git a \<noteq> None)) s0 \<and>
   wp (handleScale env name b) (\<lambda>r s'. case current_of name (sdb s) of
       None \<Rightarrow> True
     | Some cur \<Rightarrow> if pinned_git cur then fst r \<in> {400, 500} \<and> calm s s' else True) s"
  unfolding wp_iff using rollback_pins_git scale_refused by (fastforce split: sum.split option.split)

section \<open>Nodes\<close>

text \<open>
  A registration that is accepted has a name, not \<open>local\<close>, and the addresses a remote node
  needs; the registry then has them, and no stale connection is left in the resolver's cache.
  Anything else is refused without a change, or fails without a change to the registry.
\<close>

lemma handleNodeAdd_registers:
  "wp (handleNodeAdd env ip url b) (\<lambda>r s'. if fst r = 204
     then (\<exists>q row. b = Inr q \<and> nq_name q \<noteq> [] \<and> nq_name q \<noteq> ''local'' \<and> nq_ssh_host q \<noteq> [] \<and>
        (ip (nq_mesh_addr q) \<or> hostnamePattern (nq_mesh_addr q)) \<and>
        sql_get_node (nq_name q) (sdb s') = Some row \<and> nd_ssh_host row = nq_ssh_host q \<and>
        nd_mesh_addr row = nq_mesh_addr q \<and> nd_agent_url row = nq_agent_url q \<and>
        nd_pool row = (if nq_pool q = [] then DefaultPool else nq_pool q) \<and>
        map_of (remotes s') (nq_name q) = None)
     else calm s s') s"
  unfolding wp_iff
proof (intro allI impI)
  fix r s'
  assume run: "run_state (handleNodeAdd env ip url b) s = (r, s')"
  show "if fst r = 204
     then (\<exists>q row. b = Inr q \<and> nq_name q \<noteq> [] \<and> nq_name q \<noteq> ''local'' \<and> nq_ssh_host q \<noteq> [] \<and>
        (ip (nq_mesh_addr q) \<or> hostnamePattern (nq_mesh_addr q)) \<and>
        sql_get_node (nq_name q) (sdb s') = Some row \<and> nd_ssh_host row = nq_ssh_host q \<and>
        nd_mesh_addr row = nq_mesh_addr q \<and> nd_agent_url row = nq_agent_url q \<and>
        nd_pool row = (if nq_pool q = [] then DefaultPool else nq_pool q) \<and>
        map_of (remotes s') (nq_name q) = None)
     else calm s s'"
  proof (cases "\<exists>q. b = Inr q \<and> check_node ip url q = None")
    case False
    then show ?thesis using run calm.refl
      by (auto simp: handleNodeAdd_def decoded_def writeErr_def split: sum.splits option.splits)
  next
    case True
    then obtain q where q: "b = Inr q" "check_node ip url q = None" by blast
    let ?n = "\<lparr>nd_name = nq_name q, nd_ssh_host = nq_ssh_host q, nd_mesh_addr = nq_mesh_addr q,
       nd_agent_url = nq_agent_url q, nd_pool = nq_pool q, nd_schedulable = False, nd_created = clock s\<rparr>"
    obtain ra s1 where ra: "run_state (AddNode env ?n) s = (ra, s1)" by fastforce
    note w = writesD [OF writes_store(8) ra]
    show ?thesis
    proof (cases ra)
      case (Inl e)
      then have "r = (500, ErrBody e)" "s' = s1"
        using run q ra by (auto simp: handleNodeAdd_def decoded_def writeErr_def now_def)
      moreover have "calm s s1" using w Inl by (simp add: calm_def aside_def kept_def later_def)
      ultimately show ?thesis by simp
    next
      case (Inr u)
      then have r: "r = (204, NoBody)" and s': "s' = s1\<lparr>remotes := AList.delete (nq_name q) (remotes s1)\<rparr>"
        using run q ra by (auto simp: handleNodeAdd_def decoded_def now_def Invalidate_def)
      have ok: "nq_name q \<noteq> []" "nq_name q \<noteq> ''local''" "nq_ssh_host q \<noteq> []"
        "ip (nq_mesh_addr q) \<or> hostnamePattern (nq_mesh_addr q)"
        using q(2) by (auto simp: check_node_def split: if_splits)
      obtain row where "sql_get_node (nq_name q) (sdb s1) = Some row" "nd_ssh_host row = nq_ssh_host q"
        "nd_mesh_addr row = nq_mesh_addr q" "nd_agent_url row = nq_agent_url q"
        "nd_pool row = (if nq_pool q = [] then DefaultPool else nq_pool q)"
        using w Inr by (cases "sql_get_node (nq_name q) (sdb s)") (auto simp: get_after_add)
      then show ?thesis using r s' ok q(1) by (auto simp: delete_conv')
    qed
  qed
qed

section \<open>Pools\<close>

lemma count_pool_lookup:
  "map_of (count_pool p counts) x = (if x = p then Some (Suc (case map_of counts p of None \<Rightarrow> 0 | Some k \<Rightarrow> k)) else map_of counts x)"
  by (simp add: count_pool_def update_conv')

lemma fold_count_pool:
  "(case map_of (fold (\<lambda>n. count_pool (nd_pool n)) ns counts) p of None \<Rightarrow> 0 | Some k \<Rightarrow> k) =
     (case map_of counts p of None \<Rightarrow> 0 | Some k \<Rightarrow> k) + length (filter (\<lambda>n. nd_pool n = p) ns)"
  by (induction ns arbitrary: counts) (auto simp: count_pool_lookup)

lemma fold_count_pool_keys:
  "set (map fst (fold (\<lambda>n. count_pool (nd_pool n)) ns counts)) = set (map fst counts) \<union> nd_pool ` set ns"
  by (induction ns arbitrary: counts) (auto simp: count_pool_def dom_update)

lemma fold_count_pool_distinct:
  "distinct (map fst counts) \<Longrightarrow> distinct (map fst (fold (\<lambda>n. count_pool (nd_pool n)) ns counts))"
  by (induction ns arbitrary: counts) (auto simp: count_pool_def distinct_update)

text \<open>
  The pool list names the pools of the registered nodes and the default pool, each once and in
  order, with the number of nodes in it, the host counting as one of the default pool.
\<close>

lemma pool_list_exact:
  "sorted_wrt (<) (map fst (pool_list ns)) \<and> set (map fst (pool_list ns)) = insert DefaultPool (nd_pool ` set ns) \<and>
   list_all (\<lambda>(p, k). k = length (filter (\<lambda>n. nd_pool n = p) ns) + (if p = DefaultPool then 1 else 0)) (pool_list ns)"
proof -
  have keys: "set (map fst (pool_counts ns)) = insert DefaultPool (nd_pool ` set ns)"
    unfolding pool_counts_def fold_count_pool_keys by simp
  have "distinct (map fst (pool_counts ns))"
    unfolding pool_counts_def by (rule fold_count_pool_distinct) simp
  then have "sorted_wrt (<) (sort (map fst (pool_counts ns)))" by (simp add: strict_sorted_iff)
  moreover have "(case map_of (pool_counts ns) p of None \<Rightarrow> 0 | Some k \<Rightarrow> k) =
      length (filter (\<lambda>n. nd_pool n = p) ns) + (if p = DefaultPool then 1 else 0)" for p
    unfolding pool_counts_def fold_count_pool by simp
  ultimately show ?thesis
    using keys by (simp add: pool_list_def Let_def comp_def list_all_iff)
qed

end
