(* ===== verification/Durations.thy ===== *)
theory Durations
  imports AppSpec
begin

text \<open>
  \<open>time.ParseDuration\<close>, in nanoseconds, with its 64-bit limits and the rounding of its fractions, and
  \<open>spec.Parse\<close> (\<open>src/internal/spec/spec.go\<close>) over a TOML decoder.
\<close>

section \<open>Durations\<close>

definition unitMap :: "(string \<times> int) list" where
  "unitMap = [(''ns'', 1), (''us'', 10 ^ 3), ([CHR 0xC2, CHR 0xB5] @ ''s'', 10 ^ 3), ([CHR 0xCE, CHR 0xBC] @ ''s'', 10 ^ 3),
     (''ms'', 10 ^ 6), (''s'', 10 ^ 9), (''m'', 60 * 10 ^ 9), (''h'', 3600 * 10 ^ 9)]"

definition digit_value :: "char \<Rightarrow> int" where
  "digit_value c = int (of_char c) - 48"

text \<open>The leading digits as a number up to \<open>2 ^ 63\<close>, and the rest.\<close>

fun leadingInt :: "int \<Rightarrow> string \<Rightarrow> (int \<times> string) option" where
  "leadingInt x [] = Some (x, [])"
| "leadingInt x (c # cs) =
     (if \<not> is_digit c then Some (x, c # cs)
      else if x > 2 ^ 63 div 10 then None
      else let y = x * 10 + digit_value c in if y > 2 ^ 63 then None else leadingInt y cs)"

text \<open>Digits that do not fit any more are skipped.\<close>

fun leadingFraction :: "int \<Rightarrow> int \<Rightarrow> bool \<Rightarrow> string \<Rightarrow> int \<times> int \<times> string" where
  "leadingFraction x scale overflow [] = (x, scale, [])"
| "leadingFraction x scale overflow (c # cs) =
     (if \<not> is_digit c then (x, scale, c # cs)
      else if overflow \<or> x > (2 ^ 63 - 1) div 10 then leadingFraction x scale True cs
      else let y = x * 10 + digit_value c in
        if y > 2 ^ 63 then leadingFraction x scale True cs else leadingFraction y (scale * 10) False cs)"

text \<open>The \<open>float64\<close> next to a fraction, as a fraction, and \<open>uint64(float64(f) * (float64(unit) / scale))\<close>.\<close>

definition nearest_float :: "int \<Rightarrow> int \<Rightarrow> int \<times> int" where
  "nearest_float num den = (case parse_float num den of
     None \<Rightarrow> (num, den) | Some (m, dn, up) \<Rightarrow> (m * 2 ^ dn, 2 ^ up))"

definition fraction_nanos :: "int \<Rightarrow> int \<Rightarrow> int \<Rightarrow> int" where
  "fraction_nanos f scale unit =
     (case (nearest_float f 1, nearest_float unit scale) of
        ((a, b), (c, d)) \<Rightarrow> (case nearest_float (a * c) (b * d) of (p, q) \<Rightarrow> p div q))"

text \<open>The part after a period, the rest, and whether there were digits.\<close>

definition fraction_part :: "string \<Rightarrow> int \<times> int \<times> string \<times> bool" where
  "fraction_part s =
     (if prefix ''.'' s
      then (case leadingFraction 0 1 False (tl s) of (f, scale, r) \<Rightarrow> (f, scale, r, length r \<noteq> length (tl s)))
      else (0, 1, s, False))"

definition in_unit :: "char \<Rightarrow> bool" where
  "in_unit c = (c \<noteq> CHR ''.'' \<and> \<not> is_digit c)"

definition bad_duration :: "string \<Rightarrow> 'a res" where
  "bad_duration orig = Inl (Errf ''time: invalid duration %q'' [orig])"

text \<open>One number with its unit: its nanoseconds and the rest.\<close>

definition duration_item :: "string \<Rightarrow> string \<Rightarrow> (int \<times> string) res" where
  "duration_item orig s =
     (if \<not> (hd s = CHR ''.'' \<or> is_digit (hd s)) then bad_duration orig
      else case leadingInt 0 s of
        None \<Rightarrow> bad_duration orig
      | Some (v, s1) \<Rightarrow> (case fraction_part s1 of (f, scale, s2, post) \<Rightarrow>
          if length s1 = length s \<and> \<not> post then bad_duration orig
          else let u = takeWhile in_unit s2; rest = dropWhile in_unit s2 in
            if u = [] then Inl (Errf ''time: missing unit in duration %q'' [orig])
            else (case map_of unitMap u of
              None \<Rightarrow> Inl (Errf ''time: unknown unit %q in duration %q'' [u, orig])
            | Some unit \<Rightarrow>
                if v > 2 ^ 63 div unit then bad_duration orig
                else let w = (if f > 0 then v * unit + fraction_nanos f scale unit else v * unit) in
                  if f > 0 \<and> w > 2 ^ 63 then bad_duration orig else Inr (w, rest))))"

lemma leadingInt_length: "leadingInt x s = Some (v, r) \<Longrightarrow> length r \<le> length s"
  by (induction x s rule: leadingInt.induct) (auto simp: Let_def split: if_splits)

lemma leadingFraction_length: "leadingFraction x sc b s = (f, scale, r) \<Longrightarrow> length r \<le> length s"
  by (induction x sc b s rule: leadingFraction.induct) (auto simp: Let_def split: if_splits)

lemma fraction_part_length: "fraction_part s = (f, scale, r, post) \<Longrightarrow> length r \<le> length s"
  by (auto simp: fraction_part_def dest!: leadingFraction_length split: if_splits prod.splits)

lemma duration_item_length: "duration_item orig s = Inr (w, rest) \<Longrightarrow> length rest < length s"
proof -
  assume a: "duration_item orig s = Inr (w, rest)"
  then obtain v s1 f scale s2 post where l: "leadingInt 0 s = Some (v, s1)" "fraction_part s1 = (f, scale, s2, post)"
    and r: "rest = dropWhile in_unit s2" "takeWhile in_unit s2 \<noteq> []"
    by (auto simp: duration_item_def bad_duration_def Let_def split: if_splits option.splits prod.splits)
  have "length (takeWhile in_unit s2) + length rest = length s2"
    using r(1) by (metis length_append takeWhile_dropWhile_id)
  then have "length rest < length s2" using r(2) by (cases "takeWhile in_unit s2") auto
  then show ?thesis using leadingInt_length [OF l(1)] fraction_part_length [OF l(2)] by simp
qed

text \<open>The sum is a \<open>uint64\<close>.\<close>

function duration_items :: "string \<Rightarrow> int \<Rightarrow> string \<Rightarrow> int res" where
  "duration_items orig d s =
     (if s = [] then Inr d
      else case duration_item orig s of
        Inl e \<Rightarrow> Inl e
      | Inr (w, rest) \<Rightarrow>
          let d' = (d + w) mod 2 ^ 64 in
          if d' > 2 ^ 63 then bad_duration orig else duration_items orig d' rest)"
  by pat_completeness auto
termination
  by (relation "measure (\<lambda>(orig, d, s). length s)") (auto dest: duration_item_length)

declare duration_items.simps [simp del]

definition ParseDuration :: "string \<Rightarrow> int res" where
  "ParseDuration s =
     (let neg = prefix ''-'' s; r = (if neg \<or> prefix ''+'' s then tl s else s) in
      if r = ''0'' then Inr 0
      else if r = [] then bad_duration s
      else case duration_items s 0 r of
        Inl e \<Rightarrow> Inl e
      | Inr d \<Rightarrow> if neg then Inr (- d) else if d > 2 ^ 63 - 1 then bad_duration s else Inr d)"

section \<open>The document of an app\<close>

definition Parse :: "(string \<Rightarrow> app res) \<Rightarrow> string \<Rightarrow> app res" where
  "Parse decode data = (case decode data of
     Inl e \<Rightarrow> Inl (Wrapf ''parse lwd.toml: %w'' [] e)
   | Inr a \<Rightarrow>
       (let raw = h_raw_timeout (a_health a) in
        if raw = [] then Inr (parse_defaults a)
        else case ParseDuration raw of
          Inl e \<Rightarrow> Inl (Wrapf ''health.timeout %q: %w'' [raw] e)
        | Inr d \<Rightarrow> Inr (parse_defaults (a\<lparr>a_health := (a_health a)\<lparr>h_timeout := d\<rparr>\<rparr>))))"

section \<open>What is written is what is read\<close>

text \<open>Whole numbers with their units, one after another.\<close>

definition written :: "(nat \<times> string) list \<Rightarrow> string" where
  "written ps = concat (map (\<lambda>(n, u). show_nat n @ u) ps)"

definition nanos_of :: "(nat \<times> string) list \<Rightarrow> int" where
  "nanos_of ps = sum_list (map (\<lambda>(n, u). int n * the (map_of unitMap u)) ps)"

lemma digit_value_bounds: "is_digit c \<Longrightarrow> 0 \<le> digit_value c \<and> digit_value c \<le> 9"
  by (auto simp: digit_value_def is_digit_def less_eq_char_def)

lemma foldl_digits_ge:
  "list_all is_digit ds \<Longrightarrow> 0 \<le> x \<Longrightarrow> x \<le> foldl (\<lambda>n c. 10 * n + (int (of_char c) - 48)) x ds"
proof (induction ds arbitrary: x)
  case (Cons c ds)
  have "0 \<le> int (of_char c) - 48" using Cons.prems digit_value_bounds [of c] by (simp add: digit_value_def)
  then show ?case using Cons.IH [of "10 * x + (int (of_char c) - 48)"] Cons.prems by simp
qed simp

lemma leadingInt_digits:
  "list_all is_digit ds \<Longrightarrow> t = [] \<or> \<not> is_digit (hd t) \<Longrightarrow> 0 \<le> x \<Longrightarrow>
   foldl (\<lambda>n c. 10 * n + (int (of_char c) - 48)) x ds \<le> 2 ^ 63 \<Longrightarrow>
   leadingInt x (ds @ t) = Some (foldl (\<lambda>n c. 10 * n + (int (of_char c) - 48)) x ds, t)"
proof (induction ds arbitrary: x)
  case Nil
  then show ?case by (cases t) auto
next
  case (Cons c ds)
  let ?y = "10 * x + (int (of_char c) - 48)"
  have c: "is_digit c" "0 \<le> digit_value c" using Cons.prems digit_value_bounds [of c] by auto
  have y: "?y = x * 10 + digit_value c" "0 \<le> ?y" using c Cons.prems(3) by (simp_all add: digit_value_def)
  have "?y \<le> 2 ^ 63" using foldl_digits_ge [of ds ?y] Cons.prems y(2) by simp
  moreover have "x \<le> 2 ^ 63 div 10" using calculation y(1) c(2) by simp
  ultimately have "leadingInt x ((c # ds) @ t) = leadingInt (x * 10 + digit_value c) (ds @ t)"
    using c y(1) by (simp add: Let_def)
  then have "leadingInt x ((c # ds) @ t) = leadingInt ?y (ds @ t)" by (simp only: y(1))
  then show ?case using Cons.IH [of ?y] Cons.prems y(2) by simp
qed

lemma leadingInt_show:
  "int n \<le> 2 ^ 63 \<Longrightarrow> t = [] \<or> \<not> is_digit (hd t) \<Longrightarrow> leadingInt 0 (show_nat n @ t) = Some (int n, t)"
  using leadingInt_digits [OF show_nat_list_all, of t 0 n] read_show_nat [of n] by (simp add: read_int_def)

lemma duration_units:
  assumes "map_of unitMap u = Some k"
  shows "u \<noteq> [] \<and> list_all in_unit u \<and> 1 \<le> k"
proof -
  have "list_all (\<lambda>(w, j). w \<noteq> [] \<and> list_all in_unit w \<and> 1 \<le> j) unitMap" by code_simp
  then show ?thesis using map_of_SomeD [OF assms] by (auto simp: list_all_iff)
qed

lemma item_written:
  assumes u: "map_of unitMap u = Some k" and n: "int n * k < 2 ^ 63" and rest: "rest = [] \<or> is_digit (hd rest)"
  shows "duration_item orig (show_nat n @ u @ rest) = Inr (int n * k, rest)"
proof -
  note k = duration_units [OF u]
  have "int n \<le> int n * k" using k by (simp add: mult_le_cancel_left1)
  then have n63: "int n \<le> 2 ^ 63" using n by simp
  have hu: "in_unit (hd u)" using k by (cases u) auto
  have h: "\<not> is_digit (hd (u @ rest))" "\<not> prefix ''.'' (u @ rest)" using k hu by (cases u; auto simp: in_unit_def)+
  have l: "leadingInt 0 (show_nat n @ u @ rest) = Some (int n, u @ rest)" using n63 h(1) by (intro leadingInt_show) auto
  have tw: "takeWhile in_unit (u @ rest) = u" "dropWhile in_unit (u @ rest) = rest"
    using k rest by (cases rest; auto simp: list_all_iff in_unit_def takeWhile_append dropWhile_append)+
  have d: "is_digit (hd (show_nat n @ u @ rest))" using show_nat_list_all [of n] by (cases "show_nat n") auto
  have "int n * k div k \<le> 2 ^ 63 div k" using n k by (intro zdiv_mono1) auto
  then have "int n \<le> 2 ^ 63 div k" using k by simp
  then show ?thesis using d l h(2) k u by (simp add: duration_item_def fraction_part_def tw Let_def)
qed

lemma items_written:
  "list_all (\<lambda>(n, u). map_of unitMap u \<noteq> None) ps \<Longrightarrow> 0 \<le> d \<Longrightarrow> d + nanos_of ps < 2 ^ 63 \<Longrightarrow>
   duration_items orig d (written ps) = Inr (d + nanos_of ps)"
proof (induction ps arbitrary: d)
  case Nil
  then show ?case by (subst duration_items.simps) (simp add: written_def nanos_of_def)
next
  case (Cons p ps)
  obtain n u where p: "p = (n, u)" by (cases p)
  then obtain k where k: "map_of unitMap u = Some k" using Cons.prems by auto
  have pos: "0 \<le> nanos_of qs" if "list_all (\<lambda>(n, u). map_of unitMap u \<noteq> None) qs" for qs
    using that duration_units by (induction qs) (fastforce simp: nanos_of_def)+
  have k1: "0 \<le> int n * k" using duration_units [OF k] by simp
  have s: "nanos_of (p # ps) = int n * k + nanos_of ps" by (simp add: nanos_of_def p k)
  have lim: "int n * k < 2 ^ 63" "d + int n * k < 2 ^ 63" "d + int n * k + nanos_of ps < 2 ^ 63"
    using Cons.prems(2,3) s pos [of ps] Cons.prems(1) k1 by simp_all
  have rest: "written ps = [] \<or> is_digit (hd (written ps))"
  proof (cases ps)
    case (Cons q qs)
    have "is_digit (hd (show_nat m @ t))" for m t using show_nat_list_all [of m] by (cases "show_nat m") auto
    then show ?thesis using Cons by (cases q) (simp add: written_def)
  qed (simp add: written_def)
  have w: "written (p # ps) = show_nat n @ u @ written ps" by (simp add: written_def p)
  have "duration_items orig d (written (p # ps)) = duration_items orig (d + int n * k) (written ps)"
    using item_written [OF k lim(1) rest, of orig] lim(2) Cons.prems(2) k1
    by (subst duration_items.simps) (simp add: w Let_def)
  then show ?case using Cons.IH [of "d + int n * k"] Cons.prems lim(3) k1 s by (simp add: add.assoc)
qed

text \<open>
  A duration that is written as whole numbers with their units, one after another, is read as the sum of them,
  as long as it fits 63 bits.
\<close>

lemma ParseDuration_exact:
  assumes "ps \<noteq> []" and "list_all (\<lambda>(n, u). map_of unitMap u \<noteq> None) ps" and "nanos_of ps < 2 ^ 63"
  shows "ParseDuration (written ps) = Inr (nanos_of ps)"
proof -
  obtain n u qs where ps: "ps = (n, u) # qs" using assms(1) by (cases ps) auto
  obtain k where k: "map_of unitMap u = Some k" using assms(2) ps by auto
  obtain c cs where c: "show_nat n = c # cs" by (cases "show_nat n") auto
  have "is_digit c" using c show_nat_list_all [of n] by simp
  then have "c \<noteq> CHR ''-''" "c \<noteq> CHR ''+''" by (auto simp: is_digit_def less_eq_char_def)
  moreover have "u \<noteq> [] \<and> in_unit (hd u)" using duration_units [OF k] by (cases u) auto
  then have "length (written ps) \<noteq> 1" "written ps \<noteq> []" using c by (auto simp: written_def ps)
  then have "written ps \<noteq> ''0''" "written ps \<noteq> []" by auto
  ultimately show ?thesis
    using items_written [OF assms(2), of 0 "written ps"] assms(3) c
    by (simp add: ParseDuration_def Let_def) (simp add: written_def ps)
qed

lemma ParseDuration_exact_witness: "ParseDuration ''1h30m'' = Inr 5400000000000"
proof -
  have "written [(1, ''h''), (30, ''m'')] = ''1h30m''" by code_simp
  moreover have "nanos_of [(1, ''h''), (30, ''m'')] = 5400000000000" by (simp add: nanos_of_def unitMap_def)
  ultimately show ?thesis using ParseDuration_exact [of "[(1, ''h''), (30, ''m'')]"] by (simp add: unitMap_def)
qed

end
