(* ===== verification/Config.thy ===== *)
theory Config
  imports Access Durations
begin

text \<open>
  The settings of the daemon (\<open>src/internal/config/config.go\<close>), from the environment of the process,
  \<open>filepath.Join\<close> and \<open>spec.Load\<close>. The TOML decoder is an argument.
\<close>

section \<open>Paths\<close>

text \<open>\<open>path.Clean\<close> of a rooted path, on its segments: \<open>..\<close> at the root is dropped.\<close>

fun walk_rooted :: "string list \<Rightarrow> string list \<Rightarrow> string list" where
  "walk_rooted st [] = rev st"
| "walk_rooted st (w # ws) =
     (if w = [] \<or> w = ''.'' then walk_rooted st ws
      else if w = ''..'' then walk_rooted (drop 1 st) ws
      else walk_rooted (w # st) ws)"

definition path_clean :: "string \<Rightarrow> string" where
  "path_clean p =
     (if prefix ''/'' p then CHR ''/'' # join_with ''/'' (walk_rooted [] (split_on (CHR ''/'') p))
      else let segs = clean_segs [] (split_on (CHR ''/'') p) in
        if segs = [] then ''.'' else join_with ''/'' segs)"

definition path_join :: "string \<Rightarrow> string \<Rightarrow> string" where
  "path_join dir name = path_clean (dir @ ''/'' @ name)"

text \<open>\<open>filepath.Join\<close> of two elements, of which an empty one is left out.\<close>

definition filepath_join :: "string \<Rightarrow> string \<Rightarrow> string" where
  "filepath_join dir name =
     (if dir = [] then (if name = [] then [] else path_clean name)
      else if name = [] then path_clean dir else path_join dir name)"

text \<open>\<open>spec.Load\<close>: \<open>toml\<close> decodes a document, \<open>read\<close> reads a file.\<close>

definition Load :: "(string \<Rightarrow> string res) \<Rightarrow> (string \<Rightarrow> app res) \<Rightarrow> string \<Rightarrow> app res" where
  "Load read toml dir =
     (let path = filepath_join dir ''lwd.toml'' in
      case read path of
        Inl e \<Rightarrow> Inl (Wrapf ''read %s: %w'' [path] e)
      | Inr text \<Rightarrow> (case Parse toml text of
          Inl e \<Rightarrow> Inl e
        | Inr a \<Rightarrow>
            Inr (if a_compose a \<noteq> [] \<and> \<not> prefix ''/'' (a_compose a)
                 then a\<lparr>a_compose := filepath_join dir (a_compose a)\<rparr> else a)))"

section \<open>Settings\<close>

definition DataDir :: "(string \<Rightarrow> string) \<Rightarrow> string" where
  "DataDir getenv = (if getenv ''LWD_DATA_DIR'' \<noteq> [] then getenv ''LWD_DATA_DIR'' else ''/var/lib/lwd'')"

definition SocketPath :: "(string \<Rightarrow> string) \<Rightarrow> string" where
  "SocketPath getenv = path_join (DataDir getenv) ''lwd.sock''"

definition DBPath :: "(string \<Rightarrow> string) \<Rightarrow> string" where
  "DBPath getenv = path_join (DataDir getenv) ''lwd.db''"

definition CaddyfilePath :: "(string \<Rightarrow> string) \<Rightarrow> string" where
  "CaddyfilePath getenv = path_join (DataDir getenv) ''Caddyfile''"

definition KeyPath :: "(string \<Rightarrow> string) \<Rightarrow> string" where
  "KeyPath getenv = path_join (DataDir getenv) ''secret.key''"

definition defaultReconcileInterval :: int where "defaultReconcileInterval = 15000000000"
definition defaultHealMaxAttempts :: int where "defaultHealMaxAttempts = 5"
definition defaultFailoverGrace :: int where "defaultFailoverGrace = 60000000000"

definition ReconcileInterval :: "(string \<Rightarrow> string) \<Rightarrow> int" where
  "ReconcileInterval getenv =
     (let v = getenv ''LWD_RECONCILE_INTERVAL'' in
      if v = [] then defaultReconcileInterval
      else case ParseDuration v of
        Inl _ \<Rightarrow> defaultReconcileInterval
      | Inr d \<Rightarrow> if d \<le> 0 then defaultReconcileInterval else d)"

text \<open>\<open>strconv.Atoi\<close> is \<open>ParseInt(s, 10, 64)\<close>.\<close>

definition HealMaxAttempts :: "(string \<Rightarrow> string) \<Rightarrow> int" where
  "HealMaxAttempts getenv =
     (let v = getenv ''LWD_HEAL_MAX_ATTEMPTS'' in
      if v = [] then defaultHealMaxAttempts
      else case ParseInt64 v of
        None \<Rightarrow> defaultHealMaxAttempts
      | Some n \<Rightarrow> if n \<le> 0 then defaultHealMaxAttempts else n)"

definition FailoverGrace :: "(string \<Rightarrow> string) \<Rightarrow> int" where
  "FailoverGrace getenv =
     (let v = getenv ''LWD_FAILOVER_GRACE'' in
      if v = [] then defaultFailoverGrace
      else case ParseDuration v of
        Inl _ \<Rightarrow> defaultFailoverGrace
      | Inr d \<Rightarrow> if d \<le> 0 then defaultFailoverGrace else d)"

definition APIAddr :: "(string \<Rightarrow> string) \<Rightarrow> string" where "APIAddr getenv = getenv ''LWD_ADDR''"
definition APIToken :: "(string \<Rightarrow> string) \<Rightarrow> string" where "APIToken getenv = getenv ''LWD_API_TOKEN''"

section \<open>What the daemon may rely on\<close>

text \<open>The ticker of the loop never panics, an app is healed at least once, a node gets some grace.\<close>

lemma settings_positive:
  "0 < ReconcileInterval getenv" "0 < HealMaxAttempts getenv" "0 < FailoverGrace getenv"
  by (simp_all add: ReconcileInterval_def HealMaxAttempts_def FailoverGrace_def Let_def
      defaultReconcileInterval_def defaultHealMaxAttempts_def defaultFailoverGrace_def split: sum.splits option.splits)

lemma walk_rooted_append: "walk_rooted st (us @ ws) = walk_rooted (rev (walk_rooted st us)) ws"
  by (induction st us rule: walk_rooted.induct) auto

lemma walk_rooted_set:
  "w \<in> set (walk_rooted st ws) \<Longrightarrow> w \<in> set st \<or> w \<in> set ws \<and> w \<notin> {[], ''.'', ''..''}"
proof (induction st ws rule: walk_rooted.induct)
  case (2 st v ws)
  then show ?case by (cases st) (auto split: if_splits)
qed simp

lemma join_with_snoc: "join_with sep (ws @ [w]) = (if ws = [] then w else join_with sep ws @ sep @ w)"
  by (induction sep ws rule: join_with.induct) auto

text \<open>A file of a rooted data directory is the cleaned directory with the name added.\<close>

lemma path_join_rooted:
  assumes "prefix ''/'' dir" and "CHR ''/'' \<notin> set name" and "name \<notin> {[], ''.'', ''..''}"
  shows "path_join dir name = (if path_clean dir = ''/'' then ''/'' @ name else path_clean dir @ ''/'' @ name)"
proof -
  have p: "prefix ''/'' (dir @ ''/'' @ name)" using assms(1) by (auto simp: prefix_def)
  let ?w = "walk_rooted [] (split_on (CHR ''/'') dir)"
  have "walk_rooted [] (split_on (CHR ''/'') (dir @ ''/'' @ name)) = ?w @ [name]"
    using assms(2,3) by (simp add: split_on_append walk_rooted_append split_on_free)
  moreover have "?w = [] \<or> join_with ''/'' ?w \<noteq> []"
  proof -
    show ?thesis using walk_rooted_set [of _ "[]" "split_on (CHR ''/'') dir"]
      by (cases ?w; cases "tl ?w") auto
  qed
  ultimately show ?thesis using assms(1) p by (auto simp: path_join_def path_clean_def join_with_snoc)
qed

end
