(* ===== verification/Client.thy ===== *)
theory Client
  imports Api Config
begin

text \<open>
  The HTTP client of the daemon (\<open>src/internal/client/client.go\<close>) and the routes its requests are
  matched with (\<open>Server.Handler\<close> in \<open>src/internal/api/api.go\<close>): from the text of a URL over the request
  on the wire to the handler, and back. Of Go's \<open>net/url\<close> and \<open>net/http\<close> it writes out what decides where
  a request goes: escapes in paths, the cleaning of paths, redirects. Whether an authority is well
  formed is the argument \<open>ok\<close>; the network is the argument \<open>dial\<close>.
\<close>

section \<open>URLs\<close>

definition unhex :: "char \<Rightarrow> nat option" where
  "unhex c = (if is_digit c then Some (of_char c - 48)
     else if CHR ''a'' \<le> c \<and> c \<le> CHR ''f'' then Some (of_char c - 87)
     else if CHR ''A'' \<le> c \<and> c \<le> CHR ''F'' then Some (of_char c - 55)
     else None)"

fun unescape :: "string \<Rightarrow> string option" where
  "unescape [] = Some []"
| "unescape (c # cs) =
     (if c = CHR ''%'' then
        (case cs of
           a # b # rest \<Rightarrow> (case (unhex a, unhex b) of
             (Some x, Some y) \<Rightarrow> map_option ((#) (char_of (16 * x + y))) (unescape rest)
           | _ \<Rightarrow> None)
         | _ \<Rightarrow> None)
      else map_option ((#) c) (unescape cs))"

text \<open>What \<open>net/url\<close> writes as it is in a path, and what it accepts there besides.\<close>

definition unreserved :: "char \<Rightarrow> bool" where
  "unreserved c = (is_alnum c \<or> c \<in> {CHR ''-'', CHR ''_'', CHR ''.'', CHR ''~''})"

definition kept_char :: "char \<Rightarrow> bool" where
  "kept_char c = (unreserved c \<or> c \<in> set ''$&+,/:;=@'')"

definition valid_encoded :: "string \<Rightarrow> bool" where
  "valid_encoded p = list_all (\<lambda>c. kept_char c \<or> c \<in> set ''!()*[]%'' \<or> c = CHR 0x27) p"

definition upper_hex :: "nat \<Rightarrow> char" where
  "upper_hex n = (if n < 10 then char_of (48 + n) else char_of (55 + n))"

definition escape_path :: "string \<Rightarrow> string" where
  "escape_path p = concat (map (\<lambda>c. if kept_char c then [c]
     else [CHR ''%'', upper_hex (of_char c div 16), upper_hex (of_char c mod 16)]) p)"

text \<open>\<open>URL.EscapedPath\<close> of a parsed path.\<close>

definition wire_path :: "string \<Rightarrow> string option" where
  "wire_path raw = map_option (\<lambda>p. if valid_encoded raw then raw else escape_path p) (unescape raw)"

definition control_char :: "char \<Rightarrow> bool" where
  "control_char c = (of_char c < (32 :: nat) \<or> c = CHR 0x7F)"

text \<open>\<open>strings.Cut\<close> with one byte.\<close>

definition cut :: "char \<Rightarrow> string \<Rightarrow> string \<times> string" where
  "cut c s = (takeWhile (\<lambda>d. d \<noteq> c) s, drop 1 (dropWhile (\<lambda>d. d \<noteq> c) s))"

definition scheme_rest :: "string \<Rightarrow> string option" where
  "scheme_rest u = (if prefix ''http://'' u then Some (drop 7 u) else if prefix ''https://'' u then Some (drop 8 u) else None)"

text \<open>The authority, the path on the wire and the query of an HTTP URL.\<close>

definition parse_url :: "(string \<Rightarrow> bool) \<Rightarrow> string \<Rightarrow> (string \<times> string \<times> string) option" where
  "parse_url ok url =
     (if list_ex control_char url then None
      else case cut (CHR ''#'') url of (u, frag) \<Rightarrow>
        if unescape frag = None then None
        else (case scheme_rest u of
          None \<Rightarrow> None
        | Some rest \<Rightarrow> (case cut (CHR ''?'') rest of (hp, query) \<Rightarrow>
            let host = takeWhile (\<lambda>c. c \<noteq> CHR ''/'') hp; path = dropWhile (\<lambda>c. c \<noteq> CHR ''/'') hp in
            if \<not> ok host then None
            else map_option (\<lambda>p. (host, p, query)) (wire_path path))))"

section \<open>Requests\<close>

datatype http_method = GET | POST | DELETE

text \<open>The bodies the client sends, as JSON.\<close>

datatype sent =
    SentNothing
  | SentApp app
  | SentReplicas int
  | SentSecret string string
  | SentNode node_request

text \<open>\<open>hq_path\<close> is the escaped path here, and \<open>dq_query\<close> what follows the question mark.\<close>

record daemon_req = http_req +
  dq_method :: http_method
  dq_query :: string
  dq_body :: sent

text \<open>An answer of the server, or its redirect to another path.\<close>

datatype served = Replied reply | Moved string string

section \<open>The routes of the daemon\<close>

text \<open>
  Decoding JSON of one shape as another: fields are matched by name, without regard to case, and those
  that are not there keep their zero value.
\<close>

definition no_app :: app where
  "no_app = \<lparr>a_name = [], a_image = [], a_domain = [], a_port = 0, a_node = [], a_pool = [], a_env = [], a_secrets = [],
     a_health = \<lparr>h_path = [], h_timeout = 0, h_raw_timeout = []\<rparr>, a_replicas = 0, a_requirements = None, a_compose = [],
     a_service = [], a_git = None, a_services = [], a_build = None, a_surfaces = []\<rparr>"

definition no_body :: "'a res" where "no_body = Inl (Errf ''EOF'' [])"

definition app_of_body :: "sent \<Rightarrow> app res" where
  "app_of_body b = (case b of
     SentNothing \<Rightarrow> no_body
   | SentApp a \<Rightarrow> Inr a
   | SentReplicas n \<Rightarrow> Inr (no_app\<lparr>a_replicas := n\<rparr>)
   | SentSecret _ _ \<Rightarrow> Inr no_app
   | SentNode q \<Rightarrow> Inr (no_app\<lparr>a_name := nq_name q, a_pool := nq_pool q\<rparr>))"

definition replicas_of_body :: "sent \<Rightarrow> int res" where
  "replicas_of_body b = (case b of
     SentNothing \<Rightarrow> no_body | SentApp a \<Rightarrow> Inr (a_replicas a) | SentReplicas n \<Rightarrow> Inr n | _ \<Rightarrow> Inr 0)"

definition secret_of_body :: "sent \<Rightarrow> (string \<times> string) res" where
  "secret_of_body b = (case b of SentNothing \<Rightarrow> no_body | SentSecret k v \<Rightarrow> Inr (k, v) | _ \<Rightarrow> Inr ([], []))"

definition node_of_body :: "sent \<Rightarrow> node_request res" where
  "node_of_body b = (let zero = \<lparr>nq_name = [], nq_ssh_host = [], nq_mesh_addr = [], nq_agent_url = [], nq_pool = []\<rparr> in
     case b of
       SentNothing \<Rightarrow> no_body
     | SentNode q \<Rightarrow> Inr q
     | SentApp a \<Rightarrow> Inr (zero\<lparr>nq_name := a_name a, nq_pool := a_pool a\<rparr>)
     | _ \<Rightarrow> Inr zero)"

text \<open>\<open>r.URL.Query().Get(k)\<close>\<close>

definition plus_as_space :: "string \<Rightarrow> string" where
  "plus_as_space = map (\<lambda>c. if c = CHR ''+'' then CHR '' '' else c)"

definition query_pair :: "string \<Rightarrow> (string \<times> string) option" where
  "query_pair part =
     (if part = [] \<or> CHR '';'' \<in> set part then None
      else case cut (CHR ''='') part of (k, v) \<Rightarrow>
        (case (unescape (plus_as_space k), unescape (plus_as_space v)) of
           (Some k', Some v') \<Rightarrow> Some (k', v') | _ \<Rightarrow> None))"

definition query_param :: "string \<Rightarrow> string \<Rightarrow> string" where
  "query_param k query =
     (case map_of (List.map_filter query_pair (split_on (CHR ''&'') query)) k of None \<Rightarrow> [] | Some v \<Rightarrow> v)"

text \<open>The patterns, on the decoded segments of a clean path; a wildcard matches no empty segment.\<close>

definition route_to :: "http_method \<Rightarrow> string list \<Rightarrow> string \<Rightarrow> sent \<Rightarrow> request option" where
  "route_to m segs query b = (case segs of
     [x] \<Rightarrow>
       if m = POST \<and> x = ''apply'' then Some (PostApply (app_of_body b))
       else if m = GET \<and> x = ''apps'' then Some GetApps
       else if m = POST \<and> x = ''nodes'' then Some (PostNode (node_of_body b))
       else if m = GET \<and> x = ''nodes'' then Some GetNodes
       else if m = GET \<and> x = ''pools'' then Some GetPools
       else if m = GET \<and> x = ''health'' then Some GetHealth
       else None
   | [x, n] \<Rightarrow>
       if n = [] then None
       else if m = DELETE \<and> x = ''apps'' then Some (DeleteApp n)
       else if m = DELETE \<and> x = ''nodes'' then Some (DeleteNodeNamed n)
       else None
   | [x, n, y] \<Rightarrow>
       if n = [] then None
       else if m = GET \<and> x = ''apps'' \<and> y = ''logs'' then Some (GetLogs n (query_param ''follow'' query = ''true''))
       else if m = GET \<and> x = ''apps'' \<and> y = ''history'' then Some (GetHistory n)
       else if m = POST \<and> x = ''apps'' \<and> y = ''rollback'' then Some (PostRollback n)
       else if m = POST \<and> x = ''apps'' \<and> y = ''scale'' then Some (PostScale n (replicas_of_body b))
       else if m = POST \<and> x = ''apps'' \<and> y = ''secrets'' then Some (PostSecret n (secret_of_body b))
       else if m = GET \<and> x = ''apps'' \<and> y = ''secrets'' then Some (GetSecrets n)
       else if m = POST \<and> x = ''nodes'' \<and> y = ''uncordon'' then Some (PostUncordon n)
       else if m = POST \<and> x = ''nodes'' \<and> y = ''evacuate'' then Some (PostEvacuate n)
       else if m = POST \<and> x = ''nodes'' \<and> y = ''drain'' then Some (PostDrain n)
       else None
   | [x, n, y, k] \<Rightarrow>
       if n \<noteq> [] \<and> k \<noteq> [] \<and> m = DELETE \<and> x = ''apps'' \<and> y = ''secrets'' then Some (DeleteSecretKey n k)
       else None
   | _ \<Rightarrow> None)"

definition path_segs :: "string \<Rightarrow> string list" where
  "path_segs p = split_on (CHR ''/'') (drop 1 p)"

text \<open>\<open>cleanPath\<close>: a final slash stays.\<close>

definition clean_path :: "string list \<Rightarrow> string list" where
  "clean_path segs = (let c = walk_rooted [] segs in
     if c = [] then [[]] else if last segs = [] then c @ [[]] else c)"

definition seg_value :: "string \<Rightarrow> string" where
  "seg_value s = (case unescape s of None \<Rightarrow> s | Some v \<Rightarrow> v)"

text \<open>
  The server: a request line that a blank in the query breaks is refused, a path that is not clean
  is redirected, and one without a route is not found or not allowed.
\<close>

definition serve_mux ::
  "'x env \<Rightarrow> (string \<Rightarrow> bool) \<Rightarrow> (string \<Rightarrow> (string \<times> string) res) \<Rightarrow> daemon_req \<Rightarrow> ('x sys, served) state"
where
  "serve_mux env ip url r =
     (let segs = path_segs (hq_path r); vs = map seg_value segs in
      if CHR '' '' \<in> set (dq_query r) then ret (Replied (400, NoBody))
      else if clean_path segs \<noteq> segs
      then ret (Moved (escape_path (CHR ''/'' # join_with ''/'' (clean_path segs))) (dq_query r))
      else case route_to (dq_method r) vs (dq_query r) (dq_body r) of
        Some q \<Rightarrow> Handler env ip url q \<bind> (\<lambda>a. ret (Replied a))
      | None \<Rightarrow> ret (Replied
          (if list_ex (\<lambda>m. route_to m vs (dq_query r) (dq_body r) \<noteq> None) [GET, POST, DELETE] then 405 else 404, NoBody)))"

text \<open>A listener: with a token on TCP, without one on the unix socket.\<close>

definition serve_daemon ::
  "'x env \<Rightarrow> (string \<Rightarrow> bool) \<Rightarrow> (string \<Rightarrow> (string \<times> string) res) \<Rightarrow> string \<Rightarrow> daemon_req \<Rightarrow> ('x sys, served) state"
where
  "serve_daemon env ip url token r = (case bearerMiddleware token (serve_mux env ip url) r of
     Unauthorized \<Rightarrow> ret (Replied (401, ErrBody (Errf ''unauthorized'' [])))
   | Passed m \<Rightarrow> m)"

section \<open>The client\<close>

record client =
  cl_base :: string
  cl_target :: string
  cl_token :: string

definition New :: "string \<Rightarrow> client" where
  "New socketPath = \<lparr>cl_base = ''http://lwd'', cl_target = ''unix://'' @ socketPath, cl_token = []\<rparr>"

definition NewHTTP :: "string \<Rightarrow> string \<Rightarrow> client" where
  "NewHTTP baseURL token =
     (let base0 = (if suffix ''/'' baseURL then butlast baseURL else baseURL);
          base = (if \<not> prefix ''http://'' base0 \<and> \<not> prefix ''https://'' base0 then ''http://'' @ base0 else base0) in
      \<lparr>cl_base = base, cl_target = base, cl_token = token\<rparr>)"

fun firstNonEmpty :: "string list \<Rightarrow> string" where
  "firstNonEmpty [] = []"
| "firstNonEmpty (v # vs) = (if v \<noteq> [] then v else firstNonEmpty vs)"

definition FromEnv :: "(string \<Rightarrow> string) \<Rightarrow> client" where
  "FromEnv getenv =
     (if getenv ''LWD_DAEMON'' \<noteq> [] then NewHTTP (getenv ''LWD_DAEMON'') (getenv ''LWD_API_TOKEN'')
      else New (firstNonEmpty [getenv ''LWD_SOCKET'', SocketPath getenv]))"

text \<open>One exchange with a server at an authority, which fails when there is no connection.\<close>

type_synonym 's transport = "string \<Rightarrow> daemon_req \<Rightarrow> ('s, served res) state"

definition op_name :: "http_method \<Rightarrow> string" where
  "op_name m = (case m of GET \<Rightarrow> ''Get'' | POST \<Rightarrow> ''Post'' | DELETE \<Rightarrow> ''Delete'')"

text \<open>The \<open>url.Error\<close> that \<open>http.Client.Do\<close> makes of an error.\<close>

definition url_error :: "string \<Rightarrow> daemon_req \<Rightarrow> goerr \<Rightarrow> goerr" where
  "url_error host r e = Wrapf ''%s %q: %w'' [op_name (dq_method r), host @ hq_path r] e"

text \<open>\<open>daemonErrTransport.RoundTrip\<close>\<close>

definition daemonErr :: "client \<Rightarrow> served res \<Rightarrow> served res" where
  "daemonErr c r = (case r of
     Inl e \<Rightarrow> Inl (Wrapf (''cannot reach the lwd daemon at %s '' @ [CHR 0xE2, CHR 0x80, CHR 0x94] @
       '' is it running? start it with `sudo lwd daemon` (it needs root for /var/lib/lwd + Docker, or set LWD_DATA_DIR to a writable path); for a remote daemon set LWD_DAEMON=host:port and LWD_API_TOKEN: %w'')
       [cl_target c] e)
   | Inr v \<Rightarrow> Inr v)"

text \<open>\<open>bearerTransport.RoundTrip\<close>\<close>

definition bearer_header :: "client \<Rightarrow> string" where
  "bearer_header c = (if cl_token c = [] then [] else ''Bearer '' @ cl_token c)"

text \<open>\<open>http.Client.Do\<close>: at most ten requests; a redirect (301) is followed with a GET without a body.\<close>

fun do_request :: "'s transport \<Rightarrow> client \<Rightarrow> string \<Rightarrow> nat \<Rightarrow> daemon_req \<Rightarrow> ('s, reply res) state" where
  "do_request dial c host 0 r = ret (Inl (url_error host r (Errf ''stopped after 10 redirects'' [])))"
| "do_request dial c host (Suc n) r = dial host r \<bind> (\<lambda>x. case daemonErr c x of
     Inl e \<Rightarrow> ret (Inl (url_error host r e))
   | Inr (Replied a) \<Rightarrow> ret (Inr a)
   | Inr (Moved p q) \<Rightarrow>
       do_request dial c host n (r\<lparr>hq_path := p, dq_query := q, dq_method := GET, dq_body := SentNothing\<rparr>))"

text \<open>
  A request whose URL does not parse is \<open>nil\<close>, its error is dropped, and using it panics: \<open>None\<close>.
\<close>

definition send :: "'s transport \<Rightarrow> (string \<Rightarrow> bool) \<Rightarrow> client \<Rightarrow> http_method \<Rightarrow> string \<Rightarrow> sent \<Rightarrow> ('s, reply res option) state" where
  "send dial ok c m path body = (case parse_url ok (cl_base c @ path) of
     None \<Rightarrow> ret None
   | Some (host, p, q) \<Rightarrow>
       do_request dial c host 10 \<lparr>hq_path = p, hq_auth = bearer_header c, hq_session = None, hq_tls = False, hq_forwarded = [],
         dq_method = m, dq_query = q, dq_body = body\<rparr> \<bind> (\<lambda>r. ret (Some r)))"

text \<open>No error of the daemon has an empty text. A body of another kind does not decode.\<close>

definition decodeErr :: "reply \<Rightarrow> goerr" where
  "decodeErr r = (case snd r of ErrBody e \<Rightarrow> Wrapf ''%s'' [] e | _ \<Rightarrow> Errf ''http %d'' [])"

definition bad_json :: "'a res" where "bad_json = Inl (Errf ''json: cannot unmarshal'' [])"

definition as_deployment :: "body \<Rightarrow> deployment res" where
  "as_deployment b = (case b of DeploymentBody d \<Rightarrow> Inr d | NoBody \<Rightarrow> no_body | _ \<Rightarrow> bad_json)"
definition as_apps :: "body \<Rightarrow> app_status list res" where
  "as_apps b = (case b of AppsBody l \<Rightarrow> Inr l | NoBody \<Rightarrow> no_body | _ \<Rightarrow> bad_json)"
definition as_history :: "body \<Rightarrow> deployment list res" where
  "as_history b = (case b of HistoryBody l \<Rightarrow> Inr l | NoBody \<Rightarrow> no_body | _ \<Rightarrow> bad_json)"
definition as_names :: "body \<Rightarrow> string list res" where
  "as_names b = (case b of NamesBody l \<Rightarrow> Inr l | NoBody \<Rightarrow> no_body | _ \<Rightarrow> bad_json)"
definition as_nodes :: "body \<Rightarrow> node_status list res" where
  "as_nodes b = (case b of NodesBody l \<Rightarrow> Inr l | NoBody \<Rightarrow> no_body | _ \<Rightarrow> bad_json)"
definition as_pools :: "body \<Rightarrow> (string \<times> nat) list res" where
  "as_pools b = (case b of PoolsBody l \<Rightarrow> Inr l | NoBody \<Rightarrow> no_body | _ \<Rightarrow> bad_json)"
definition as_evacuated :: "body \<Rightarrow> evacuate_result res" where
  "as_evacuated b = (case b of EvacuateBody r \<Rightarrow> Inr r | NoBody \<Rightarrow> no_body | _ \<Rightarrow> bad_json)"
definition as_health :: "body \<Rightarrow> health res" where
  "as_health b = (case b of HealthBody h \<Rightarrow> Inr h | NoBody \<Rightarrow> no_body | _ \<Rightarrow> bad_json)"
definition as_logs :: "body \<Rightarrow> string res" where
  "as_logs b = (case b of LogsBody l \<Rightarrow> Inr l | NoBody \<Rightarrow> Inr [] | _ \<Rightarrow> bad_json)"
definition as_unit :: "body \<Rightarrow> unit res" where "as_unit b = Inr ()"

lemmas body_decoders = as_deployment_def as_apps_def as_history_def as_names_def as_nodes_def as_pools_def as_evacuated_def
  as_health_def as_logs_def as_unit_def

text \<open>The answer with the status a method expects, decoded.\<close>

definition received :: "nat \<Rightarrow> (body \<Rightarrow> 'a res) \<Rightarrow> reply res \<Rightarrow> 'a res" where
  "received code decode r = (case r of
     Inl e \<Rightarrow> Inl e
   | Inr (status, b) \<Rightarrow> if status \<noteq> code then Inl (decodeErr (status, b)) else decode b)"

definition exchange :: "nat \<Rightarrow> (body \<Rightarrow> 'a res) \<Rightarrow> ('s, reply res option) state \<Rightarrow> ('s, 'a res option) state" where
  "exchange code decode m = m \<bind> (\<lambda>r. ret (map_option (received code decode) r))"

text \<open>The methods. \<open>AddNode\<close> takes its five strings as the record of the request.\<close>

definition client_Apply :: "'s transport \<Rightarrow> (string \<Rightarrow> bool) \<Rightarrow> client \<Rightarrow> app \<Rightarrow> ('s, deployment res option) state" where
  "client_Apply dial ok c a = exchange 200 as_deployment (send dial ok c POST ''/apply'' (SentApp a))"

definition client_Rollback :: "'s transport \<Rightarrow> (string \<Rightarrow> bool) \<Rightarrow> client \<Rightarrow> string \<Rightarrow> ('s, deployment res option) state" where
  "client_Rollback dial ok c name = exchange 200 as_deployment (send dial ok c POST (''/apps/'' @ name @ ''/rollback'') SentNothing)"

definition client_Scale :: "'s transport \<Rightarrow> (string \<Rightarrow> bool) \<Rightarrow> client \<Rightarrow> string \<Rightarrow> int \<Rightarrow> ('s, deployment res option) state" where
  "client_Scale dial ok c name n = exchange 200 as_deployment (send dial ok c POST (''/apps/'' @ name @ ''/scale'') (SentReplicas n))"

definition client_Apps :: "'s transport \<Rightarrow> (string \<Rightarrow> bool) \<Rightarrow> client \<Rightarrow> ('s, app_status list res option) state" where
  "client_Apps dial ok c = exchange 200 as_apps (send dial ok c GET ''/apps'' SentNothing)"

definition client_History :: "'s transport \<Rightarrow> (string \<Rightarrow> bool) \<Rightarrow> client \<Rightarrow> string \<Rightarrow> ('s, deployment list res option) state" where
  "client_History dial ok c name = exchange 200 as_history (send dial ok c GET (''/apps/'' @ name @ ''/history'') SentNothing)"

definition client_Logs :: "'s transport \<Rightarrow> (string \<Rightarrow> bool) \<Rightarrow> client \<Rightarrow> string \<Rightarrow> bool \<Rightarrow> ('s, string res option) state" where
  "client_Logs dial ok c name follow = exchange 200 as_logs (send dial ok c GET (''/apps/'' @ name @ ''/logs'' @ (if follow then ''?follow=true'' else [])) SentNothing)"

definition client_Remove :: "'s transport \<Rightarrow> (string \<Rightarrow> bool) \<Rightarrow> client \<Rightarrow> string \<Rightarrow> ('s, unit res option) state" where
  "client_Remove dial ok c name = exchange 204 as_unit (send dial ok c DELETE (''/apps/'' @ name) SentNothing)"

definition client_SetSecret :: "'s transport \<Rightarrow> (string \<Rightarrow> bool) \<Rightarrow> client \<Rightarrow> string \<Rightarrow> string \<Rightarrow> string \<Rightarrow> ('s, unit res option) state" where
  "client_SetSecret dial ok c name key v = exchange 204 as_unit (send dial ok c POST (''/apps/'' @ name @ ''/secrets'') (SentSecret key v))"

definition client_ListSecrets :: "'s transport \<Rightarrow> (string \<Rightarrow> bool) \<Rightarrow> client \<Rightarrow> string \<Rightarrow> ('s, string list res option) state" where
  "client_ListSecrets dial ok c name = exchange 200 as_names (send dial ok c GET (''/apps/'' @ name @ ''/secrets'') SentNothing)"

definition client_DeleteSecret :: "'s transport \<Rightarrow> (string \<Rightarrow> bool) \<Rightarrow> client \<Rightarrow> string \<Rightarrow> string \<Rightarrow> ('s, unit res option) state" where
  "client_DeleteSecret dial ok c name key = exchange 204 as_unit (send dial ok c DELETE (''/apps/'' @ name @ ''/secrets/'' @ key) SentNothing)"

definition client_AddNode :: "'s transport \<Rightarrow> (string \<Rightarrow> bool) \<Rightarrow> client \<Rightarrow> node_request \<Rightarrow> ('s, unit res option) state" where
  "client_AddNode dial ok c q = exchange 204 as_unit (send dial ok c POST ''/nodes'' (SentNode q))"

definition client_Nodes :: "'s transport \<Rightarrow> (string \<Rightarrow> bool) \<Rightarrow> client \<Rightarrow> ('s, node_status list res option) state" where
  "client_Nodes dial ok c = exchange 200 as_nodes (send dial ok c GET ''/nodes'' SentNothing)"

definition client_Pools :: "'s transport \<Rightarrow> (string \<Rightarrow> bool) \<Rightarrow> client \<Rightarrow> ('s, (string \<times> nat) list res option) state" where
  "client_Pools dial ok c = exchange 200 as_pools (send dial ok c GET ''/pools'' SentNothing)"

definition client_Health :: "'s transport \<Rightarrow> (string \<Rightarrow> bool) \<Rightarrow> client \<Rightarrow> ('s, health res option) state" where
  "client_Health dial ok c = exchange 200 as_health (send dial ok c GET ''/health'' SentNothing)"

definition client_RemoveNode :: "'s transport \<Rightarrow> (string \<Rightarrow> bool) \<Rightarrow> client \<Rightarrow> string \<Rightarrow> ('s, unit res option) state" where
  "client_RemoveNode dial ok c name = exchange 204 as_unit (send dial ok c DELETE (''/nodes/'' @ name) SentNothing)"

definition client_Uncordon :: "'s transport \<Rightarrow> (string \<Rightarrow> bool) \<Rightarrow> client \<Rightarrow> string \<Rightarrow> ('s, unit res option) state" where
  "client_Uncordon dial ok c name = exchange 204 as_unit (send dial ok c POST (''/nodes/'' @ name @ ''/uncordon'') SentNothing)"

definition client_Evacuate :: "'s transport \<Rightarrow> (string \<Rightarrow> bool) \<Rightarrow> client \<Rightarrow> string \<Rightarrow> ('s, evacuate_result res option) state" where
  "client_Evacuate dial ok c name = exchange 200 as_evacuated (send dial ok c POST (''/nodes/'' @ name @ ''/evacuate'') SentNothing)"

definition client_Drain :: "'s transport \<Rightarrow> (string \<Rightarrow> bool) \<Rightarrow> client \<Rightarrow> string \<Rightarrow> ('s, evacuate_result res option) state" where
  "client_Drain dial ok c name = exchange 200 as_evacuated (send dial ok c POST (''/nodes/'' @ name @ ''/drain'') SentNothing)"

text \<open>The interface \<open>web.DaemonClient\<close>, of which \<open>mcp.ClientIface\<close> has all but the pools.\<close>

record 's daemon_client =
  dc_apply :: "app \<Rightarrow> ('s, deployment res option) state"
  dc_rollback :: "string \<Rightarrow> ('s, deployment res option) state"
  dc_scale :: "string \<Rightarrow> int \<Rightarrow> ('s, deployment res option) state"
  dc_apps :: "('s, app_status list res option) state"
  dc_history :: "string \<Rightarrow> ('s, deployment list res option) state"
  dc_logs :: "string \<Rightarrow> bool \<Rightarrow> ('s, string res option) state"
  dc_remove :: "string \<Rightarrow> ('s, unit res option) state"
  dc_setsecret :: "string \<Rightarrow> string \<Rightarrow> string \<Rightarrow> ('s, unit res option) state"
  dc_listsecrets :: "string \<Rightarrow> ('s, string list res option) state"
  dc_deletesecret :: "string \<Rightarrow> string \<Rightarrow> ('s, unit res option) state"
  dc_addnode :: "node_request \<Rightarrow> ('s, unit res option) state"
  dc_nodes :: "('s, node_status list res option) state"
  dc_pools :: "('s, (string \<times> nat) list res option) state"
  dc_health :: "('s, health res option) state"
  dc_removenode :: "string \<Rightarrow> ('s, unit res option) state"
  dc_uncordon :: "string \<Rightarrow> ('s, unit res option) state"
  dc_evacuate :: "string \<Rightarrow> ('s, evacuate_result res option) state"
  dc_drain :: "string \<Rightarrow> ('s, evacuate_result res option) state"

definition http_client :: "'s transport \<Rightarrow> (string \<Rightarrow> bool) \<Rightarrow> client \<Rightarrow> 's daemon_client" where
  "http_client dial ok c = \<lparr>
     dc_apply = client_Apply dial ok c,
     dc_rollback = client_Rollback dial ok c,
     dc_scale = client_Scale dial ok c,
     dc_apps = client_Apps dial ok c,
     dc_history = client_History dial ok c,
     dc_logs = client_Logs dial ok c,
     dc_remove = client_Remove dial ok c,
     dc_setsecret = client_SetSecret dial ok c,
     dc_listsecrets = client_ListSecrets dial ok c,
     dc_deletesecret = client_DeleteSecret dial ok c,
     dc_addnode = client_AddNode dial ok c,
     dc_nodes = client_Nodes dial ok c,
     dc_pools = client_Pools dial ok c,
     dc_health = client_Health dial ok c,
     dc_removenode = client_RemoveNode dial ok c,
     dc_uncordon = client_Uncordon dial ok c,
     dc_evacuate = client_Evacuate dial ok c,
     dc_drain = client_Drain dial ok c\<rparr>"

section \<open>Where a plain request goes\<close>

text \<open>The names that arrive as they are: those of every app, secret and node that validation accepts.\<close>

definition plain_seg :: "string \<Rightarrow> bool" where
  "plain_seg s = (s \<notin> {[], ''.'', ''..''} \<and> list_all unreserved s)"

definition base_at :: "(string \<Rightarrow> bool) \<Rightarrow> client \<Rightarrow> string \<Rightarrow> bool" where
  "base_at ok c host = (cl_base c \<in> {''http://'' @ host, ''https://'' @ host} \<and> ok host \<and>
     list_all (\<lambda>d. \<not> control_char d \<and> d \<notin> {CHR ''/'', CHR ''?'', CHR ''#''}) host)"

definition path_of :: "string list \<Rightarrow> string" where
  "path_of segs = CHR ''/'' # join_with ''/'' segs"

lemma unreserved_plain:
  "unreserved c \<Longrightarrow> kept_char c \<and> \<not> control_char c \<and> c \<notin> {CHR ''/'', CHR ''?'', CHR ''#'', CHR ''%''}"
  by (auto simp: unreserved_def kept_char_def control_char_def is_alnum_def is_lower_def is_upper_def is_digit_def less_eq_char_def)

lemma unescape_free: "CHR ''%'' \<notin> set s \<Longrightarrow> unescape s = Some s"
  by (induction s) auto

lemma cut_free: "c \<notin> set s \<Longrightarrow> cut c s = (s, [])"
  by (induction s) (auto simp: cut_def)

lemma cut_at: "c \<notin> set s \<Longrightarrow> cut c (s @ c # t) = (s, t)"
  by (simp add: cut_def takeWhile_until)

text \<open>A path of plain segments, in a URL and on the wire.\<close>

lemma join_plain:
  assumes "list_all plain_seg segs" and "c \<in> set (join_with ''/'' segs)"
  shows "c = CHR ''/'' \<or> unreserved c"
  using assms by (induction "''/''" segs rule: join_with.induct) (auto simp: plain_seg_def list_all_iff)

lemma path_plain:
  assumes "list_all plain_seg segs" and "c \<in> set (path_of segs)"
  shows "kept_char c \<and> \<not> control_char c \<and> c \<notin> {CHR ''?'', CHR ''#'', CHR ''%''}"
proof -
  have "c = CHR ''/'' \<or> unreserved c" using assms join_plain by (auto simp: path_of_def)
  then show ?thesis using unreserved_plain [of c] by (elim disjE) (simp_all add: kept_char_def control_char_def)
qed

lemma parse_plain:
  assumes base: "base_at ok c host" and segs: "list_all plain_seg segs"
    and query: "list_all (\<lambda>d. unreserved d \<or> d = CHR ''='') query"
  shows "parse_url ok (cl_base c @ path_of segs @ (if query = [] then [] else CHR ''?'' # query)) = Some (host, path_of segs, query)"
proof -
  let ?p = "path_of segs" and ?q = "if query = [] then [] else CHR ''?'' # query"
  obtain sch where sch: "cl_base c = sch @ host" "sch = ''http://'' \<or> sch = ''https://''"
    using base by (auto simp: base_at_def)
  have host: "d \<in> set host \<Longrightarrow> \<not> control_char d \<and> d \<notin> {CHR ''/'', CHR ''?'', CHR ''#''}" for d
    using base by (auto simp: base_at_def list_all_iff)
  have q: "\<not> control_char d \<and> d \<noteq> CHR ''#''" if "d \<in> set query" for d
  proof -
    have "unreserved d \<or> d = CHR ''=''" using query that by (simp add: list_all_iff)
    then show ?thesis using unreserved_plain [of d] by (elim disjE) (simp_all add: control_char_def)
  qed
  have "control_char d \<or> d = CHR ''#'' \<Longrightarrow> d \<notin> set (cl_base c @ ?p @ ?q)" for d
    using sch host [of d] path_plain [OF segs, of d] q [of d] by (auto simp: control_char_def)
  then have nc: "\<not> list_ex control_char (cl_base c @ ?p @ ?q)" and nf: "CHR ''#'' \<notin> set (cl_base c @ ?p @ ?q)"
    unfolding list_ex_iff by blast+
  have rest: "scheme_rest (cl_base c @ ?p @ ?q) = Some (host @ ?p @ ?q)"
    using sch by (auto simp: scheme_rest_def)
  have "CHR ''?'' \<notin> set (host @ ?p)" using host path_plain [OF segs] by auto
  then have cq: "cut (CHR ''?'') (host @ ?p @ ?q) = (host @ ?p, query)"
    using cut_free [of "CHR ''?''" "host @ ?p"] cut_at [of "CHR ''?''" "host @ ?p" query] by simp
  have "CHR ''/'' \<notin> set host" using host by auto
  then have h: "takeWhile (\<lambda>d. d \<noteq> CHR ''/'') (host @ ?p) = host" "dropWhile (\<lambda>d. d \<noteq> CHR ''/'') (host @ ?p) = ?p"
    by (simp_all add: path_of_def takeWhile_until)
  have "CHR ''%'' \<notin> set ?p" "valid_encoded ?p"
    using path_plain [OF segs] by (auto simp: valid_encoded_def list_all_iff)
  then have "wire_path ?p = Some ?p" by (simp add: wire_path_def unescape_free)
  moreover have "ok host" using base by (simp add: base_at_def)
  ultimately show ?thesis using nc nf rest cq h by (simp add: parse_url_def cut_free Let_def)
qed

text \<open>At the server, the segments are as they were sent.\<close>

lemma walk_plain: "list_all plain_seg ws \<Longrightarrow> walk_rooted st ws = rev st @ ws"
  by (induction st ws rule: walk_rooted.induct) (auto simp: plain_seg_def)

lemma seg_value_plain: "plain_seg s \<Longrightarrow> seg_value s = s"
  by (auto simp: seg_value_def plain_seg_def list_all_iff unescape_free dest: unreserved_plain split: option.splits)

lemma split_segs:
  assumes "list_all plain_seg segs" and "segs \<noteq> []"
  shows "split_on (CHR ''/'') (join_with ''/'' segs) = segs"
proof -
  have "CHR ''/'' \<notin> set w" if "plain_seg w" for w
    using that unreserved_plain [of "CHR ''/''"] by (auto simp: plain_seg_def list_all_iff)
  then show ?thesis using assms by (intro split_join_free) (auto simp: list_all_iff)
qed

lemma serve_plain:
  assumes segs: "list_all plain_seg segs" "segs \<noteq> []" and path: "hq_path r = path_of segs" and q: "CHR '' '' \<notin> set (dq_query r)"
    and route: "route_to (dq_method r) segs (dq_query r) (dq_body r) = Some req"
  shows "serve_mux env ip url r = Handler env ip url req \<bind> (\<lambda>a. ret (Replied a))"
proof -
  have s: "path_segs (hq_path r) = segs" using split_segs [OF segs] path by (simp add: path_segs_def path_of_def)
  have "map seg_value segs = segs" using segs(1) by (simp add: list_all_iff map_idI seg_value_plain)
  moreover have "clean_path segs = segs"
    using segs by (auto simp: clean_path_def walk_plain Let_def plain_seg_def list_all_iff)
  ultimately show ?thesis using q route unfolding serve_mux_def Let_def s by simp
qed

lemma serve_authorized:
  assumes "token = [] \<or> cl_token c = token" and "hq_auth r = bearer_header c"
  shows "serve_daemon env ip url token r = serve_mux env ip url r"
  using assms by (auto simp: serve_daemon_def bearerMiddleware_def bearer_header_def ConstantTimeCompare_def Let_def)

lemma serve_unauthorized:
  assumes "token \<noteq> [] \<and> cl_token c \<noteq> token" and "hq_auth r = bearer_header c"
  shows "serve_daemon env ip url token r = ret (Replied (401, ErrBody (Errf ''unauthorized'' [])))"
  using assms by (auto simp: serve_daemon_def bearerMiddleware_def bearer_header_def ConstantTimeCompare_def Let_def)

section \<open>The client is the daemon at a distance\<close>

text \<open>A network that delivers, to a daemon whose listener has a token or none.\<close>

definition daemon_dial ::
  "'x env \<Rightarrow> (string \<Rightarrow> bool) \<Rightarrow> (string \<Rightarrow> (string \<times> string) res) \<Rightarrow> string \<Rightarrow> 'x sys transport"
where
  "daemon_dial env ip url token host r = serve_daemon env ip url token r \<bind> (\<lambda>v. ret (Inr v))"

text \<open>A method carried out by its handler, and one that is refused.\<close>

definition handled ::
  "'x env \<Rightarrow> (string \<Rightarrow> bool) \<Rightarrow> (string \<Rightarrow> (string \<times> string) res) \<Rightarrow> nat \<Rightarrow> (body \<Rightarrow> 'a res) \<Rightarrow> request
    \<Rightarrow> ('x sys, 'a res option) state"
where
  "handled env ip url code decode q = Handler env ip url q \<bind> (\<lambda>a. ret (Some (received code decode (Inr a))))"

definition refused :: "('s, 'a res option) state" where
  "refused = ret (Some (Inl (Wrapf ''%s'' [] (Errf ''unauthorized'' []))))"

definition handled_if ::
  "bool \<Rightarrow> 'x env \<Rightarrow> (string \<Rightarrow> bool) \<Rightarrow> (string \<Rightarrow> (string \<times> string) res) \<Rightarrow> nat \<Rightarrow> (body \<Rightarrow> 'a res) \<Rightarrow> request
    \<Rightarrow> ('x sys, 'a res option) state"
where
  "handled_if b env ip url code decode q = (if b then handled env ip url code decode q else refused)"

locale daemon_link =
  fixes dial :: "'x sys transport" and env :: "'x env" and ip :: "string \<Rightarrow> bool"
    and url :: "string \<Rightarrow> (string \<times> string) res" and token :: string
  assumes carries: "dial host r = serve_daemon env ip url token r \<bind> (\<lambda>v. ret (Inr v))"
begin

lemma one_request:
  assumes "hq_auth r = bearer_header c"
    and "token = [] \<or> cl_token c = token \<Longrightarrow> serve_mux env ip url r = Handler env ip url req \<bind> (\<lambda>a. ret (Replied a))"
    and "code \<noteq> 401"
  shows "do_request dial c host (Suc n) r \<bind> (\<lambda>x. ret (map_option (received code decode) (Some x)))
    = handled_if (token = [] \<or> cl_token c = token) env ip url code decode req"
proof (cases "token = [] \<or> cl_token c = token")
  case True
  then show ?thesis
    using assms(2) serve_authorized [OF True assms(1), of env ip url]
    by (simp add: carries daemonErr_def handled_if_def handled_def)
next
  case False
  then have "serve_daemon env ip url token r = ret (Replied (401, ErrBody (Errf ''unauthorized'' [])))"
    using serve_unauthorized [OF _ assms(1)] by blast
  with False assms(3) show ?thesis by (simp add: carries daemonErr_def handled_if_def refused_def received_def decodeErr_def)
qed

lemma exchange_plain:
  assumes base: "base_at ok c host" and segs: "list_all plain_seg segs" "segs \<noteq> []"
    and query: "list_all (\<lambda>d. unreserved d \<or> d = CHR ''='') query"
    and path: "path = path_of segs @ (if query = [] then [] else CHR ''?'' # query)"
    and route: "route_to m segs query b = Some req" and code: "code \<noteq> 401"
  shows "exchange code decode (send dial ok c m path b)
    = handled_if (token = [] \<or> cl_token c = token) env ip url code decode req"
proof -
  have q: "CHR '' '' \<notin> set query" using query by (auto simp: list_all_iff unreserved_def is_alnum_def is_lower_def is_upper_def is_digit_def)
  let ?r = "\<lparr>hq_path = path_of segs, hq_auth = bearer_header c, hq_session = None, hq_tls = False,
    hq_forwarded = [], dq_method = m, dq_query = query, dq_body = b\<rparr>"
  have "serve_mux env ip url ?r = Handler env ip url req \<bind> (\<lambda>a. ret (Replied a))"
    by (rule serve_plain [OF segs]) (simp_all add: q route)
  then have "do_request dial c host (Suc 9) ?r \<bind> (\<lambda>x. ret (map_option (received code decode) (Some x)))
    = handled_if (token = [] \<or> cl_token c = token) env ip url code decode req"
    by (intro one_request) (simp_all add: code)
  moreover have "Suc 9 = (10 :: nat)" by simp
  ultimately show ?thesis unfolding exchange_def send_def path parse_plain [OF base segs(1) query] by (simp del: do_request.simps)
qed

end

text \<open>The fixed segments, and the names that validation accepts, are plain.\<close>

lemma plain_words [simp]:
  "plain_seg ''apps''" "plain_seg ''apply''" "plain_seg ''nodes''" "plain_seg ''pools''" "plain_seg ''health''"
  "plain_seg ''rollback''" "plain_seg ''scale''" "plain_seg ''history''" "plain_seg ''logs''" "plain_seg ''secrets''"
  "plain_seg ''uncordon''" "plain_seg ''evacuate''" "plain_seg ''drain''"
  by (simp_all add: plain_seg_def unreserved_def is_alnum_def is_lower_def is_upper_def is_digit_def less_eq_char_def)

lemma plain_nonempty [simp]: "plain_seg s \<Longrightarrow> s \<noteq> []"
  by (auto simp: plain_seg_def)

lemma name_plain: "nameRe s \<Longrightarrow> plain_seg s"
  by (auto simp: nameRe_def plain_seg_def unreserved_def name_char_def list_all_iff is_alnum_def is_lower_def is_upper_def
      is_digit_def less_eq_char_def split: list.splits)

lemma follow_plain: "list_all (\<lambda>d. unreserved d \<or> d = CHR ''='') (if b then ''follow=true'' else [])"
  by (simp add: unreserved_def is_alnum_def is_lower_def is_upper_def is_digit_def less_eq_char_def)

lemma follow_read: "(query_param ''follow'' (if b then ''follow=true'' else []) = ''true'') = b"
  by (simp add: query_param_def query_pair_def cut_def List.map_filter_def plus_as_space_def)

interpretation linked: daemon_link "daemon_dial env ip url token" env ip url token for env ip url token
  by unfold_locales (simp add: daemon_dial_def)

lemmas wire_defs = path_of_def route_to_def app_of_body_def replicas_of_body_def secret_of_body_def node_of_body_def

lemma whole_handled:
  assumes base: "base_at ok c host"
  shows
  "client_Apply (daemon_dial env ip url token) ok c a =
     handled_if (token = [] \<or> cl_token c = token) env ip url 200 as_deployment (PostApply (Inr a))"
  "client_Apps (daemon_dial env ip url token) ok c =
     handled_if (token = [] \<or> cl_token c = token) env ip url 200 as_apps (GetApps)"
  "client_AddNode (daemon_dial env ip url token) ok c q =
     handled_if (token = [] \<or> cl_token c = token) env ip url 204 as_unit (PostNode (Inr q))"
  "client_Nodes (daemon_dial env ip url token) ok c =
     handled_if (token = [] \<or> cl_token c = token) env ip url 200 as_nodes (GetNodes)"
  "client_Pools (daemon_dial env ip url token) ok c =
     handled_if (token = [] \<or> cl_token c = token) env ip url 200 as_pools (GetPools)"
  "client_Health (daemon_dial env ip url token) ok c =
     handled_if (token = [] \<or> cl_token c = token) env ip url 200 as_health (GetHealth)"
  unfolding client_Apply_def client_Apps_def client_AddNode_def client_Nodes_def client_Pools_def client_Health_def
  subgoal by (rule linked.exchange_plain [OF base, where query = "[]" and segs = "[''apply'']"]) (simp_all add: wire_defs)
  subgoal by (rule linked.exchange_plain [OF base, where query = "[]" and segs = "[''apps'']"]) (simp_all add: wire_defs)
  subgoal by (rule linked.exchange_plain [OF base, where query = "[]" and segs = "[''nodes'']"]) (simp_all add: wire_defs)
  subgoal by (rule linked.exchange_plain [OF base, where query = "[]" and segs = "[''nodes'']"]) (simp_all add: wire_defs)
  subgoal by (rule linked.exchange_plain [OF base, where query = "[]" and segs = "[''pools'']"]) (simp_all add: wire_defs)
  subgoal by (rule linked.exchange_plain [OF base, where query = "[]" and segs = "[''health'']"]) (simp_all add: wire_defs)
  done

lemma apps_handled:
  assumes base: "base_at ok c host" and name: "plain_seg name"
  shows
  "client_Rollback (daemon_dial env ip url token) ok c name =
     handled_if (token = [] \<or> cl_token c = token) env ip url 200 as_deployment (PostRollback name)"
  "client_Scale (daemon_dial env ip url token) ok c name n =
     handled_if (token = [] \<or> cl_token c = token) env ip url 200 as_deployment (PostScale name (Inr n))"
  "client_History (daemon_dial env ip url token) ok c name =
     handled_if (token = [] \<or> cl_token c = token) env ip url 200 as_history (GetHistory name)"
  "client_Logs (daemon_dial env ip url token) ok c name follow =
     handled_if (token = [] \<or> cl_token c = token) env ip url 200 as_logs (GetLogs name follow)"
  "client_Remove (daemon_dial env ip url token) ok c name =
     handled_if (token = [] \<or> cl_token c = token) env ip url 204 as_unit (DeleteApp name)"
  unfolding client_Rollback_def client_Scale_def client_History_def client_Logs_def client_Remove_def
  subgoal by (rule linked.exchange_plain [OF base, where query = "[]" and segs = "[''apps'', name, ''rollback'']"]) (simp_all add: name wire_defs)
  subgoal by (rule linked.exchange_plain [OF base, where query = "[]" and segs = "[''apps'', name, ''scale'']"]) (simp_all add: name wire_defs)
  subgoal by (rule linked.exchange_plain [OF base, where query = "[]" and segs = "[''apps'', name, ''history'']"]) (simp_all add: name wire_defs)
  subgoal
    by (rule linked.exchange_plain [OF base, where segs = "[''apps'', name, ''logs'']" and query = "if follow then ''follow=true'' else []"])
       (simp_all add: name follow_plain path_of_def route_to_def follow_read)
  subgoal by (rule linked.exchange_plain [OF base, where query = "[]" and segs = "[''apps'', name]"]) (simp_all add: name wire_defs)
  done

lemma secrets_handled:
  assumes base: "base_at ok c host" and name: "plain_seg name"
  shows
  "client_SetSecret (daemon_dial env ip url token) ok c name key v =
     handled_if (token = [] \<or> cl_token c = token) env ip url 204 as_unit (PostSecret name (Inr (key, v)))"
  "client_ListSecrets (daemon_dial env ip url token) ok c name =
     handled_if (token = [] \<or> cl_token c = token) env ip url 200 as_names (GetSecrets name)"
  unfolding client_SetSecret_def client_ListSecrets_def
  subgoal by (rule linked.exchange_plain [OF base, where query = "[]" and segs = "[''apps'', name, ''secrets'']"]) (simp_all add: name wire_defs)
  subgoal by (rule linked.exchange_plain [OF base, where query = "[]" and segs = "[''apps'', name, ''secrets'']"]) (simp_all add: name wire_defs)
  done

lemma nodes_handled:
  assumes base: "base_at ok c host" and name: "plain_seg name"
  shows
  "client_RemoveNode (daemon_dial env ip url token) ok c name =
     handled_if (token = [] \<or> cl_token c = token) env ip url 204 as_unit (DeleteNodeNamed name)"
  "client_Uncordon (daemon_dial env ip url token) ok c name =
     handled_if (token = [] \<or> cl_token c = token) env ip url 204 as_unit (PostUncordon name)"
  "client_Evacuate (daemon_dial env ip url token) ok c name =
     handled_if (token = [] \<or> cl_token c = token) env ip url 200 as_evacuated (PostEvacuate name)"
  "client_Drain (daemon_dial env ip url token) ok c name =
     handled_if (token = [] \<or> cl_token c = token) env ip url 200 as_evacuated (PostDrain name)"
  unfolding client_RemoveNode_def client_Uncordon_def client_Evacuate_def client_Drain_def
  subgoal by (rule linked.exchange_plain [OF base, where query = "[]" and segs = "[''nodes'', name]"]) (simp_all add: name wire_defs)
  subgoal by (rule linked.exchange_plain [OF base, where query = "[]" and segs = "[''nodes'', name, ''uncordon'']"]) (simp_all add: name wire_defs)
  subgoal by (rule linked.exchange_plain [OF base, where query = "[]" and segs = "[''nodes'', name, ''evacuate'']"]) (simp_all add: name wire_defs)
  subgoal by (rule linked.exchange_plain [OF base, where query = "[]" and segs = "[''nodes'', name, ''drain'']"]) (simp_all add: name wire_defs)
  done

lemma secret_key_handled:
  assumes base: "base_at ok c host" and name: "plain_seg name" and key: "plain_seg key"
  shows
  "client_DeleteSecret (daemon_dial env ip url token) ok c name key =
     handled_if (token = [] \<or> cl_token c = token) env ip url 204 as_unit (DeleteSecretKey name key)"
  unfolding client_DeleteSecret_def
  by (rule linked.exchange_plain [OF base, where query = "[]" and segs = "[''apps'', name, ''secrets'', key]"]) (simp_all add: name key wire_defs)

lemmas methods_handled = whole_handled apps_handled secrets_handled nodes_handled secret_key_handled

text \<open>The daemon itself as a client sees it, when \<open>b\<close> says that it may use it.\<close>

definition direct_client ::
  "bool \<Rightarrow> 'x env \<Rightarrow> (string \<Rightarrow> bool) \<Rightarrow> (string \<Rightarrow> (string \<times> string) res) \<Rightarrow> 'x sys daemon_client"
where
  "direct_client b env ip url = \<lparr>
     dc_apply = (\<lambda>a. handled_if b env ip url 200 as_deployment (PostApply (Inr a))),
     dc_rollback = (\<lambda>name. handled_if b env ip url 200 as_deployment (PostRollback name)),
     dc_scale = (\<lambda>name n. handled_if b env ip url 200 as_deployment (PostScale name (Inr n))),
     dc_apps = (handled_if b env ip url 200 as_apps (GetApps)),
     dc_history = (\<lambda>name. handled_if b env ip url 200 as_history (GetHistory name)),
     dc_logs = (\<lambda>name follow. handled_if b env ip url 200 as_logs (GetLogs name follow)),
     dc_remove = (\<lambda>name. handled_if b env ip url 204 as_unit (DeleteApp name)),
     dc_setsecret = (\<lambda>name key v. handled_if b env ip url 204 as_unit (PostSecret name (Inr (key, v)))),
     dc_listsecrets = (\<lambda>name. handled_if b env ip url 200 as_names (GetSecrets name)),
     dc_deletesecret = (\<lambda>name key. handled_if b env ip url 204 as_unit (DeleteSecretKey name key)),
     dc_addnode = (\<lambda>q. handled_if b env ip url 204 as_unit (PostNode (Inr q))),
     dc_nodes = (handled_if b env ip url 200 as_nodes (GetNodes)),
     dc_pools = (handled_if b env ip url 200 as_pools (GetPools)),
     dc_health = (handled_if b env ip url 200 as_health (GetHealth)),
     dc_removenode = (\<lambda>name. handled_if b env ip url 204 as_unit (DeleteNodeNamed name)),
     dc_uncordon = (\<lambda>name. handled_if b env ip url 204 as_unit (PostUncordon name)),
     dc_evacuate = (\<lambda>name. handled_if b env ip url 200 as_evacuated (PostEvacuate name)),
     dc_drain = (\<lambda>name. handled_if b env ip url 200 as_evacuated (PostDrain name))\<rparr>"

text \<open>
  C32: using the daemon through the client is using the daemon: whichever of its listeners the client is
  pointed at, and for every name that validation accepts, each method runs the handler it means, once, and
  returns what it replied, an error as an error with its text; with a token that is not the listener's
  each method fails and the daemon is left as it was.
\<close>

theorem client_exact:
  assumes "base_at ok c host" and "plain_seg name" and "plain_seg key"
  shows "(let C = http_client (daemon_dial env ip url token) ok c;
        D = direct_client (token = [] \<or> cl_token c = token) env ip url in
     dc_apply C a = dc_apply D a \<and>
     dc_rollback C name = dc_rollback D name \<and>
     dc_scale C name n = dc_scale D name n \<and>
     dc_apps C = dc_apps D \<and>
     dc_history C name = dc_history D name \<and>
     dc_logs C name follow = dc_logs D name follow \<and>
     dc_remove C name = dc_remove D name \<and>
     dc_setsecret C name key v = dc_setsecret D name key v \<and>
     dc_listsecrets C name = dc_listsecrets D name \<and>
     dc_deletesecret C name key = dc_deletesecret D name key \<and>
     dc_addnode C q = dc_addnode D q \<and>
     dc_nodes C = dc_nodes D \<and>
     dc_pools C = dc_pools D \<and>
     dc_health C = dc_health D \<and>
     dc_removenode C name = dc_removenode D name \<and>
     dc_uncordon C name = dc_uncordon D name \<and>
     dc_evacuate C name = dc_evacuate D name \<and>
     dc_drain C name = dc_drain D name)"
  unfolding http_client_def direct_client_def Let_def by (simp add: methods_handled [OF assms(1)] assms(2,3))

text \<open>
  The client writes names into the path as they are: removing an app whose name is given as
  \<open>app/secrets/KEY\<close> deletes a secret of the app, and leaves the app in place.
\<close>

lemma Remove_crosses_into_secrets:
  assumes "base_at ok c host" and "plain_seg app" and "plain_seg key"
  shows "dc_remove (http_client (daemon_dial env ip url token) ok c) (app @ ''/secrets/'' @ key)
    = handled_if (token = [] \<or> cl_token c = token) env ip url 204 as_unit (DeleteSecretKey app key)"
  using secret_key_handled [OF assms] by (simp add: http_client_def client_Remove_def client_DeleteSecret_def)

text \<open>A name that is no part of a URL makes the request \<open>nil\<close>, and every method that takes a name panics.\<close>

lemma bad_escape_panics:
  assumes "base_at ok c host"
  shows "dc_remove (http_client dial ok c) ''%'' = ret None" "dc_history (http_client dial ok c) ''%'' = ret None"
proof -
  have "parse_url ok (cl_base c @ x) = None" if x: "CHR ''#'' \<notin> set x" "CHR ''?'' \<notin> set x" "x = CHR ''/'' # y"
    "unescape x = None" for x y
  proof -
    have h: "d \<in> set host \<Longrightarrow> d \<notin> {CHR ''/'', CHR ''?'', CHR ''#''}" for d
      using assms by (auto simp: base_at_def list_all_iff)
    have c: "CHR ''#'' \<notin> set (cl_base c @ x)" using assms h [of "CHR ''#''"] x by (auto simp: base_at_def)
    have "scheme_rest (cl_base c @ x) = Some (host @ x)" using assms by (auto simp: base_at_def scheme_rest_def)
    moreover have "cut (CHR ''?'') (host @ x) = (host @ x, [])" using h x(2) by (intro cut_free) auto
    moreover have "dropWhile (\<lambda>d. d \<noteq> CHR ''/'') (host @ x) = x"
      using h x(3) by (simp add: takeWhile_until)
    ultimately show ?thesis using x(4) by (simp add: parse_url_def cut_free [OF c] wire_path_def Let_def)
  qed
  then have p: "parse_url ok (cl_base c @ ''/apps/%'') = None" "parse_url ok (cl_base c @ ''/apps/%/history'') = None"
    by (simp_all add: unhex_def is_digit_def less_eq_char_def)
  show "dc_remove (http_client dial ok c) ''%'' = ret None" "dc_history (http_client dial ok c) ''%'' = ret None"
    using p by (simp_all add: http_client_def client_Remove_def client_History_def exchange_def send_def)
qed

end
