(* ===== verification/Mcp.thy ===== *)
theory Mcp
  imports Client
begin

text \<open>
  The tools of the MCP server (\<open>src/internal/mcp/tools.go\<close>) over the daemon's client: each from its input to
  its structured output, or the error the host of the tool is shown, and what is registered of it
  (\<open>server.go\<close>). What the tools that are announced as read-only need of their client is the locale
  \<open>reading_client\<close>. The TOML decoder, and reading \<open>lwd.toml\<close> from a directory, are arguments.
\<close>

text \<open>A call of the client, whose error is the error of the tool; \<open>None\<close> where it panics.\<close>

definition try_call :: "('s, 'a res option) state \<Rightarrow> ('a \<Rightarrow> ('s, 'b res option) state) \<Rightarrow> ('s, 'b res option) state" where
  "try_call m k = m \<bind> (\<lambda>r. case r of
     None \<Rightarrow> ret None
   | Some (Inl e) \<Rightarrow> ret (Some (Inl e))
   | Some (Inr a) \<Rightarrow> k a)"

definition tool_ok :: "'b \<Rightarrow> ('s, 'b res option) state" where "tool_ok b = ret (Some (Inr b))"
definition tool_err :: "goerr \<Rightarrow> ('s, 'b res option) state" where "tool_err e = ret (Some (Inl e))"

section \<open>Reading tools\<close>

record deployment_summary =
  ds_id :: int
  ds_image :: string
  ds_status :: string
  ds_created :: int

definition summarizeDeployments :: "deployment list \<Rightarrow> deployment_summary list" where
  "summarizeDeployments deps =
     map (\<lambda>d. \<lparr>ds_id = d_id d, ds_image = d_image d, ds_status = d_status d, ds_created = d_created d\<rparr>) deps"

definition lwd_list :: "'s daemon_client \<Rightarrow> ('s, app_status list res option) state" where
  "lwd_list C = try_call (dc_apps C) tool_ok"

definition lwd_status :: "'s daemon_client \<Rightarrow> string \<Rightarrow> ('s, (app_status \<times> deployment_summary list) res option) state" where
  "lwd_status C name = try_call (dc_apps C) (\<lambda>apps. case find (\<lambda>a. as_name a = name) apps of
     None \<Rightarrow> tool_err (Errf ''app %q not found'' [name])
   | Some a \<Rightarrow> try_call (dc_history C name) (\<lambda>h. tool_ok (a, summarizeDeployments h)))"

definition defaultLogsTail :: int where "defaultLogsTail = 200"

definition trim_suffix :: "string \<Rightarrow> string \<Rightarrow> string" where
  "trim_suffix x s = (if suffix x s then take (length s - length x) s else s)"

definition line_end :: char where "line_end = CHR 0x0A"

definition lastLines :: "string \<Rightarrow> int \<Rightarrow> string" where
  "lastLines text n =
     (let trimmed = trim_suffix [line_end] text;
          hadTrailingNewline = (trimmed \<noteq> text);
          lines0 = split_on line_end trimmed;
          lines = (if int (length lines0) > n then drop (length lines0 - nat n) lines0 else lines0);
          out = join_with [line_end] lines in
      if hadTrailingNewline then out @ [line_end] else out)"

definition lwd_logs :: "'s daemon_client \<Rightarrow> string \<Rightarrow> int \<Rightarrow> ('s, string res option) state" where
  "lwd_logs C name tail0 =
     (let tail = (if tail0 \<le> 0 then defaultLogsTail else tail0) in
      try_call (dc_logs C name False) (\<lambda>buf. tool_ok (lastLines buf tail)))"

definition lwd_history :: "'s daemon_client \<Rightarrow> string \<Rightarrow> ('s, deployment_summary list res option) state" where
  "lwd_history C name = try_call (dc_history C name) (\<lambda>h. tool_ok (summarizeDeployments h))"

section \<open>Deploying\<close>

record deployment_output =
  do_name :: string
  do_image :: string
  do_status :: string
  do_container :: string

definition deploymentOutput :: "deployment \<Rightarrow> deployment_output" where
  "deploymentOutput d = \<lparr>do_name = d_app d, do_image = d_image d, do_status = d_status d, do_container = d_container d\<rparr>"

text \<open>Arguments that are left out are \<open>None\<close>.\<close>

record apply_input =
  ai_dir :: string
  ai_toml :: string
  ai_node :: string
  ai_pool :: string
  ai_requirements :: "requirements option"
  ai_replicas :: "int option"

definition with_node :: "string \<Rightarrow> app \<Rightarrow> app" where
  "with_node n a = (if n \<noteq> [] then a\<lparr>a_node := n\<rparr> else a)"
definition with_pool :: "string \<Rightarrow> app \<Rightarrow> app" where
  "with_pool p a = (if p \<noteq> [] then a\<lparr>a_pool := p\<rparr> else a)"
definition with_requirements :: "requirements option \<Rightarrow> app \<Rightarrow> app" where
  "with_requirements q a = (case q of None \<Rightarrow> a | Some r \<Rightarrow> a\<lparr>a_requirements := Some r\<rparr>)"

definition apply_valid :: "'s daemon_client \<Rightarrow> app \<Rightarrow> ('s, deployment_output res option) state" where
  "apply_valid C a = (case Validate a of
     Some e \<Rightarrow> tool_err e
   | None \<Rightarrow> try_call (dc_apply C a) (\<lambda>d. tool_ok (deploymentOutput d)))"

definition lwd_apply ::
  "'s daemon_client \<Rightarrow> (string \<Rightarrow> string res) \<Rightarrow> (string \<Rightarrow> app res) \<Rightarrow> apply_input \<Rightarrow> ('s, deployment_output res option) state"
where
  "lwd_apply C read toml i =
     (if (ai_dir i \<noteq> []) = (ai_toml i \<noteq> []) then tool_err (Errf ''exactly one of dir or toml is required'' [])
      else case (if ai_toml i \<noteq> [] then Parse toml (ai_toml i) else Load read toml (ai_dir i)) of
        Inl e \<Rightarrow> tool_err e
      | Inr a0 \<Rightarrow>
          let a1 = with_requirements (ai_requirements i) (with_pool (ai_pool i) (with_node (ai_node i) a0));
              a = (case ai_replicas i of None \<Rightarrow> a1 | Some n \<Rightarrow> a1\<lparr>a_replicas := n\<rparr>) in
          apply_valid C a)"

record git_input =
  gi_url :: string
  gi_ref :: string
  gi_dockerfile :: string
  gi_name :: string
  gi_domain :: string
  gi_port :: int
  gi_services :: "svc list"
  gi_node :: string
  gi_pool :: string
  gi_requirements :: "requirements option"
  gi_replicas :: int

definition lwd_deploy_git :: "'s daemon_client \<Rightarrow> git_input \<Rightarrow> ('s, deployment_output res option) state" where
  "lwd_deploy_git C i =
     (let gref = (if gi_ref i = [] then ''main'' else gi_ref i);
          dockerfile = (if gi_dockerfile i = [] then ''Dockerfile'' else gi_dockerfile i);
          a0 = no_app\<lparr>a_name := gi_name i, a_domain := gi_domain i, a_port := gi_port i, a_replicas := 1,
                 a_git := Some \<lparr>g_url = gi_url i, g_ref = gref, g_path = []\<rparr>,
                 a_build := Some \<lparr>b_context = [], b_dockerfile = dockerfile\<rparr>, a_services := gi_services i\<rparr>;
          a1 = with_requirements (gi_requirements i) (with_pool (gi_pool i) (with_node (gi_node i) a0));
          a = (if gi_replicas i \<noteq> 0 then a1\<lparr>a_replicas := gi_replicas i\<rparr> else a1) in
      apply_valid C a)"

definition lwd_rollback :: "'s daemon_client \<Rightarrow> string \<Rightarrow> ('s, deployment_output res option) state" where
  "lwd_rollback C name = try_call (dc_rollback C name) (\<lambda>d. tool_ok (deploymentOutput d))"

definition scaleOutput :: "deployment \<Rightarrow> deployment_output \<times> nat" where
  "scaleOutput d = (deploymentOutput d, if length (d_replicas d) = 0 then 1 else length (d_replicas d))"

definition lwd_scale :: "'s daemon_client \<Rightarrow> string \<Rightarrow> int \<Rightarrow> ('s, (deployment_output \<times> nat) res option) state" where
  "lwd_scale C app n = try_call (dc_scale C app n) (\<lambda>d. tool_ok (scaleOutput d))"

definition lwd_remove :: "'s daemon_client \<Rightarrow> string \<Rightarrow> ('s, (string \<times> bool) res option) state" where
  "lwd_remove C name = try_call (dc_remove C name) (\<lambda>_. tool_ok (name, True))"

section \<open>Secrets and nodes\<close>

definition lwd_secret_set :: "'s daemon_client \<Rightarrow> string \<Rightarrow> string \<Rightarrow> string \<Rightarrow> ('s, (bool \<times> string \<times> string) res option) state" where
  "lwd_secret_set C app key v = try_call (dc_setsecret C app key v) (\<lambda>_. tool_ok (True, app, key))"

definition lwd_secret_list :: "'s daemon_client \<Rightarrow> string \<Rightarrow> ('s, string list res option) state" where
  "lwd_secret_list C app = try_call (dc_listsecrets C app) tool_ok"

definition lwd_secret_delete :: "'s daemon_client \<Rightarrow> string \<Rightarrow> string \<Rightarrow> ('s, (bool \<times> string \<times> string) res option) state" where
  "lwd_secret_delete C app key = try_call (dc_deletesecret C app key) (\<lambda>_. tool_ok (True, app, key))"

text \<open>A failed health request only costs the capacities; of two entries of a name the later counts.\<close>

definition capacity_by_name :: "health res \<Rightarrow> (string \<times> capacity) list" where
  "capacity_by_name h = (case h of
     Inl _ \<Rightarrow> [] | Inr v \<Rightarrow> fold (\<lambda>n m. AList.update (nh_name n) (nh_capacity n) m) (he_nodes v) [])"

definition lwd_node_list :: "'s daemon_client \<Rightarrow> ('s, (node_status \<times> capacity) list res option) state" where
  "lwd_node_list C = try_call (dc_nodes C) (\<lambda>ns. dc_health C \<bind> (\<lambda>h. case h of
     None \<Rightarrow> ret None
   | Some r \<Rightarrow>
       let caps = capacity_by_name r in
       tool_ok (map (\<lambda>n. (n, case map_of caps (nd_name (ns_node n)) of None \<Rightarrow> no_capacity | Some c \<Rightarrow> c)) ns)))"

definition lwd_node_add :: "'s daemon_client \<Rightarrow> node_request \<Rightarrow> ('s, (bool \<times> string) res option) state" where
  "lwd_node_add C q = try_call (dc_addnode C q) (\<lambda>_. tool_ok (True, nq_name q))"

definition lwd_node_remove :: "'s daemon_client \<Rightarrow> string \<Rightarrow> ('s, (string \<times> bool) res option) state" where
  "lwd_node_remove C name = try_call (dc_removenode C name) (\<lambda>_. tool_ok (name, True))"

definition lwd_node_drain :: "'s daemon_client \<Rightarrow> string \<Rightarrow> ('s, evacuate_result res option) state" where
  "lwd_node_drain C name = try_call (dc_drain C name) tool_ok"

definition lwd_node_evacuate :: "'s daemon_client \<Rightarrow> string \<Rightarrow> ('s, evacuate_result res option) state" where
  "lwd_node_evacuate C name = try_call (dc_evacuate C name) tool_ok"

definition lwd_node_uncordon :: "'s daemon_client \<Rightarrow> string \<Rightarrow> ('s, (bool \<times> string) res option) state" where
  "lwd_node_uncordon C name = try_call (dc_uncordon C name) (\<lambda>_. tool_ok (True, name))"

section \<open>The tools as they are registered\<close>

text \<open>
  What the host of a tool is told before it calls it: the name and the annotations; the descriptions are
  left out. A host may run a tool that is marked read-only without asking.
\<close>

datatype hint = ReadOnly | Destructive | Unmarked

record tool =
  t_name :: string
  t_hint :: hint

definition lwd_list_tool :: tool where "lwd_list_tool = \<lparr>t_name = ''lwd_list'', t_hint = ReadOnly\<rparr>"
definition lwd_status_tool :: tool where "lwd_status_tool = \<lparr>t_name = ''lwd_status'', t_hint = ReadOnly\<rparr>"
definition lwd_logs_tool :: tool where "lwd_logs_tool = \<lparr>t_name = ''lwd_logs'', t_hint = ReadOnly\<rparr>"
definition lwd_history_tool :: tool where "lwd_history_tool = \<lparr>t_name = ''lwd_history'', t_hint = ReadOnly\<rparr>"
definition lwd_apply_tool :: tool where "lwd_apply_tool = \<lparr>t_name = ''lwd_apply'', t_hint = Unmarked\<rparr>"
definition lwd_deploy_git_tool :: tool where "lwd_deploy_git_tool = \<lparr>t_name = ''lwd_deploy_git'', t_hint = Unmarked\<rparr>"
definition lwd_rollback_tool :: tool where "lwd_rollback_tool = \<lparr>t_name = ''lwd_rollback'', t_hint = Unmarked\<rparr>"
definition lwd_scale_tool :: tool where "lwd_scale_tool = \<lparr>t_name = ''lwd_scale'', t_hint = Destructive\<rparr>"
definition lwd_remove_tool :: tool where "lwd_remove_tool = \<lparr>t_name = ''lwd_remove'', t_hint = Destructive\<rparr>"
definition lwd_secret_set_tool :: tool where "lwd_secret_set_tool = \<lparr>t_name = ''lwd_secret_set'', t_hint = Unmarked\<rparr>"
definition lwd_secret_list_tool :: tool where "lwd_secret_list_tool = \<lparr>t_name = ''lwd_secret_list'', t_hint = ReadOnly\<rparr>"
definition lwd_secret_delete_tool :: tool where "lwd_secret_delete_tool = \<lparr>t_name = ''lwd_secret_delete'', t_hint = Destructive\<rparr>"
definition lwd_node_list_tool :: tool where "lwd_node_list_tool = \<lparr>t_name = ''lwd_node_list'', t_hint = ReadOnly\<rparr>"
definition lwd_node_add_tool :: tool where "lwd_node_add_tool = \<lparr>t_name = ''lwd_node_add'', t_hint = Unmarked\<rparr>"
definition lwd_node_remove_tool :: tool where "lwd_node_remove_tool = \<lparr>t_name = ''lwd_node_remove'', t_hint = Destructive\<rparr>"
definition lwd_node_drain_tool :: tool where "lwd_node_drain_tool = \<lparr>t_name = ''lwd_node_drain'', t_hint = Destructive\<rparr>"
definition lwd_node_evacuate_tool :: tool where "lwd_node_evacuate_tool = \<lparr>t_name = ''lwd_node_evacuate'', t_hint = Destructive\<rparr>"
definition lwd_node_uncordon_tool :: tool where "lwd_node_uncordon_tool = \<lparr>t_name = ''lwd_node_uncordon'', t_hint = Unmarked\<rparr>"

definition registerTools :: "tool list" where
  "registerTools =
     [lwd_list_tool, lwd_status_tool, lwd_logs_tool, lwd_history_tool,
      lwd_apply_tool, lwd_deploy_git_tool, lwd_rollback_tool, lwd_scale_tool, lwd_remove_tool,
      lwd_secret_set_tool, lwd_secret_list_tool, lwd_secret_delete_tool, lwd_node_list_tool,
      lwd_node_add_tool, lwd_node_remove_tool, lwd_node_drain_tool, lwd_node_evacuate_tool, lwd_node_uncordon_tool]"

text \<open>A call with its decoded arguments, and the structured result.\<close>

datatype mcp_call =
    CallList | CallStatus string | CallLogs string int | CallHistory string | CallApply apply_input | CallDeployGit git_input
  | CallRollback string | CallScale string int | CallRemove string | CallSecretSet string string string | CallSecretList string
  | CallSecretDelete string string | CallNodeList | CallNodeAdd node_request | CallNodeRemove string | CallNodeDrain string
  | CallNodeEvacuate string | CallNodeUncordon string

datatype mcp_result =
    AppsResult "app_status list" | StatusResult app_status "deployment_summary list" | TextResult string
  | HistoryResult "deployment_summary list" | DeploymentResult deployment_output | ScaleResult deployment_output nat
  | RemovedResult string bool | KeyResult bool string string | NamesResult "string list"
  | NodesResult "(node_status \<times> capacity) list" | NodeResult bool string | EvacuatedResult evacuate_result

definition returning :: "('a \<Rightarrow> mcp_result) \<Rightarrow> ('s, 'a res option) state \<Rightarrow> ('s, mcp_result res option) state" where
  "returning f m = m \<bind> (\<lambda>r. ret (map_option (map_sum id f) r))"

fun tool_of :: "mcp_call \<Rightarrow> tool" where
  "tool_of CallList = lwd_list_tool"
| "tool_of (CallStatus _) = lwd_status_tool"
| "tool_of (CallLogs _ _) = lwd_logs_tool"
| "tool_of (CallHistory _) = lwd_history_tool"
| "tool_of (CallApply _) = lwd_apply_tool"
| "tool_of (CallDeployGit _) = lwd_deploy_git_tool"
| "tool_of (CallRollback _) = lwd_rollback_tool"
| "tool_of (CallScale _ _) = lwd_scale_tool"
| "tool_of (CallRemove _) = lwd_remove_tool"
| "tool_of (CallSecretSet _ _ _) = lwd_secret_set_tool"
| "tool_of (CallSecretList _) = lwd_secret_list_tool"
| "tool_of (CallSecretDelete _ _) = lwd_secret_delete_tool"
| "tool_of CallNodeList = lwd_node_list_tool"
| "tool_of (CallNodeAdd _) = lwd_node_add_tool"
| "tool_of (CallNodeRemove _) = lwd_node_remove_tool"
| "tool_of (CallNodeDrain _) = lwd_node_drain_tool"
| "tool_of (CallNodeEvacuate _) = lwd_node_evacuate_tool"
| "tool_of (CallNodeUncordon _) = lwd_node_uncordon_tool"

fun call_tool ::
  "'s daemon_client \<Rightarrow> (string \<Rightarrow> string res) \<Rightarrow> (string \<Rightarrow> app res) \<Rightarrow> mcp_call \<Rightarrow> ('s, mcp_result res option) state"
where
  "call_tool C read toml CallList = returning AppsResult (lwd_list C)"
| "call_tool C read toml (CallStatus n) = returning (\<lambda>(a, h). StatusResult a h) (lwd_status C n)"
| "call_tool C read toml (CallLogs n k) = returning TextResult (lwd_logs C n k)"
| "call_tool C read toml (CallHistory n) = returning HistoryResult (lwd_history C n)"
| "call_tool C read toml (CallApply i) = returning DeploymentResult (lwd_apply C read toml i)"
| "call_tool C read toml (CallDeployGit i) = returning DeploymentResult (lwd_deploy_git C i)"
| "call_tool C read toml (CallRollback n) = returning DeploymentResult (lwd_rollback C n)"
| "call_tool C read toml (CallScale n k) = returning (\<lambda>(d, k). ScaleResult d k) (lwd_scale C n k)"
| "call_tool C read toml (CallRemove n) = returning (\<lambda>(n, b). RemovedResult n b) (lwd_remove C n)"
| "call_tool C read toml (CallSecretSet n k v) = returning (\<lambda>(b, a, k). KeyResult b a k) (lwd_secret_set C n k v)"
| "call_tool C read toml (CallSecretList n) = returning NamesResult (lwd_secret_list C n)"
| "call_tool C read toml (CallSecretDelete n k) = returning (\<lambda>(b, a, k). KeyResult b a k) (lwd_secret_delete C n k)"
| "call_tool C read toml CallNodeList = returning NodesResult (lwd_node_list C)"
| "call_tool C read toml (CallNodeAdd q) = returning (\<lambda>(b, n). NodeResult b n) (lwd_node_add C q)"
| "call_tool C read toml (CallNodeRemove n) = returning (\<lambda>(n, b). RemovedResult n b) (lwd_node_remove C n)"
| "call_tool C read toml (CallNodeDrain n) = returning EvacuatedResult (lwd_node_drain C n)"
| "call_tool C read toml (CallNodeEvacuate n) = returning EvacuatedResult (lwd_node_evacuate C n)"
| "call_tool C read toml (CallNodeUncordon n) = returning (\<lambda>(b, n). NodeResult b n) (lwd_node_uncordon C n)"

text \<open>Every call is of a registered tool, and the names are distinct.\<close>

lemma tools_registered: "tool_of tc \<in> set registerTools" "distinct (map t_name registerTools)"
proof -
  show "tool_of tc \<in> set registerTools" by (cases tc) (simp_all add: registerTools_def)
  show "distinct (map t_name registerTools)" by code_simp
qed

section \<open>A read-only tool reads\<close>

text \<open>Nothing moved but the outside and the clock, and nothing was started, removed, routed or run.\<close>

definition reads :: "'x sys \<Rightarrow> 'x sys \<Rightarrow> bool" where
  "reads s s' = (kept s' = kept s \<and> remotes s' = remotes s \<and> trace s' = trace s)"

interpretation reads: frame reads
  by unfold_locales (auto simp: reads_def)

lemma reads_call [pres_rules]: "pres reads (call f)"
  by (rule presI) (auto simp: call_def reads_def kept_def split: prod.splits)

lemma reads_db: "(\<And>t. snd (f t) = t) \<Longrightarrow> pres reads (db_exec env stmt f)"
  unfolding db_exec_def
  by (intro pres_rules) (rule presI, auto simp: reads_def kept_def split: prod.splits, metis snd_conv)

lemma reads_replies [pres_rules]:
  "pres reads (wrap_err fmt as e)" "pres reads (Api.writeErr code e')" "pres reads (Api.writeJSON code b)"
  unfolding wrap_err_def Api.writeErr_def Api.writeJSON_def by (intro pres_rules)+

lemma reads_store [pres_rules]:
  "pres reads (ListApps env)" "pres reads (CurrentDeployment env a)" "pres reads (DeploymentsForApp env a)"
  "pres reads (ListSecretKeys env a)" "pres reads (ListNodes env)" "pres reads (GetNode env a)"
  unfolding ListApps_def CurrentDeployment_def DeploymentsForApp_def ListSecretKeys_def ListNodes_def GetNode_def
  by (intro pres_rules reads_db; simp)+

lemma reads_reachable [pres_rules]: "pres reads (Reachable env n)"
  unfolding Reachable_def lookup_node_def buildTransport_def build_ssh_def pingOK_def by (intro pres_rules)

lemma reads_statuses: "pres reads (app_statuses env ns)" "pres reads (node_statuses env rows)"
proof -
  show "pres reads (app_statuses env ns)" by (induction ns) (auto intro!: pres_rules)
  show "pres reads (node_statuses env rows)" by (induction rows) (auto intro!: pres_rules)
qed

lemma reads_handlers:
  "pres reads (handleApps env)" "pres reads (handleLogs env n b)" "pres reads (handleHistory env n)"
  "pres reads (handleSecretList env n)" "pres reads (handleNodeList env)" "pres reads (handlePools env)" "pres reads handleHealth"
  unfolding handleApps_def handleLogs_def handleHistory_def handleSecretList_def secret_List_def handleNodeList_def
    handlePools_def handleHealth_def HealthSnapshot_def
  by (intro pres_rules reads_statuses)+

text \<open>Whatever its path, a GET reaches a handler that reads, or none.\<close>

lemma get_reads: "route_to GET segs q b = Some req \<Longrightarrow> pres reads (Handler env ip url req)"
  by (auto simp: route_to_def reads_handlers split: list.splits if_splits)

lemma serve_reads: "dq_method r = GET \<Longrightarrow> pres reads (serve_mux env ip url r)"
  unfolding serve_mux_def Let_def by (auto intro!: pres_rules get_reads split: option.split)

lemma daemon_reads: "dq_method r = GET \<Longrightarrow> pres reads (serve_daemon env ip url token r)"
  by (auto simp: serve_daemon_def bearerMiddleware_def Let_def intro!: pres_rules serve_reads split: option.split)

text \<open>A redirect is followed with a GET too, so that all a GET sets going is reading.\<close>

lemma GET_reads: "dq_method r = GET \<Longrightarrow> pres reads (do_request (daemon_dial env ip url token) c host n r)"
proof (induction n arbitrary: r)
  case (Suc n)
  have "pres reads (daemon_dial env ip url token host r)"
    unfolding daemon_dial_def by (intro pres_rules daemon_reads Suc.prems)
  then show ?case by (auto intro!: pres_rules Suc.IH split: sum.split served.split)
qed (simp add: pres_rules)

lemma send_reads: "pres reads (exchange code decode (send (daemon_dial env ip url token) ok c GET path b))"
  unfolding exchange_def send_def by (auto intro!: pres_rules GET_reads split: option.split)

text \<open>What the tools marked as read-only ask of a client, whatever its state.\<close>

locale reading_client =
  fixes R :: "'s \<Rightarrow> 's \<Rightarrow> bool" and C :: "'s daemon_client"
  assumes R_refl: "R s s"
    and R_trans: "R s t \<Longrightarrow> R t u \<Longrightarrow> R s u"
    and lists_read: "pres R (dc_apps C)" "pres R (dc_nodes C)" "pres R (dc_health C)"
    and named_read: "pres R (dc_history C name)" "pres R (dc_logs C name follow)" "pres R (dc_listsecrets C name)"

sublocale reading_client \<subseteq> frame R
  by unfold_locales (rule R_refl, erule (1) R_trans)

context reading_client
begin

lemma try_reads: "pres R m \<Longrightarrow> (\<And>a. pres R (k a)) \<Longrightarrow> pres R (try_call m k)"
  unfolding try_call_def by (auto intro!: pres_bind pres_ret split: option.split sum.split)

lemma outcome_reads: "pres R (tool_ok b)" "pres R (tool_err e)"
  unfolding tool_ok_def tool_err_def by (rule pres_ret)+

lemma returning_reads: "pres R m \<Longrightarrow> pres R (returning f m)"
  unfolding returning_def by (intro pres_bind pres_ret)

lemmas tools_read = try_reads outcome_reads returning_reads lists_read named_read

lemma node_list_reads: "pres R (lwd_node_list C)"
  unfolding lwd_node_list_def Let_def
  by (auto intro!: tools_read pres_bind pres_ret split: option.split)

lemma status_reads: "pres R (lwd_status C name)"
  unfolding lwd_status_def by (auto intro!: tools_read split: option.split)

lemma read_only_reads:
  assumes "t_hint (tool_of tc) = ReadOnly"
  shows "pres R (call_tool C read toml tc)"
  using assms
  by (cases tc)
     (simp_all add: lwd_apply_tool_def lwd_deploy_git_tool_def lwd_rollback_tool_def lwd_scale_tool_def lwd_remove_tool_def
       lwd_secret_set_tool_def lwd_secret_delete_tool_def lwd_node_add_tool_def lwd_node_remove_tool_def lwd_node_drain_tool_def
       lwd_node_evacuate_tool_def lwd_node_uncordon_tool_def returning_reads status_reads node_list_reads tools_read
       lwd_list_def lwd_logs_def lwd_history_def lwd_secret_list_def Let_def)

end

interpretation reading: reading_client reads "http_client (daemon_dial env ip url token) ok c"
  for env ip url token ok c
  by unfold_locales
     (auto intro: reads.trans simp: reads.refl http_client_def send_reads client_Apps_def client_Nodes_def client_Health_def
       client_History_def client_Logs_def client_ListSecrets_def)

text \<open>
  C35: a tool that is announced as read-only only reads: whatever its arguments, a name that is no name
  of an app and leads elsewhere on the daemon included, the call leaves the database, the routes, the resolver and
  the bookkeeping of the reconciler as they are and starts, removes, configures or builds nothing, whether it
  succeeds, fails or panics, and with any token.
\<close>

theorem read_only_tools_read:
  assumes "t_hint (tool_of tc) = ReadOnly"
  shows "wp (call_tool (http_client (daemon_dial env ip url token) ok c) read toml tc)
    (\<lambda>r s'. kept s' = kept s \<and> remotes s' = remotes s \<and> trace s' = trace s) s"
  using reading.read_only_reads [OF assms] by (rule pres_wp) (simp add: reads_def)

section \<open>The tail of the logs\<close>

definition line_count :: "string \<Rightarrow> nat" where
  "line_count s = length (split_on line_end (trim_suffix [line_end] s))"

lemma join_drop: "k < length ws \<Longrightarrow> suffix (join_with sep (drop k ws)) (join_with sep ws)"
proof (induction sep ws arbitrary: k rule: join_with.induct)
  case (3 sep w v ws)
  then show ?case
  proof (cases k)
    case (Suc j)
    with 3 have "suffix (join_with sep (drop j (v # ws))) (join_with sep (v # ws))" by simp
    then have "suffix (join_with sep (drop j (v # ws))) ((w @ sep) @ join_with sep (v # ws))" by (rule suffix_appendI)
    with Suc show ?thesis by simp
  qed simp
qed simp_all

lemma trim_snoc: "trim_suffix [line_end] (s @ [line_end]) = s"
  by (simp add: trim_suffix_def)

lemma trim_cases: "text = trim_suffix [line_end] text \<or> text = trim_suffix [line_end] text @ [line_end]"
  by (auto simp: trim_suffix_def suffix_def)

text \<open>
  The logs a tool returns are the end of the text, to the byte, with exactly as many lines as were asked
  for, or the whole text when it has no more.
\<close>

lemma lastLines_exact:
  assumes "0 < n"
  shows "suffix (lastLines input n) input \<and> int (line_count (lastLines input n)) = min n (int (line_count input)) \<and>
    (int (line_count input) \<le> n \<longrightarrow> lastLines input n = input)"
proof -
  let ?t = "trim_suffix [line_end] input"
  let ?ls = "split_on line_end ?t"
  let ?k = "if int (length ?ls) > n then length ?ls - nat n else 0"
  let ?o = "join_with [line_end] (drop ?k ?ls)"
  let ?e = "if ?t \<noteq> input then [line_end] else []"
  have out: "lastLines input n = ?o @ ?e" by (simp add: lastLines_def Let_def)
  have whole: "input = ?t @ ?e" using trim_cases [of input] by auto
  have k: "?k < length ?ls" using assms by (auto simp: length_greater_0_conv)
  have "suffix ?o ?t" using join_drop [OF k, of "[line_end]"] by (simp add: join_split)
  then have suf: "suffix (?o @ ?e) (?t @ ?e)" by (auto simp: suffix_def)
  have free: "list_all (\<lambda>w. line_end \<notin> set w) (drop ?k ?ls)"
    using split_on_no_sep [of _ line_end ?t] by (auto simp: list_all_iff dest: in_set_dropD)
  have cnt: "split_on line_end ?o = drop ?k ?ls" using k by (intro split_join_free [OF free]) simp
  have "trim_suffix [line_end] (?o @ ?e) = ?o"
  proof (cases "?t = input")
    case True
    have "\<not> suffix [line_end] ?t" using True by (auto simp: trim_suffix_def suffix_def split: if_splits)
    then have "\<not> suffix [line_end] ?o" using \<open>suffix ?o ?t\<close> suffix_order.trans by blast
    with True show ?thesis by (simp add: trim_suffix_def)
  qed (simp add: trim_snoc)
  then have "line_count (?o @ ?e) = length ?ls - ?k" by (simp add: line_count_def cnt)
  moreover have "line_count input = length ?ls" by (simp add: line_count_def)
  moreover have "int (length ?ls) \<le> n \<longrightarrow> ?o @ ?e = input" using whole by (auto simp: join_split)
  ultimately show ?thesis using suf whole out assms by (auto split: if_splits)
qed

end
