(* ===== verification/Docker.thy ===== *)
theory Docker
  imports Agent Deploy
begin

text \<open>
  The node of a Docker host (\<open>Local\<close> in \<open>src/internal/node/local.go\<close>) over the calls of the Docker SDK,
  which are arguments, and the host's capacity (\<open>src/internal/node/capacity.go\<close>). What it gives is
  a node as the agent serves it and as the reconciler uses it.
\<close>

section \<open>What Docker is asked and answers\<close>

text \<open>The port sets and maps are lists; a port is the text \<open>8080/tcp\<close>, a binding its address and port.\<close>

record container_config =
  cc_image :: string
  cc_env :: "string list"
  cc_labels :: env_map
  cc_cmd :: "string list"
  cc_exposed :: "string list"

record host_config =
  hc_nano_cpus :: int
  hc_memory :: int
  hc_ports :: "(string \<times> (string \<times> string) list) list"

record net_settings =
  ns_networks :: "(string \<times> string) list"
  ns_ports :: "(string \<times> (string \<times> string) list) list"

record inspected =
  ci_state :: "(string \<times> string option) option"
  ci_net :: "net_settings option"

record summary =
  sm_id :: string
  sm_names :: "string list"
  sm_image :: string
  sm_state :: string
  sm_labels :: env_map
  sm_public :: "int list"

record 'x docker =
  dk_ping :: "('x, goerr option) op"
  dk_image :: "string \<Rightarrow> ('x, goerr option) op"
  dk_pull :: "string \<Rightarrow> ('x, string res) op"
  dk_network :: "string \<Rightarrow> ('x, goerr option) op"
  dk_network_create :: "string \<Rightarrow> string \<Rightarrow> ('x, goerr option) op"
  dk_create :: "container_config \<Rightarrow> host_config \<Rightarrow> string option \<Rightarrow> string \<Rightarrow> ('x, string res) op"
  dk_start :: "string \<Rightarrow> ('x, goerr option) op"
  dk_stop :: "string \<Rightarrow> nat \<Rightarrow> ('x, goerr option) op"
  dk_remove :: "string \<Rightarrow> bool \<Rightarrow> ('x, goerr option) op"
  dk_inspect :: "string \<Rightarrow> ('x, inspected res) op"
  dk_list :: "bool \<Rightarrow> string list \<Rightarrow> ('x, summary list res) op"
  dk_logs :: "string \<Rightarrow> bool \<Rightarrow> string \<Rightarrow> ('x, string res) op"
  dk_connect :: "string \<Rightarrow> string \<Rightarrow> ('x, goerr option) op"
  dk_save :: "string list \<Rightarrow> ('x, string res) op"
  dk_load :: "string \<Rightarrow> bool \<Rightarrow> ('x, string res) op"
  dk_info :: "('x, (int \<times> int) res) op"
  dk_not_found :: "goerr \<Rightarrow> bool"
  dk_message :: "goerr \<Rightarrow> string"

text \<open>The host's own files, network and context.\<close>

record 'x host =
  h_meminfo :: "('x, string res) op"
  h_loadavg :: "('x, string res) op"
  h_statfs :: "('x, (int \<times> int \<times> int) res) op"
  h_cpus :: int
  h_get :: "string \<Rightarrow> ('x, int res) op"
  h_connect :: "string \<Rightarrow> ('x, goerr option) op"
  h_ctx :: "('x, goerr option) op"

text \<open>One call after another.\<close>

definition and_then :: "('x, 'a) op \<Rightarrow> ('a \<Rightarrow> ('x, 'b) op) \<Rightarrow> ('x, 'b) op" where
  "and_then f k = (\<lambda>x. case f x of (a, dt, x') \<Rightarrow> (case k a x' of (b, dt', x'') \<Rightarrow> (b, dt + dt', x'')))"

definition try_op :: "('x, 'a res) op \<Rightarrow> (goerr \<Rightarrow> ('x, 'b) op) \<Rightarrow> ('a \<Rightarrow> ('x, 'b) op) \<Rightarrow> ('x, 'b) op" where
  "try_op f h k = and_then f (\<lambda>r. case r of Inl e \<Rightarrow> h e | Inr a \<Rightarrow> k a)"

section \<open>Images and networks\<close>

text \<open>The progress that a pull or a load streams back is drained and thrown away.\<close>

definition Local_EnsureImage :: "'x docker \<Rightarrow> string \<Rightarrow> ('x, goerr option) op" where
  "Local_EnsureImage d ref = and_then (dk_image d ref) (\<lambda>inspectErr.
     let present = (inspectErr = None) in
     if present \<and> str_index ''@sha256:'' ref \<noteq> None then answer None
     else try_op (dk_pull d ref)
       (\<lambda>e. answer (if present then None else Some (Wrapf ''pull %s: %w'' [ref] e)))
       (\<lambda>_. answer None))"

definition Local_EnsureNetwork :: "'x docker \<Rightarrow> string \<Rightarrow> ('x, goerr option) op" where
  "Local_EnsureNetwork d name = and_then (dk_network d name) (\<lambda>r. case r of
     None \<Rightarrow> answer None
   | Some e \<Rightarrow>
       if \<not> dk_not_found d e then answer (Some (Wrapf ''inspect network %s: %w'' [name] e))
       else and_then (dk_network_create d name ''bridge'') (\<lambda>c. case c of
         None \<Rightarrow> answer None
       | Some ce \<Rightarrow> and_then (dk_network d name) (\<lambda>again. answer (case again of
           None \<Rightarrow> None
         | Some _ \<Rightarrow> Some (Wrapf ''create network %s: %w'' [name] ce)))))"

definition Local_ImagePresent :: "'x docker \<Rightarrow> string \<Rightarrow> ('x, bool res) op" where
  "Local_ImagePresent d ref = after (dk_image d ref) (\<lambda>r. case r of
     None \<Rightarrow> Inr True
   | Some e \<Rightarrow> if dk_not_found d e then Inr False else Inl (Wrapf ''inspect image %s: %w'' [ref] e))"

definition Local_SaveImage :: "'x docker \<Rightarrow> string \<Rightarrow> ('x, string res) op" where
  "Local_SaveImage d ref = after (dk_save d [ref]) (\<lambda>r. case r of
     Inl e \<Rightarrow> Inl (Wrapf ''save image %s: %w'' [ref] e) | Inr rc \<Rightarrow> Inr rc)"

definition Local_LoadImage :: "'x docker \<Rightarrow> string \<Rightarrow> ('x, goerr option) op" where
  "Local_LoadImage d tar = after (dk_load d tar True) (\<lambda>r. case r of
     Inl e \<Rightarrow> Some (Wrapf ''load image: %w'' [] e) | Inr _ \<Rightarrow> None)"

definition Local_ConnectContainerToNetwork :: "'x docker \<Rightarrow> string \<Rightarrow> string \<Rightarrow> ('x, goerr option) op" where
  "Local_ConnectContainerToNetwork d cid net = after (dk_connect d net cid) (\<lambda>r. case r of
     None \<Rightarrow> None
   | Some e \<Rightarrow>
       let errMsg = dk_message d e in
       if str_index ''already exists'' errMsg \<noteq> None \<or> str_index ''endpoint already exists'' errMsg \<noteq> None then None
       else Some (Wrapf ''connect container %s to network %s: %w'' [cid, net] e))"

section \<open>Containers\<close>

definition tcp_port :: "int \<Rightarrow> string" where "tcp_port p = show_int p @ ''/tcp''"

text \<open>One published port: the address it binds to, and the port asked for, empty for any.\<close>

definition bind_address :: "port_mapping \<Rightarrow> string" where
  "bind_address pm =
     (if p_host_ip pm \<noteq> [] then p_host_ip pm
      else if p_host_port pm = 80 \<or> p_host_port pm = 443 then ''0.0.0.0'' else ''127.0.0.1'')"

definition bind_port :: "port_mapping \<Rightarrow> string" where
  "bind_port pm = (if p_host_port pm \<noteq> 0 then show_int (p_host_port pm) else [])"

text \<open>\<open>portBindings[cp] = append(portBindings[cp], b)\<close>\<close>

definition add_binding :: "(string \<times> (string \<times> string) list) list \<Rightarrow> port_mapping \<Rightarrow> (string \<times> (string \<times> string) list) list" where
  "add_binding m pm =
     (let cp = tcp_port (p_container_port pm);
          old = (case map_of m cp of None \<Rightarrow> [] | Some l \<Rightarrow> l) in
      AList.update cp (old @ [(bind_address pm, bind_port pm)]) m)"

definition port_bindings :: "run_spec \<Rightarrow> (string \<times> (string \<times> string) list) list" where
  "port_bindings sp = foldl add_binding [] (r_publish sp)"

definition exposed_ports :: "run_spec \<Rightarrow> string list" where
  "exposed_ports sp =
     foldl (\<lambda>ps pm. List.insert (tcp_port (p_container_port pm)) ps)
       (if r_port sp \<noteq> 0 then [tcp_port (r_port sp)] else []) (r_publish sp)"

text \<open>The host port the container is taken to have before Docker is asked.\<close>

definition requested_port :: "run_spec \<Rightarrow> int" where
  "requested_port sp =
     (let primary = foldl (\<lambda>p pm. if p_container_port pm = r_port sp then p_host_port pm else p) 0 (r_publish sp) in
      case r_publish sp of
        [] \<Rightarrow> 0
      | pm # _ \<Rightarrow> if primary = 0 \<and> p_container_port pm \<noteq> r_port sp then p_host_port pm else primary)"

definition applyResourceLimits :: "host_config \<Rightarrow> rat \<Rightarrow> int \<Rightarrow> host_config" where
  "applyResourceLimits hc cpus memBytes =
     (let hc1 = (if 0 < cpus then hc\<lparr>hc_nano_cpus := to_int64 \<lfloor>cpus * 10 ^ 9\<rfloor>\<rparr> else hc) in
      if 0 < memBytes then hc1\<lparr>hc_memory := memBytes\<rparr> else hc1)"

definition config_for :: "run_spec \<Rightarrow> container_config" where
  "config_for sp = \<lparr>cc_image = r_image sp, cc_env = map (\<lambda>(k, v). k @ ''='' @ v) (r_env sp), cc_labels = r_labels sp,
     cc_cmd = r_cmd sp, cc_exposed = exposed_ports sp\<rparr>"

definition host_config_for :: "run_spec \<Rightarrow> host_config" where
  "host_config_for sp = applyResourceLimits \<lparr>hc_nano_cpus = 0, hc_memory = 0, hc_ports = port_bindings sp\<rparr>
     (r_cpus sp) (r_memory sp)"

text \<open>The address of the container: on its own network, or else the first there is.\<close>

definition address_of :: "run_spec \<Rightarrow> net_settings \<Rightarrow> string" where
  "address_of sp net =
     (let own = (if r_network sp \<noteq> [] then (case map_of (ns_networks net) (r_network sp) of None \<Rightarrow> [] | Some ip \<Rightarrow> ip) else []) in
      if own \<noteq> [] then own
      else (case find (\<lambda>(_, ip). ip \<noteq> []) (ns_networks net) of None \<Rightarrow> [] | Some (_, ip) \<Rightarrow> ip))"

definition bound_port :: "run_spec \<Rightarrow> net_settings \<Rightarrow> int" where
  "bound_port sp net =
     (if r_port sp \<noteq> 0 then
        (case map_of (ns_ports net) (tcp_port (r_port sp)) of
           Some ((_, hp) # _) \<Rightarrow> (case ParseInt64 hp of None \<Rightarrow> requested_port sp | Some n \<Rightarrow> n)
         | _ \<Rightarrow> requested_port sp)
      else requested_port sp)"

definition Local_RunContainer :: "'x docker \<Rightarrow> run_spec \<Rightarrow> ('x, container res) op" where
  "Local_RunContainer d sp =
     try_op (dk_create d (config_for sp) (host_config_for sp) (if r_network sp \<noteq> [] then Some (r_network sp) else None) (r_name sp))
       (\<lambda>e. answer (Inl (Wrapf ''create container: %w'' [] e)))
       (\<lambda>cid. and_then (dk_start d cid) (\<lambda>st. case st of
          Some e \<Rightarrow> and_then (dk_remove d cid True) (\<lambda>_. answer (Inl (Wrapf ''start container: %w'' [] e)))
        | None \<Rightarrow> after (dk_inspect d cid) (\<lambda>r.
            let net = (case r of Inl _ \<Rightarrow> None | Inr i \<Rightarrow> ci_net i) in
            Inr \<lparr>c_id = cid, c_name = r_name sp, c_image = r_image sp, c_state = ''running'', c_labels = r_labels sp,
              c_host_port = (case net of None \<Rightarrow> requested_port sp | Some n \<Rightarrow> bound_port sp n),
              c_ip = (case net of None \<Rightarrow> [] | Some n \<Rightarrow> address_of sp n)\<rparr>)))"

definition Local_RemoveContainer :: "'x docker \<Rightarrow> string \<Rightarrow> ('x, goerr option) op" where
  "Local_RemoveContainer d cid = and_then (dk_stop d cid 10) (\<lambda>_. after (dk_remove d cid True)
     (\<lambda>r. case r of None \<Rightarrow> None | Some e \<Rightarrow> Some (Wrapf ''remove container %s: %w'' [cid] e)))"

definition listed_container :: "summary \<Rightarrow> container" where
  "listed_container c = \<lparr>c_id = sm_id c,
     c_name = (case sm_names c of [] \<Rightarrow> [] | n # _ \<Rightarrow> if prefix ''/'' n then tl n else n),
     c_image = sm_image c, c_state = sm_state c, c_labels = sm_labels c,
     c_host_port = (case find (\<lambda>p. p \<noteq> 0) (sm_public c) of None \<Rightarrow> 0 | Some p \<Rightarrow> p), c_ip = []\<rparr>"

definition Local_ListContainers :: "'x docker \<Rightarrow> env_map \<Rightarrow> ('x, container list res) op" where
  "Local_ListContainers d labels = after (dk_list d True (map (\<lambda>(k, v). k @ ''='' @ v) labels)) (\<lambda>r. case r of
     Inl e \<Rightarrow> Inl (Wrapf ''list containers: %w'' [] e)
   | Inr cs \<Rightarrow> Inr (map listed_container cs))"

definition Local_ContainerLogs :: "'x docker \<Rightarrow> string \<Rightarrow> bool \<Rightarrow> ('x, string res) op" where
  "Local_ContainerLogs d cid follow = dk_logs d cid follow ''200''"

definition Local_ContainerHealth :: "'x docker \<Rightarrow> string \<Rightarrow> ('x, (string \<times> string) res) op" where
  "Local_ContainerHealth d cid = after (dk_inspect d cid) (\<lambda>r. case r of
     Inl e \<Rightarrow> Inl (Wrapf ''inspect container %s: %w'' [cid] e)
   | Inr i \<Rightarrow> Inr (case ci_state i of
       None \<Rightarrow> ([], [])
     | Some (status, h) \<Rightarrow> (status, case h of None \<Rightarrow> [] | Some hs \<Rightarrow> hs)))"

section \<open>Waiting until a container answers\<close>

definition probeHTTP :: "'x host \<Rightarrow> string \<Rightarrow> ('x, goerr option) op" where
  "probeHTTP h url = after (h_get h url) (\<lambda>r. case r of
     Inl e \<Rightarrow> Some e
   | Inr status \<Rightarrow> if status < 200 \<or> 300 \<le> status then Some (Errf ''status %d'' []) else None)"

definition probeTCP :: "'x host \<Rightarrow> string \<Rightarrow> ('x, goerr option) op" where
  "probeTCP h addr = h_connect h addr"

definition probe_container :: "'x host \<Rightarrow> container \<Rightarrow> health_spec \<Rightarrow> ('x, goerr option) op" where
  "probe_container h c hs =
     (let addr = ''127.0.0.1:'' @ show_int (c_host_port c) in
      if hs_path hs \<noteq> [] then probeHTTP h (''http://'' @ addr @ hs_path hs) else probeTCP h addr)"

definition timed_out :: "goerr option \<Rightarrow> goerr" where
  "timed_out lastErr = (case lastErr of
     None \<Rightarrow> Errf ''health check timed out: %!w(<nil>)'' []
   | Some e \<Rightarrow> Wrapf ''health check timed out: %w'' [] e)"

text \<open>
  The loop, \<open>t\<close> being the time since it began. Each round asks the context, probes, and asks the context
  again for the half second it waits, so that it ends.
\<close>

function health_loop ::
  "('x, goerr option) op \<Rightarrow> ('x, goerr option) op \<Rightarrow> int \<Rightarrow> goerr option \<Rightarrow> nat \<Rightarrow> 'x \<Rightarrow> goerr option \<times> nat \<times> 'x"
where
  "health_loop ctx probe deadline lastErr t x =
     (if int t < deadline then
        (case ctx x of
           (Some e, dt, x1) \<Rightarrow> (Some e, t + dt, x1)
         | (None, dt, x1) \<Rightarrow> (case probe x1 of
             (None, dp, x2) \<Rightarrow> (None, t + dt + dp, x2)
           | (Some e, dp, x2) \<Rightarrow> (case ctx x2 of
               (Some ce, dc, x3) \<Rightarrow> (Some ce, t + dt + dp + dc, x3)
             | (None, dc, x3) \<Rightarrow> health_loop ctx probe deadline (Some e) (t + dt + dp + dc + 500000000) x3)))
      else (Some (timed_out lastErr), t, x))"
  by pat_completeness auto
termination
  by (relation "measure (\<lambda>(ctx, probe, deadline, lastErr, t, x). nat (deadline - int t))") auto

declare health_loop.simps [simp del]

definition Local_Health :: "'x host \<Rightarrow> container \<Rightarrow> health_spec \<Rightarrow> ('x, goerr option) op" where
  "Local_Health h c hs =
     (if c_host_port c = 0 then answer None
      else if hs_timeout hs \<le> 0 then answer (Some (Errf ''health check: non-positive timeout %v'' []))
      else health_loop (h_ctx h) (probe_container h c hs) (hs_timeout hs) None 0)"

section \<open>Capacity\<close>

text \<open>The product of two \<open>int64\<close> wraps.\<close>

definition wrap_int64 :: "int \<Rightarrow> int" where
  "wrap_int64 n = (n + 2 ^ 63) mod 2 ^ 64 - 2 ^ 63"

definition parseMeminfoValue :: "string \<Rightarrow> int res" where
  "parseMeminfoValue line = (case words_of line of
     _ # v # _ \<Rightarrow> (case ParseInt64 v of None \<Rightarrow> Inl (Errf ''strconv.ParseInt: parsing %q'' [v]) | Some n \<Rightarrow> Inr n)
   | _ \<Rightarrow> Inl (Errf ''malformed line %q'' [line]))"

text \<open>\<open>bufio.Scanner\<close>: a line is without its end, and one that does not fit its buffer stops it.\<close>

definition max_line :: nat where "max_line = 65536"

definition drop_return :: "string \<Rightarrow> string" where
  "drop_return w = (if w \<noteq> [] \<and> last w = CHR 0x0D then butlast w else w)"

fun meminfo_lines :: "string list \<Rightarrow> int \<Rightarrow> int \<Rightarrow> bool \<Rightarrow> (int \<times> int) res" where
  "meminfo_lines [] tot avail foundTotal =
     (if foundTotal then Inr (tot, avail) else Inl (Errf ''MemTotal not found'' []))"
| "meminfo_lines (w # ws) tot avail foundTotal =
     (if max_line \<le> length w then Inl (Errf ''bufio.Scanner: token too long'' [])
      else let line = drop_return w in
        if prefix ''MemTotal:'' line then
          (case parseMeminfoValue line of
             Inl e \<Rightarrow> Inl (Wrapf ''parse MemTotal: %w'' [] e)
           | Inr v \<Rightarrow> meminfo_lines ws (wrap_int64 (v * 1024)) avail True)
        else if prefix ''MemAvailable:'' line then
          (case parseMeminfoValue line of
             Inl e \<Rightarrow> Inl (Wrapf ''parse MemAvailable: %w'' [] e)
           | Inr v \<Rightarrow> meminfo_lines ws tot (wrap_int64 (v * 1024)) foundTotal)
        else meminfo_lines ws tot avail foundTotal)"

definition parseMeminfo :: "string \<Rightarrow> (int \<times> int) res" where
  "parseMeminfo s = meminfo_lines (split_on (CHR 0x0A) s) 0 0 False"

text \<open>\<open>strconv.ParseFloat\<close> on the plain decimals that a kernel writes; the value is not rounded.\<close>

definition decimal_value :: "string \<Rightarrow> rat res" where
  "decimal_value s =
     (let ds = takeWhile is_digit s; r = dropWhile is_digit s; fs = drop 1 r in
      if ds @ fs = [] \<or> \<not> (r = [] \<or> hd r = CHR ''.'' \<and> list_all is_digit fs)
      then Inl (Errf ''strconv.ParseFloat: parsing %q'' [s])
      else Inr (of_int (read_int (ds @ fs)) / 10 ^ length fs))"

definition parseLoadavg1 :: "string \<Rightarrow> rat res" where
  "parseLoadavg1 s = (case words_of s of
     [] \<Rightarrow> Inl (Errf ''empty loadavg'' [])
   | w # _ \<Rightarrow> decimal_value w)"

definition readProcCapacity :: "'x host \<Rightarrow> ('x, capacity res) op" where
  "readProcCapacity h =
     try_op (h_meminfo h) (\<lambda>e. answer (Inl (Wrapf ''open /proc/meminfo: %w'' [] e))) (\<lambda>meminfo.
     case parseMeminfo meminfo of
       Inl e \<Rightarrow> answer (Inl (Wrapf ''parse /proc/meminfo: %w'' [] e))
     | Inr (memTotal, memAvail) \<Rightarrow>
     try_op (h_loadavg h) (\<lambda>e. answer (Inl (Wrapf ''open /proc/loadavg: %w'' [] e))) (\<lambda>loadavg.
     case parseLoadavg1 loadavg of
       Inl e \<Rightarrow> answer (Inl (Wrapf ''parse /proc/loadavg: %w'' [] e))
     | Inr cpuUsed \<Rightarrow>
     try_op (h_statfs h) (\<lambda>e. answer (Inl (Wrapf ''statfs /: %w'' [] e))) (\<lambda>(blocks, bsize, bavail).
     answer (Inr \<lparr>k_cores = h_cpus h, k_used = cpuUsed, k_mem_total = memTotal, k_mem_available = memAvail,
       k_disk_total = wrap_int64 (wrap_int64 blocks * bsize), k_disk_free = wrap_int64 (wrap_int64 bavail * bsize),
       k_known = True\<rparr>))))"

definition Local_Capacity :: "'x docker \<Rightarrow> 'x host \<Rightarrow> bool \<Rightarrow> ('x, capacity res) op" where
  "Local_Capacity d h remote =
     (if \<not> remote then after (readProcCapacity h) (\<lambda>r. case r of
          Inl _ \<Rightarrow> Inr (no_capacity\<lparr>k_cores := h_cpus h\<rparr>)
        | Inr c \<Rightarrow> Inr c)
      else after (dk_info d) (\<lambda>r. case r of
          Inl e \<Rightarrow> Inl (Wrapf ''docker info: %w'' [] e)
        | Inr (ncpu, mem) \<Rightarrow> Inr (no_capacity\<lparr>k_cores := ncpu, k_mem_total := mem, k_mem_available := mem\<rparr>)))"

section \<open>The node\<close>

text \<open>\<open>NewLocal\<close> and \<open>NewRemoteSSH\<close> differ in the daemon that \<open>d\<close> is, and in \<open>remote\<close>.\<close>

definition local_node :: "'x docker \<Rightarrow> 'x host \<Rightarrow> bool \<Rightarrow> 'x full_node" where
  "local_node d h remote = \<lparr>n_ping = dk_ping d, n_ensure_image = Local_EnsureImage d, n_ensure_network = Local_EnsureNetwork d,
     n_run = Local_RunContainer d, n_remove = Local_RemoveContainer d, n_list = Local_ListContainers d,
     n_container_health = Local_ContainerHealth d, n_connect = Local_ConnectContainerToNetwork d,
     n_present = Local_ImagePresent d, n_save = Local_SaveImage d, n_load = Local_LoadImage d,
     n_capacity = Local_Capacity d h remote, n_health = Local_Health h, n_logs = Local_ContainerLogs d\<rparr>"

section \<open>Which host ports are bound\<close>

lemma map_of_add_binding:
  "map_of (add_binding m pm) p =
     (if tcp_port (p_container_port pm) = p
      then Some ((case map_of m p of None \<Rightarrow> [] | Some l \<Rightarrow> l) @ [(bind_address pm, bind_port pm)]) else map_of m p)"
  by (simp add: add_binding_def Let_def update_conv')

lemma bindings_from:
  "map_of (foldl add_binding m pms) p =
     (let new = map (\<lambda>pm. (bind_address pm, bind_port pm)) (filter (\<lambda>pm. tcp_port (p_container_port pm) = p) pms) in
      if new = [] then map_of m p else Some ((case map_of m p of None \<Rightarrow> [] | Some l \<Rightarrow> l) @ new))"
  by (induction pms arbitrary: m) (auto simp: map_of_add_binding Let_def)

text \<open>
  The host ports of the containers that are started are bound where they should be: a replica on the
  controller binds none, one on another node binds only the port of its app, at the node's address in the
  mesh (or at the loopback address when it has none), and Caddy binds 80 and 443 for all, and its
  admin port at the loopback address only.
\<close>

lemma host_ports_bound:
  "map_of (port_bindings (surface_spec a img vars i n k t)) p =
     (if \<not> tg_local t \<and> p = tcp_port (a_port a)
      then Some [(if tg_mesh t = [] then ''127.0.0.1'' else tg_mesh t, [])] else None) \<and>
   map_of (port_bindings caddy_spec) p =
     (if p = ''80/tcp'' then Some [(''0.0.0.0'', ''80'')] else if p = ''443/tcp'' then Some [(''0.0.0.0'', ''443'')]
      else if p = ''2019/tcp'' then Some [(''127.0.0.1'', ''2019'')] else None)"
proof -
  have ports: "tcp_port 80 = ''80/tcp''" "tcp_port 443 = ''443/tcp''" "tcp_port 2019 = ''2019/tcp''"
    "show_int 80 = ''80''" "show_int 443 = ''443''" "show_int 2019 = ''2019''" by code_simp+
  have "map_of (port_bindings (surface_spec a img vars i n k t)) p =
     (if \<not> tg_local t \<and> p = tcp_port (a_port a)
      then Some [(if tg_mesh t = [] then ''127.0.0.1'' else tg_mesh t, [])] else None)"
    by (simp add: port_bindings_def bindings_from surface_spec_def bind_address_def bind_port_def eq_commute [of p])
  moreover have "port_bindings caddy_spec =
      [(''80/tcp'', [(''0.0.0.0'', ''80'')]), (''443/tcp'', [(''0.0.0.0'', ''443'')]), (''2019/tcp'', [(''127.0.0.1'', ''2019'')])]"
    by (simp add: port_bindings_def caddy_spec_def add_binding_def bind_address_def bind_port_def ports)
  ultimately show ?thesis by simp
qed

section \<open>Containers do not leak\<close>

text \<open>
  What Docker documents of the calls used by \<open>RunContainer\<close>: creating adds one container, or none
  when it fails, starting and inspecting add and remove none, and removing takes the container away or fails.
\<close>

definition docker_keeps :: "'x docker \<Rightarrow> ('x \<Rightarrow> string set) \<Rightarrow> bool" where
  "docker_keeps d held =
     ((\<forall>cc hc net name x. case dk_create d cc hc net name x of
          (Inl e, dt, x') \<Rightarrow> held x' = held x
        | (Inr i, dt, x') \<Rightarrow> i \<notin> held x \<and> held x' = insert i (held x)) \<and>
      (\<forall>i x. held (snd (snd (dk_start d i x))) = held x) \<and>
      (\<forall>i x. held (snd (snd (dk_inspect d i x))) = held x) \<and>
      (\<forall>i x. held (snd (snd (dk_remove d i True x))) =
          (if fst (dk_remove d i True x) = None then held x - {i} else held x)))"

text \<open>
  C38: starting a container adds it and nothing else, and a start that fails leaves the host's containers as
  they were, unless Docker also refused to remove the one that had been created.
\<close>

theorem RunContainer_leaves_none:
  assumes "docker_keeps d held"
  shows "case Local_RunContainer d sp x of
      (Inr c, dt, x') \<Rightarrow> c_id c \<notin> held x \<and> held x' = insert (c_id c) (held x)
    | (Inl e, dt, x') \<Rightarrow> held x' = held x \<or> (\<exists>i y. fst (dk_remove d i True y) \<noteq> None \<and> held x' = insert i (held x))"
proof -
  define conf where "conf = dk_create d (config_for sp) (host_config_for sp)
    (if r_network sp \<noteq> [] then Some (r_network sp) else None) (r_name sp) x"
  have cr: "case conf of (Inl e, dt, x') \<Rightarrow> held x' = held x | (Inr i, dt, x') \<Rightarrow> i \<notin> held x \<and> held x' = insert i (held x)"
    unfolding conf_def by (rule assms [unfolded docker_keeps_def, THEN conjunct1, rule_format])
  note laws = assms [unfolded docker_keeps_def, THEN conjunct2]
  obtain r dt x1 where c: "conf = (r, dt, x1)" by (cases conf)
  show ?thesis
  proof (cases r)
    case (Inl e)
    then show ?thesis using cr c
      by (simp add: Local_RunContainer_def try_op_def and_then_def conf_def [symmetric] answer_def)
  next
    case (Inr cid)
    obtain st ds x2 where s: "dk_start d cid x1 = (st, ds, x2)" by (cases "dk_start d cid x1")
    have h2: "held x2 = held x1" using laws s by (metis snd_conv)
    have h1: "cid \<notin> held x" "held x1 = insert cid (held x)" using cr c Inr by auto
    show ?thesis
    proof (cases st)
      case None
      obtain ir di x3 where i: "dk_inspect d cid x2 = (ir, di, x3)" by (cases "dk_inspect d cid x2")
      have "held x3 = held x2" using laws i by (metis snd_conv)
      then show ?thesis using None Inr c s i h1 h2
        by (simp add: Local_RunContainer_def try_op_def and_then_def conf_def [symmetric] after_def Let_def)
    next
      case (Some e)
      obtain rr dr x3 where rm: "dk_remove d cid True x2 = (rr, dr, x3)" by (cases "dk_remove d cid True x2")
      have "held x3 = (if rr = None then held x2 - {cid} else held x2)" using laws rm by (metis fst_conv snd_conv)
      then have "held x3 = held x \<or> (\<exists>i y. fst (dk_remove d i True y) \<noteq> None \<and> held x3 = insert i (held x))"
        using rm h1 h2 by (cases rr) (simp, metis fst_conv option.distinct(1))
      then show ?thesis using Some Inr c s rm
        by (simp add: Local_RunContainer_def try_op_def and_then_def conf_def [symmetric] answer_def)
    qed
  qed
qed

section \<open>Images, health, capacity\<close>

text \<open>
  An image that is on the host is never the reason for a deploy to fail, whatever the registry does,
  and one that is pinned by digest is not asked for again.
\<close>

lemma EnsureImage_offline:
  assumes "dk_image d ref x = (None, dt, x1)"
  shows "fst (n_ensure_image (local_node d h remote) ref x) = None \<and>
    (str_index ''@sha256:'' ref \<noteq> None \<longrightarrow> n_ensure_image (local_node d h remote) ref x = (None, dt, x1))"
  using assms by (auto simp: local_node_def Local_EnsureImage_def and_then_def try_op_def answer_def split: prod.splits sum.splits)

text \<open>The stream of a pull carries its errors, and is not looked at.\<close>

lemma pull_stream_ignored:
  "dk_image d ref x = (Some e, dt, x1) \<Longrightarrow> dk_pull d ref x1 = (Inr stream, dp, x2)
    \<Longrightarrow> n_ensure_image (local_node d h remote) ref x = (None, dt + dp, x2)"
  by (simp add: local_node_def Local_EnsureImage_def and_then_def try_op_def answer_def)

lemma health_loop_sound: "health_loop ctx probe deadline l t x = (None, t', x') \<Longrightarrow> \<exists>y dp. probe y = (None, dp, x')"
proof (induction ctx probe deadline l t x rule: health_loop.induct)
  case (1 ctx probe deadline l t x)
  then show ?case
    by (subst (asm) (2) health_loop.simps) (fastforce split: if_splits prod.splits option.splits)
qed

lemma health_loop_patient:
  "health_loop ctx probe deadline l t x = (Some e, t', x') \<Longrightarrow> (\<And>y. fst (ctx y) = None) \<Longrightarrow> deadline \<le> int t'"
proof (induction ctx probe deadline l t x rule: health_loop.induct)
  case (1 ctx probe deadline l t x)
  have "ctx y \<noteq> (Some c, i, z)" for y c i z using 1(3) [of y] by auto
  with 1 show ?case
    by (subst (asm) (2) health_loop.simps) (auto split: if_splits prod.splits option.splits)
qed

text \<open>
  A container with a port is reported healthy only when a probe of it succeeded, and is not given up
  on before the timeout, unless the context ends.
\<close>

lemma Local_Health_sound:
  assumes "c_host_port c \<noteq> 0" and "n_health (local_node d h remote) c hs x = (r, dt, x')"
  shows "(r = None \<longrightarrow> (\<exists>y dp. probe_container h c hs y = (None, dp, x'))) \<and>
    (r \<noteq> None \<and> 0 < hs_timeout hs \<and> (\<forall>y. fst (h_ctx h y) = None) \<longrightarrow> hs_timeout hs \<le> int dt)"
  using assms health_loop_sound [of "h_ctx h" "probe_container h c hs" "hs_timeout hs" None 0 x dt x']
    health_loop_patient [of "h_ctx h" "probe_container h c hs" "hs_timeout hs" None 0 x _ dt x']
  by (auto simp: local_node_def Local_Health_def answer_def split: if_splits)

section \<open>Reading the memory of the host\<close>

text \<open>A line of \<open>/proc/meminfo\<close>, and the lines that are of no interest.\<close>

definition mem_line :: "string \<Rightarrow> nat \<Rightarrow> nat \<Rightarrow> string" where
  "mem_line label k n = label @ replicate (Suc k) (CHR '' '') @ show_nat n @ '' kB''"

definition other_line :: "string \<Rightarrow> bool" where
  "other_line w = (length w < max_line \<and> CHR 0x0A \<notin> set w \<and> \<not> prefix ''MemTotal:'' w \<and> \<not> prefix ''MemAvailable:'' w)"

lemma words_nonblank: "list_all (\<lambda>c. \<not> is_blank c) w \<Longrightarrow> words_from u (w @ s) = words_from (u @ w) s"
  by (induction w arbitrary: u) auto

lemma words_blanks: "is_blank b \<Longrightarrow> words_from [] (replicate k b @ s) = words_from [] s"
  by (induction k) auto

lemma digits_nonblank: "list_all (\<lambda>c. \<not> is_blank c) (show_nat n)"
  using show_nat_digits by (fastforce simp: list_all_iff is_blank_def is_digit_def less_eq_char_def)

lemma mem_words:
  assumes "label \<noteq> []" and "list_all (\<lambda>c. \<not> is_blank c) label"
  shows "words_of (mem_line label k n) = [label, show_nat n, ''kB'']"
proof -
  have kb: "words_from [] ''kB'' = [''kB'']" by code_simp
  have b: "is_blank (CHR '' '')" by (simp add: is_blank_def)
  have "words_of (mem_line label k n) = words_from label (CHR '' '' # replicate k (CHR '' '') @ show_nat n @ '' kB'')"
    by (simp add: words_of_def mem_line_def words_nonblank [OF assms(2)])
  also have "\<dots> = label # words_from [] (show_nat n @ CHR '' '' # ''kB'')"
    using b assms(1) by (simp add: words_blanks)
  also have "words_from [] (show_nat n @ CHR '' '' # ''kB'') = show_nat n # words_from [] ''kB''"
    using b by (simp only: words_nonblank [OF digits_nonblank]) simp
  finally show ?thesis by (simp only: kb)
qed

lemma mem_value:
  assumes "label \<noteq> []" and "list_all (\<lambda>c. \<not> is_blank c) label" and "int n < 2 ^ 63"
  shows "parseMeminfoValue (mem_line label k n) = Inr (int n)"
  using ParseInt_show [of "int n"] assms by (simp add: parseMeminfoValue_def mem_words show_int_def)

lemma mem_line_last: "drop_return (mem_line label k n) = mem_line label k n"
  by (simp add: drop_return_def mem_line_def)

lemma other_skipped: "list_all other_line ws \<Longrightarrow> meminfo_lines (ws @ vs) t a f = meminfo_lines vs t a f"
proof (induction ws)
  case (Cons w ws)
  have "prefix (drop_return w) w" using prefixeq_butlast by (auto simp: drop_return_def)
  then have "\<not> prefix p (drop_return w)" if "\<not> prefix p w" for p using that prefix_order.trans by blast
  with Cons show ?case by (simp add: other_line_def Let_def)
qed simp

lemma mem_line_prefix: "prefix p (mem_line label k n) \<longleftrightarrow> prefix p label \<or>
    (\<exists>q. p = label @ q \<and> prefix q (replicate (Suc k) (CHR '' '') @ show_nat n @ '' kB''))"
  by (simp only: mem_line_def prefix_append)

lemma mem_line_length: "length (mem_line label k n) = length label + k + length (show_nat n) + 4"
  by (simp add: mem_line_def)

lemma show_nat_length: "i < 10 ^ Suc e \<Longrightarrow> length (show_nat i) \<le> Suc e"
proof (induction e arbitrary: i)
  case 0
  then show ?case by (subst show_nat.simps) simp
next
  case (Suc e)
  have "i div 10 < 10 ^ Suc e" using Suc.prems by (simp add: less_mult_imp_div_less)
  then show ?case using Suc.IH [of "i div 10"] by (subst show_nat.simps) simp
qed

text \<open>
  From the text of \<open>/proc/meminfo\<close> the two figures are read, in bytes, wherever their lines stand and
  whatever other lines there are.
\<close>

lemma parseMeminfo_exact:
  assumes "list_all other_line (pre @ mid @ post)" and "k < 1000" and "j < 1000"
    and "int n * 1024 < 2 ^ 63" and "int m * 1024 < 2 ^ 63"
  shows "parseMeminfo (join_with [CHR 0x0A] (pre @ [mem_line ''MemTotal:'' k n] @ mid @ [mem_line ''MemAvailable:'' j m] @ post))
    = Inr (int n * 1024, int m * 1024)"
proof -
  let ?t = "mem_line ''MemTotal:'' k n" and ?a = "mem_line ''MemAvailable:'' j m"
  have len: "length (show_nat i) \<le> 19" if "int i * 1024 < 2 ^ 63" for i
    using that show_nat_length [of i 18] by simp
  have free: "CHR 0x0A \<notin> set (mem_line l i v)" if "CHR 0x0A \<notin> set l" for l i v
    using that show_nat_digits [of "CHR 0x0A" v] by (auto simp: mem_line_def is_digit_def less_eq_char_def)
  have "list_all (\<lambda>w. CHR 0x0A \<notin> set w) (pre @ [?t] @ mid @ [?a] @ post)"
    using assms(1) free by (auto simp: list_all_iff other_line_def)
  then have "parseMeminfo (join_with [CHR 0x0A] (pre @ [?t] @ mid @ [?a] @ post)) = meminfo_lines (pre @ [?t] @ mid @ [?a] @ post) 0 0 False"
    by (simp add: parseMeminfo_def split_join_free del: append_Cons append_Nil)
  also have "\<dots> = meminfo_lines ([?t] @ mid @ [?a] @ post) 0 0 False"
    using assms(1) by (intro other_skipped) simp
  also have "\<dots> = meminfo_lines (mid @ [?a] @ post) (int n * 1024) 0 True"
    using assms(2,4) len [of n] mem_value [of "''MemTotal:''" n k]
    by (simp add: mem_line_last max_line_def Let_def is_blank_def wrap_int64_def mem_line_prefix mem_line_length)
  also have "\<dots> = meminfo_lines ([?a] @ post) (int n * 1024) 0 True"
    using assms(1) by (intro other_skipped) simp
  also have "\<dots> = meminfo_lines (post @ []) (int n * 1024) (int m * 1024) True"
    using assms(3,5) len [of m] mem_value [of "''MemAvailable:''" m j]
    by (simp add: mem_line_last max_line_def Let_def is_blank_def wrap_int64_def mem_line_prefix mem_line_length)
  also have "\<dots> = Inr (int n * 1024, int m * 1024)"
    using assms(1) by (subst other_skipped) simp_all
  finally show ?thesis .
qed

end
