(* ===== verification/Tools.thy ===== *)
theory Tools
  imports World Config
begin

text \<open>
  The programs the daemon runs: git (\<open>src/internal/source/git.go\<close>), \<open>docker build\<close>
  (\<open>src/internal/build/build.go\<close>) and \<open>docker compose\<close> (\<open>src/internal/compose/compose.go\<close>), as the
  argument vectors and environments of their processes. A process is an argument: it returns what it
  wrote to its standard output, or how it failed.
\<close>

section \<open>Processes\<close>

text \<open>\<open>Failed e err exited\<close>: the error, the standard error, and whether it is an \<open>ExitError\<close>.\<close>

datatype outcome = Ran string | Failed goerr string bool

record 'x shell =
  sh_environ :: "string list"
  sh_exec :: "string list \<Rightarrow> string list \<Rightarrow> ('x, outcome) op"

text \<open>The output of a process, trimmed, or an error with its command line and what it wrote.\<close>

definition run_in :: "'x shell \<Rightarrow> string list \<Rightarrow> string list \<Rightarrow> ('x, string res) op" where
  "run_in sh vars argv = (\<lambda>x. case sh_exec sh vars argv x of
     (Ran out, dt, x') \<Rightarrow> (Inr (TrimSpace out), dt, x')
   | (Failed e err _, dt, x') \<Rightarrow> (Inl (Wrapf ''%s: %w: %s'' [join_with '' '' argv, TrimSpace err] e), dt, x'))"

text \<open>The rest of a function after a process, when it succeeded and when it failed.\<close>

definition run_then :: "('x, string res) op \<Rightarrow> (goerr \<Rightarrow> ('x, 'b) op) \<Rightarrow> (string \<Rightarrow> ('x, 'b) op) \<Rightarrow> ('x, 'b) op" where
  "run_then f h k = (\<lambda>x. case f x of
     (Inl e, dt, x') \<Rightarrow> (case h e x' of (b, dt', x'') \<Rightarrow> (b, dt + dt', x''))
   | (Inr out, dt, x') \<Rightarrow> (case k out x' of (b, dt', x'') \<Rightarrow> (b, dt + dt', x'')))"

definition give :: "'b \<Rightarrow> ('x, 'b) op" where
  "give b = (\<lambda>x. (b, 0, x))"

section \<open>git\<close>

definition gitEnv :: "'x shell \<Rightarrow> string list" where
  "gitEnv sh = sh_environ sh @ [''GIT_ALLOW_PROTOCOL=https:http:git:ssh:file'']"

definition run_git :: "'x shell \<Rightarrow> string list \<Rightarrow> ('x, string res) op" where
  "run_git sh args = run_in sh (gitEnv sh) (''git'' # args)"

definition Clone :: "'x shell \<Rightarrow> string \<Rightarrow> string \<Rightarrow> string \<Rightarrow> ('x, string res) op" where
  "Clone sh url ref dir =
     (if prefix ''-'' ref then give (Inl (Errf ''git ref %q is invalid: must not start with -'' [ref]))
      else let sha = run_then (run_git sh [''-C'', dir, ''rev-parse'', ''HEAD'']) (\<lambda>e. give (Inl e)) (\<lambda>out. give (Inr out)) in
        run_then (run_git sh [''clone'', ''--depth'', ''1'', ''--branch'', ref, ''--'', url, dir])
          (\<lambda>_. run_then (run_git sh [''clone'', ''--'', url, dir]) (\<lambda>e. give (Inl e))
             (\<lambda>_. run_then (run_git sh [''-C'', dir, ''checkout'', ref]) (\<lambda>e. give (Inl e)) (\<lambda>_. sha)))
          (\<lambda>_. sha))"

section \<open>docker build\<close>

definition Build :: "'x shell \<Rightarrow> string \<Rightarrow> string \<Rightarrow> string \<Rightarrow> ('x, goerr option) op" where
  "Build sh contextDir dockerfile tag =
     run_then (run_in sh (sh_environ sh)
         [''docker'', ''build'', ''-t'', tag, ''-f'', filepath_join contextDir dockerfile, contextDir])
       (\<lambda>e. give (Some e)) (\<lambda>_. give None)"

definition ImageExists :: "'x shell \<Rightarrow> string \<Rightarrow> ('x, bool res) op" where
  "ImageExists sh tag = (\<lambda>x. case sh_exec sh (sh_environ sh) [''docker'', ''image'', ''inspect'', tag] x of
     (Ran _, dt, x') \<Rightarrow> (Inr True, dt, x')
   | (Failed e _ exited, dt, x') \<Rightarrow>
       ((if exited then Inr False else Inl (Wrapf ''docker image inspect %s: %w'' [tag] e)), dt, x'))"

section \<open>docker compose\<close>

definition with_vars :: "'x shell \<Rightarrow> env_map \<Rightarrow> string list" where
  "with_vars sh vars = sh_environ sh @ map (\<lambda>(k, v). k @ ''='' @ v) vars"

definition Up :: "'x shell \<Rightarrow> string \<Rightarrow> string \<Rightarrow> env_map \<Rightarrow> ('x, goerr option) op" where
  "Up sh project composeFile vars =
     run_then (run_in sh (with_vars sh vars)
         [''docker'', ''compose'', ''-p'', project, ''-f'', composeFile, ''up'', ''-d'', ''--remove-orphans''])
       (\<lambda>e. give (Some (Wrapf ''compose up %s: %w'' [project] e))) (\<lambda>_. give None)"

definition Down :: "'x shell \<Rightarrow> string \<Rightarrow> string \<Rightarrow> env_map \<Rightarrow> ('x, goerr option) op" where
  "Down sh project composeFile vars =
     run_then (run_in sh (with_vars sh vars) [''docker'', ''compose'', ''-p'', project, ''-f'', composeFile, ''down''])
       (\<lambda>e. give (Some (Wrapf ''compose down %s: %w'' [project] e))) (\<lambda>_. give None)"

definition firstLine :: "string \<Rightarrow> string" where
  "firstLine s = (case find (\<lambda>l. l \<noteq> []) (map TrimSpace (split_on (CHR 0x0A) s)) of None \<Rightarrow> [] | Some l \<Rightarrow> l)"

definition ServiceContainer :: "'x shell \<Rightarrow> string \<Rightarrow> string \<Rightarrow> ('x, (string \<times> string) res) op" where
  "ServiceContainer sh project service =
     run_then (run_in sh (sh_environ sh) [''docker'', ''compose'', ''-p'', project, ''ps'', ''-q'', service])
       (\<lambda>e. give (Inl (Wrapf ''compose ps %s/%s: %w'' [project, service] e)))
       (\<lambda>out. let cid = firstLine out in
         if cid = [] then give (Inl (Errf ''no running container for service %s in project %s'' [service, project]))
         else run_then (run_in sh (sh_environ sh) [''docker'', ''inspect'', ''-f'', ''{{.Name}}'', cid])
           (\<lambda>e. give (Inl (Wrapf ''inspect container %s: %w'' [cid] e)))
           (\<lambda>nameOut. let name = TrimSpace (firstLine nameOut) in
             give (Inr (cid, if prefix ''/'' name then tl name else name))))"

text \<open>The environment of a daemon that runs these tools.\<close>

definition with_tools :: "'x shell \<Rightarrow> 'x env \<Rightarrow> 'x env" where
  "with_tools sh env = env\<lparr>git_clone := Clone sh, image_exists := ImageExists sh, image_build := Build sh,
     compose_up := Up sh, compose_down := Down sh, compose_service := ServiceContainer sh\<rparr>"

section \<open>What is run\<close>

text \<open>A shell that keeps a record of its processes, and what a process finds in its environment.\<close>

type_synonym process = "string list \<times> string list \<times> outcome"

definition logged :: "'x shell \<Rightarrow> ('x \<times> process list) shell" where
  "logged sh = \<lparr>sh_environ = sh_environ sh, sh_exec = (\<lambda>vars argv (x, l). case sh_exec sh vars argv x of
     (r, dt, x') \<Rightarrow> (r, dt, (x', l @ [(vars, argv, r)])))\<rparr>"

definition env_value :: "string list \<Rightarrow> string \<Rightarrow> string option" where
  "env_value vars k = map_option (\<lambda>v. drop (Suc (length k)) v) (find (prefix (k @ ''='')) (rev vars))"

definition options_of :: "string list \<Rightarrow> string list" where
  "options_of argv = filter (prefix ''-'') (takeWhile (\<lambda>a. a \<noteq> ''--'') (tl argv))"

text \<open>A process of git that can only do what it is meant to.\<close>

definition contained :: "process \<Rightarrow> bool" where
  "contained p = (case p of (vars, argv, r) \<Rightarrow>
     take 1 argv = [''git''] \<and> env_value vars ''GIT_ALLOW_PROTOCOL'' = Some ''https:http:git:ssh:file'' \<and>
     list_all (\<lambda>o'. o' \<in> {''--depth'', ''--branch'', ''-C''}) (options_of argv))"

definition op_ends :: "('x, 'b) op \<Rightarrow> ('b \<Rightarrow> 'x \<Rightarrow> bool) \<Rightarrow> 'x \<Rightarrow> bool" where
  "op_ends f Q x = (case f x of (r, dt, x') \<Rightarrow> Q r x')"

lemma ends_give: "Q b x \<Longrightarrow> op_ends (give b) Q x"
  by (simp add: op_ends_def give_def)

lemma ends_git:
  assumes "\<And>raw x'. op_ends (k (TrimSpace raw)) Q (x', l @ [(gitEnv sh, ''git'' # args, Ran raw)])"
    and "\<And>e r x'. op_ends (h e) Q (x', l @ [(gitEnv sh, ''git'' # args, r)])"
  shows "op_ends (run_then (run_git (logged sh) args) h k) Q (x, l)"
proof -
  obtain r dt x' where r: "sh_exec sh (gitEnv sh) (''git'' # args) x = (r, dt, x')" by (cases "sh_exec sh (gitEnv sh) (''git'' # args) x")
  have g: "gitEnv (logged sh) = gitEnv sh" by (simp add: gitEnv_def logged_def)
  have e: "sh_exec (logged sh) (gitEnv sh) (''git'' # args) (x, l) = (r, dt, x', l @ [(gitEnv sh, ''git'' # args, r)])"
    by (simp add: logged_def r)
  show ?thesis
    using assms(1) [of _ x'] assms(2) [of _ x']
    by (cases r) (simp_all add: op_ends_def run_then_def run_git_def run_in_def g e split_beta)
qed

lemma gitEnv_value: "env_value (gitEnv sh) ''GIT_ALLOW_PROTOCOL'' = Some ''https:http:git:ssh:file''"
  by (simp add: env_value_def gitEnv_def)

text \<open>
  C39: whatever the URL and the ref are, every process a clone starts is git with the allowed transports in force
  and no other options than the program's own, and nothing runs at all for a ref that looks like one.
\<close>

theorem Clone_contained:
  assumes "\<not> prefix ''-'' dir"
  shows "case Clone (logged sh) url ref dir (x, []) of (r, dt, x', ps) \<Rightarrow>
    list_all contained ps \<and> (prefix ''-'' ref \<longrightarrow> ps = [] \<and> (\<exists>e. r = Inl e))"
proof -
  have "op_ends (Clone (logged sh) url ref dir)
    (\<lambda>r (x', ps). list_all contained ps \<and> (prefix ''-'' ref \<longrightarrow> ps = [] \<and> (\<exists>e. r = Inl e))) (x, [])"
  proof (cases "prefix ''-'' ref")
    case True
    then show ?thesis by (simp add: Clone_def ends_give)
  next
    case False
    then have "dir \<noteq> ''--''" "ref \<noteq> ''--''" "\<not> prefix ''-'' dir" using assms by auto
    with False show ?thesis
      unfolding Clone_def Let_def if_not_P [OF False]
      by (intro ends_git ends_give) (simp_all add: contained_def options_of_def gitEnv_value)
  qed
  then show ?thesis by (simp add: op_ends_def split_beta)
qed

text \<open>
  The commit that a clone reports is what \<open>HEAD\<close> was resolved to at the end, in the directory, after the
  ref had been cloned, or the repository cloned and the ref checked out.
\<close>

lemma Clone_resolves:
  assumes "Clone (logged sh) url ref dir (x, []) = (Inr sha, dt, x', ps)"
  shows "\<exists>qs vars vars' raw out. ps = qs @ [(vars, [''git'', ''-C'', dir, ''rev-parse'', ''HEAD''], Ran raw)] \<and> sha = TrimSpace raw \<and>
    last qs \<in> {(vars', [''git'', ''clone'', ''--depth'', ''1'', ''--branch'', ref, ''--'', url, dir], Ran out),
      (vars', [''git'', ''-C'', dir, ''checkout'', ref], Ran out)}"
proof -
  let ?Q = "\<lambda>r (x', ps). \<forall>sha. r = Inr sha \<longrightarrow>
    (\<exists>qs vars vars' raw out. ps = qs @ [(vars, [''git'', ''-C'', dir, ''rev-parse'', ''HEAD''], Ran raw)] \<and> sha = TrimSpace raw \<and>
      last qs \<in> {(vars', [''git'', ''clone'', ''--depth'', ''1'', ''--branch'', ref, ''--'', url, dir], Ran out),
        (vars', [''git'', ''-C'', dir, ''checkout'', ref], Ran out)})"
  have "op_ends (Clone (logged sh) url ref dir) ?Q (x, [])"
    unfolding Clone_def Let_def by (auto intro!: ends_git ends_give)
  with assms show ?thesis by (auto simp: op_ends_def)
qed

end
