(* ===== verification/Web.thy ===== *)
theory Web
  imports Client
begin

text \<open>
  The web interface (\<open>src/internal/web\<close>): its handlers over the daemon's client, its routes behind the
  session middleware, and the stream of logs as server-sent events. The decoders of bodies (JSON, TOML,
  forms) are arguments, the embedded files are named by their paths.
\<close>

section \<open>Replies\<close>

datatype web_body =
    WNothing
  | WErr goerr
  | WApps "app_status list"
  | WDetail "app_status option" "deployment list"
  | WDeployment deployment
  | WNames "string list"
  | WNodes "node_status list"
  | WPools "(string \<times> nat) list"
  | WEvacuated evacuate_result
  | WHealth health
  | WEvents string
  | WFile string
  | WAuth web_answer
  | WRedirect string

type_synonym web_reply = "nat \<times> web_body"

text \<open>An error of the connection, as the client returns it, is a \<open>url.Error\<close>.\<close>

definition is_url_error :: "goerr \<Rightarrow> bool" where
  "is_url_error e = (case e of Wrapf f _ _ \<Rightarrow> f = ''%s %q: %w'' | _ \<Rightarrow> False)"

definition writeClientErr :: "goerr \<Rightarrow> web_reply" where
  "writeClientErr e = (if is_url_error e then 502 else 500, WErr e)"

text \<open>A call of the client: what panics in it ends the request.\<close>

definition ask :: "('s, 'a res option) state \<Rightarrow> ('a \<Rightarrow> ('s, web_reply option) state) \<Rightarrow> ('s, web_reply option) state" where
  "ask m k = m \<bind> (\<lambda>r. case r of
     None \<Rightarrow> ret None
   | Some (Inl e) \<Rightarrow> ret (Some (writeClientErr e))
   | Some (Inr a) \<Rightarrow> k a)"

definition web :: "nat \<Rightarrow> web_body \<Rightarrow> ('s, web_reply option) state" where
  "web code b = ret (Some (code, b))"

section \<open>Handlers\<close>

definition web_handleApps :: "'s daemon_client \<Rightarrow> ('s, web_reply option) state" where
  "web_handleApps C = ask (dc_apps C) (\<lambda>apps. web 200 (WApps apps))"

definition web_handleAppDetail :: "'s daemon_client \<Rightarrow> string \<Rightarrow> ('s, web_reply option) state" where
  "web_handleAppDetail C name =
     ask (dc_apps C) (\<lambda>apps.
     let status = find (\<lambda>a. as_name a = name) apps in
     ask (dc_history C name) (\<lambda>history. web 200 (WDetail status history)))"

definition web_handleRollback :: "'s daemon_client \<Rightarrow> string \<Rightarrow> ('s, web_reply option) state" where
  "web_handleRollback C name = ask (dc_rollback C name) (\<lambda>d. web 200 (WDeployment d))"

definition web_handleScale :: "'s daemon_client \<Rightarrow> string \<Rightarrow> int res \<Rightarrow> ('s, web_reply option) state" where
  "web_handleScale C name body = (case body of
     Inl e \<Rightarrow> web 400 (WErr e)
   | Inr n \<Rightarrow> ask (dc_scale C name n) (\<lambda>d. web 200 (WDeployment d)))"

definition handleRedeploy :: "'s daemon_client \<Rightarrow> string \<Rightarrow> ('s, web_reply option) state" where
  "handleRedeploy C name = ask (dc_history C name) (\<lambda>history. case history of
     [] \<Rightarrow> web 404 (WErr (Errf ''app %q has no deployment history'' [name]))
   | d # _ \<Rightarrow> (case unmarshal_spec (d_spec d) of
       Inl e \<Rightarrow> web 500 (WErr (Wrapf ''decode stored spec: %w'' [] e))
     | Inr a \<Rightarrow> ask (dc_apply C (if d_scheduled d then a\<lparr>a_node := []\<rparr> else a)) (\<lambda>dep. web 200 (WDeployment dep))))"

text \<open>The body is the error of reading it, or the document; \<open>toml\<close> decodes one.\<close>

definition web_handleApply :: "'s daemon_client \<Rightarrow> (string \<Rightarrow> app res) \<Rightarrow> string res \<Rightarrow> ('s, web_reply option) state" where
  "web_handleApply C toml body = (case body of
     Inl e \<Rightarrow> web 400 (WErr e)
   | Inr text \<Rightarrow> (case Parse toml text of
       Inl e \<Rightarrow> web 400 (WErr e)
     | Inr a \<Rightarrow>
         (case Validate a of
            Some e \<Rightarrow> web 400 (WErr e)
          | None \<Rightarrow> ask (dc_apply C a) (\<lambda>d. web 200 (WDeployment d)))))"

definition web_handleDelete :: "'s daemon_client \<Rightarrow> string \<Rightarrow> ('s, web_reply option) state" where
  "web_handleDelete C name = ask (dc_remove C name) (\<lambda>_. web 204 WNothing)"

definition web_handleSecretList :: "'s daemon_client \<Rightarrow> string \<Rightarrow> ('s, web_reply option) state" where
  "web_handleSecretList C name = ask (dc_listsecrets C name) (\<lambda>ns. web 200 (WNames ns))"

text \<open>Key and value from JSON or a form, by the content type.\<close>

definition parseSecretRequest :: "string \<Rightarrow> (string \<times> string) res \<Rightarrow> (string \<times> string) res \<Rightarrow> (string \<times> string) res" where
  "parseSecretRequest ctype json form = (if prefix ''application/json'' ctype then json else form)"

definition web_handleSecretSet :: "'s daemon_client \<Rightarrow> string \<Rightarrow> (string \<times> string) res \<Rightarrow> ('s, web_reply option) state" where
  "web_handleSecretSet C name body = (case body of
     Inl e \<Rightarrow> web 400 (WErr e)
   | Inr (key, v) \<Rightarrow>
       if key = [] then web 400 (WErr (Errf ''key is required'' []))
       else ask (dc_setsecret C name key v) (\<lambda>_. web 204 WNothing))"

definition web_handleSecretDelete :: "'s daemon_client \<Rightarrow> string \<Rightarrow> string \<Rightarrow> ('s, web_reply option) state" where
  "web_handleSecretDelete C name key = ask (dc_deletesecret C name key) (\<lambda>_. web 204 WNothing)"

definition handleNodes :: "'s daemon_client \<Rightarrow> ('s, web_reply option) state" where
  "handleNodes C = ask (dc_nodes C) (\<lambda>ns. web 200 (WNodes ns))"

definition web_handleNodeAdd :: "'s daemon_client \<Rightarrow> node_request res \<Rightarrow> ('s, web_reply option) state" where
  "web_handleNodeAdd C body = (case body of
     Inl e \<Rightarrow> web 400 (WErr e)
   | Inr q \<Rightarrow> ask (dc_addnode C q) (\<lambda>_. web 204 WNothing))"

definition handleNodeRemove :: "'s daemon_client \<Rightarrow> string \<Rightarrow> ('s, web_reply option) state" where
  "handleNodeRemove C name = ask (dc_removenode C name) (\<lambda>_. web 204 WNothing)"

definition web_handleNodeDrain :: "'s daemon_client \<Rightarrow> string \<Rightarrow> ('s, web_reply option) state" where
  "web_handleNodeDrain C name = ask (dc_drain C name) (\<lambda>r. web 200 (WEvacuated r))"

definition web_handleNodeEvacuate :: "'s daemon_client \<Rightarrow> string \<Rightarrow> ('s, web_reply option) state" where
  "web_handleNodeEvacuate C name = ask (dc_evacuate C name) (\<lambda>r. web 200 (WEvacuated r))"

definition web_handleNodeUncordon :: "'s daemon_client \<Rightarrow> string \<Rightarrow> ('s, web_reply option) state" where
  "web_handleNodeUncordon C name = ask (dc_uncordon C name) (\<lambda>_. web 204 WNothing)"

definition web_handlePools :: "'s daemon_client \<Rightarrow> ('s, web_reply option) state" where
  "web_handlePools C = ask (dc_pools C) (\<lambda>ps. web 200 (WPools ps))"

definition web_handleHealth :: "'s daemon_client \<Rightarrow> ('s, web_reply option) state" where
  "web_handleHealth C = ask (dc_health C) (\<lambda>h. web 200 (WHealth h))"

section \<open>Logs as server-sent events\<close>

text \<open>The buffer of a \<open>sseWriter\<close> and what it has written, on a connection that takes every write.\<close>

record sse_writer =
  sse_buf :: string
  sse_out :: string

definition newline :: char where "newline = CHR 0x0A"

definition frame_of :: "string \<Rightarrow> string" where
  "frame_of line = ''data: '' @ line @ [newline, newline]"

lemma after_newline: "newline \<in> set buf \<Longrightarrow> length (tl (dropWhile (\<lambda>c. c \<noteq> newline) buf)) < length buf"
  by (induction buf) (auto intro: less_SucI)

text \<open>The loop of \<open>Write\<close>: every complete line goes out, the rest stays.\<close>

function sse_loop :: "string \<Rightarrow> string \<times> string" where
  "sse_loop buf =
     (if newline \<in> set buf
      then case sse_loop (tl (dropWhile (\<lambda>c. c \<noteq> newline) buf)) of
        (out, rest) \<Rightarrow> (frame_of (takeWhile (\<lambda>c. c \<noteq> newline) buf) @ out, rest)
      else ([], buf))"
  by pat_completeness auto

termination
  by (relation "measure length") (auto dest: after_newline)

definition sse_Write :: "string \<Rightarrow> sse_writer \<Rightarrow> sse_writer" where
  "sse_Write p w = (case sse_loop (sse_buf w @ p) of
     (out, rest) \<Rightarrow> \<lparr>sse_buf = rest, sse_out = sse_out w @ out\<rparr>)"

definition sse_stream :: "string list \<Rightarrow> string" where
  "sse_stream chunks = sse_out (fold sse_Write chunks \<lparr>sse_buf = [], sse_out = []\<rparr>)"

text \<open>The status and what was streamed are sent before the call returns, so its error is dropped.\<close>

definition web_handleLogs :: "'s daemon_client \<Rightarrow> string \<Rightarrow> ('s, web_reply option) state" where
  "web_handleLogs C name = dc_logs C name True \<bind> (\<lambda>r. ret (case r of
     None \<Rightarrow> None
   | Some (Inl _) \<Rightarrow> Some (200, WEvents [])
   | Some (Inr logs) \<Rightarrow> Some (200, WEvents (sse_stream [logs]))))"

section \<open>Routes\<close>

text \<open>A request for the web server: \<open>hq_path\<close> is the path as it is on the request line.\<close>

record web_req = http_req +
  wq_method :: http_method
  wq_ctype :: string
  wq_body :: string

record web_codec =
  cd_replicas :: "string \<Rightarrow> int res"
  cd_secret :: "string \<Rightarrow> (string \<times> string) res"
  cd_secret_form :: "string \<Rightarrow> (string \<times> string) res"
  cd_node :: "string \<Rightarrow> node_request res"
  cd_toml :: "string \<Rightarrow> app res"
  cd_password_form :: "string \<Rightarrow> string res"

datatype web_action =
    DoLogin
  | DoLogout
  | DoApps
  | DoAppDetail string
  | DoRollback string
  | DoRedeploy string
  | DoScale string
  | DoApply
  | DoDelete string
  | DoSecretList string
  | DoSecretSet string
  | DoSecretDelete string string
  | DoLogs string
  | DoNodes
  | DoNodeAdd
  | DoNodeRemove string
  | DoNodeDrain string
  | DoNodeEvacuate string
  | DoNodeUncordon string
  | DoHealth
  | DoPools
  | DoLoginPage
  | DoStatic "string list"
  | DoIndex

text \<open>The patterns under \<open>/api\<close>, on the segments after it.\<close>

definition api_action :: "http_method \<Rightarrow> string list \<Rightarrow> web_action option" where
  "api_action m segs = (case segs of
     [x] \<Rightarrow>
       if m = GET \<and> x = ''apps'' then Some DoApps
       else if m = POST \<and> x = ''apply'' then Some DoApply
       else if m = GET \<and> x = ''nodes'' then Some DoNodes
       else if m = POST \<and> x = ''nodes'' then Some DoNodeAdd
       else if m = GET \<and> x = ''health'' then Some DoHealth
       else if m = GET \<and> x = ''pools'' then Some DoPools
       else None
   | [x, n] \<Rightarrow>
       if n = [] then None
       else if m = GET \<and> x = ''apps'' then Some (DoAppDetail n)
       else if m = DELETE \<and> x = ''apps'' then Some (DoDelete n)
       else if m = DELETE \<and> x = ''nodes'' then Some (DoNodeRemove n)
       else None
   | [x, n, y] \<Rightarrow>
       if n = [] then None
       else if m = POST \<and> x = ''apps'' \<and> y = ''rollback'' then Some (DoRollback n)
       else if m = POST \<and> x = ''apps'' \<and> y = ''redeploy'' then Some (DoRedeploy n)
       else if m = POST \<and> x = ''apps'' \<and> y = ''scale'' then Some (DoScale n)
       else if m = GET \<and> x = ''apps'' \<and> y = ''secrets'' then Some (DoSecretList n)
       else if m = POST \<and> x = ''apps'' \<and> y = ''secrets'' then Some (DoSecretSet n)
       else if m = GET \<and> x = ''apps'' \<and> y = ''logs'' then Some (DoLogs n)
       else if m = POST \<and> x = ''nodes'' \<and> y = ''drain'' then Some (DoNodeDrain n)
       else if m = POST \<and> x = ''nodes'' \<and> y = ''evacuate'' then Some (DoNodeEvacuate n)
       else if m = POST \<and> x = ''nodes'' \<and> y = ''uncordon'' then Some (DoNodeUncordon n)
       else None
   | [x, n, y, k] \<Rightarrow>
       if n \<noteq> [] \<and> k \<noteq> [] \<and> m = DELETE \<and> x = ''apps'' \<and> y = ''secrets'' then Some (DoSecretDelete n k)
       else None
   | _ \<Rightarrow> None)"

text \<open>The others; \<open>GET /\<close> takes what no other pattern matches.\<close>

definition page_action :: "http_method \<Rightarrow> string list \<Rightarrow> web_action option" where
  "page_action m segs =
     (if m = POST \<and> segs = [''login''] then Some DoLogin
      else if m = POST \<and> segs = [''logout''] then Some DoLogout
      else if m \<noteq> GET then None
      else if segs = [''login''] then Some DoLoginPage
      else if hd segs = ''static'' then Some (DoStatic (tl segs))
      else Some DoIndex)"

definition web_route :: "http_method \<Rightarrow> string list \<Rightarrow> web_action option" where
  "web_route m segs = (case segs of
     x # rest \<Rightarrow> (case (if x = ''api'' then api_action m rest else None) of
       Some act \<Rightarrow> Some act | None \<Rightarrow> page_action m segs)
   | [] \<Rightarrow> page_action m segs)"

definition auth_reply :: "web_answer \<Rightarrow> ('s, web_reply option) state" where
  "auth_reply a = (case a of
     HttpError code _ \<Rightarrow> web code (WAuth a)
   | SeeOther _ _ \<Rightarrow> web 303 (WAuth a)
   | Next \<Rightarrow> ret None)"

definition act ::
  "web_codec \<Rightarrow> (string \<Rightarrow> string \<Rightarrow> string) \<Rightarrow> authenticator \<Rightarrow> int \<Rightarrow> 's daemon_client \<Rightarrow> web_req \<Rightarrow> http_req
    \<Rightarrow> web_action \<Rightarrow> ('s, web_reply option) state"
where
  "act cd hmac au t C q r a = (let b = wq_body q in case a of
     DoLogin \<Rightarrow> auth_reply (Login hmac au t r (cd_password_form cd b))
   | DoLogout \<Rightarrow> auth_reply (Logout r)
   | DoApps \<Rightarrow> web_handleApps C
   | DoAppDetail n \<Rightarrow> web_handleAppDetail C n
   | DoRollback n \<Rightarrow> web_handleRollback C n
   | DoRedeploy n \<Rightarrow> handleRedeploy C n
   | DoScale n \<Rightarrow> web_handleScale C n (cd_replicas cd b)
   | DoApply \<Rightarrow> web_handleApply C (cd_toml cd) (Inr b)
   | DoDelete n \<Rightarrow> web_handleDelete C n
   | DoSecretList n \<Rightarrow> web_handleSecretList C n
   | DoSecretSet n \<Rightarrow> web_handleSecretSet C n (parseSecretRequest (wq_ctype q) (cd_secret cd b) (cd_secret_form cd b))
   | DoSecretDelete n k \<Rightarrow> web_handleSecretDelete C n k
   | DoLogs n \<Rightarrow> web_handleLogs C n
   | DoNodes \<Rightarrow> handleNodes C
   | DoNodeAdd \<Rightarrow> web_handleNodeAdd C (cd_node cd b)
   | DoNodeRemove n \<Rightarrow> handleNodeRemove C n
   | DoNodeDrain n \<Rightarrow> web_handleNodeDrain C n
   | DoNodeEvacuate n \<Rightarrow> web_handleNodeEvacuate C n
   | DoNodeUncordon n \<Rightarrow> web_handleNodeUncordon C n
   | DoHealth \<Rightarrow> web_handleHealth C
   | DoPools \<Rightarrow> web_handlePools C
   | DoLoginPage \<Rightarrow> web 200 (WFile ''login.html'')
   | DoStatic p \<Rightarrow> web 200 (WFile (join_with ''/'' p))
   | DoIndex \<Rightarrow> web 200 (WFile ''index.html''))"

text \<open>The router, on the escaped path; \<open>/static\<close> is redirected to the subtree below it.\<close>

definition web_mux ::
  "web_codec \<Rightarrow> (string \<Rightarrow> string \<Rightarrow> string) \<Rightarrow> authenticator \<Rightarrow> int \<Rightarrow> 's daemon_client \<Rightarrow> web_req \<Rightarrow> http_req \<Rightarrow> string
    \<Rightarrow> ('s, web_reply option) state"
where
  "web_mux cd hmac au t C q r esc =
     (let segs = path_segs esc; c = clean_path segs in
      if wq_method q = GET \<and> map seg_value c = [''static''] then web 301 (WRedirect ''/static/'')
      else if c \<noteq> segs then web 301 (WRedirect (escape_path (CHR ''/'' # join_with ''/'' c)))
      else case web_route (wq_method q) (map seg_value segs) of
        None \<Rightarrow> web 405 WNothing
      | Some a \<Rightarrow> act cd hmac au t C q r a)"

text \<open>The whole server: the middleware decides on the decoded path, the router on the escaped one.\<close>

definition web_Handler ::
  "web_codec \<Rightarrow> (string \<Rightarrow> string \<Rightarrow> string) \<Rightarrow> authenticator \<Rightarrow> int \<Rightarrow> 's daemon_client \<Rightarrow> web_req \<Rightarrow> ('s, web_reply option) state"
where
  "web_Handler cd hmac au t C q =
     (if \<not> prefix ''/'' (hq_path q) then web 400 WNothing
      else case (unescape (hq_path q), wire_path (hq_path q)) of
        (Some p, Some esc) \<Rightarrow>
          let r = (http_req.truncate q)\<lparr>hq_path := p\<rparr> in
          (case Middleware hmac au t r of
             Next \<Rightarrow> web_mux cd hmac au t C q r esc
           | a \<Rightarrow> auth_reply a)
      | _ \<Rightarrow> web 400 WNothing)"

section \<open>The streamed logs\<close>

lemma sse_loop_lines:
  "sse_loop buf = (concat (map frame_of (butlast (split_on newline buf))), last (split_on newline buf))"
proof (induction buf rule: sse_loop.induct)
  case (1 buf)
  show ?case
  proof (cases "newline \<in> set buf")
    case True
    then obtain l r where b: "buf = l @ newline # r" "newline \<notin> set l" by (meson split_list_first)
    then have "tl (dropWhile (\<lambda>c. c \<noteq> newline) buf) = r" "takeWhile (\<lambda>c. c \<noteq> newline) buf = l"
      by (simp_all add: takeWhile_until)
    then show ?thesis using 1 True b by (subst sse_loop.simps) (simp add: split_on_append split_on_free del: sse_loop.simps)
  qed (simp add: split_on_free)
qed

lemma split_on_extend: "split_on d (s @ p) = butlast (split_on d s) @ split_on d (last (split_on d s) @ p)"
proof (induction s)
  case (Cons c cs)
  show ?case
  proof (cases "split_on d cs")
    case (Cons w ws)
    with Cons.IH show ?thesis by (cases ws) (auto split: list.splits)
  qed simp
qed simp

lemma last_split_line: "split_on d (last (split_on d s)) = [last (split_on d s)]"
  by (rule split_on_free) (meson last_in_set split_on_no_sep split_on_nonempty)

lemma sse_fold:
  assumes "split_on newline (sse_buf w) = [sse_buf w]"
  shows "sse_out (fold sse_Write chunks w)
    = sse_out w @ concat (map frame_of (butlast (split_on newline (sse_buf w @ concat chunks))))"
  using assms
proof (induction chunks arbitrary: w)
  case Nil
  then show ?case by simp
next
  case (Cons p ps)
  let ?b = "split_on newline (sse_buf w @ p)"
  have "sse_Write p w = \<lparr>sse_buf = last ?b, sse_out = sse_out w @ concat (map frame_of (butlast ?b))\<rparr>"
    by (simp add: sse_Write_def sse_loop_lines del: sse_loop.simps)
  moreover have "split_on newline ((sse_buf w @ p) @ concat ps) = butlast ?b @ split_on newline (last ?b @ concat ps)"
    by (rule split_on_extend)
  ultimately show ?case
    using Cons.IH [of "sse_Write p w"] last_split_line [of newline "sse_buf w @ p"] by (simp add: butlast_append)
qed

text \<open>
  The browser gets one event per complete line of the log, in order, however the stream was cut into
  chunks on its way; a last line without an end is dropped.
\<close>

lemma sse_stream_exact:
  "sse_stream chunks = concat (map frame_of (butlast (split_on newline (concat chunks))))"
  by (simp add: sse_stream_def sse_fold)

text \<open>
  The browser's end, by the standard for event streams: its lines end with LF, CR or both, a line
  \<open>data\<close> adds to the event, an empty one dispatches it, and what is incomplete at the end is dropped.
\<close>

definition carriage :: char where "carriage = CHR 0x0D"

fun event_lines :: "string \<Rightarrow> string \<Rightarrow> string list" where
  "event_lines w [] = []"
| "event_lines w (c # cs) =
     (if c = newline then w # event_lines [] cs
      else if c = carriage then w # event_lines [] (if prefix [newline] cs then tl cs else cs)
      else event_lines (w @ [c]) cs)"

fun events :: "string \<Rightarrow> string list \<Rightarrow> string list" where
  "events buf [] = []"
| "events buf (l # ls) =
     (if l = [] then (if buf = [] then events [] ls else butlast buf # events [] ls)
      else if prefix ''data:'' l
      then (let v = drop 5 l in events (buf @ (if prefix '' '' v then tl v else v) @ [newline]) ls)
      else events buf ls)"

definition browser_events :: "string \<Rightarrow> string list" where
  "browser_events s = events [] (event_lines [] s)"

lemma event_line: "newline \<notin> set l \<Longrightarrow> carriage \<notin> set l \<Longrightarrow> event_lines w (l @ newline # s) = (w @ l) # event_lines [] s"
  by (induction l arbitrary: w) auto

lemma frame_read:
  assumes "newline \<notin> set l" and "carriage \<notin> set l"
  shows "browser_events (frame_of l @ s) = l # browser_events s"
proof -
  have d: "newline \<notin> set ''data: ''" "carriage \<notin> set ''data: ''" by (simp_all add: newline_def carriage_def)
  have "event_lines [] ((''data: '' @ l) @ newline # newline # s) = (''data: '' @ l) # [] # event_lines [] s"
    using assms d by (subst event_line) (auto simp: event_line)
  then show ?thesis by (simp add: browser_events_def frame_of_def Let_def)
qed

lemma split_on_chars: "w \<in> set (split_on d s) \<Longrightarrow> c \<in> set w \<Longrightarrow> c \<in> set s"
proof (induction s arbitrary: w)
  case (Cons a s)
  then show ?case by (cases "split_on d s") (auto split: if_splits, blast)
qed simp


text \<open>What follows a carriage return within a line is lost.\<close>

lemma carriage_loses: "browser_events (sse_stream [''50%'' @ [carriage] @ ''100%'' @ [newline]]) = [''50%'']"
  by code_simp

section \<open>No way around the middleware\<close>

lemma unhex_slash: "unhex (CHR ''/'') = None"
  by (simp add: unhex_def is_digit_def less_eq_char_def)

lemma unescape_split:
  "CHR ''/'' \<notin> set a \<Longrightarrow> unescape (a @ CHR ''/'' # b) =
     (case unescape a of None \<Rightarrow> None | Some x \<Rightarrow> map_option (\<lambda>y. x @ CHR ''/'' # y) (unescape b))"
proof (induction a rule: unescape.induct)
  case (2 c cs)
  show ?case
  proof (cases "c = CHR ''%''")
    case True
    with 2 show ?thesis
      by (cases cs; cases "tl cs"; cases b)
         (auto simp: unhex_slash option.map_comp comp_def split: option.splits list.splits)
  next
    case False
    with 2 show ?thesis by (auto simp: option.map_comp comp_def split: option.splits)
  qed
qed simp

lemma unescape_join:
  assumes "list_all (\<lambda>w. CHR ''/'' \<notin> set w) ws" and "ws \<noteq> []" and "unescape (join_with ''/'' ws) = Some p"
  shows "p = join_with ''/'' (map seg_value ws)"
  using assms
proof (induction "''/''" ws arbitrary: p rule: join_with.induct)
  case (2 w)
  then show ?case by (simp add: seg_value_def)
next
  case (3 w v ws)
  obtain x y where "unescape w = Some x" "unescape (join_with ''/'' (v # ws)) = Some y" "p = x @ CHR ''/'' # y"
    using 3(2,4) by (auto simp: unescape_split split: option.splits)
  then show ?case using 3(1) [of y] 3(2) by (simp add: seg_value_def)
qed simp

lemma decoded_path:
  assumes "unescape (CHR ''/'' # s) = Some p"
  shows "p = CHR ''/'' # join_with ''/'' (map seg_value (split_on (CHR ''/'') s))"
proof -
  obtain y where y: "unescape s = Some y" "p = CHR ''/'' # y" using assms by auto
  then have "unescape (join_with ''/'' (split_on (CHR ''/'') s)) = Some y" by (simp add: join_split)
  moreover have "list_all (\<lambda>w. CHR ''/'' \<notin> set w) (split_on (CHR ''/'') s)"
    using split_on_no_sep by (auto simp: list_all_iff)
  ultimately show ?thesis using unescape_join [of "split_on (CHR ''/'') s" y] y(2) by simp
qed

lemma unhex_upper: "n < 16 \<Longrightarrow> unhex (upper_hex n) = Some n"
proof -
  assume "n < 16"
  then have "n \<in> {0,1,2,3,4,5,6,7,8,9,10,11,12,13,14,15}" by (simp only: insert_iff empty_iff) presburger
  then show ?thesis by (auto simp: unhex_def upper_hex_def is_digit_def less_eq_char_def)
qed

lemma unescape_escape: "unescape (escape_path p) = Some p"
proof (induction p)
  case (Cons c cs)
  have "kept_char c \<Longrightarrow> c \<noteq> CHR ''%''"
    by (auto simp: kept_char_def unreserved_def is_alnum_def is_lower_def is_upper_def is_digit_def less_eq_char_def)
  moreover have "of_char c < (256 :: nat)" by simp
  then have "unhex (upper_hex (of_char c div 16)) = Some (of_char c div 16)" "unhex (upper_hex (of_char c mod 16)) = Some (of_char c mod 16)"
    using unhex_upper [of "of_char c div 16"] unhex_upper [of "of_char c mod 16"] by (simp_all add: less_mult_imp_div_less)
  ultimately show ?case using Cons by (auto simp: escape_path_def)
qed (simp add: escape_path_def)

lemma wire_decodes: "wire_path raw = Some esc \<Longrightarrow> unescape raw = Some p \<Longrightarrow> unescape esc = Some p"
  by (auto simp: wire_path_def unescape_escape split: if_splits)

lemma wire_slash: "wire_path (CHR ''/'' # s) = Some esc \<Longrightarrow> \<exists>t. esc = CHR ''/'' # t"
  by (auto simp: wire_path_def escape_path_def kept_char_def split: if_splits)

text \<open>The actions that reach the daemon are those under \<open>/api\<close>.\<close>

definition offline :: "web_action \<Rightarrow> bool" where
  "offline a = (case a of DoLogin \<Rightarrow> True | DoLogout \<Rightarrow> True | DoLoginPage \<Rightarrow> True | DoStatic _ \<Rightarrow> True | DoIndex \<Rightarrow> True | _ \<Rightarrow> False)"

lemma page_offline: "page_action m segs = Some a \<Longrightarrow> offline a"
  by (auto simp: page_action_def offline_def split: if_splits)

lemma route_offline: "web_route m (x # rest) = Some a \<Longrightarrow> x \<noteq> ''api'' \<or> rest = [] \<Longrightarrow> offline a"
  by (auto simp: web_route_def api_action_def dest: page_offline split: if_splits option.splits)

lemma act_offline: "offline a \<Longrightarrow> \<exists>x. \<forall>C s. run_state (act cd hmac au t C q r a) s = (x, s)"
  by (cases a) (auto simp: offline_def act_def auth_reply_def web_def Let_def split: web_answer.splits)

lemma mux_offline:
  assumes "isPublicPath p" and "wire_path (CHR ''/'' # raw) = Some esc" and "unescape (CHR ''/'' # raw) = Some p"
  shows "\<exists>x. \<forall>C s. run_state (web_mux cd hmac au t C q r esc) s = (x, s)"
proof -
  obtain e where e: "esc = CHR ''/'' # e" using wire_slash [OF assms(2)] by blast
  let ?vs = "map seg_value (path_segs esc)"
  have p: "p = CHR ''/'' # join_with ''/'' ?vs"
    using decoded_path [of e p] wire_decodes [OF assms(2,3)] by (simp add: e path_segs_def)
  obtain x rest where vs: "?vs = x # rest" by (cases ?vs) (auto simp: path_segs_def)
  have "x \<noteq> ''api'' \<or> rest = []"
  proof (rule ccontr)
    assume "\<not> (x \<noteq> ''api'' \<or> rest = [])"
    then obtain u where "p = ''/api/'' @ u" using p vs by (cases rest) auto
    with assms(1) show False by (auto simp: isPublicPath_def publicPaths_def suffix_def)
  qed
  then have "web_route m ?vs = Some a \<Longrightarrow> offline a" for m a using route_offline vs by metis
  then have on: "web_route m ?vs = Some a \<Longrightarrow> \<exists>x. \<forall>C s. run_state (act cd hmac au t C q r a) s = (x, s)" for m a
    using route_offline vs act_offline by metis
  let ?m = "wq_method q" and ?c = "clean_path (path_segs esc)"
  consider "?m = GET \<and> map seg_value ?c = [''static'']" | "\<not> (?m = GET \<and> map seg_value ?c = [''static''])" "?c \<noteq> path_segs esc"
    | "\<not> (?m = GET \<and> map seg_value ?c = [''static''])" "?c = path_segs esc" by blast
  then show ?thesis
  proof cases
    case 3
    then show ?thesis using on [of ?m] by (cases "web_route ?m ?vs") (auto simp: web_mux_def web_def Let_def)
  qed (auto simp: web_mux_def web_def Let_def)
qed

text \<open>
  C36: without a session that verifies, nothing gets past the middleware: whatever the path of a request and
  however it is encoded, the daemon is not called, its state stays as it is, and the reply is the same
  whatever the daemon holds.
\<close>

theorem web_Handler_closed:
  "(\<exists>v. hq_session q = Some v \<and> verifySession hmac (au_key au) t v) \<or>
   (\<exists>x. \<forall>(C :: 's daemon_client) s. run_state (web_Handler cd hmac au t C q) s = (x, s))"
proof (rule disjCI)
  assume no: "\<not> (\<exists>x. \<forall>(C :: 's daemon_client) s. run_state (web_Handler cd hmac au t C q) s = (x, s))"
  show "\<exists>v. hq_session q = Some v \<and> verifySession hmac (au_key au) t v"
  proof (rule ccontr)
    assume nv: "\<not> ?thesis"
    obtain raw where raw: "hq_path q = CHR ''/'' # raw"
      using no by (cases "prefix ''/'' (hq_path q)") (auto simp: web_Handler_def web_def prefix_def)
    have st: "prefix ''/'' (hq_path q)" using raw by simp
    then obtain p where p: "unescape (hq_path q) = Some p"
      using no by (cases "unescape (hq_path q)") (simp_all add: web_Handler_def web_def)
    then obtain esc where esc: "wire_path (hq_path q) = Some esc" by (simp add: wire_path_def)
    note pe = p esc
    let ?r = "(http_req.truncate q)\<lparr>hq_path := p\<rparr>"
    have "isPublicPath p"
    proof (rule ccontr)
      assume "\<not> isPublicPath p"
      then have "Middleware hmac au t ?r \<noteq> Next" using nv by (auto simp: Middleware_def http_req.defs split: option.splits)
      then have "\<exists>x. \<forall>(C :: 's daemon_client) s. run_state (web_Handler cd hmac au t C q) s = (x, s)"
        using pe st by (cases "Middleware hmac au t ?r") (auto simp: web_Handler_def auth_reply_def web_def Let_def)
      with no show False by blast
    qed
    then have "Middleware hmac au t ?r = Next" by (simp add: Middleware_def)
    then have "web_Handler cd hmac au t C q = web_mux cd hmac au t C q ?r esc" for C :: "'s daemon_client"
      using pe st by (simp add: web_Handler_def Let_def)
    with mux_offline [OF \<open>isPublicPath p\<close> esc [unfolded raw] p [unfolded raw], of cd hmac au t q ?r]
    have "\<exists>x. \<forall>(C :: 's daemon_client) s. run_state (web_Handler cd hmac au t C q) s = (x, s)" by simp
    with no show False by blast
  qed
qed

end
