(* ===== verification/Cli.thy ===== *)
theory Cli
  imports Client
begin

text \<open>
  The commands of \<open>lwd\<close> (\<open>src/internal/cli/cli.go\<close>) but the daemon itself: from their arguments over the
  daemon's client to the exit code and what is printed. The columns of a table are its cells (\<open>Printf\<close>
  pads them). The daemon command, the standard input, the file system, the TOML decoder and the local
  time format are arguments.
\<close>

section \<open>Results\<close>

datatype printed =
    Out string
  | Row "string list"
  | Usage string
  | ErrOf string goerr

text \<open>The exit code and the output; \<open>None\<close> for a process that panics.\<close>

type_synonym 's command = "('s, (int \<times> printed list) option) state"

definition finish :: "int \<Rightarrow> printed list \<Rightarrow> 's command" where
  "finish code ps = ret (Some (code, ps))"

definition usage :: "string \<Rightarrow> 's command" where
  "usage msg = finish 2 [Usage msg]"

text \<open>A call of the client after the output \<open>ps\<close>: its error is printed under a label, with exit code 1.\<close>

definition cli_call :: "printed list \<Rightarrow> string \<Rightarrow> ('s, 'a res option) state \<Rightarrow> ('a \<Rightarrow> 's command) \<Rightarrow> 's command" where
  "cli_call ps label m k = m \<bind> (\<lambda>r. case r of
     None \<Rightarrow> ret None
   | Some (Inl e) \<Rightarrow> finish 1 (ps @ [ErrOf label e])
   | Some (Inr a) \<Rightarrow> k a)"

section \<open>Apps\<close>

definition runApply :: "'s daemon_client \<Rightarrow> (string \<Rightarrow> string res) \<Rightarrow> (string \<Rightarrow> app res) \<Rightarrow> string list \<Rightarrow> 's command" where
  "runApply C read toml args =
     (let dir = (case args of [] \<Rightarrow> ''.'' | d # _ \<Rightarrow> d) in
      case Load read toml dir of
        Inl e \<Rightarrow> finish 1 [ErrOf [] e]
      | Inr a \<Rightarrow> cli_call [] ''apply:'' (dc_apply C a) (\<lambda>d.
          finish 0 [Out (''deployed '' @ d_app d @ '' ('' @ d_image d @ '') container '' @ d_container d)]))"

definition runLs :: "'s daemon_client \<Rightarrow> 's command" where
  "runLs C = cli_call [] ''ls:'' (dc_apps C) (\<lambda>apps.
     finish 0 (Row [''APP'', ''STATUS'', ''DOMAIN'', ''REPLICAS'', ''IMAGE'']
       # map (\<lambda>a. Row [as_name a, as_status a, as_domain a, show_nat (as_replicas a), as_image a]) apps))"

definition runScale :: "'s daemon_client \<Rightarrow> string list \<Rightarrow> 's command" where
  "runScale C args = (case args of
     name # num # _ \<Rightarrow>
       (case ParseInt64 num of
          None \<Rightarrow> usage ''scale: replicas must be a positive integer''
        | Some n \<Rightarrow>
            if n < 1 then usage ''scale: replicas must be a positive integer''
            else cli_call [] ''scale:'' (dc_scale C name n) (\<lambda>d.
              finish 0 [Out (''scaled '' @ d_app d @ '' to '' @ show_nat (length (d_replicas d)) @ '' replicas'')]))
   | _ \<Rightarrow> usage ''usage: lwd scale <app> <replicas>'')"

text \<open>The first running deployment that has replicas; a failing history only costs the detail.\<close>

definition replica_rows :: "deployment list \<Rightarrow> printed list" where
  "replica_rows deps = (case find (\<lambda>d. d_status d = StatusRunning \<and> d_replicas d \<noteq> []) deps of
     None \<Rightarrow> []
   | Some d \<Rightarrow> Out ''nodes:'' # map (\<lambda>x. Row [x_node x, x_container x]) (d_replicas d))"

definition runStatus :: "'s daemon_client \<Rightarrow> string list \<Rightarrow> 's command" where
  "runStatus C args = (case args of
     [] \<Rightarrow> usage ''usage: lwd status <app>''
   | name # _ \<Rightarrow> cli_call [] ''status:'' (dc_apps C) (\<lambda>apps. case find (\<lambda>a. as_name a = name) apps of
       None \<Rightarrow> finish 1 [ErrOf ''status:'' (Errf ''app %q not found'' [name])]
     | Some a \<Rightarrow> dc_history C name \<bind> (\<lambda>h. case h of
         None \<Rightarrow> ret None
       | Some r \<Rightarrow> finish 0
           ([Row [''app:'', as_name a], Row [''status:'', as_status a], Row [''image:'', as_image a],
             Row [''domain:'', as_domain a], Row [''replicas:'', show_nat (as_replicas a)]]
            @ (case r of Inl _ \<Rightarrow> [] | Inr deps \<Rightarrow> replica_rows deps)))))"

definition runHistory :: "'s daemon_client \<Rightarrow> (int \<Rightarrow> string) \<Rightarrow> string list \<Rightarrow> 's command" where
  "runHistory C date args = (case args of
     [] \<Rightarrow> usage ''usage: lwd history <app>''
   | name # _ \<Rightarrow> cli_call [] ''history:'' (dc_history C name) (\<lambda>deps.
       finish 0 (Row [''ID'', ''STATUS'', ''IMAGE'', ''CREATED'']
         # map (\<lambda>d. Row [show_int (d_id d), d_status d, d_image d, date (d_created d)]) deps)))"

definition runLogs :: "'s daemon_client \<Rightarrow> string list \<Rightarrow> 's command" where
  "runLogs C args = (case args of
     [] \<Rightarrow> usage ''usage: lwd logs <app> [-f]''
   | name # rest \<Rightarrow>
       let follow = list_ex (\<lambda>a. a = ''-f'' \<or> a = ''--follow'') rest in
       cli_call [] ''logs:'' (dc_logs C name follow) (\<lambda>text. finish 0 [Out text]))"

definition runRollback :: "'s daemon_client \<Rightarrow> string list \<Rightarrow> 's command" where
  "runRollback C args = (case args of
     [] \<Rightarrow> usage ''usage: lwd rollback <app>''
   | name # _ \<Rightarrow> cli_call [] ''rollback:'' (dc_rollback C name) (\<lambda>d.
       finish 0 [Out (''rolled back '' @ d_app d @ '' to '' @ d_image d @ '' (container '' @ d_container d @ '')'')]))"

definition runRm :: "'s daemon_client \<Rightarrow> string list \<Rightarrow> 's command" where
  "runRm C args = (case args of
     [] \<Rightarrow> usage ''usage: lwd rm <app>''
   | name # _ \<Rightarrow> cli_call [] ''rm:'' (dc_remove C name) (\<lambda>_. finish 0 [Out (''removed '' @ name)]))"

section \<open>Secrets\<close>

text \<open>\<open>strings.TrimSuffix\<close> of one byte.\<close>

definition trim_one :: "char \<Rightarrow> string \<Rightarrow> string" where
  "trim_one c s = (if s \<noteq> [] \<and> last s = c then butlast s else s)"

definition runSecretSet :: "'s daemon_client \<Rightarrow> string res \<Rightarrow> string list \<Rightarrow> 's command" where
  "runSecretSet C stdin args = (case args of
     app # key # _ \<Rightarrow>
       (case stdin of
          Inl e \<Rightarrow> finish 1 [ErrOf ''secret set:'' e]
        | Inr raw \<Rightarrow>
            let v = trim_one (CHR 0x0D) (trim_one (CHR 0x0A) raw) in
            cli_call [] ''secret set:'' (dc_setsecret C app key v) (\<lambda>_.
              finish 0 [Out (''secret '' @ key @ '' set for '' @ app @ ''; redeploy to apply'')]))
   | _ \<Rightarrow> usage ''usage: lwd secret set <app> <KEY> (value read from stdin)'')"

definition runSecretLs :: "'s daemon_client \<Rightarrow> string list \<Rightarrow> 's command" where
  "runSecretLs C args = (case args of
     [] \<Rightarrow> usage ''usage: lwd secret ls <app>''
   | app # _ \<Rightarrow> cli_call [] ''secret ls:'' (dc_listsecrets C app) (\<lambda>ns. finish 0 (map Out ns)))"

definition runSecretRm :: "'s daemon_client \<Rightarrow> string list \<Rightarrow> 's command" where
  "runSecretRm C args = (case args of
     app # key # _ \<Rightarrow> cli_call [] ''secret rm:'' (dc_deletesecret C app key) (\<lambda>_.
       finish 0 [Out (''removed secret '' @ key @ '' from '' @ app)])
   | _ \<Rightarrow> usage ''usage: lwd secret rm <app> <KEY>'')"

definition runSecret :: "'s daemon_client \<Rightarrow> string res \<Rightarrow> string list \<Rightarrow> 's command" where
  "runSecret C stdin args = (case args of
     [] \<Rightarrow> usage ''usage: lwd secret <set|ls|rm> ...''
   | cmd # rest \<Rightarrow>
       if cmd = ''set'' then runSecretSet C stdin rest
       else if cmd = ''ls'' then runSecretLs C rest
       else if cmd = ''rm'' then runSecretRm C rest
       else usage (''unknown secret command '' @ cmd))"

section \<open>Nodes\<close>

text \<open>The loop over the arguments of \<open>node add\<close>: the positional ones, the agent and the pool.\<close>

fun node_add_args :: "string list \<Rightarrow> string list \<Rightarrow> string \<Rightarrow> string \<Rightarrow> (string list \<times> string \<times> string) option" where
  "node_add_args [] pos agent pool = Some (pos, agent, pool)"
| "node_add_args (a # rest) pos agent pool =
     (if a = ''--agent'' then (case rest of [] \<Rightarrow> None | v # tail \<Rightarrow> node_add_args tail pos v pool)
      else if a = ''--pool'' then (case rest of [] \<Rightarrow> None | v # tail \<Rightarrow> node_add_args tail pos agent v)
      else node_add_args rest (pos @ [a]) agent pool)"

definition node_add_usage :: string where
  "node_add_usage = ''usage: lwd node add <name> <ssh-host> <mesh-addr> [--agent <url>] [--pool <name>]''"

definition runNodeAdd :: "'s daemon_client \<Rightarrow> string list \<Rightarrow> 's command" where
  "runNodeAdd C args = (case node_add_args args [] [] [] of
     Some (name # sshHost # meshAddr # _, agentURL, pool) \<Rightarrow>
       cli_call [] ''node add:'' (dc_addnode C \<lparr>nq_name = name, nq_ssh_host = sshHost, nq_mesh_addr = meshAddr,
           nq_agent_url = agentURL, nq_pool = pool\<rparr>) (\<lambda>_.
         let displayPool = (if pool = [] then ''default'' else pool) in
         finish 0 [Out (''added node '' @ name @ '' (ssh '' @ sshHost @ '', mesh '' @ meshAddr @
           (if agentURL \<noteq> [] then '', agent '' @ agentURL else []) @ '', pool '' @ displayPool @ '')'')])
   | _ \<Rightarrow> usage node_add_usage)"

definition schedulableLabel :: "bool \<Rightarrow> string" where
  "schedulableLabel b = (if b then ''yes'' else ''cordoned'')"

definition yes_no :: "bool \<Rightarrow> string" where
  "yes_no b = (if b then ''yes'' else ''no'')"

definition runNodeLs :: "'s daemon_client \<Rightarrow> 's command" where
  "runNodeLs C = cli_call [] ''node ls:'' (dc_nodes C) (\<lambda>ns.
     finish 0 (Row [''NAME'', ''SSH'', ''MESH'', ''AGENT'', ''POOL'', ''TRANSPORT'', ''SCHEDULABLE'', ''REACHABLE'']
       # map (\<lambda>n. let r = ns_node n in Row [nd_name r, nd_ssh_host r, nd_mesh_addr r, nd_agent_url r, nd_pool r,
           ns_transport n, schedulableLabel (nd_schedulable r), yes_no (ns_reachable n)]) ns))"

definition runPoolLs :: "'s daemon_client \<Rightarrow> 's command" where
  "runPoolLs C = cli_call [] ''pool ls:'' (dc_pools C) (\<lambda>ps.
     finish 0 (Row [''POOL'', ''NODES''] # map (\<lambda>(p, k). Row [p, show_nat k]) ps))"

definition runPool :: "'s daemon_client \<Rightarrow> string list \<Rightarrow> 's command" where
  "runPool C args = (case args of
     [] \<Rightarrow> usage ''usage: lwd pool <ls> ...''
   | cmd # _ \<Rightarrow> if cmd = ''ls'' then runPoolLs C else usage (''unknown pool command '' @ cmd))"

text \<open>\<open>float64(n)\<close>, and the verb \<open>%.1f\<close> (\<open>%.2f\<close>) of a number, to even on a tie.\<close>

definition float_of_int64 :: "int \<Rightarrow> int" where
  "float_of_int64 n = (case parse_float n 1 of None \<Rightarrow> n | Some (m, dn, up) \<Rightarrow> m * 2 ^ dn div 2 ^ up)"

definition show_fixed :: "nat \<Rightarrow> int \<Rightarrow> int \<Rightarrow> string" where
  "show_fixed places num den =
     (let v = round_half_even (num * 10 ^ places) den; w = v mod 10 ^ places; ds = show_nat (nat w) in
      show_int (v div 10 ^ places) @ ''.'' @ replicate (places - length ds) (CHR ''0'') @ ds)"

text \<open>The loop: \<open>f\<close> is kept as what it was divided by \<open>1024 ^ i\<close>, which is exact.\<close>

fun unit_index :: "int \<Rightarrow> nat \<Rightarrow> nat \<Rightarrow> nat" where
  "unit_index f 0 i = i"
| "unit_index f (Suc left) i = (if 1024 * 1024 ^ i \<le> f then unit_index f left (Suc i) else i)"

definition size_units :: "string list" where
  "size_units = [''B'', ''K'', ''M'', ''G'', ''T'']"

definition humanBytes :: "int \<Rightarrow> string" where
  "humanBytes n =
     (if n \<le> 0 then ''0''
      else let f = float_of_int64 n; i = unit_index f (length size_units - 1) 0 in
        if i = 0 then show_int f @ size_units ! i
        else show_fixed 1 f (1024 ^ i) @ size_units ! i)"

definition show_cpu :: "capacity \<Rightarrow> string" where
  "show_cpu c = (case quotient_of (k_used c) of (p, q) \<Rightarrow> show_fixed 2 p q) @ ''/'' @ show_int (k_cores c)"
definition show_mem :: "capacity \<Rightarrow> string" where
  "show_mem c = humanBytes (k_mem_available c) @ ''/'' @ humanBytes (k_mem_total c)"
definition show_disk :: "capacity \<Rightarrow> string" where
  "show_disk c = humanBytes (k_disk_free c) @ ''/'' @ humanBytes (k_disk_total c)"

definition dash :: string where "dash = [CHR 0xE2, CHR 0x80, CHR 0x94]"

text \<open>One row of \<open>node capacity\<close>; the maps are those of the registered nodes, the last of a name counting.\<close>

definition capacity_row :: "node_status list \<Rightarrow> node_health \<Rightarrow> printed" where
  "capacity_row ns n =
     (let m = rev (map (\<lambda>x. (nd_name (ns_node x), ns_node x)) ns);
          pool0 = (case map_of m (nh_name n) of None \<Rightarrow> [] | Some r \<Rightarrow> nd_pool r);
          sched = (case map_of m (nh_name n) of None \<Rightarrow> False | Some r \<Rightarrow> nd_schedulable r);
          c = nh_capacity n in
      Row [nh_name n, if pool0 = [] then ''default'' else pool0,
        schedulableLabel (nh_name n = ''local'' \<or> sched),
        if k_known c then show_cpu c else dash, if k_known c then show_mem c else dash,
        if k_known c then show_disk c else dash, yes_no (k_known c)])"

definition runNodeCapacity :: "'s daemon_client \<Rightarrow> 's command" where
  "runNodeCapacity C = cli_call [] ''node capacity:'' (dc_health C) (\<lambda>h.
     cli_call [] ''node capacity:'' (dc_nodes C) (\<lambda>ns.
     finish 0 (Row [''NODE'', ''POOL'', ''SCHEDULABLE'', ''CPU'', ''MEM'', ''DISK'', ''KNOWN'']
       # map (capacity_row ns) (he_nodes h))))"

text \<open>The loop over the apps of \<open>node inspect\<close>: an app whose newest snapshot names the node is listed.\<close>

fun surfaces_on :: "'s daemon_client \<Rightarrow> string \<Rightarrow> app_status list \<Rightarrow> ('s, printed list option) state" where
  "surfaces_on C name [] = ret (Some [])"
| "surfaces_on C name (a # rest) = dc_history C (as_name a) \<bind> (\<lambda>r. case r of
     None \<Rightarrow> ret None
   | Some h \<Rightarrow> surfaces_on C name rest \<bind> (\<lambda>below. ret (case below of
       None \<Rightarrow> None
     | Some ps \<Rightarrow> Some ((case h of
         Inr (d # _) \<Rightarrow> (case unmarshal_spec (d_spec d) of
           Inr sp \<Rightarrow> if a_node sp = name then [Row [as_name a, as_status a, as_domain a, as_image a]] else []
         | Inl _ \<Rightarrow> [])
       | _ \<Rightarrow> []) @ ps))))"

definition inspect_head :: "string \<Rightarrow> string \<Rightarrow> node_health option \<Rightarrow> printed list" where
  "inspect_head name pool nh = [Row [''NODE:'', name], Row [''POOL:'', pool]] @ (case nh of
     None \<Rightarrow> [Out (''(no live health data for this node yet '' @ dash @ '' it may not be registered, or no reconcile pass has run)'')]
   | Some n \<Rightarrow> [Row [''TRANSPORT:'', nh_transport n], Row [''REACHABLE:'', if nh_reachable n then ''true'' else ''false'']] @
       (if k_known (nh_capacity n)
        then [Row [''CPU:'', show_cpu (nh_capacity n) @ '' cores''], Row [''MEM:'', show_mem (nh_capacity n)],
              Row [''DISK:'', show_disk (nh_capacity n)]]
        else [Row [''CAPACITY:'', ''unknown'']]))"

definition runNodeInspect :: "'s daemon_client \<Rightarrow> string list \<Rightarrow> 's command" where
  "runNodeInspect C args = (case args of
     [] \<Rightarrow> usage ''usage: lwd node inspect <name>''
   | name # _ \<Rightarrow>
       cli_call [] ''node inspect:'' (dc_nodes C) (\<lambda>ns.
       let pool = (case find (\<lambda>n. nd_name (ns_node n) = name) ns of None \<Rightarrow> ''default'' | Some n \<Rightarrow> nd_pool (ns_node n)) in
       cli_call [] ''node inspect:'' (dc_health C) (\<lambda>h.
       let head = inspect_head name pool (find (\<lambda>n. nh_name n = name) (he_nodes h)) in
       cli_call head ''node inspect:'' (dc_apps C) (\<lambda>apps.
       surfaces_on C name apps \<bind> (\<lambda>r. case r of
         None \<Rightarrow> ret None
       | Some ps \<Rightarrow> finish 0 (head @ [Out [], Out ''SURFACES'', Row [''APP'', ''STATUS'', ''DOMAIN'', ''IMAGE'']]
           @ (if ps = [] then [Out ''(none)''] else ps)))))))"

definition runNodeRm :: "'s daemon_client \<Rightarrow> string list \<Rightarrow> 's command" where
  "runNodeRm C args = (case args of
     [] \<Rightarrow> usage ''usage: lwd node rm <name>''
   | name # _ \<Rightarrow> cli_call [] ''node rm:'' (dc_removenode C name) (\<lambda>_. finish 0 [Out (''removed node '' @ name)]))"

text \<open>\<open>Failed\<close> is joined from the app and the error of each entry.\<close>

definition printEvacuateResult :: "evacuate_result \<Rightarrow> printed list" where
  "printEvacuateResult r =
     [if ev_moved r \<noteq> [] then Out (''Moved: '' @ join_with '', '' (ev_moved r)) else Out ''Moved: (none)''] @
     (if ev_skipped r \<noteq> [] then [Out (''Skipped (pinned): '' @ join_with '', '' (ev_skipped r))] else []) @
     map (\<lambda>(app, e). ErrOf (''Failed: '' @ app @ '':'') e) (ev_failed r)"

definition runNodeDrain :: "'s daemon_client \<Rightarrow> string list \<Rightarrow> 's command" where
  "runNodeDrain C args = (case args of
     [] \<Rightarrow> usage ''usage: lwd node drain <name>''
   | name # _ \<Rightarrow> cli_call [] ''node drain:'' (dc_drain C name) (\<lambda>r. finish 0 (printEvacuateResult r)))"

definition runNodeEvacuate :: "'s daemon_client \<Rightarrow> string list \<Rightarrow> 's command" where
  "runNodeEvacuate C args = (case args of
     [] \<Rightarrow> usage ''usage: lwd node evacuate <name>''
   | name # _ \<Rightarrow> cli_call [] ''node evacuate:'' (dc_evacuate C name) (\<lambda>r. finish 0 (printEvacuateResult r)))"

definition runNodeUncordon :: "'s daemon_client \<Rightarrow> string list \<Rightarrow> 's command" where
  "runNodeUncordon C args = (case args of
     [] \<Rightarrow> usage ''usage: lwd node uncordon <name>''
   | name # _ \<Rightarrow> cli_call [] ''node uncordon:'' (dc_uncordon C name) (\<lambda>_. finish 0 [Out (''uncordoned '' @ name)]))"

definition runNode :: "'s daemon_client \<Rightarrow> string list \<Rightarrow> 's command" where
  "runNode C args = (case args of
     [] \<Rightarrow> usage ''usage: lwd node <add|ls|rm|capacity|inspect|drain|evacuate|uncordon> ...''
   | cmd # rest \<Rightarrow>
       if cmd = ''add'' then runNodeAdd C rest
       else if cmd = ''ls'' then runNodeLs C
       else if cmd = ''rm'' then runNodeRm C rest
       else if cmd = ''capacity'' then runNodeCapacity C
       else if cmd = ''inspect'' then runNodeInspect C rest
       else if cmd = ''drain'' then runNodeDrain C rest
       else if cmd = ''evacuate'' then runNodeEvacuate C rest
       else if cmd = ''uncordon'' then runNodeUncordon C rest
       else usage (''unknown node command '' @ cmd))"

section \<open>Health and dispatch\<close>

definition state_name :: "surface_state \<Rightarrow> string" where
  "state_name st = (case st of SurfaceHealthy \<Rightarrow> ''healthy'' | SurfaceDegraded \<Rightarrow> ''degraded'' | SurfaceHealing \<Rightarrow> ''healing''
     | SurfaceFailed \<Rightarrow> ''failed'')"

text \<open>The last error of an app is printed in its row.\<close>

definition health_row :: "app_health \<Rightarrow> printed list" where
  "health_row a = Row [ah_app a, state_name (ah_state a), show_int (ah_attempts a)] #
     (case ah_error a of None \<Rightarrow> [] | Some e \<Rightarrow> [ErrOf [] e])"

definition runHealth :: "'s daemon_client \<Rightarrow> 's command" where
  "runHealth C = cli_call [] ''health:'' (dc_health C) (\<lambda>h. finish 0
     ([Out ''NODES'', Row [''NAME'', ''TRANSPORT'', ''REACHABLE'']]
      @ map (\<lambda>n. Row [nh_name n, nh_transport n, yes_no (nh_reachable n)]) (he_nodes h)
      @ [Out [], Out ''EDGE'', Out (''caddy reachable: '' @ yes_no (eh_reachable (he_edge h))), Out [], Out ''APPS'',
         Row [''APP'', ''STATE'', ''HEAL ATTEMPTS'', ''LAST ERROR'']]
      @ concat (map health_row (he_apps h))))"

text \<open>What a run has besides the client: the daemon command, standard input, files, TOML and dates.\<close>

record 's cli_world =
  cw_daemon :: "'s command"
  cw_stdin :: "string res"
  cw_read :: "string \<Rightarrow> string res"
  cw_toml :: "string \<Rightarrow> app res"
  cw_date :: "int \<Rightarrow> string"

definition Run :: "'s cli_world \<Rightarrow> 's daemon_client \<Rightarrow> string list \<Rightarrow> 's command" where
  "Run w C args = (case args of
     [] \<Rightarrow> usage ''missing command''
   | cmd # rest \<Rightarrow>
       if cmd = ''daemon'' then cw_daemon w
       else if cmd = ''apply'' then runApply C (cw_read w) (cw_toml w) rest
       else if cmd = ''ls'' then runLs C
       else if cmd = ''logs'' then runLogs C rest
       else if cmd = ''rm'' then runRm C rest
       else if cmd = ''rollback'' then runRollback C rest
       else if cmd = ''scale'' then runScale C rest
       else if cmd = ''status'' then runStatus C rest
       else if cmd = ''history'' then runHistory C (cw_date w) rest
       else if cmd = ''secret'' then runSecret C (cw_stdin w) rest
       else if cmd = ''node'' then runNode C rest
       else if cmd = ''pool'' then runPool C rest
       else if cmd = ''health'' then runHealth C
       else usage (''unknown command '' @ cmd))"

section \<open>Exit codes\<close>

text \<open>\<open>answered\<close>: the command ends with 0 or 1; \<open>proper\<close>: or with 2, and then has done nothing.\<close>

definition answered :: "'s command \<Rightarrow> bool" where
  "answered m = (\<forall>s. case fst (run_state m s) of None \<Rightarrow> True | Some (code, ps) \<Rightarrow> code \<in> {0, 1})"

definition proper :: "'s command \<Rightarrow> bool" where
  "proper m = (\<forall>s. case run_state m s of (None, s') \<Rightarrow> True
     | (Some (code, ps), s') \<Rightarrow> code \<in> {0, 1} \<or> code = 2 \<and> s' = s)"

lemma answered_finish: "answered (finish 0 ps)" "answered (finish 1 ps)" "answered (ret None)"
  by (simp_all add: answered_def finish_def)

lemma answered_bind:
  assumes "\<And>a. answered (k a)"
  shows "answered (m \<bind> k)"
  unfolding answered_def
proof
  fix s
  obtain a s1 where "run_state m s = (a, s1)" by fastforce
  with assms [of a] show "case fst (run_state (m \<bind> k) s) of None \<Rightarrow> True | Some (code, ps) \<Rightarrow> code \<in> {0, 1}"
    by (simp add: answered_def)
qed

lemma answered_call: "(\<And>a. answered (k a)) \<Longrightarrow> answered (cli_call ps label m k)"
  unfolding cli_call_def by (intro answered_bind) (simp add: answered_finish split: option.split sum.split)

lemma proper_answered:
  assumes "answered m"
  shows "proper m"
  unfolding proper_def
proof
  fix s
  obtain a s' where "run_state m s = (a, s')" by fastforce
  with assms [unfolded answered_def, rule_format, of s]
  show "case run_state m s of (None, s') \<Rightarrow> True | (Some (code, ps), s') \<Rightarrow> code \<in> {0, 1} \<or> code = 2 \<and> s' = s"
    by (auto split: option.splits)
qed

lemma proper_call: "(\<And>a. answered (k a)) \<Longrightarrow> proper (cli_call ps label m k)"
  by (intro proper_answered answered_call)

lemma proper_usage: "proper (usage msg)"
  by (simp add: proper_def usage_def finish_def)

lemmas ends_rules = answered_finish answered_bind answered_call proper_call proper_usage
  answered_finish [THEN proper_answered]

lemmas proper_splits = list.split option.split sum.split prod.split

lemma apps_proper:
  "proper (runApply C rd toml args)" "proper (runLs C)" "proper (runScale C args)" "proper (runStatus C args)"
  "proper (runHistory C date args)" "proper (runLogs C args)" "proper (runRollback C args)" "proper (runRm C args)"
  "proper (runHealth C)"
  unfolding runApply_def runLs_def runScale_def runStatus_def runHistory_def runLogs_def runRollback_def runRm_def runHealth_def Let_def
  by (auto intro!: ends_rules split: proper_splits)

lemma secrets_proper: "proper (runSecret C stdin args)"
  unfolding runSecret_def runSecretSet_def runSecretLs_def runSecretRm_def Let_def
  by (auto intro!: ends_rules split: proper_splits)

lemma nodes_proper:
  "proper (runNodeAdd C args)" "proper (runNodeLs C)" "proper (runNodeRm C args)" "proper (runNodeCapacity C)"
  "proper (runNodeInspect C args)" "proper (runNodeDrain C args)" "proper (runNodeEvacuate C args)"
  "proper (runNodeUncordon C args)" "proper (runPoolLs C)"
  unfolding runNodeAdd_def runNodeLs_def runNodeRm_def runNodeCapacity_def runNodeInspect_def runNodeDrain_def
    runNodeEvacuate_def runNodeUncordon_def runPoolLs_def Let_def
  by (auto intro!: ends_rules split: proper_splits)

lemma groups_proper: "proper (runNode C args)" "proper (runPool C args)"
  unfolding runNode_def runPool_def by (simp_all add: nodes_proper proper_usage split: list.split)

text \<open>
  Every command ends with 0, 1 or 2, and when it ends with 2, an error in how it was called, the daemon
  was not asked to do anything.
\<close>

lemma Run_exit_codes:
  assumes "args = [] \<or> hd args \<noteq> ''daemon''"
  shows "wp (Run w C args) (\<lambda>r s'. case r of None \<Rightarrow> True
    | Some (code, ps) \<Rightarrow> code \<in> {0, 1} \<or> code = 2 \<and> s' = s) s"
proof -
  have "proper (Run w C args)"
    using assms by (cases args) (simp_all add: Run_def proper_usage apps_proper secrets_proper groups_proper nodes_proper)
  then show ?thesis by (force simp: proper_def wp_def split: prod.splits option.splits)
qed

section \<open>Sizes as they are printed\<close>

lemma unit_index_le: "unit_index f left i \<le> i + left"
proof (induction left arbitrary: i)
  case (Suc left)
  then show ?case using Suc [of "Suc i"] by simp
qed simp

lemma float_of_small: "0 \<le> n \<Longrightarrow> n < 2 ^ 53 \<Longrightarrow> float_of_int64 n = n"
  by (simp add: float_of_int64_def parse_float_nat)

lemma excess_bits_le: "0 \<le> q \<Longrightarrow> q < 2 ^ (53 + k) \<Longrightarrow> excess_bits q \<le> k"
proof (induction k arbitrary: q)
  case 0
  then show ?case by (subst excess_bits.simps) simp
next
  case (Suc k)
  have "q < 2 ^ (53 + k) * 2" using Suc.prems(2) by (simp add: power_add)
  then have "q div 2 < 2 ^ (53 + k)" by (simp add: less_mult_imp_div_less)
  then have "excess_bits (q div 2) \<le> k" using Suc.IH Suc.prems(1) by simp
  then show ?case by (subst excess_bits.simps) simp
qed

lemma excess_bits_div: "0 \<le> q \<Longrightarrow> q div 2 ^ excess_bits q < 2 ^ 53"
proof (induction q rule: excess_bits.induct)
  case (1 q)
  show ?case
  proof (cases "q < 2 ^ 53")
    case True
    then show ?thesis by (subst excess_bits.simps) simp
  next
    case False
    then have "(q div 2) div 2 ^ excess_bits (q div 2) < 2 ^ 53" using 1 by simp
    then show ?thesis using False by (subst excess_bits.simps) (simp add: zdiv_zmult2_eq)
  qed
qed

lemma round_half_even_bounds: "num div den \<le> round_half_even num den" "round_half_even num den \<le> num div den + 1"
  by (simp_all add: round_half_even_def Let_def)

lemma float_of_int64_bounds:
  assumes "1024 \<le> n" "n < 2 ^ 63"
  shows "1024 \<le> float_of_int64 n \<and> float_of_int64 n \<le> 2 ^ 63"
proof (cases "n < 2 ^ 53")
  case True
  then show ?thesis using assms by (simp add: float_of_small)
next
  case False
  let ?d = "excess_bits n" and ?m = "round_half_even n (2 ^ excess_bits n)"
  have d: "?d \<le> 10" using assms excess_bits_le [of n 10] by simp
  have up: "missing_bits n 1 = 0" using False by (subst missing_bits.simps) simp
  have "n div 2 ^ ?d < 2 ^ 53" using assms excess_bits_div [of n] by simp
  then have hi: "?m \<le> 2 ^ 53" using round_half_even_bounds(2) [of n "2 ^ ?d"] by simp
  have pd: "(2::int) ^ ?d \<le> 2 ^ 10" using d by (intro power_increasing) auto
  have "(2::int) ^ 43 \<le> n div 2 ^ 10" using False by simp
  also have "\<dots> \<le> n div 2 ^ ?d" using pd assms by (intro zdiv_mono2) auto
  finally have lo: "2 ^ 43 \<le> ?m" using round_half_even_bounds(1) [of n "2 ^ ?d"] by simp
  have f: "float_of_int64 n = ?m * 2 ^ ?d" using d up by (simp add: float_of_int64_def parse_float_def Let_def)
  have "?m * 2 ^ ?d \<le> 2 ^ 53 * 2 ^ 10" using hi pd lo by (intro mult_mono) auto
  moreover have "(2 ^ 43) * 1 \<le> ?m * 2 ^ ?d" using lo by (intro mult_mono) auto
  ultimately show ?thesis by (simp add: f)
qed

lemma unit_index_bounds: "1024 ^ i \<le> f \<Longrightarrow> 1024 ^ unit_index f left i \<le> f
    \<and> (unit_index f left i < i + left \<longrightarrow> f < 1024 * 1024 ^ unit_index f left i)"
proof (induction left arbitrary: i)
  case (Suc left)
  then show ?case using Suc.IH [of "Suc i"] by auto
qed simp

lemma digit_shown:
  assumes "w < 10"
  obtains c where "show_nat w = [c]" "is_digit c"
proof
  show w: "show_nat w = [char_of (48 + w)]" using assms by (subst show_nat.simps) simp
  show "is_digit (char_of (48 + w))" using show_nat_list_all [of w] w by simp
qed

lemma read_snoc: "is_digit c \<Longrightarrow> \<exists>d. 0 \<le> d \<and> d < 10 \<and> read_int (xs @ [c]) = 10 * read_int xs + d"
  by (rule exI [of _ "int (of_char c) - 48"]) (auto simp: read_int_def is_digit_def less_eq_char_def)

lemma one_decimal:
  assumes "0 \<le> num" "0 < den" "num \<le> b * den"
  obtains a c where "show_fixed 1 num den = show_nat a @ ''.'' @ [c]" "is_digit c" "int a \<le> b + 1"
proof -
  let ?v = "round_half_even (num * 10) den"
  have v: "0 \<le> ?v" using assms round_half_even_bounds(1) [of "num * 10" den] pos_imp_zdiv_nonneg_iff [of den "num * 10"] by linarith
  have "num * 10 \<le> (10 * b) * den" using assms(3) by simp
  then have "num * 10 div den \<le> 10 * b * den div den" using assms(2) by (intro zdiv_mono1)
  then have le: "?v div 10 \<le> b + 1" using round_half_even_bounds(2) [of "num * 10" den] assms(2) by simp
  obtain c where c: "show_nat (nat (?v mod 10)) = [c]" "is_digit c" by (rule digit_shown [of "nat (?v mod 10)"]) auto
  have "show_fixed 1 num den = show_nat (nat (?v div 10)) @ ''.'' @ [c]"
    using c v by (simp add: show_fixed_def Let_def show_int_def)
  then show thesis using c(2) le v by (intro that [of "nat (?v div 10)" c]) auto
qed

lemma lowered: "map to_lower [''K'', ''M'', ''G'', ''T'', ''B''] = [''k'', ''m'', ''g'', ''t'', ''b'']"
  by code_simp

lemma sizeRe_decimal:
  assumes "is_digit c" "u \<in> {''K'', ''M'', ''G'', ''T''}"
  shows "sizeRe (show_nat a @ ''.'' @ [c] @ u) = Some (show_nat a, [c], to_lower u)"
proof -
  have tw: "takeWhile is_digit (show_nat a @ ''.'' @ [c] @ u) = show_nat a"
      "dropWhile is_digit (show_nat a @ ''.'' @ [c] @ u) = ''.'' @ [c] @ u"
    using takeWhile_show [OF show_nat_list_all, of "''.'' @ [c] @ u" a] by (auto simp: is_digit_def less_eq_char_def)
  have u: "takeWhile is_digit u = [] \<and> dropWhile is_digit u = u \<and> trim_right (trim_left u) = u
      \<and> map_of sizeUnitFactor (to_lower u) \<noteq> None"
    using assms(2) lowered by (elim insertE emptyE) (simp_all del: to_lower.simps add: is_digit_def less_eq_char_def trim_right_def trim_left_def
      is_space_def sizeUnitFactor_def)
  show ?thesis
    unfolding sizeRe_def Let_def trim_left_show tw using assms(1) u by simp
qed

lemma decimal_parsed:
  assumes "is_digit c" "u \<in> {''K'', ''M'', ''G'', ''T''}" "int a < 2 ^ 53"
  shows "\<exists>b. ParseSize (show_nat a @ ''.'' @ [c] @ u) = Inr b"
proof -
  obtain d where d: "0 \<le> d" "d < 10" "read_int (show_nat a @ [c]) = 10 * int a + d"
    using read_snoc [OF assms(1), of "show_nat a"] by (auto simp: read_show_nat)
  then have "(10 * int a + d) div 10 < 2 ^ 53" using assms(3) by simp
  then have "excess_bits ((10 * int a + d) div 10) = 0" by (subst excess_bits.simps) simp
  then obtain x where "parse_float (10 * int a + d) 10 = Some x" by (simp add: parse_float_def Let_def)
  then show ?thesis using d by (simp add: ParseSize_def sizeRe_decimal [OF assms(1,2), simplified] Let_def)
qed

lemma ParseSize_zero: "ParseSize ''0'' = Inr 0"
proof -
  have "show_nat 0 = ''0''" by code_simp
  then show ?thesis using ParseSize_exact [of "[]" 1 0] by (simp add: sizeUnitFactor_def)
qed

lemma bytes_refused: "\<exists>e. ParseSize (show_nat a @ ''B'') = Inl e"
proof -
  have tw: "takeWhile is_digit (show_nat a @ ''B'') = show_nat a" "dropWhile is_digit (show_nat a @ ''B'') = ''B''"
    using takeWhile_show [OF show_nat_list_all, of "''B''" a] by (auto simp: is_digit_def less_eq_char_def)
  have "sizeRe (show_nat a @ ''B'') = None"
    unfolding sizeRe_def Let_def trim_left_show tw
    using lowered by (simp del: to_lower.simps add: trim_right_def trim_left_def is_space_def sizeUnitFactor_def)
  then show ?thesis by (simp add: ParseSize_def)
qed

lemma last_unit: "length size_units - 1 = 4"
  by (simp add: size_units_def)

lemma humanBytes_alt: "humanBytes n = (if n \<le> 0 then ''0''
    else if unit_index (float_of_int64 n) 4 0 = 0 then show_int (float_of_int64 n) @ size_units ! unit_index (float_of_int64 n) 4 0
    else show_fixed 1 (float_of_int64 n) (1024 ^ unit_index (float_of_int64 n) 4 0) @ size_units ! unit_index (float_of_int64 n) 4 0)"
  unfolding humanBytes_def Let_def last_unit by (rule refl)

text \<open>
  Of the sizes printed for the counts of an \<open>int64\<close>, exactly those below 1024 bytes are refused when
  they are pasted back: \<open>sizeRe\<close> has no unit \<open>B\<close>.
\<close>

lemma humanBytes_refused_iff:
  assumes "0 \<le> n" "n < 2 ^ 63"
  shows "(\<exists>e. ParseSize (humanBytes n) = Inl e) \<longleftrightarrow> 0 < n \<and> n < 1024"
proof (cases "n < 1024")
  case True
  show ?thesis
  proof (cases "n = 0")
    case True
    have "ParseSize ''0'' = Inr 0" using ParseSize_zero .
    then show ?thesis by (simp add: humanBytes_def True)
  next
    case False
    have "unit_index n 4 0 = 0" using True by (simp add: numeral_eq_Suc)
    then have "humanBytes n = show_nat (nat n) @ ''B''"
      using True False assms by (simp add: humanBytes_alt float_of_small size_units_def show_int_def)
    then show ?thesis using True False assms by (simp add: bytes_refused)
  qed
next
  case False
  define f i where "f = float_of_int64 n" and "i = unit_index f 4 0"
  have f: "1024 \<le> f" "f \<le> 2 ^ 63" using float_of_int64_bounds [of n] False assms by (auto simp: f_def)
  have i: "1024 ^ i \<le> f" "i < 4 \<longrightarrow> f < 1024 * 1024 ^ i" using unit_index_bounds [of 0 f 4] f by (auto simp: i_def)
  have "i \<le> 4" using unit_index_le [of f 4 0] by (simp add: i_def)
  moreover have "i \<noteq> 0" using i f by (cases "i = 0") auto
  ultimately have ci: "i = 1 \<or> i = 2 \<or> i = 3 \<or> i = 4" by linarith
  have "f \<le> 2 ^ 23 * 1024 ^ i" using ci i f by (elim disjE) simp_all
  then obtain a c where a: "show_fixed 1 f (1024 ^ i) = show_nat a @ ''.'' @ [c]" "is_digit c" "int a \<le> 2 ^ 23 + 1"
    using one_decimal [of f "1024 ^ i" "2 ^ 23"] f by auto
  have "size_units ! i \<in> {''K'', ''M'', ''G'', ''T''}" using ci by (auto simp: size_units_def)
  then obtain b where "ParseSize (show_nat a @ ''.'' @ [c] @ size_units ! i) = Inr b"
    using decimal_parsed [OF a(2), of "size_units ! i" a] a(3) by auto
  moreover have "humanBytes n = show_nat a @ ''.'' @ [c] @ size_units ! i"
    using False a(1) \<open>i \<noteq> 0\<close> unfolding humanBytes_alt f_def [symmetric] i_def [symmetric] by simp
  ultimately show ?thesis using False by simp
qed

lemma humanBytes_refused_iff_witness: "\<exists>e. ParseSize (humanBytes 512) = Inl e"
  using humanBytes_refused_iff [of 512] by simp

end
