(* ===== verification/Daemon.thy ===== *)
theory Daemon
  imports Api
begin

text \<open>
  The whole daemon (\<open>runDaemon\<close> in \<open>src/internal/cli/cli.go\<close>): how it starts from an existing
  database, and the steps it then takes, requests and passes of the reconciler in any order. What
  the parts assume of each other is an invariant of all reachable states.
\<close>

section \<open>Starting\<close>

text \<open>What a new process has in memory; the database is what it was.\<close>

definition fresh_process :: "('x sys, unit) state" where
  "fresh_process = modify (\<lambda>s. s\<lparr>routes := [], staging := [], acked := None, remotes := [], heals := [],
     unreachable_since := [], health_view := \<lparr>he_nodes = [], he_edge = \<lparr>eh_reachable = False, eh_updated = zero_time\<rparr>,
     he_apps = []\<rparr>, nudged := False\<rparr>)"

definition running_by_id :: "container list \<Rightarrow> (string \<times> container) list" where
  "running_by_id cs = fold (\<lambda>c m. if c_state c = ''running'' then AList.update (c_id c) c m else m) cs []"

text \<open>The route of a deployment: of its replicas, or of a local container for a row without any.\<close>

definition initial_route :: "(string \<times> container) list \<Rightarrow> deployment \<Rightarrow> route option" where
  "initial_route running cur = (case unmarshal_spec (d_spec cur) of
     Inl _ \<Rightarrow> None
   | Inr a \<Rightarrow>
       if a_domain a = [] then None
       else if d_replicas cur \<noteq> [] then Some (live_route a (d_replicas cur))
       else (case map_of running (d_container cur) of
         None \<Rightarrow> None
       | Some c \<Rightarrow> Some \<lparr>rt_domain = a_domain a, rt_upstreams = [\<lparr>u_host = c_name c, u_port = a_port a\<rparr>],
           rt_tls_internal = UseInternalTLS (a_domain a)\<rparr>))"

fun initial_routes ::
  "'x env \<Rightarrow> (string \<times> container) list \<Rightarrow> string list \<Rightarrow> (string \<times> route) list \<Rightarrow> ('x sys, (string \<times> route) list) state"
where
  "initial_routes env running [] m = ret m"
| "initial_routes env running (app # apps) m =
     CurrentDeployment env app \<bind> (\<lambda>r. initial_routes env running apps (case r of
       Inr (Some cur) \<Rightarrow> (case initial_route running cur of
         None \<Rightarrow> m | Some rt \<Rightarrow> AList.update (rt_domain rt) rt m)
     | _ \<Rightarrow> m))"

definition buildInitialRoutes :: "'x env \<Rightarrow> ('x sys, route list res) state" where
  "buildInitialRoutes env =
     attempt (call (n_list (node_at env LocalNode) [(''lwd.role'', ''surface'')]))
       (wrap_err ''list surface containers: %w'' []) (\<lambda>cs.
     attempt (ListApps env) (wrap_err ''list apps: %w'' []) (\<lambda>apps.
     initial_routes env (running_by_id cs) apps [] \<bind> (\<lambda>m. ret (Inr (map snd m)))))"

text \<open>Up to the point where the loop and the listener are started.\<close>

definition start_daemon :: "'x env \<Rightarrow> ('x sys, unit res) state" where
  "start_daemon env = do {
     fresh_process;
     r \<leftarrow> buildInitialRoutes env;
     (case r of Inl _ \<Rightarrow> ret () | Inr rs \<Rightarrow> SeedRoutes rs);
     attempt (EnsureUp env) (\<lambda>e. fail_with e) (\<lambda>_.
     attempt (loadOrCreateKey env) (\<lambda>e. fail_with e) (\<lambda>_. ret (Inr ())))
   }"

section \<open>Running\<close>

text \<open>
  A heal runs on what a pass observed earlier, so its row is any row: requests may have come between.
\<close>

inductive daemon_step ::
  "'x env \<Rightarrow> (string \<Rightarrow> bool) \<Rightarrow> (string \<Rightarrow> (string \<times> string) res) \<Rightarrow> 'x sys \<Rightarrow> 'x sys \<Rightarrow> bool" for env ip url
where
  serve: "run_state (Handler env ip url q) s = (r, s') \<Longrightarrow> daemon_step env ip url s s'"
| pass: "run_state (Reconcile env) s = (x, s') \<Longrightarrow> daemon_step env ip url s s'"
| heal: "run_state (tryHeal env app cur) s = (y, s') \<Longrightarrow> daemon_step env ip url s s'"
| heal_set: "run_state (tryHealReplicas env app cur dead) s = (y, s') \<Longrightarrow> daemon_step env ip url s s'"
| seen_healthy: "run_state (clearHealAttempts app) s = (u, s') \<Longrightarrow> daemon_step env ip url s s'"
| elsewhere: "calm s s' \<Longrightarrow> daemon_step env ip url s s'"

section \<open>The invariant\<close>

text \<open>Every row's snapshot is of its own app.\<close>

definition own_rows :: "db \<Rightarrow> bool" where
  "own_rows t = list_all (\<lambda>w. case w_spec w of SpecJSON a \<Rightarrow> a_name a = w_app w | _ \<Rightarrow> True) (db_deps t)"

text \<open>No registered node shadows the host.\<close>

definition remote_names :: "db \<Rightarrow> bool" where
  "remote_names t = list_all (\<lambda>n. \<not> is_local_name (nd_name n)) (db_nodes t)"

definition db_ok :: "db \<Rightarrow> bool" where
  "db_ok t = (wf_db t \<and> own_rows t \<and> remote_names t)"

definition keyed :: "(string \<times> route) list \<Rightarrow> bool" where
  "keyed m = (wf_map m \<and> list_all (\<lambda>(k, r). rt_domain r = k) m)"

definition heals_ok :: "'x env \<Rightarrow> (string \<times> heal_state) list \<Rightarrow> bool" where
  "heals_ok env m = (wf_map m \<and> list_all (\<lambda>(k, h). hl_attempts h \<le> max 0 (heal_max env)) m)"

definition daemon_inv :: "'x env \<Rightarrow> 'x sys \<Rightarrow> bool" where
  "daemon_inv env s = (db_ok (sdb s) \<and> keyed (routes s) \<and> keyed (staging s) \<and> wf_cache s \<and>
     heals_ok env (heals s) \<and> wf_map (unreachable_since s))"

definition sound :: "'x env \<Rightarrow> 'x sys \<Rightarrow> 'x sys \<Rightarrow> bool" where
  "sound env s s' = (daemon_inv env s \<longrightarrow> daemon_inv env s')"

interpretation sound: frame "sound env" for env
  by unfold_locales (auto simp: sound_def)

lemma in_update: "(j, x) \<in> set (AList.update k v m) \<Longrightarrow> j = k \<and> x = v \<or> (j, x) \<in> set m"
  by (induction m) (auto split: if_splits)

lemma keyed_update: "keyed m \<Longrightarrow> rt_domain r = k \<Longrightarrow> keyed (AList.update k r m)"
  by (auto simp: keyed_def list_all_iff dest!: in_update)

lemma set_alist_delete: "x \<in> set (AList.delete k m) \<Longrightarrow> x \<in> set m"
  by (induction m) (auto split: if_splits)

lemma keyed_delete: "keyed m \<Longrightarrow> keyed (AList.delete k m)"
  by (auto simp: keyed_def list_all_iff dest: set_alist_delete)

lemma heals_ok_delete: "heals_ok env m \<Longrightarrow> heals_ok env (AList.delete k m)"
  by (auto simp: heals_ok_def list_all_iff dest: set_alist_delete)

lemma wf_cache_cong: "remotes s' = remotes s \<Longrightarrow> wf_cache s' = wf_cache s"
  by (simp add: wf_cache_def)

text \<open>What a step that changes only one part has to keep.\<close>

lemma sound_edge: "edge_only s s' \<Longrightarrow> (keyed (routes s) \<Longrightarrow> keyed (routes s')) \<Longrightarrow>
    (keyed (staging s) \<Longrightarrow> keyed (staging s')) \<Longrightarrow> sound env s s'"
  by (auto simp: sound_def daemon_inv_def edge_only_def kept_core_def wf_cache_def)

lemma sound_calm: "calm s s' \<Longrightarrow> sound env s s'"
  using wf_cache_cong [of s' s] by (simp add: sound_def daemon_inv_def calm_def aside_def kept_def)

lemma sound_calms: "pres calm m \<Longrightarrow> pres (sound env) m"
  by (erule pres_mono) (rule sound_calm)

lemma sound_commits:
  assumes "commits f m" "\<And>s. keyed (routes s) \<Longrightarrow> keyed (routes (f s))" "\<And>s. keyed (staging s) \<Longrightarrow> keyed (staging (f s))"
  shows "pres (sound env) m"
proof (rule presI)
  fix s r s'
  assume "run_state m s = (r, s')"
  from commitsD [OF assms(1) this] show "sound env s s'"
    using assms(2,3) by (intro sound_edge) (auto split: sum.splits)
qed

lemma sound_writes:
  assumes "writes f m" "\<And>t. db_ok t \<Longrightarrow> db_ok (snd (f t))"
  shows "pres (sound env) m"
proof (rule presI)
  fix s r s'
  assume "run_state m s = (r, s')"
  from writesD [OF assms(1) this] have c: "calm s (s'\<lparr>sdb := sdb s\<rparr>)"
    and d: "sdb s' = sdb s \<or> sdb s' = snd (f (sdb s))"
    by (auto split: sum.splits dest: arg_cong [where f = snd])
  then show "sound env s s'"
    using assms(2) [of "sdb s"] wf_cache_cong [of s' s]
    by (auto simp: sound_def daemon_inv_def calm_def aside_def kept_def)
qed

lemma sound_modify:
  "(\<And>s. daemon_inv env s \<Longrightarrow> daemon_inv env (f s)) \<Longrightarrow> pres (sound env) (modify f)"
  by (rule presI) (auto simp: sound_def)

lemma sound_cong:
  "sdb s' = sdb s \<Longrightarrow> routes s' = routes s \<Longrightarrow> staging s' = staging s \<Longrightarrow> remotes s' = remotes s \<Longrightarrow>
     heals s' = heals s \<Longrightarrow> unreachable_since s' = unreachable_since s \<Longrightarrow> sound env s s'"
  using wf_cache_cong [of s' s] by (simp add: sound_def daemon_inv_def)

section \<open>The resolver's cache\<close>

lemma ResolveMeta_err_calm: "run_state (ResolveMeta env n) s = (Inl e, s') \<Longrightarrow> calm s s'"
  by (auto simp: ResolveMeta_def Let_def wrap_err_def split: prod.splits sum.splits option.splits if_splits
      dest!: presD [OF pres_lookup_node] presD [OF pres_buildTransport] intro: calm.trans)

lemma wf_cache_update:
  "wf_cache s \<Longrightarrow> re_node e \<noteq> LocalNode \<Longrightarrow> remotes s' = AList.update n e (remotes s) \<Longrightarrow> wf_cache s'"
  by (auto simp: wf_cache_def dest!: in_update)

lemma ResolveMeta_cache:
  assumes run: "run_state (ResolveMeta env n) s = (r, s')" and wf: "wf_cache s"
  shows "wf_cache s'"
proof (cases r)
  case (Inl e)
  then have "calm s s'" using run ResolveMeta_err_calm by blast
  then show ?thesis using wf wf_cache_cong [of s' s] by (simp add: calm_def)
next
  case (Inr m)
  from run [unfolded Inr] show ?thesis
  proof (cases rule: ResolveMeta_cases)
    case (fresh row e)
    then show ?thesis using wf by (intro wf_cache_update [of s e s' n]) (auto simp: fresh_for_def)
  qed (use wf in simp_all)
qed

lemma sound_ResolveMeta: "pres (sound env) (ResolveMeta env n)"
proof (rule presI)
  fix s r s'
  assume run: "run_state (ResolveMeta env n) s = (r, s')"
  from presD [OF pres_ResolveMeta run] show "sound env s s'"
    using ResolveMeta_cache [OF run] by (auto simp: sound_def daemon_inv_def aside_def kept_def)
qed

section \<open>The database\<close>

lemma db_ok_insert: "db_ok t \<Longrightarrow> own_spec d \<Longrightarrow> db_ok (snd (sql_insert_deployment (row_of d) t))"
  using wf_insert [of t "row_of d"]
  by (auto simp: db_ok_def own_rows_def remote_names_def sql_insert_deployment_def Let_def row_of_def own_spec_def
      split: spec_text.splits)

lemma own_rows_map_id:
  "(\<And>w. w_spec (f w) = w_spec w \<and> w_app (f w) = w_app w) \<Longrightarrow> own_rows t \<Longrightarrow> own_rows (map_id i f t)"
  by (auto simp: own_rows_def map_id_def list_all_iff split: spec_text.splits)

lemma db_ok_updates:
  "db_ok t \<Longrightarrow> db_ok (sql_set_status i st t)" "db_ok t \<Longrightarrow> db_ok (sql_update_replicas i rs c t)"
  using wf_set_status [of t i st] wf_update_replicas [of t i rs c]
  by (auto simp: db_ok_def remote_names_def sql_set_status_def sql_update_replicas_def intro!: own_rows_map_id)

lemma db_ok_others:
  "db_ok t \<Longrightarrow> db_ok (sql_set_secret a k v t)" "db_ok t \<Longrightarrow> db_ok (sql_delete_secret a k t)"
  "db_ok t \<Longrightarrow> db_ok (sql_set_schedulable n b t)" "db_ok t \<Longrightarrow> db_ok (sql_delete_node n t)"
  using wf_secrets [of t] wf_set_schedulable [of t] wf_delete_node [of t]
  by (auto simp: db_ok_def own_rows_def remote_names_def sql_set_secret_def sql_delete_secret_def
      sql_set_schedulable_def sql_delete_node_def list_all_iff)

lemma db_ok_add_node: "db_ok t \<Longrightarrow> nd_pool n \<noteq> [] \<Longrightarrow> \<not> is_local_name (nd_name n) \<Longrightarrow> db_ok (sql_add_node n t)"
  using wf_add_node [of t n]
  by (auto simp: db_ok_def own_rows_def remote_names_def sql_add_node_def list_all_iff split: option.splits)

section \<open>Heals\<close>

lemma heals_ok_update:
  "heals_ok env m \<Longrightarrow> hl_attempts h \<le> max 0 (heal_max env) \<Longrightarrow> heals_ok env (AList.update k h m)"
  by (auto simp: heals_ok_def list_all_iff dest!: in_update)

lemma map_entry_keys: "map fst (AList.map_entry k f m) = map fst m"
  by (induction m) auto

lemma in_map_entry: "x \<in> set (AList.map_entry k f m) \<Longrightarrow> (\<exists>v. (k, v) \<in> set m \<and> x = (k, f v)) \<or> x \<in> set m"
  by (induction m) (auto split: if_splits)

lemma heals_ok_map_entry:
  "heals_ok env m \<Longrightarrow> (\<And>h. hl_attempts h \<le> max 0 (heal_max env) \<Longrightarrow> hl_attempts (f h) \<le> max 0 (heal_max env)) \<Longrightarrow>
     heals_ok env (AList.map_entry k f m)"
  by (auto simp: heals_ok_def list_all_iff map_entry_keys wf_map_def dest!: in_map_entry)

lemma sound_set_heal:
  "(\<And>h. hl_attempts h \<le> max 0 (heal_max env) \<Longrightarrow> hl_attempts (f h) \<le> max 0 (heal_max env)) \<Longrightarrow>
     pres (sound env) (set_heal app f)"
  unfolding set_heal_def
  by (rule sound_modify) (auto simp: daemon_inv_def wf_cache_def intro: heals_ok_map_entry)

lemma sound_heal_entry: "pres (sound env) (heal_entry app)"
  by (rule presI)
     (auto simp: heal_entry_def Let_def sound_def daemon_inv_def wf_cache_def intro: heals_ok_update split: option.splits)

lemma sound_resetHeal: "pres (sound env) (resetHeal app)"
  unfolding resetHeal_def by (rule sound_modify) (auto simp: daemon_inv_def wf_cache_def intro: heals_ok_delete)


section \<open>Every operation keeps it\<close>

interpretation sound: loop_frame "sound env" env for env
proof unfold_locales
  show "sound env s s'" if "edge_quiet s s'" for s s'
    using that by (intro sound_edge) (simp_all add: edge_quiet_def)
  show "pres (sound env) (ResolveMeta env n)" for n by (rule sound_ResolveMeta)
  show "pres (sound env) (SetRoute env rt)" for rt
    by (rule sound_commits [OF commits_SetRoute]) (simp_all add: keyed_update)
  show "pres (sound env) (RemoveRoute env dn)" for dn
    by (rule sound_commits [OF commits_RemoveRoute]) (simp_all add: keyed_delete)
  show "pres (sound env) (SetStaging env h ups)" for h ups
    by (rule sound_commits [OF commits_SetStaging]) (simp_all add: keyed_update)
  show "pres (sound env) (RemoveStaging env h)" for h
    by (rule sound_commits [OF commits_RemoveStaging]) (simp_all add: keyed_delete)
  show "pres (sound env) (RecordDeployment env d)" if "own_spec d" for d
    using that by (intro sound_writes [OF writes_store(1)] db_ok_insert)
  show "pres (sound env) (SetStatus env i StatusRetired)" for i
    by (rule sound_writes [OF writes_store(2)]) (simp add: db_ok_updates)
  show "pres (sound env) (UpdateReplicas env i rs c)" for i rs c
    by (rule sound_writes [OF writes_store(3)]) (simp add: db_ok_updates)
  show "pres (sound env) (resetHeal app)" for app by (rule sound_resetHeal)
  show "pres (sound env) (signalNudge env)" unfolding signalNudge_def
    by (intro sound.pres_if sound.pres_ret sound_modify) (simp add: daemon_inv_def wf_cache_def)
  show "pres (sound env) (clear_timer n)" for n unfolding clear_timer_def
    by (intro sound_modify) (simp add: daemon_inv_def wf_cache_def)
  show "pres (sound env) (start_timer n t)" for n t unfolding start_timer_def
    by (intro sound_modify) (simp add: daemon_inv_def wf_cache_def)
  show "pres (sound env) (setHealth h)" for h unfolding setHealth_def
    by (intro sound_modify) (simp add: daemon_inv_def wf_cache_def)
  show "pres (sound env) (tryHealWith env app cur healFn)" if h: "\<And>f. pres (sound env) (healFn f)" for app cur healFn
  proof -
    have calms: "pres (sound env) (CurrentDeployment env app)" "pres (sound env) now"
      by (rule sound_calms, intro pres_rules)+
    show ?thesis unfolding tryHealWith_def Let_def
      by (intro sound.pres_attempt sound.pres_bind sound.pres_if sound.pres_case_option sound.pres_case_sum
          sound.pres_ret calms h sound_heal_entry sound_resetHeal sound_set_heal) auto
  qed
qed

section \<open>Requests keep it\<close>

lemma sound_reads [pres_rules]:
  "pres (sound env) (DeploymentsForApp env a)" "pres (sound env) (secret_List env a)"
  "pres (sound env) (Encrypt env v)" "pres (sound env) HealthSnapshot"
  unfolding secret_List_def HealthSnapshot_def by (rule sound_calms, intro pres_rules)+

lemma sound_secrets [pres_rules]:
  "pres (sound env) (secret_Set env a k v)" "pres (sound env) (secret_Delete env a k)"
  unfolding secret_Set_def secret_Delete_def
  by (intro pres_rules sound_writes [OF writes_store(4)] sound_writes [OF writes_store(5)]; simp add: db_ok_others)+

lemma sound_nodes [pres_rules]:
  "pres (sound env) (SetSchedulable env n b)" "pres (sound env) (DeleteNode env n)"
  by (rule sound_writes [OF writes_store(6)], simp add: db_ok_others)
     (rule sound_writes [OF writes_store(7)], simp add: db_ok_others)

lemma sound_Invalidate [pres_rules]: "pres (sound env) (Invalidate n)"
  unfolding Invalidate_def by (rule sound_modify) (auto simp: daemon_inv_def wf_cache_def dest: set_alist_delete)

lemma sound_AddNode: "\<not> is_local_name (nd_name n) \<Longrightarrow> pres (sound env) (AddNode env n)"
  by (rule sound_writes [OF writes_store(8)]) (simp add: db_ok_add_node DefaultPool_def)

lemma check_node_name: "check_node ip url q = None \<Longrightarrow> \<not> is_local_name (nq_name q)"
  by (auto simp: check_node_def is_local_name_def split: if_splits)

lemma sound_replies [pres_rules]: "pres (sound env) (writeErr c e)" "pres (sound env) (writeJSON c x)"
  unfolding writeErr_def writeJSON_def by (intro pres_rules)+

lemma sound_decoded [pres_rules]: "(\<And>v. pres (sound env) (k v)) \<Longrightarrow> pres (sound env) (decoded b k)"
  unfolding decoded_def by (intro pres_rules)

lemma sound_validated [pres_rules]: "pres (sound env) k \<Longrightarrow> pres (sound env) (validated a k)"
  unfolding validated_def by (intro pres_rules)

lemma sound_deployed [pres_rules]: "pres (sound env) m \<Longrightarrow> pres (sound env) (deployed_reply m)"
  unfolding deployed_reply_def by (intro pres_rules)

lemma sound_cordon [pres_rules]: "pres (sound env) k \<Longrightarrow> pres (sound env) (checkCordonTarget env n k)"
  unfolding checkCordonTarget_def by (intro pres_rules)

lemma sound_statuses [pres_rules]: "pres (sound env) (app_statuses env names)" "pres (sound env) (node_statuses env ns)"
  by (induction names, auto intro!: pres_rules) (induction ns, auto intro!: pres_rules)

lemma sound_handleNodeAdd [pres_rules]: "pres (sound env) (handleNodeAdd env ip url b)"
  unfolding handleNodeAdd_def
  by (rule sound_decoded) (auto split: option.split intro!: pres_rules sound_AddNode dest: check_node_name)

lemma sound_Handler: "pres (sound env) (Handler env ip url q)"
proof (cases q)
  case (PostScale n b)
  have "pres (sound env) (handleScale env n b)" unfolding handleScale_def Let_def by (intro pres_rules)
  then show ?thesis using PostScale by simp
qed (simp_all, unfold handleApply_def handleRollback_def handleApps_def handleLogs_def handleHistory_def handleDelete_def
    handleSecretSet_def handleSecretList_def handleSecretDelete_def handleNodeList_def handleNodeDelete_def
    handleNodeUncordon_def handleNodeEvacuate_def handleNodeDrain_def handlePools_def handleHealth_def
    evacuated_reply_def Let_def, (intro pres_rules)+)


section \<open>Reachable states\<close>

lemma daemon_step_sound: "daemon_step env ip url s s' \<Longrightarrow> sound env s s'"
proof (induction rule: daemon_step.induct)
  case (serve q s r s')
  then show ?case using presD [OF sound_Handler] by blast
next
  case (pass s x s')
  then show ?case using presD [OF sound.pass] by blast
next
  case (heal app cur s y s')
  then show ?case using presD [OF sound.heal_loops(1)] by blast
next
  case (heal_set app cur dead s y s')
  then show ?case using presD [OF sound.heal_loops(2)] by blast
next
  case (seen_healthy app s u s')
  then show ?case using presD [OF sound.clears(1)] by blast
next
  case (elsewhere s s')
  then show ?case by (rule sound_calm)
qed

lemma keyed_fold: "keyed m \<Longrightarrow> keyed (fold (\<lambda>r m. AList.update (rt_domain r) r m) rs m)"
  by (induction rs arbitrary: m) (simp_all add: keyed_update)

lemma sound_SeedRoutes: "pres (sound env) (SeedRoutes rs)"
  unfolding SeedRoutes_def
  by (rule sound_modify) (auto simp: daemon_inv_def wf_cache_def intro!: keyed_fold, simp add: keyed_def)

lemma pres_initial_routes [pres_rules]: "pres calm (initial_routes env running apps m)"
  by (induction apps arbitrary: m) (auto intro!: pres_rules)

lemma pres_buildInitialRoutes [pres_rules]: "pres calm (buildInitialRoutes env)"
  unfolding buildInitialRoutes_def by (intro pres_rules)

lemma pres_loadOrCreateKey [pres_rules]: "pres calm (loadOrCreateKey env)"
  unfolding loadOrCreateKey_def Let_def by (intro pres_rules)

lemma fresh_process_inv:
  "run_state fresh_process s = (u, s') \<Longrightarrow> db_ok (sdb s) \<Longrightarrow> daemon_inv env s'"
  by (auto simp: fresh_process_def daemon_inv_def keyed_def heals_ok_def wf_cache_def)

lemma start_daemon_inv:
  assumes run: "run_state (start_daemon env) s = (r, s')" and ok: "db_ok (sdb s)"
  shows "daemon_inv env s'"
proof -
  obtain s1 where s1: "run_state fresh_process s = ((), s1)" by (metis old.unit.exhaust surj_pair)
  have "pres (sound env) (do {
      r \<leftarrow> buildInitialRoutes env;
      (case r of Inl _ \<Rightarrow> ret () | Inr rs \<Rightarrow> SeedRoutes rs);
      attempt (EnsureUp env) (\<lambda>e. fail_with e) (\<lambda>_.
      attempt (loadOrCreateKey env) (\<lambda>e. fail_with e) (\<lambda>_. ret (Inr ()))) })"
    by (intro pres_rules sound_SeedRoutes sound_calms)
  then have "sound env s1 s'" using run s1 by (auto simp: start_daemon_def dest: presD)
  then show ?thesis using fresh_process_inv [OF s1 ok] by (simp add: sound_def)
qed

text \<open>A daemon that is started, runs, and may be started again on what it left.\<close>

inductive reachable ::
  "'x env \<Rightarrow> (string \<Rightarrow> bool) \<Rightarrow> (string \<Rightarrow> (string \<times> string) res) \<Rightarrow> 'x sys \<Rightarrow> 'x sys \<Rightarrow> bool" for env ip url s0
where
  started: "run_state (start_daemon env) s0 = (Inr (), s) \<Longrightarrow> reachable env ip url s0 s"
| stepped: "reachable env ip url s0 s \<Longrightarrow> daemon_step env ip url s s' \<Longrightarrow> reachable env ip url s0 s'"
| restarted: "reachable env ip url s0 s \<Longrightarrow> run_state (start_daemon env) s = (Inr (), s') \<Longrightarrow> reachable env ip url s0 s'"


section \<open>The routes a start finds\<close>

text \<open>The surface containers that Docker lists on the host, in the state of the outside.\<close>

definition listed_surfaces :: "'x env \<Rightarrow> 'x sys \<Rightarrow> container list" where
  "listed_surfaces env s = (case fst (n_list (node_at env LocalNode) [(''lwd.role'', ''surface'')] (ext s)) of
     Inl _ \<Rightarrow> [] | Inr cs \<Rightarrow> cs)"

text \<open>The route is to the row's replicas, or to a running container listed under the row's id.\<close>

definition seeded_from :: "container list \<Rightarrow> deployment \<Rightarrow> route \<Rightarrow> bool" where
  "seeded_from cs cur rt = (case d_spec cur of
     SpecJSON a \<Rightarrow> a_domain a \<noteq> [] \<and> rt_domain rt = a_domain a \<and> rt_tls_internal rt = UseInternalTLS (a_domain a) \<and>
       (if d_replicas cur \<noteq> [] then rt_upstreams rt = map upstream_of (d_replicas cur)
        else list_ex (\<lambda>c. c_state c = ''running'' \<and> c_id c = d_container cur \<and>
          rt_upstreams rt = [\<lparr>u_host = c_name c, u_port = a_port a\<rparr>]) cs)
   | _ \<Rightarrow> False)"

lemma running_by_id_from: "(i, c) \<in> set (running_by_id cs) \<Longrightarrow> c \<in> set cs \<and> c_state c = ''running'' \<and> c_id c = i"
proof -
  have "(i, c) \<in> set (fold (\<lambda>c m. if c_state c = ''running'' then AList.update (c_id c) c m else m) cs m) \<Longrightarrow>
      (i, c) \<in> set m \<or> c \<in> set cs \<and> c_state c = ''running'' \<and> c_id c = i" for m
    by (induction cs arbitrary: m) (auto split: if_splits dest!: in_update)
  from this [of "[]"] show "(i, c) \<in> set (running_by_id cs) \<Longrightarrow> ?thesis" by (simp add: running_by_id_def)
qed

lemma initial_route_seeded: "initial_route (running_by_id cs) cur = Some rt \<Longrightarrow> seeded_from cs cur rt"
  by (auto simp: initial_route_def seeded_from_def unmarshal_spec_def live_route_def list_ex_iff
      dest!: map_of_SomeD running_by_id_from split: spec_text.splits if_splits option.splits)

lemma initial_routes_sound:
  assumes "run_state (initial_routes env running apps m) s = (m', s')" "(k, rt) \<in> set m'" "keyed m"
  shows "keyed m' \<and> ((k, rt) \<in> set m \<or> (\<exists>app cur. current_of app (sdb s) = Some cur \<and> initial_route running cur = Some rt))"
  using assms
proof (induction apps arbitrary: m s)
  case (Cons app apps)
  obtain r s1 where s1: "run_state (CurrentDeployment env app) s = (r, s1)" by fastforce
  have "calm s s1" by (rule presD [OF _ s1]) (intro pres_rules)
  then have db: "sdb s1 = sdb s" by (simp add: calm_def aside_def kept_def)
  let ?m = "case r of Inr (Some cur) \<Rightarrow> (case initial_route running cur of
      None \<Rightarrow> m | Some rt \<Rightarrow> AList.update (rt_domain rt) rt m) | _ \<Rightarrow> m"
  have rest: "run_state (initial_routes env running apps ?m) s1 = (m', s')" using Cons.prems(1) s1 by simp
  have k: "keyed ?m" using Cons.prems(3) by (auto split: sum.splits option.splits intro: keyed_update)
  have "(k, rt) \<in> set ?m \<Longrightarrow> (k, rt) \<in> set m \<or> (\<exists>app cur. current_of app (sdb s) = Some cur \<and> initial_route running cur = Some rt)"
    using CurrentDeployment_result [of env app s _ s1] s1
    by (fastforce simp: current_of_def split: sum.splits option.splits dest!: in_update)
  then show ?case using Cons.IH [OF rest Cons.prems(2) k] db by auto
qed simp

text \<open>
  C18: every route a start hands to the router belongs to an app's current deployment and its
  domain, each domain once: it leads to the replicas recorded in the row, or for a row without
  any to a container that runs on the host under the id of the row.
\<close>

theorem buildInitialRoutes_sound:
  "wp (buildInitialRoutes env) (\<lambda>r s'. case r of Inl e \<Rightarrow> calm s s' | Inr rs \<Rightarrow> calm s s' \<and> distinct (map rt_domain rs) \<and>
     list_all (\<lambda>rt. \<exists>app cur. current_of app (sdb s) = Some cur \<and> seeded_from (listed_surfaces env s) cur rt) rs) s"
  unfolding wp_iff
proof (intro allI impI)
  fix r s'
  assume run: "run_state (buildInitialRoutes env) s = (r, s')"
  note c = presD [OF pres_buildInitialRoutes run]
  show "case r of Inl e \<Rightarrow> calm s s' | Inr rs \<Rightarrow> calm s s' \<and> distinct (map rt_domain rs) \<and>
     list_all (\<lambda>rt. \<exists>app cur. current_of app (sdb s) = Some cur \<and> seeded_from (listed_surfaces env s) cur rt) rs"
  proof (cases r)
    case (Inr rs)
    obtain cs s1 where s1: "run_state (call (n_list (node_at env LocalNode) [(''lwd.role'', ''surface'')])) s = (Inr cs, s1)"
      using run Inr by (auto simp: buildInitialRoutes_def wrap_err_def split: sum.splits prod.splits)
    obtain apps s2 where s2: "run_state (ListApps env) s1 = (Inr apps, s2)"
      using run Inr s1 by (auto simp: buildInitialRoutes_def wrap_err_def split: sum.splits prod.splits)
    obtain m s3 where s3: "run_state (initial_routes env (running_by_id cs) apps []) s2 = (m, s3)" and m: "rs = map snd m"
      using run Inr s1 s2 by (auto simp: buildInitialRoutes_def split: prod.splits)
    have cs: "cs = listed_surfaces env s" using s1 by (auto simp: call_def listed_surfaces_def split: prod.splits)
    have "calm s s1" "calm s1 s2" by (rule presD [OF _ s1], intro pres_rules) (rule presD [OF _ s2], intro pres_rules)
    then have db: "sdb s2 = sdb s" by (simp add: calm_def aside_def kept_def)
    have k: "keyed []" by (simp add: keyed_def)
    note sd = initial_routes_sound [OF s3 _ k, unfolded db]
    have km: "keyed m" using sd k by (cases m) auto
    then have "map rt_domain rs = map fst m" using m by (auto simp: keyed_def list_all_iff)
    then have "distinct (map rt_domain rs)" using km by (simp add: keyed_def wf_map_def)
    moreover have "\<exists>app cur. current_of app (sdb s) = Some cur \<and> seeded_from (listed_surfaces env s) cur rt" if "rt \<in> set rs" for rt
      using that m sd cs initial_route_seeded by fastforce
    ultimately show ?thesis using Inr c by (auto simp: list_all_iff)
  qed (use c in simp)
qed


text \<open>The statements of the database do not fail.\<close>

definition no_faults :: "'x env \<Rightarrow> bool" where
  "no_faults env = (\<forall>stmt x. fst (db_fault env stmt x) = None)"

lemma no_faults_call: "no_faults env \<Longrightarrow> run_state (call (db_fault env stmt)) s = (e, s') \<Longrightarrow> e = None"
  by (auto simp: no_faults_def call_def split: prod.splits) (metis fst_conv)

lemma CurrentDeployment_no_fault:
  "no_faults env \<Longrightarrow> run_state (CurrentDeployment env app) s = (r, s') \<Longrightarrow>
     r = scan_option (sql_last_with_status app StatusRunning (sdb s))"
  by (auto simp: CurrentDeployment_def db_exec_def call_def no_faults_def split: prod.splits option.splits)
     (metis fst_conv option.distinct(1))

lemma ListApps_no_fault:
  "no_faults env \<Longrightarrow> run_state (ListApps env) s = (r, s') \<Longrightarrow> r = Inr (sql_list_apps (sdb s))"
  by (auto simp: ListApps_def db_exec_def call_def no_faults_def split: prod.splits option.splits)
     (metis fst_conv option.distinct(1))

definition seed_step :: "(string \<times> container) list \<Rightarrow> db \<Rightarrow> string \<Rightarrow> (string \<times> route) list \<Rightarrow> (string \<times> route) list" where
  "seed_step running t app m = (case current_of app t of
     Some cur \<Rightarrow> (case initial_route running cur of None \<Rightarrow> m | Some rt \<Rightarrow> AList.update (rt_domain rt) rt m)
   | None \<Rightarrow> m)"

lemma initial_routes_fold:
  "no_faults env \<Longrightarrow> run_state (initial_routes env running apps m) s = (m', s') \<Longrightarrow>
     m' = fold (seed_step running (sdb s)) apps m"
proof (induction apps arbitrary: m s)
  case (Cons app apps)
  obtain r s1 where s1: "run_state (CurrentDeployment env app) s = (r, s1)" by fastforce
  have "calm s s1" by (rule presD [OF _ s1]) (intro pres_rules)
  then have db: "sdb s1 = sdb s" by (simp add: calm_def aside_def kept_def)
  have r: "r = scan_option (sql_last_with_status app StatusRunning (sdb s))"
    by (rule CurrentDeployment_no_fault [OF Cons.prems(1) s1])
  have "(case r of Inr (Some cur) \<Rightarrow> (case initial_route running cur of
      None \<Rightarrow> m | Some rt \<Rightarrow> AList.update (rt_domain rt) rt m) | _ \<Rightarrow> m) = seed_step running (sdb s) app m"
    unfolding r seed_step_def current_of_def by (auto split: sum.splits option.splits)
  then have "run_state (initial_routes env running apps (seed_step running (sdb s) app m)) s1 = (m', s')"
    using Cons.prems(2) s1 by simp
  from Cons.IH [OF Cons.prems(1) this] show ?case by (simp add: db)
qed simp

text \<open>Only one app serves the domain.\<close>

definition serves :: "db \<Rightarrow> string \<Rightarrow> string \<Rightarrow> bool" where
  "serves t dn app = (case current_of app t of Some cur \<Rightarrow> (case d_spec cur of SpecJSON a \<Rightarrow> a_domain a = dn | _ \<Rightarrow> False)
     | None \<Rightarrow> False)"

lemma seed_step_other: "\<not> serves t dn app \<Longrightarrow> map_of (seed_step running t app m) dn = map_of m dn"
  by (auto simp: seed_step_def serves_def initial_route_def live_route_def unmarshal_spec_def update_conv'
      split: option.splits spec_text.splits if_splits)

lemma seed_fold_other:
  "(\<And>b. b \<in> set apps \<Longrightarrow> \<not> serves t dn b) \<Longrightarrow> map_of (fold (seed_step running t) apps m) dn = map_of m dn"
  by (induction apps arbitrary: m) (auto simp: seed_step_other)

lemma seed_fold_own:
  assumes "app \<in> set apps" "distinct apps" "\<And>b. b \<noteq> app \<Longrightarrow> \<not> serves t dn b"
    and own: "\<And>m. map_of (seed_step running t app m) dn = Some rt"
  shows "map_of (fold (seed_step running t) apps m) dn = Some rt"
  using assms(1,2)
proof (induction apps arbitrary: m)
  case (Cons b apps)
  show ?case
  proof (cases "b = app")
    case True
    then have "map_of (fold (seed_step running t) apps (seed_step running t app m)) dn = map_of (seed_step running t app m) dn"
      using Cons.prems True by (intro seed_fold_other assms(3)) auto
    then show ?thesis using True own by simp
  qed (use Cons in auto)
qed simp

lemma seeded_table:
  "keyed m \<Longrightarrow> map_of (fold (\<lambda>r m. AList.update (rt_domain r) r m) (map snd m) acc) k =
     (case map_of m k of Some r \<Rightarrow> Some r | None \<Rightarrow> map_of acc k)"
proof (induction m arbitrary: acc)
  case (Cons x m)
  obtain j r where x: "x = (j, r)" by fastforce
  have "keyed m" "rt_domain r = j" "map_of m j = None"
    using Cons.prems x by (auto simp: keyed_def wf_map_def map_of_eq_None_iff)
  then show ?case using Cons.IH x by (auto simp: update_conv' split: option.splits)
qed simp

lemma keyed_seed_fold: "keyed m \<Longrightarrow> keyed (fold (seed_step running t) apps m)"
  by (induction apps arbitrary: m) (auto simp: seed_step_def intro: keyed_update split: option.splits)

lemma current_of_listed: "current_of app t = Some cur \<Longrightarrow> app \<in> set (sql_list_apps t)"
  by (auto simp: current_of_def scan_option_def sql_list_apps_def split: sum.splits option.splits dest!: sql_last_Some)
     

end
