(* ===== verification/Programs.thy ===== *)
theory Programs
  imports Agent Web Cli Mcp Daemon
begin

text \<open>
  The four programs (\<open>src/cmd\<close>) and the daemon command (\<open>runDaemon\<close> in \<open>src/internal/cli/cli.go\<close>): what
  they read from their environment, where they listen, and who is let in there. Serving is an argument: it is
  the time from when the last listener is open until a server fails or a signal comes.
\<close>

section \<open>The daemon command\<close>

datatype listener = UnixListener string | TcpListener string string

datatype wake = ServerStopped "goerr option" | Signalled

record 'x boot =
  bt_mkdir :: "string \<Rightarrow> ('x, goerr option) op"
  bt_docker :: "('x, goerr option) op"
  bt_open :: "string \<Rightarrow> ('x, goerr option) op"
  bt_unlink :: "string \<Rightarrow> ('x, goerr option) op"
  bt_listen :: "listener \<Rightarrow> ('x, goerr option) op"
  bt_chmod :: "string \<Rightarrow> nat \<Rightarrow> ('x, goerr option) op"
  bt_shutdown :: "listener \<Rightarrow> ('x, goerr option) op"

text \<open>The exit code, what is printed, and the listeners that were open while the daemon ran.\<close>

type_synonym ('x, 'r) booting = "('x sys, int \<times> printed list \<times> listener list) state"

definition quit :: "listener list \<Rightarrow> string \<Rightarrow> goerr \<Rightarrow> ('x sys, int \<times> printed list \<times> listener list) state" where
  "quit ls label e = ret (1, [ErrOf label e], ls)"

fun shut_down :: "'x boot \<Rightarrow> listener list \<Rightarrow> listener list \<Rightarrow> ('x sys, int \<times> printed list \<times> listener list) state" where
  "shut_down b ls [] = ret (0, [Out ''lwd daemon shutting down''], ls)"
| "shut_down b ls (l # rest) =
     attempt (call_unit (bt_shutdown b l)) (quit ls ''shutdown:'') (\<lambda>_. shut_down b ls rest)"

definition serve_until ::
  "'x boot \<Rightarrow> (listener list \<Rightarrow> ('x sys, wake) state) \<Rightarrow> listener list \<Rightarrow> ('x sys, int \<times> printed list \<times> listener list) state"
where
  "serve_until b serving ls = serving ls \<bind> (\<lambda>w. case w of
     ServerStopped (Some e) \<Rightarrow> quit ls ''serve:'' e
   | ServerStopped None \<Rightarrow> ret (0, [], ls)
   | Signalled \<Rightarrow> shut_down b ls ls)"

text \<open>The label of an error of the start itself is left out.\<close>

definition runDaemon ::
  "'x env \<Rightarrow> 'x boot \<Rightarrow> (string \<Rightarrow> string) \<Rightarrow> (listener list \<Rightarrow> ('x sys, wake) state)
    \<Rightarrow> ('x sys, int \<times> printed list \<times> listener list) state"
where
  "runDaemon env b getenv serving =
     attempt (call_unit (bt_mkdir b (DataDir getenv))) (quit [] ''lwd: cannot create data dir'') (\<lambda>_.
     attempt (call_unit (bt_docker b)) (quit [] ''lwd: cannot reach Docker:'') (\<lambda>_.
     attempt (call_unit (bt_open b (DBPath getenv))) (quit [] ''store:'') (\<lambda>_.
     attempt (start_daemon env) (quit [] []) (\<lambda>_.
     let sock = SocketPath getenv; sl = UnixListener sock in
     call (bt_unlink b sock) \<bind> (\<lambda>_.
     attempt (call_unit (bt_listen b sl)) (quit [] ''listen:'') (\<lambda>_.
     attempt (call_unit (bt_chmod b sock 384)) (quit [sl] ''chmod socket:'') (\<lambda>_.
     let addr = APIAddr getenv; token = APIToken getenv in
     if addr = [] then serve_until b serving [sl]
     else (case apiListenAllowed addr token of
       Some e \<Rightarrow> quit [sl] ''lwd:'' e
     | None \<Rightarrow>
         let tcp = TcpListener addr token in
         attempt (call_unit (bt_listen b tcp)) (quit [sl] ''listen:'') (\<lambda>_. serve_until b serving [sl, tcp])))))))))"

text \<open>What a listener does with a request.\<close>

definition serve_on ::
  "'x env \<Rightarrow> (string \<Rightarrow> bool) \<Rightarrow> (string \<Rightarrow> (string \<times> string) res) \<Rightarrow> listener \<Rightarrow> daemon_req \<Rightarrow> ('x sys, served) state"
where
  "serve_on env ip url l r = (case l of
     UnixListener _ \<Rightarrow> serve_mux env ip url r
   | TcpListener _ token \<Rightarrow> serve_daemon env ip url token r)"

section \<open>The other programs\<close>

text \<open>A program either ends, with a code, or serves at an address.\<close>

datatype 'h program = Ends int "printed list" | Serves string 'h

definition version_String :: string where "version_String = ''0.1.0-dev''"

definition asks_version :: "string list \<Rightarrow> bool" where
  "asks_version args = (case args of a # _ \<Rightarrow> a = ''version'' | [] \<Rightarrow> False)"

definition lwd_main :: "'s cli_world \<Rightarrow> 's daemon_client \<Rightarrow> string list \<Rightarrow> 's command" where
  "lwd_main w C args = (if asks_version args then finish 0 [Out (''lwd '' @ version_String)] else Run w C args)"

definition agent_main ::
  "(string \<Rightarrow> string) \<Rightarrow> 'x full_node res \<Rightarrow> string list \<Rightarrow> (agent_req \<Rightarrow> ('x, agent_resp) op) program"
where
  "agent_main getenv newLocal args =
     (if asks_version args then Ends 0 [Out (''lwd-agent '' @ version_String)]
      else let token = getenv ''LWD_AGENT_TOKEN'';
               addr = (if getenv ''LWD_AGENT_ADDR'' = [] then '':8078'' else getenv ''LWD_AGENT_ADDR'') in
        if token = [] then Ends 1 [Out ''lwd-agent: LWD_AGENT_TOKEN is required'']
        else (case newLocal of
          Inl e \<Rightarrow> Ends 1 [ErrOf ''lwd-agent:'' e]
        | Inr n \<Rightarrow> Serves addr (Agent.Handler n token)))"

definition hostIsLoopback :: "string \<Rightarrow> bool" where
  "hostIsLoopback addr = (case SplitHost addr of
     None \<Rightarrow> False
   | Some host \<Rightarrow> host = ''127.0.0.1'' \<or> host = ''::1'' \<or> host = ''localhost'')"

text \<open>The warning for an address that others can reach is only logged.\<close>

definition web_main ::
  "(string \<Rightarrow> string) \<Rightarrow> string res \<Rightarrow> web_codec \<Rightarrow> (string \<Rightarrow> string \<Rightarrow> string) \<Rightarrow> (client \<Rightarrow> 's daemon_client) \<Rightarrow> string list
    \<Rightarrow> (int \<Rightarrow> web_req \<Rightarrow> ('s, web_reply option) state) program"
where
  "web_main getenv random32 cd hmac connect args =
     (if asks_version args then Ends 0 [Out (''lwd-web '' @ version_String)]
      else (case LoadConfig getenv random32 of
        Inl e \<Rightarrow> Ends 1 [ErrOf ''lwd-web:'' e]
      | Inr cfg \<Rightarrow> Serves (wc_addr cfg)
          (\<lambda>t. web_Handler cd hmac (NewAuthenticator (wc_key cfg) (wc_password cfg)) t (connect (FromEnv getenv)))))"

text \<open>The MCP server listens on no address; its calls come in on its standard input.\<close>

definition mcp_main ::
  "(string \<Rightarrow> string) \<Rightarrow> (string \<Rightarrow> string res) \<Rightarrow> (string \<Rightarrow> app res) \<Rightarrow> (client \<Rightarrow> 's daemon_client) \<Rightarrow> string list
    \<Rightarrow> (mcp_call \<Rightarrow> ('s, mcp_result res option) state) program"
where
  "mcp_main getenv read toml connect args =
     (if asks_version args then Ends 0 [Out (''lwd-mcp '' @ version_String)]
      else Serves ''stdio'' (call_tool (connect (FromEnv getenv)) read toml))"

section \<open>Who is let in\<close>

text \<open>A listener that is off the network, or answers only to its token.\<close>

definition guarded :: "'x env \<Rightarrow> (string \<Rightarrow> bool) \<Rightarrow> (string \<Rightarrow> (string \<times> string) res) \<Rightarrow> listener \<Rightarrow> bool" where
  "guarded env ip url l = (case l of
     UnixListener _ \<Rightarrow> True
   | TcpListener addr token \<Rightarrow> isLoopbackAddr addr \<or>
       (token \<noteq> [] \<and> (\<forall>r. hq_auth r = ''Bearer '' @ token \<or>
          serve_on env ip url l r = ret (Replied (401, ErrBody (Errf ''unauthorized'' []))))))"

lemma allowed_guarded:
  "apiListenAllowed addr token = None \<Longrightarrow> addr \<noteq> [] \<Longrightarrow> guarded env ip url (TcpListener addr token)"
  by (auto simp: guarded_def apiListenAllowed_def serve_on_def serve_daemon_def bearerMiddleware_exact split: if_splits)

text \<open>All listeners a program of the start reports are guarded.\<close>

definition opens_guarded ::
  "'x env \<Rightarrow> (string \<Rightarrow> bool) \<Rightarrow> (string \<Rightarrow> (string \<times> string) res) \<Rightarrow> ('x sys, int \<times> printed list \<times> listener list) state \<Rightarrow> bool"
where
  "opens_guarded env ip url m = (\<forall>s. list_all (guarded env ip url) (snd (snd (fst (run_state m s)))))"

lemma opens_ret:
  assumes "list_all (guarded env ip url) ls"
  shows "opens_guarded env ip url (ret (c, ps, ls))" "opens_guarded env ip url (quit ls label e)"
  using assms by (simp_all add: opens_guarded_def quit_def)

lemma opens_bind: "(\<And>a. opens_guarded env ip url (k a)) \<Longrightarrow> opens_guarded env ip url (m \<bind> k)"
  by (simp add: opens_guarded_def split: prod.split)

lemma opens_attempt:
  "(\<And>e. opens_guarded env ip url (h e)) \<Longrightarrow> (\<And>a. opens_guarded env ip url (k a)) \<Longrightarrow> opens_guarded env ip url (attempt m h k)"
  by (simp add: opens_guarded_def split: prod.split sum.split)

lemma opens_serving:
  assumes "list_all (guarded env ip url) ls"
  shows "opens_guarded env ip url (serve_until b serving ls)"
proof -
  have "opens_guarded env ip url (shut_down b ls rest)" for rest
    by (induction rest) (auto intro!: opens_attempt opens_ret assms)
  then show ?thesis unfolding serve_until_def
    by (intro opens_bind) (auto split: wake.split option.split intro!: opens_ret assms)
qed

text \<open>
  C37: the control plane is never open to the network: every listener the daemon opens is the unix socket, bound to the
  loopback interface, or answers 401, and does nothing else, to every request that does not carry its token.
\<close>

theorem runDaemon_guarded:
  "wp (runDaemon env b getenv serving) (\<lambda>(code, ps, ls) s'. list_all (guarded env ip url) ls) s"
proof -
  let ?sock = "UnixListener (SocketPath getenv)" and ?tcp = "TcpListener (APIAddr getenv) (APIToken getenv)"
  have g: "list_all (guarded env ip url) []" "list_all (guarded env ip url) [?sock]"
    "APIAddr getenv \<noteq> [] \<Longrightarrow> apiListenAllowed (APIAddr getenv) (APIToken getenv) = None \<Longrightarrow> list_all (guarded env ip url) [?sock, ?tcp]"
    using allowed_guarded by (simp_all add: guarded_def)
  have "opens_guarded env ip url (runDaemon env b getenv serving)"
    unfolding runDaemon_def Let_def
    by (intro opens_attempt opens_bind opens_ret g(1,2))
      (auto split: option.split intro!: opens_attempt opens_ret opens_serving g)
  then have "list_all (guarded env ip url) (snd (snd (fst (run_state (runDaemon env b getenv serving) s))))"
    by (simp add: opens_guarded_def)
  then show ?thesis by (simp add: wp_def split_beta)
qed

text \<open>An agent that serves has a token, and does nothing but the probe for a request without it.\<close>

lemma agent_main_guarded:
  assumes "agent_main getenv newLocal args = Serves addr h"
  shows "hq_path r = ''/healthz'' \<or> hq_auth r = ''Bearer '' @ getenv ''LWD_AGENT_TOKEN'' \<or>
    h r = Agent.answer (Agent.writeErr 401 (Errf ''unauthorized'' []))"
  using assms
  by (auto simp: agent_main_def Agent.Handler_def authMiddleware_exact Let_def split: if_splits sum.splits)

text \<open>The copy of the loopback test agrees with the original.\<close>

lemma hostIsLoopback_same: "hostIsLoopback = isLoopbackAddr"
  by (auto simp: hostIsLoopback_def isLoopbackAddr_def fun_eq_iff split: option.split)

end
