(* ===== verification/Migrations.thy ===== *)
theory Migrations
  imports Prelude
begin

text \<open>
  Opening the database (\<open>Open\<close> and the \<open>migrateAdd...Column\<close> functions of
  \<open>src/internal/store/store.go\<close>): a small relational model with \<open>PRAGMA table_info\<close>,
  \<open>ALTER TABLE ... ADD COLUMN ... DEFAULT\<close> and \<open>CREATE TABLE IF NOT EXISTS\<close>, a failure of each
  statement, and what another process does to the file between a check and the \<open>ALTER\<close>.
\<close>

section \<open>Tables\<close>

datatype sqlval = SInt int | SText string

type_synonym sqlrow = "(string \<times> sqlval) list"

record sqltable =
  t_cols :: "string list"
  t_rows :: "sqlrow list"

type_synonym sqlite = "(string \<times> sqltable) list"

definition columns_of :: "string \<Rightarrow> sqlite \<Rightarrow> string list" where
  "columns_of tab f = (case map_of f tab of None \<Rightarrow> [] | Some t \<Rightarrow> t_cols t)"

definition add_column :: "string \<Rightarrow> string \<Rightarrow> sqlval \<Rightarrow> sqlite \<Rightarrow> sqlite res" where
  "add_column tab col v f =
     (case map_of f tab of
        None \<Rightarrow> Inl (Errf ''no such table: %s'' [tab])
      | Some t \<Rightarrow>
          if col \<in> set (t_cols t) then Inl (Errf ''duplicate column name: %s'' [col])
          else Inr (AList.update tab
            \<lparr>t_cols = t_cols t @ [col], t_rows = map (\<lambda>r. r @ [(col, v)]) (t_rows t)\<rparr> f))"

definition create_if_missing :: "string \<Rightarrow> string list \<Rightarrow> sqlite \<Rightarrow> sqlite" where
  "create_if_missing tab cols f =
     (case map_of f tab of None \<Rightarrow> AList.update tab \<lparr>t_cols = cols, t_rows = []\<rparr> f | Some _ \<Rightarrow> f)"

text \<open>
  The database's environment: \<open>mq\<close> the error of reading a table's columns, \<open>mx\<close> the error of
  executing a statement (each by the column or statement it is about), \<open>mr\<close> the other process.
\<close>

record mig_env =
  mq :: "string \<Rightarrow> goerr option"
  mx :: "string \<Rightarrow> goerr option"
  mr :: "string \<Rightarrow> sqlite \<Rightarrow> sqlite"

section \<open>The migrations\<close>

text \<open>The body the seven functions share.\<close>

definition migrateAddColumn ::
  "mig_env \<Rightarrow> string \<Rightarrow> string \<Rightarrow> sqlval \<Rightarrow> string \<Rightarrow> (sqlite, unit res) state"
where
  "migrateAddColumn env tab col v fmt = State (\<lambda>f.
     case mq env col of
       Some e \<Rightarrow> (Inl (Wrapf ''table_info: %w'' [] e), f)
     | None \<Rightarrow>
         if col \<in> set (columns_of tab f) then (Inr (), f)
         else
           let g = mr env col f;
               tolerate = (\<lambda>e. if err_mentions ''duplicate column name'' e then Inr ()
                               else Inl (Wrapf fmt [] e))
           in case mx env col of
                Some e \<Rightarrow> (tolerate e, g)
              | None \<Rightarrow> (case add_column tab col v g of
                  Inl e \<Rightarrow> (tolerate e, g)
                | Inr h \<Rightarrow> (Inr (), h)))"

definition migrateAddSpecColumn :: "mig_env \<Rightarrow> (sqlite, unit res) state" where
  "migrateAddSpecColumn env =
     migrateAddColumn env ''deployments'' ''spec'' (SText []) ''add spec column: %w''"

definition migrateAddComposeColumn :: "mig_env \<Rightarrow> (sqlite, unit res) state" where
  "migrateAddComposeColumn env =
     migrateAddColumn env ''deployments'' ''compose'' (SText []) ''add compose column: %w''"

definition migrateAddAgentURLColumn :: "mig_env \<Rightarrow> (sqlite, unit res) state" where
  "migrateAddAgentURLColumn env =
     migrateAddColumn env ''nodes'' ''agent_url'' (SText []) ''add agent_url column: %w''"

definition migrateAddPoolColumn :: "mig_env \<Rightarrow> (sqlite, unit res) state" where
  "migrateAddPoolColumn env =
     migrateAddColumn env ''nodes'' ''pool'' (SText ''default'') ''add pool column: %w''"

definition migrateAddSchedulableColumn :: "mig_env \<Rightarrow> (sqlite, unit res) state" where
  "migrateAddSchedulableColumn env =
     migrateAddColumn env ''nodes'' ''schedulable'' (SInt 1) ''add schedulable column: %w''"

definition migrateAddScheduledColumn :: "mig_env \<Rightarrow> (sqlite, unit res) state" where
  "migrateAddScheduledColumn env =
     migrateAddColumn env ''deployments'' ''scheduled'' (SInt 0) ''add scheduled column: %w''"

definition migrateAddReplicasColumn :: "mig_env \<Rightarrow> (sqlite, unit res) state" where
  "migrateAddReplicasColumn env =
     migrateAddColumn env ''deployments'' ''replicas'' (SText []) ''add replicas column: %w''"

text \<open>The constant \<open>schema\<close>: the tables with their columns.\<close>

definition schema :: "(string \<times> string list) list" where
  "schema =
     [(''deployments'', [''id'', ''app'', ''image'', ''container_id'', ''status'', ''created_at'',
         ''spec'', ''compose'', ''scheduled'', ''replicas'']),
      (''secrets'', [''app'', ''key'', ''value'']),
      (''nodes'', [''name'', ''ssh_host'', ''mesh_addr'', ''created_at'', ''agent_url'', ''pool'',
         ''schedulable''])]"

definition exec_schema :: "mig_env \<Rightarrow> (sqlite, unit res) state" where
  "exec_schema env = State (\<lambda>f. case mx env ''schema'' of
     Some e \<Rightarrow> (Inl (Wrapf ''migrate: %w'' [] e), f)
   | None \<Rightarrow> (Inr (), fold (\<lambda>(tab, cols). create_if_missing tab cols) schema f))"

definition configure :: "mig_env \<Rightarrow> (sqlite, unit res) state" where
  "configure env = State (\<lambda>f. case mx env ''busy_timeout'' of
     Some e \<Rightarrow> (Inl (Wrapf ''configure sqlite: %w'' [] e), f) | None \<Rightarrow> (Inr (), f))"

fun run_migrations :: "(sqlite, unit res) state list \<Rightarrow> (sqlite, unit res) state" where
  "run_migrations [] = ret (Inr ())"
| "run_migrations (m # ms) =
     attempt m (\<lambda>e. ret (Inl (Wrapf ''migrate: %w'' [] e))) (\<lambda>_. run_migrations ms)"

definition Open :: "mig_env \<Rightarrow> (sqlite, unit res) state" where
  "Open env =
     attempt (configure env) (\<lambda>e. ret (Inl e)) (\<lambda>_.
     attempt (exec_schema env) (\<lambda>e. ret (Inl e)) (\<lambda>_.
     run_migrations
       [migrateAddSpecColumn env, migrateAddComposeColumn env, migrateAddAgentURLColumn env,
        migrateAddPoolColumn env, migrateAddSchedulableColumn env,
        migrateAddScheduledColumn env, migrateAddReplicasColumn env]))"

section \<open>What a migration leaves behind\<close>

text \<open>A table brought up to date: the missing columns at the end, with their defaults in every row.\<close>

definition missing :: "sqlrow \<Rightarrow> sqltable \<Rightarrow> sqlrow" where
  "missing ds t = filter (\<lambda>(c, _). c \<notin> set (t_cols t)) ds"

definition extend :: "sqlrow \<Rightarrow> sqltable \<Rightarrow> sqltable" where
  "extend ds t = \<lparr>t_cols = t_cols t @ map fst (missing ds t),
                  t_rows = map (\<lambda>r. r @ missing ds t) (t_rows t)\<rparr>"

lemma extend_Nil [simp]: "extend [] t = t"
  by (simp add: extend_def missing_def)

lemma extend_append:
  "fst ` set es \<inter> fst ` set ds = {} \<Longrightarrow> extend es (extend ds t) = extend (ds @ es) t"
proof -
  assume d: "fst ` set es \<inter> fst ` set ds = {}"
  have "missing es (extend ds t) = missing es t"
    using d by (force simp: missing_def extend_def intro!: filter_cong)
  then show ?thesis by (simp add: extend_def) (simp add: missing_def)
qed

lemma extend_present: "fst ` set ds \<subseteq> set (t_cols t) \<Longrightarrow> extend ds t = t"
proof -
  assume "fst ` set ds \<subseteq> set (t_cols t)"
  then have "missing ds t = []" by (auto simp: missing_def filter_empty_conv)
  then show ?thesis by (simp add: extend_def)
qed

lemma extend_cols: "set (t_cols (extend ds t)) = set (t_cols t) \<union> fst ` set ds"
  by (auto simp: extend_def missing_def image_iff)

text \<open>A database nobody else is writing to, with no failing statement.\<close>

definition calm :: "mig_env \<Rightarrow> bool" where
  "calm env = (mq env = (\<lambda>_. None) \<and> mx env = (\<lambda>_. None) \<and> mr env = (\<lambda>_ f. f))"

lemma update_same: "map_of f k = Some v \<Longrightarrow> distinct (map fst f) \<Longrightarrow> AList.update k v f = f"
  by (induction f) (auto split: if_splits)

lemma migrate_calm:
  assumes "calm env" "map_of f tab = Some t" "distinct (map fst f)"
  shows "run_state (migrateAddColumn env tab col v fmt) f =
     (Inr (), AList.update tab (extend [(col, v)] t) f)"
  using assms
  by (auto simp: migrateAddColumn_def calm_def columns_of_def add_column_def extend_def missing_def
      update_same Let_def)

lemma migrate_step:
  assumes "calm env" "tab \<in> dom (map_of f)" "distinct (map fst f)"
  shows "run_state (migrateAddColumn env tab col v fmt) f =
     (Inr (), AList.update tab (extend [(col, v)] (the (map_of f tab))) f)"
  using assms migrate_calm by (auto simp: dom_def)

definition dep_defaults :: sqlrow where
  "dep_defaults = [(''spec'', SText []), (''compose'', SText []), (''scheduled'', SInt 0),
     (''replicas'', SText [])]"

definition node_defaults :: sqlrow where
  "node_defaults = [(''agent_url'', SText []), (''pool'', SText ''default''), (''schedulable'', SInt 1)]"

definition table_or_new :: "string \<Rightarrow> sqlite \<Rightarrow> sqltable" where
  "table_or_new tab f = (case map_of f tab of
     Some t \<Rightarrow> t | None \<Rightarrow> \<lparr>t_cols = the (map_of schema tab), t_rows = []\<rparr>)"

lemma create_if_missing_lookup:
  "map_of (create_if_missing tab cols f) k =
     (if k = tab then Some (case map_of f tab of Some t \<Rightarrow> t | None \<Rightarrow> \<lparr>t_cols = cols, t_rows = []\<rparr>)
      else map_of f k)"
  by (auto simp: create_if_missing_def update_conv' split: option.splits)

lemma create_if_missing_distinct:
  "distinct (map fst f) \<Longrightarrow> distinct (map fst (create_if_missing tab cols f))"
  by (auto simp: create_if_missing_def distinct_update split: option.splits)

lemma schema_effect:
  assumes "calm env" "distinct (map fst f)"
  shows "\<exists>g. run_state (exec_schema env) f = (Inr (), g) \<and> distinct (map fst g) \<and>
     map_of g ''deployments'' = Some (table_or_new ''deployments'' f) \<and>
     map_of g ''nodes'' = Some (table_or_new ''nodes'' f) \<and>
     map_of g ''secrets'' = Some (table_or_new ''secrets'' f) \<and>
     (\<forall>k. k \<notin> {''deployments'', ''secrets'', ''nodes''} \<longrightarrow> map_of g k = map_of f k)"
  using assms
  by (intro exI [of _ "fold (\<lambda>(tab, cols). create_if_missing tab cols) schema f"])
     (auto simp: exec_schema_def calm_def schema_def create_if_missing_distinct
       create_if_missing_lookup table_or_new_def split: option.splits)

lemmas migrate_defs = migrateAddSpecColumn_def migrateAddComposeColumn_def
  migrateAddAgentURLColumn_def migrateAddPoolColumn_def migrateAddSchedulableColumn_def
  migrateAddScheduledColumn_def migrateAddReplicasColumn_def

lemma extend_four:
  "extend [(''replicas'', r)] (extend [(''scheduled'', c)] (extend [(''compose'', b)] (extend [(''spec'', a)] t)))
     = extend [(''spec'', a), (''compose'', b), (''scheduled'', c), (''replicas'', r)] t"
  by (simp add: extend_append)

lemma extend_three:
  "extend [(''schedulable'', c)] (extend [(''pool'', b)] (extend [(''agent_url'', a)] t))
     = extend [(''agent_url'', a), (''pool'', b), (''schedulable'', c)] t"
  by (simp add: extend_append)

lemma Open_effect:
  assumes "calm env" "distinct (map fst f)"
  shows "\<exists>g. run_state (Open env) f = (Inr (), g) \<and> distinct (map fst g) \<and>
     map_of g ''deployments'' = Some (extend dep_defaults (table_or_new ''deployments'' f)) \<and>
     map_of g ''nodes'' = Some (extend node_defaults (table_or_new ''nodes'' f)) \<and>
     map_of g ''secrets'' = Some (table_or_new ''secrets'' f) \<and>
     (\<forall>k. k \<notin> {''deployments'', ''secrets'', ''nodes''} \<longrightarrow> map_of g k = map_of f k)"
proof -
  obtain f1 where f1: "run_state (exec_schema env) f = (Inr (), f1)" "distinct (map fst f1)"
    "map_of f1 ''deployments'' = Some (table_or_new ''deployments'' f)"
    "map_of f1 ''nodes'' = Some (table_or_new ''nodes'' f)"
    "map_of f1 ''secrets'' = Some (table_or_new ''secrets'' f)"
    "\<And>k. k \<notin> {''deployments'', ''secrets'', ''nodes''} \<Longrightarrow> map_of f1 k = map_of f k"
    using schema_effect [OF assms] by (elim exE conjE) (rule that, assumption+, blast)
  have dom: "''deployments'' \<in> dom (map_of f1)" "''nodes'' \<in> dom (map_of f1)"
    using f1 by (simp_all add: dom_def del: map_of_eq_Some_iff)
  have conf: "run_state (configure env) f = (Inr (), f)"
    using assms(1) by (simp add: configure_def calm_def)
  show ?thesis
    unfolding Open_def migrate_defs
    by (simp add: conf f1 dom migrate_step [OF assms(1)] distinct_update update_conv'
        extend_four extend_three dep_defaults_def node_defaults_def del: map_of_eq_Some_iff)
qed

text \<open>
  C28: opening any older database file succeeds when no statement fails: each table of the
  schema exists afterwards, the columns a table lacked are there with their defaults (a node
  stays schedulable, a deployment is not the scheduler's) in every row, and every column, row and
  table that was there is unchanged.
\<close>

theorem Open_upgrades:
  assumes "calm env" "distinct (map fst f)"
  shows "\<exists>g. run_state (Open env) f = (Inr (), g) \<and> distinct (map fst g) \<and>
     map_of g ''deployments'' = Some (extend dep_defaults (table_or_new ''deployments'' f)) \<and>
     map_of g ''nodes'' = Some (extend node_defaults (table_or_new ''nodes'' f)) \<and>
     map_of g ''secrets'' = Some (table_or_new ''secrets'' f) \<and>
     (\<forall>k. k \<notin> {''deployments'', ''secrets'', ''nodes''} \<longrightarrow> map_of g k = map_of f k)"
  by (rule Open_effect [OF assms])

lemma Open_stable:
  assumes "calm env" "distinct (map fst f)" "map_of f ''deployments'' = Some t"
    and "map_of f ''nodes'' = Some n" "map_of f ''secrets'' = Some s"
    and "fst ` set dep_defaults \<subseteq> set (t_cols t)" "fst ` set node_defaults \<subseteq> set (t_cols n)"
  shows "run_state (Open env) f = (Inr (), f)"
proof -
  have ex: "run_state (exec_schema env) f = (Inr (), f)"
    using assms by (simp add: exec_schema_def calm_def schema_def create_if_missing_def)
  have conf: "run_state (configure env) f = (Inr (), f)"
    using assms(1) by (simp add: configure_def calm_def)
  have d: "run_state (migrateAddColumn env ''deployments'' c v fmt) f = (Inr (), f)"
    if "c \<in> set (t_cols t)" for c v fmt
    using assms that by (simp add: migrateAddColumn_def calm_def columns_of_def)
  have m: "run_state (migrateAddColumn env ''nodes'' c v fmt) f = (Inr (), f)"
    if "c \<in> set (t_cols n)" for c v fmt
    using assms that by (simp add: migrateAddColumn_def calm_def columns_of_def)
  show ?thesis
    unfolding Open_def migrate_defs using assms(6,7)
    by (simp add: conf ex d m dep_defaults_def node_defaults_def)
qed

text \<open>
  Opening an up-to-date database again changes nothing.
\<close>

lemma Open_twice:
  assumes "calm env" "distinct (map fst f)"
  shows "run_state (Open env) (snd (run_state (Open env) f)) = (Inr (), snd (run_state (Open env) f))"
proof -
  obtain g where g: "run_state (Open env) f = (Inr (), g)" "distinct (map fst g)"
    "map_of g ''deployments'' = Some (extend dep_defaults (table_or_new ''deployments'' f))"
    "map_of g ''nodes'' = Some (extend node_defaults (table_or_new ''nodes'' f))"
    "map_of g ''secrets'' = Some (table_or_new ''secrets'' f)"
    using Open_effect [OF assms] by (elim exE conjE) (rule that, assumption+)
  show ?thesis unfolding g(1) snd_conv
    by (rule Open_stable [OF assms(1) g(2-5)]) (simp_all add: extend_cols)
qed

end
