(* ===== verification/Remote.thy ===== *)
theory Remote
  imports Cli
begin

text \<open>
  The command line over the network: \<open>cli.go\<close>, \<open>client.go\<close>, the listener's token check (\<open>apiauth.go\<close>) and
  the handlers of \<open>api.go\<close> composed. What a command needs of the client it is given is stated once as the
  interface \<open>client_pair\<close> (two clients that agree on the names a command line has) and once as
  \<open>barred_client\<close> (a client that gets nothing done).
\<close>

section \<open>Two clients that agree\<close>

text \<open>The arguments of a command that become segments of a path.\<close>

definition url_args :: "string list \<Rightarrow> string list" where
  "url_args args = (case args of
     [] \<Rightarrow> []
   | cmd # rest \<Rightarrow>
       if cmd \<in> {''logs'', ''rm'', ''rollback'', ''scale'', ''status'', ''history''} then take 1 rest
       else if cmd = ''secret'' then (if take 1 rest = [''rm''] then take 2 (drop 1 rest) else take 1 (drop 1 rest))
       else if cmd = ''node'' \<and> rest \<noteq> [] \<and> hd rest \<in> {''rm'', ''drain'', ''evacuate'', ''uncordon''} then take 1 (drop 1 rest)
       else [])"

locale client_pair =
  fixes C D :: "'s daemon_client" and plain :: "string \<Rightarrow> bool"
  assumes apply_same: "dc_apply C a = dc_apply D a"
    and lists_same: "dc_apps C = dc_apps D" "dc_nodes C = dc_nodes D" "dc_pools C = dc_pools D" "dc_health C = dc_health D"
    and addnode_same: "dc_addnode C q = dc_addnode D q"
    and app_same: "plain name \<Longrightarrow> dc_rollback C name = dc_rollback D name"
      "plain name \<Longrightarrow> dc_scale C name n = dc_scale D name n"
      "plain name \<Longrightarrow> dc_history C name = dc_history D name"
      "plain name \<Longrightarrow> dc_logs C name follow = dc_logs D name follow"
      "plain name \<Longrightarrow> dc_remove C name = dc_remove D name"
    and secret_same: "plain name \<Longrightarrow> dc_setsecret C name key v = dc_setsecret D name key v"
      "plain name \<Longrightarrow> dc_listsecrets C name = dc_listsecrets D name"
      "plain name \<Longrightarrow> plain key \<Longrightarrow> dc_deletesecret C name key = dc_deletesecret D name key"
    and node_same: "plain name \<Longrightarrow> dc_removenode C name = dc_removenode D name"
      "plain name \<Longrightarrow> dc_uncordon C name = dc_uncordon D name"
      "plain name \<Longrightarrow> dc_evacuate C name = dc_evacuate D name"
      "plain name \<Longrightarrow> dc_drain C name = dc_drain D name"
begin

lemma whole_same:
  "runApply C rd toml args = runApply D rd toml args" "runLs C = runLs D" "runHealth C = runHealth D"
  "runPool C args = runPool D args"
  by (simp_all add: runApply_def runLs_def runHealth_def runPool_def runPoolLs_def apply_same lists_same Let_def
      split: list.split sum.split)

lemma apps_same:
  assumes "list_all plain (take 1 args)"
  shows "runScale C args = runScale D args" "runStatus C args = runStatus D args" "runLogs C args = runLogs D args"
    "runHistory C date args = runHistory D date args" "runRollback C args = runRollback D args" "runRm C args = runRm D args"
  using assms unfolding runScale_def runStatus_def runLogs_def runHistory_def runRollback_def runRm_def
  by (auto simp: app_same lists_same cong: option.case_cong if_cong split: list.split)

lemma secrets_same:
  assumes "list_all plain (url_args (''secret'' # args))"
  shows "runSecret C stdin args = runSecret D stdin args"
  using assms unfolding runSecret_def runSecretSet_def runSecretLs_def runSecretRm_def url_args_def
  by (auto simp: secret_same split: list.split sum.split)

lemma node_parts_same:
  "runNodeAdd C args = runNodeAdd D args" "runNodeLs C = runNodeLs D" "runNodeCapacity C = runNodeCapacity D"
  unfolding runNodeAdd_def runNodeLs_def runNodeCapacity_def by (simp_all add: lists_same addnode_same split: option.split list.split)

lemma named_nodes_same:
  assumes "list_all plain (take 1 args)"
  shows "runNodeRm C args = runNodeRm D args" "runNodeDrain C args = runNodeDrain D args"
    "runNodeEvacuate C args = runNodeEvacuate D args" "runNodeUncordon C args = runNodeUncordon D args"
  using assms unfolding runNodeRm_def runNodeDrain_def runNodeEvacuate_def runNodeUncordon_def
  by (auto simp: node_same split: list.split)

lemma nodes_same:
  assumes "list_all plain (url_args (''node'' # args))" and "take 1 args \<noteq> [''inspect'']"
  shows "runNode C args = runNode D args"
proof (cases args)
  case (Cons cmd rest)
  have "cmd \<in> {''rm'', ''drain'', ''evacuate'', ''uncordon''} \<Longrightarrow> list_all plain (take 1 rest)"
    using assms(1) Cons by (auto simp: url_args_def)
  then show ?thesis using assms(2) unfolding Cons by (simp add: runNode_def node_parts_same named_nodes_same)
qed (simp add: runNode_def)

lemma Run_same:
  assumes "list_all plain (url_args args)" and "take 2 args \<noteq> [''node'', ''inspect'']"
  shows "Run w C args = Run w D args"
proof (cases args)
  case (Cons cmd rest)
  have "cmd = ''node'' \<Longrightarrow> take 1 rest \<noteq> [''inspect'']" using assms(2) Cons by (cases rest) auto
  moreover have "cmd \<in> {''logs'', ''rm'', ''rollback'', ''scale'', ''status'', ''history''} \<Longrightarrow> list_all plain (take 1 rest)"
    using assms(1) Cons by (auto simp: url_args_def)
  moreover have "cmd = ''secret'' \<Longrightarrow> runSecret C stdin rest = runSecret D stdin rest" for stdin
    using secrets_same assms(1) Cons by simp
  moreover have "cmd = ''node'' \<Longrightarrow> runNode C rest = runNode D rest"
    using nodes_same calculation(1) assms(1) Cons by simp
  ultimately show ?thesis unfolding Cons by (simp add: Run_def whole_same apps_same)
qed (simp add: Run_def)

end

lemma http_pair:
  assumes "base_at ok c host"
  shows "client_pair (http_client (daemon_dial env ip url token) ok c)
    (direct_client (token = [] \<or> cl_token c = token) env ip url) plain_seg"
  unfolding http_client_def direct_client_def
  by unfold_locales (simp_all add: methods_handled [OF assms])

text \<open>The unix socket of the daemon, which has no token.\<close>

interpretation on_socket: client_pair "http_client (daemon_dial env ip url []) (\<lambda>h. h = ''lwd'' \<or> ok h) (New path)"
    "direct_client True env ip url" plain_seg for env ip url ok path
  using http_pair [of "\<lambda>h. h = ''lwd'' \<or> ok h" "New path" "''lwd''", where token = "[]"]
  by (simp add: base_at_def New_def control_char_def)

section \<open>A client that gets nothing done\<close>

definition idle :: "('s, 'a res option) state \<Rightarrow> bool" where
  "idle m = (\<forall>s. case run_state m s of (r, s') \<Rightarrow> s' = s \<and> (case r of Some (Inr a) \<Rightarrow> False | _ \<Rightarrow> True))"

definition barred :: "'s command \<Rightarrow> bool" where
  "barred m = (\<forall>s. case run_state m s of (r, s') \<Rightarrow> s' = s \<and> (case r of None \<Rightarrow> True | Some (code, ps) \<Rightarrow> code \<in> {1, 2}))"

lemma barred_usage: "barred (usage msg)"
  by (simp add: barred_def usage_def finish_def)

lemma barred_finish: "barred (finish 1 ps)"
  by (simp add: barred_def finish_def)

lemma barred_call:
  assumes "idle m"
  shows "barred (cli_call ps label m k)"
  unfolding barred_def
proof
  fix s
  obtain r s' where r: "run_state m s = (r, s')" by fastforce
  with assms [unfolded idle_def, rule_format, of s] have "s' = s \<and> (r = None \<or> (\<exists>e. r = Some (Inl e)))"
    by (auto split: option.splits sum.splits)
  with r show "case run_state (cli_call ps label m k) s of (r, s') \<Rightarrow> s' = s \<and> (case r of None \<Rightarrow> True | Some (code, ps) \<Rightarrow> code \<in> {1, 2})"
    by (auto simp: cli_call_def finish_def)
qed

lemmas barred_rules = barred_usage barred_finish barred_call

locale barred_client =
  fixes C :: "'s daemon_client"
  assumes app_idle: "idle (dc_apply C a)" "idle (dc_rollback C name)" "idle (dc_scale C name n)" "idle (dc_apps C)"
      "idle (dc_history C name)" "idle (dc_logs C name follow)" "idle (dc_remove C name)"
    and secret_idle: "idle (dc_setsecret C name key v)" "idle (dc_listsecrets C name)" "idle (dc_deletesecret C name key)"
    and node_idle: "idle (dc_addnode C q)" "idle (dc_nodes C)" "idle (dc_pools C)" "idle (dc_health C)"
      "idle (dc_removenode C name)" "idle (dc_uncordon C name)" "idle (dc_evacuate C name)" "idle (dc_drain C name)"
begin

lemma apps_barred:
  "barred (runApply C rd toml args)" "barred (runLs C)" "barred (runScale C args)" "barred (runStatus C args)"
  "barred (runHistory C date args)" "barred (runLogs C args)" "barred (runRollback C args)" "barred (runRm C args)"
  "barred (runHealth C)"
  unfolding runApply_def runLs_def runScale_def runStatus_def runHistory_def runLogs_def runRollback_def runRm_def runHealth_def Let_def
  by (auto intro!: barred_rules app_idle node_idle split: proper_splits)

lemma secrets_barred: "barred (runSecret C stdin args)"
  unfolding runSecret_def runSecretSet_def runSecretLs_def runSecretRm_def Let_def
  by (auto intro!: barred_rules secret_idle split: proper_splits)

lemma node_parts_barred:
  "barred (runNodeAdd C args)" "barred (runNodeLs C)" "barred (runNodeRm C args)" "barred (runNodeCapacity C)"
  "barred (runNodeInspect C args)" "barred (runNodeDrain C args)" "barred (runNodeEvacuate C args)"
  "barred (runNodeUncordon C args)" "barred (runPoolLs C)"
  unfolding runNodeAdd_def runNodeLs_def runNodeRm_def runNodeCapacity_def runNodeInspect_def runNodeDrain_def
    runNodeEvacuate_def runNodeUncordon_def runPoolLs_def Let_def
  by (auto intro!: barred_rules node_idle split: proper_splits)

lemma nodes_barred: "barred (runNode C args)" "barred (runPool C args)"
  unfolding runNode_def runPool_def by (simp_all add: node_parts_barred barred_usage split: list.split)

lemma Run_barred: "args = [] \<or> hd args \<noteq> ''daemon'' \<Longrightarrow> barred (Run w C args)"
  by (cases args) (simp_all add: Run_def barred_usage apps_barred secrets_barred nodes_barred)

end

text \<open>Whatever it is that is sent, without the listener's token the answer is 401.\<close>

lemma exchange_idle:
  assumes "token \<noteq> []" "cl_token c \<noteq> token" "code \<noteq> 401"
  shows "idle (exchange code decode (send (daemon_dial env ip url token) ok c m path b))"
proof -
  have "do_request (daemon_dial env ip url token) c host 10 r = ret (Inr (401, ErrBody (Errf ''unauthorized'' [])))"
    if "hq_auth r = bearer_header c" for host r
    using serve_unauthorized [OF _ that, of token env ip url] assms(1,2)
    by (simp add: numeral_eq_Suc daemon_dial_def daemonErr_def)
  then show ?thesis using assms(3)
    by (auto simp: idle_def exchange_def send_def received_def split: option.split prod.split)
qed

lemma http_barred:
  assumes "token \<noteq> []" "cl_token c \<noteq> token"
  shows "barred_client (http_client (daemon_dial env ip url token) ok c)"
  unfolding http_client_def
  by unfold_locales (simp_all add: exchange_idle [OF assms] client_Apply_def client_Rollback_def client_Scale_def client_Apps_def
      client_History_def client_Logs_def client_Remove_def client_SetSecret_def client_ListSecrets_def client_DeleteSecret_def
      client_AddNode_def client_Nodes_def client_Pools_def client_Health_def client_RemoveNode_def client_Uncordon_def
      client_Evacuate_def client_Drain_def)

text \<open>A client without a token at a listener that has one.\<close>

interpretation no_token: barred_client "http_client (daemon_dial env ip url (t # token)) ok (New path)" for env ip url t token ok path
  by (rule http_barred) (simp_all add: New_def)

section \<open>The command line and the daemon\<close>


text \<open>
  C33: Without the token of the listener no command of \<open>lwd\<close> does anything: whatever its arguments, it leaves the
  daemon's state as it was, and it does not exit with 0.
\<close>

theorem Run_without_token:
  assumes "token \<noteq> []" and "cl_token c \<noteq> token" and "args = [] \<or> hd args \<noteq> ''daemon''"
  shows "wp (Run w (http_client (daemon_dial env ip url token) ok c) args)
    (\<lambda>r s'. s' = s \<and> (case r of None \<Rightarrow> True | Some (code, ps) \<Rightarrow> code \<in> {1, 2})) s"
  using barred_client.Run_barred [OF http_barred [OF assms(1,2)] assms(3), of w env ip url ok]
  by (auto simp: barred_def wp_def split: prod.splits)

end
