(* ===== verification/Progress.thy ===== *)
theory Progress
  imports Apply
begin

text \<open>
  That a deploy goes through when nothing stands in its way: the contract of an environment that does what it
  is asked (locale \<open>obliging\<close>), and a calculus of programs that succeed, up to \<open>Apply\<close>. The safety theorems
  of \<open>Deploy\<close> and \<open>Apply\<close> would hold of a daemon that refuses everything; this is the other half.
\<close>

section \<open>The contract of the environment\<close>

text \<open>What may be remembered of the outside: a container runs on a node, an image is there, an id has been given.\<close>

datatype fact = Up node_ref string | Has node_ref string | Used node_ref string

text \<open>In a good state \<open>f\<close> answers with \<open>Q\<close>, ends in a good state, adds what \<open>A\<close> says and forgets nothing but \<open>D\<close>.\<close>

definition obeys ::
  "('x \<Rightarrow> bool) \<Rightarrow> (fact \<Rightarrow> 'x \<Rightarrow> bool) \<Rightarrow> ('x \<Rightarrow> 'r \<Rightarrow> bool) \<Rightarrow> ('r \<Rightarrow> fact set) \<Rightarrow> fact set \<Rightarrow> ('x, 'r) op \<Rightarrow> bool"
where
  "obeys good holds Q A D f = (\<forall>x. good x \<longrightarrow> (case f x of (r, dt, y) \<Rightarrow>
     good y \<and> Q x r \<and> (\<forall>p \<in> A r. holds p y) \<and> (\<forall>p. p \<notin> D \<and> holds p x \<longrightarrow> holds p y)))"

definition works :: "'x \<Rightarrow> goerr option \<Rightarrow> bool" where
  "works x e = (e = None)"

definition answers :: "('a \<Rightarrow> bool) \<Rightarrow> 'x \<Rightarrow> 'a res \<Rightarrow> bool" where
  "answers P x r = (case r of Inl _ \<Rightarrow> False | Inr a \<Rightarrow> P a)"

text \<open>What the scheduler's test of a candidate comes to: it looks at nothing but the capacity.\<close>

definition roomy :: "capacity \<Rightarrow> sched_req \<Rightarrow> bool" where
  "roomy c req = (\<not> k_known c \<or> (sr_mem req = 0 \<or> sr_mem req \<le> k_mem_available c) \<and>
     (sr_cpu req = 0 \<or> sr_cpu req \<le> of_int (k_cores c) - k_used c))"

lemma roomy_fits: "fits c req = roomy (i_cap c) req"
  by (auto simp: fits_def roomy_def)

section \<open>Programs that succeed\<close>

text \<open>Where the outside is good, the tables satisfy \<open>R\<close>, and the facts \<open>F\<close> hold.\<close>

definition holding :: "('x \<Rightarrow> bool) \<Rightarrow> (fact \<Rightarrow> 'x \<Rightarrow> bool) \<Rightarrow> (db \<Rightarrow> bool) \<Rightarrow> fact set \<Rightarrow> 'x sys \<Rightarrow> bool" where
  "holding good holds R F s = (good (ext s) \<and> R (sdb s) \<and> (\<forall>p \<in> F. holds p (ext s)))"

definition hoare :: "('s \<Rightarrow> bool) \<Rightarrow> ('s, 'a) state \<Rightarrow> ('a \<Rightarrow> 's \<Rightarrow> bool) \<Rightarrow> bool" where
  "hoare P m Q = (\<forall>s. P s \<longrightarrow> wp m Q s)"

definition sure :: "('s \<Rightarrow> bool) \<Rightarrow> ('s, 'a res) state \<Rightarrow> ('a \<Rightarrow> 's \<Rightarrow> bool) \<Rightarrow> bool" where
  "sure P m Q = hoare P m (\<lambda>r s. case r of Inl _ \<Rightarrow> False | Inr v \<Rightarrow> Q v s)"

lemma hoare_run: "hoare P m Q \<Longrightarrow> P s \<Longrightarrow> run_state m s = (r, s') \<Longrightarrow> Q r s'"
  by (auto simp: hoare_def wp_iff)

lemma hoareI: "(\<And>s r s'. P s \<Longrightarrow> run_state m s = (r, s') \<Longrightarrow> Q r s') \<Longrightarrow> hoare P m Q"
  by (simp add: hoare_def wp_iff)

lemma sureI: "(\<And>s r s'. P s \<Longrightarrow> run_state m s = (r, s') \<Longrightarrow> \<exists>v. r = Inr v \<and> Q v s') \<Longrightarrow> sure P m Q"
  unfolding sure_def by (rule hoareI) fastforce

lemma hoare_bind: "hoare P m Q \<Longrightarrow> (\<And>v. hoare (Q v) (k v) S) \<Longrightarrow> hoare P (m \<bind> k) S"
  by (auto simp: hoare_def intro!: wp_bind elim!: wp_weaken)

lemma hoare_ret: "(\<And>s. P s \<Longrightarrow> Q v s) \<Longrightarrow> hoare P (ret v) Q"
  by (simp add: hoare_def wp_def)

lemma hoare_pre: "hoare P' m Q \<Longrightarrow> (\<And>s. P s \<Longrightarrow> P' s) \<Longrightarrow> hoare P m Q"
  by (simp add: hoare_def)

lemma hoare_post: "hoare P m Q' \<Longrightarrow> (\<And>v s. Q' v s \<Longrightarrow> Q v s) \<Longrightarrow> hoare P m Q"
  by (auto simp: hoare_def wp_iff)

lemma sure_pre: "sure P' m Q \<Longrightarrow> (\<And>s. P s \<Longrightarrow> P' s) \<Longrightarrow> sure P m Q"
  unfolding sure_def by (rule hoare_pre)

lemma sure_post: "sure P m Q' \<Longrightarrow> (\<And>v s. Q' v s \<Longrightarrow> Q v s) \<Longrightarrow> sure P m Q"
  unfolding sure_def by (erule hoare_post) (auto split: sum.splits)

lemma sure_attempt: "sure P m Q \<Longrightarrow> (\<And>v. hoare (Q v) (k v) S) \<Longrightarrow> hoare P (attempt m h k) S"
  unfolding sure_def hoare_def by (fastforce intro!: wp_attempt elim!: wp_weaken)

lemma sure_bind: "sure P m Q \<Longrightarrow> (\<And>v. hoare (Q v) (k (Inr v)) S) \<Longrightarrow> hoare P (m \<bind> k) S"
  unfolding sure_def by (erule hoare_bind) (auto simp: hoare_def split: sum.splits)

lemma sure_ret: "(\<And>s. P s \<Longrightarrow> Q v s) \<Longrightarrow> sure P (ret (Inr v)) Q"
  unfolding sure_def by (rule hoare_ret) simp

lemma sure_if: "(b \<Longrightarrow> sure P m Q) \<Longrightarrow> (\<not> b \<Longrightarrow> sure P n Q) \<Longrightarrow> sure P (if b then m else n) Q"
  by simp

lemma sure_attempts: "sure P m Q \<Longrightarrow> (\<And>v. sure (Q v) (k v) S) \<Longrightarrow> sure P (attempt m h k) S"
  unfolding sure_def [of _ "attempt m h k"] by (erule sure_attempt) (simp add: sure_def)

lemma sure_binds: "hoare P m Q \<Longrightarrow> (\<And>v. sure (Q v) (k v) S) \<Longrightarrow> sure P (m \<bind> k) S"
  unfolding sure_def by (erule hoare_bind)

lemma sure_finally:
  assumes "sure P m Q" "\<And>v. hoare (Q v) c (\<lambda>_. Q v)"
  shows "sure P (m \<bind> (\<lambda>r. c \<bind> (\<lambda>_. ret r))) Q"
  unfolding sure_def [of P "m \<bind> _"]
  by (rule sure_bind [OF assms(1)], rule hoare_bind [OF assms(2)], rule hoare_ret) simp

lemma sure_wp:
  assumes "sure P m Q" "\<And>s v s'. P s \<Longrightarrow> run_state m s = (Inr v, s') \<Longrightarrow> Q' v s'"
  shows "sure P m (\<lambda>v s. Q' v s \<and> Q v s)"
proof (rule sureI)
  fix s r s'
  assume "P s" "run_state m s = (r, s')"
  then show "\<exists>v. r = Inr v \<and> Q' v s' \<and> Q v s'"
    using hoare_run [OF assms(1) [unfolded sure_def]] assms(2) by (cases r) fastforce+
qed

lemma sure_pure: "(A \<Longrightarrow> sure P m Q) \<Longrightarrow> sure (\<lambda>s. A \<and> P s) m Q"
  by (auto simp: sure_def hoare_def)

lemma hoare_pure: "(A \<Longrightarrow> hoare P m Q) \<Longrightarrow> hoare (\<lambda>s. A \<and> P s) m Q"
  by (auto simp: hoare_def)

lemma hoare_False: "(\<And>s. \<not> P s) \<Longrightarrow> hoare P m Q"
  by (simp add: hoare_def)

text \<open>What is left after calls whose result nobody looks at.\<close>

definition tame :: "('x \<Rightarrow> bool) \<Rightarrow> 'x sys \<Rightarrow> 'x sys \<Rightarrow> bool" where
  "tame good s s' = (good (ext s) \<longrightarrow> good (ext s'))"

interpretation tame: frame "tame good" for good
  by unfold_locales (auto simp: tame_def)

lemma tame_hoare: "pres (tame good) m \<Longrightarrow> hoare (holding good holds R F) m (\<lambda>_. holding good holds (\<lambda>_. True) {})"
  by (rule hoareI) (auto simp: tame_def holding_def dest!: presD)

lemma tame_call: "obeys good holds Q A D f \<Longrightarrow> pres (tame good) (call f)"
  by (rule presI) (fastforce simp: obeys_def tame_def call_def split: prod.splits)

lemma tame_modify: "(\<And>s. ext (f s) = ext s) \<Longrightarrow> pres (tame good) (modify f)"
  by (rule presI) (auto simp: tame_def)

lemma obeys_call:
  assumes "obeys good holds Q A D f" "D \<inter> F = {}"
  shows "hoare (holding good holds R F) (call f) (\<lambda>r s. (\<exists>x. good x \<and> (\<forall>p \<in> F. holds p x) \<and> Q x r) \<and> holding good holds R (F \<union> A r) s)"
proof (rule hoareI)
  fix s r s'
  assume i: "holding good holds R F s" and run: "run_state (call f) s = (r, s')"
  obtain dt y where f: "f (ext s) = (r, dt, y)" "s' = s\<lparr>ext := y, clock := clock s + int dt\<rparr>"
    using run by (auto simp: call_def split: prod.splits)
  have "good y \<and> Q (ext s) r \<and> (\<forall>p \<in> A r. holds p y) \<and> (\<forall>p. p \<notin> D \<and> holds p (ext s) \<longrightarrow> holds p y)"
    using assms(1) i f(1) by (auto simp: obeys_def holding_def)
  then show "(\<exists>x. good x \<and> (\<forall>p \<in> F. holds p x) \<and> Q x r) \<and> holding good holds R (F \<union> A r) s'"
    using i f(2) assms(2) by (auto simp: holding_def)
qed

lemma call_works:
  assumes "obeys good holds works (\<lambda>_. A) D f" "D \<inter> F = {}"
  shows "sure (holding good holds R F) (call_unit f) (\<lambda>_. holding good holds R (F \<union> A))"
  unfolding sure_def call_unit_def
  by (rule hoare_bind [OF obeys_call [OF assms]]) (auto simp: works_def unit_res_def hoare_def wp_def)

lemma call_answers:
  assumes "obeys good holds (answers P) A {} f"
  shows "sure (holding good holds R F) (call f) (\<lambda>v s. P v \<and> holding good holds R (F \<union> A (Inr v)) s)"
  unfolding sure_def
  by (rule hoare_post [OF obeys_call [OF assms]]) (auto simp: answers_def split: sum.splits)

lemma call_any:
  assumes "obeys good holds Q (\<lambda>_. {}) {} f"
  shows "hoare (holding good holds R F) (call f) (\<lambda>_. holding good holds R F)"
  by (rule hoare_post [OF obeys_call [OF assms]]) auto

lemma keeps_inv:
  assumes "\<And>s. ext (f s) = ext s" "\<And>s. sdb (f s) = sdb s"
  shows "hoare (holding good holds R F) (modify f) (\<lambda>_. holding good holds R F)"
  using assms by (simp add: hoare_def wp_def holding_def)

lemma log_inv: "hoare (holding good holds R F) (log_event e) (\<lambda>_. holding good holds R F)"
  unfolding log_event_def by (rule keeps_inv) simp_all

lemma gets_inv: "hoare P (gets f) (\<lambda>_. P)" "hoare P now (\<lambda>_. P)"
  by (simp_all add: hoare_def wp_def now_def)

lemma sure_ignore: "sure P m (\<lambda>_. Q) \<Longrightarrow> hoare P (ignore m) (\<lambda>_. Q)"
  unfolding ignore_def by (erule sure_bind) (rule hoare_ret)

text \<open>A write may change the tables as it likes when nothing is assumed of them.\<close>

lemma holding_weaken: "holding good holds R F s \<Longrightarrow> (\<And>t. R t \<Longrightarrow> R' t) \<Longrightarrow> F' \<subseteq> F \<Longrightarrow> holding good holds R' F' s"
  by (auto simp: holding_def)

section \<open>What the deploy asks of the tables\<close>

text \<open>A name that the registry knows resolves.\<close>

definition known :: "string \<Rightarrow> db \<Rightarrow> bool" where
  "known n t = (is_local_name n \<or> sql_get_node n t \<noteq> None)"

text \<open>A place for the app: the node it names is registered, or one of its pool will take it.\<close>

definition placed :: "db \<Rightarrow> app \<Rightarrow> bool" where
  "placed t a = (if a_node a \<noteq> [] then known (a_node a) t else \<exists>n. placeable t a n)"

text \<open>Every secret the app declares is set.\<close>

definition secrets_set :: "'x env \<Rightarrow> db \<Rightarrow> app \<Rightarrow> bool" where
  "secrets_set env t a = list_all (\<lambda>k. secret_value env t (a_name a) k \<noteq> None) (a_secrets a)"

text \<open>What a finished deploy leaves: the row of the app's current deployment, and its route.\<close>

definition served :: "app \<Rightarrow> deployment \<Rightarrow> 'x sys \<Rightarrow> bool" where
  "served a d s = (d_app d = a_name a \<and>
     scan_option (sql_last_with_status (a_name a) StatusRunning (sdb s)) = Inr (Some (stored d)) \<and>
     (if compose_app a
      then d_replicas d = [] \<and> (\<exists>name. map_of (routes s) (a_domain a) = Some (stack_route a name))
      else length (d_replicas d) = replica_count a \<and>
        map_of (routes s) (a_domain a) = Some (live_route a (d_replicas d))))"

lemma served_node: "served (a\<lparr>a_node := n\<rparr>) d s = served a d s"
  by (simp add: served_def compose_app_def replica_count_def live_route_def stack_route_def)

lemma served_calm: "served a d s \<Longrightarrow> calm s s' \<Longrightarrow> served a d s'"
  by (drule calm_aside) (simp add: served_def aside_fields)

text \<open>A candidate as a node with room appears.\<close>

definition offered :: "(sched_req \<Rightarrow> bool) \<Rightarrow> string \<Rightarrow> string \<Rightarrow> bool \<Rightarrow> node_info \<Rightarrow> bool" where
  "offered room pool n sched c = (i_name c = n \<and> i_pool c = pool \<and> i_reachable c \<and> i_schedulable c = sched \<and>
     (\<forall>req. room req \<longrightarrow> roomy (i_cap c) req))"

locale obliging =
  fixes env :: "'x env" and good :: "'x \<Rightarrow> bool" and holds :: "fact \<Rightarrow> 'x \<Rightarrow> bool" and word :: string
    and carries :: "string \<Rightarrow> string \<Rightarrow> bool" and room :: "sched_req \<Rightarrow> bool"
  assumes ping_law: "obeys good holds works (\<lambda>_. {}) {} (n_ping (node_at env n))"
    and image_law: "obeys good holds works (\<lambda>_. {}) {} (n_ensure_image (node_at env n) ref)"
    and network_law: "obeys good holds works (\<lambda>_. {}) {} (n_ensure_network (node_at env n) net)"
    and run_law: "obeys good holds (\<lambda>x. answers (\<lambda>c. \<not> holds (Used n (c_id c)) x) x)
      (\<lambda>r. case r of Inl _ \<Rightarrow> {} | Inr c \<Rightarrow> {Up n (c_id c)}) {} (n_run (node_at env n) sp)"
    and remove_law: "obeys good holds works (\<lambda>_. {}) {Up n cid} (n_remove (node_at env n) cid)"
    and list_law: "obeys good holds (answers (\<lambda>_. True)) (\<lambda>_. {}) {} (n_list (node_at env n) labels)"
    and health_law: "obeys good holds (\<lambda>x r. holds (Up n cid) x \<longrightarrow> r = Inr (''running'', word)) (\<lambda>_. {}) {} (n_container_health (node_at env n) cid)"
    and word_law: "word \<in> {'''', ''healthy''}"
    and connect_law: "obeys good holds works (\<lambda>_. {}) {} (n_connect (node_at env n) cid net)"
    and present_law: "obeys good holds (\<lambda>x. answers (\<lambda>b. holds (Has n ref) x \<longrightarrow> b) x) (\<lambda>_. {}) {} (n_present (node_at env n) ref)"
    and save_law: "obeys good holds (answers (carries ref)) (\<lambda>_. {}) {} (n_save (node_at env n) ref)"
    and load_law: "carries ref tar \<Longrightarrow> obeys good holds works (\<lambda>_. {Has n ref}) {} (n_load (node_at env n) tar)"
    and capacity_law: "obeys good holds (answers (\<lambda>c. \<forall>req. room req \<longrightarrow> roomy c req)) (\<lambda>_. {}) {} (n_capacity (node_at env n))"
    and ssh_law: "obeys good holds works (\<lambda>_. {}) {} (new_ssh env h)"
    and load_config_law: "obeys good holds (answers (\<lambda>st. 200 \<le> st \<and> st < 300)) (\<lambda>_. {}) {} (caddy_load env cf)"
    and admin_law: "obeys good holds (answers (\<lambda>_. True)) (\<lambda>_. {}) {} (caddy_config env)"
    and probe_law: "obeys good holds (answers (\<lambda>st. 200 \<le> st \<and> st < 300)) (\<lambda>_. {}) {} (caddy_probe env host path)"
    and dir_law: "obeys good holds works (\<lambda>_. {}) {} (make_data_dir env)"
    and file_law: "obeys good holds works (\<lambda>_. {}) {} (write_caddyfile env cf)"
    and db_law: "obeys good holds works (\<lambda>_. {}) {} (db_fault env stmt)"
    and ctx_law: "obeys good holds works (\<lambda>_. {}) {} (ctx_done env)"
    and temp_law: "obeys good holds (answers (\<lambda>_. True)) (\<lambda>_. {}) {} (temp_create env)"
    and temp_write_law: "obeys good holds works (\<lambda>_. {}) {} (temp_write env tmp content)"
    and temp_close_law: "obeys good holds works (\<lambda>_. {}) {} (temp_close env tmp)"
    and file_remove_law: "obeys good holds (\<lambda>_ _. True) (\<lambda>_. {}) {} (file_remove env tmp)"
    and read_law: "obeys good holds (answers (\<lambda>_. True)) (\<lambda>_. {}) {} (read_file env path)"
    and mkdir_law: "obeys good holds (answers (\<lambda>_. True)) (\<lambda>_. {}) {} (mkdir_temp env)"
    and remove_all_law: "obeys good holds (\<lambda>_ _. True) (\<lambda>_. {}) {} (remove_all env dir)"
    and up_law: "obeys good holds works (\<lambda>_. {}) {} (compose_up env project path vars)"
    and service_law: "obeys good holds (answers (\<lambda>_. True)) (\<lambda>_. {}) {} (compose_service env project srv)"
    and clone_law: "obeys good holds (answers (\<lambda>_. True)) (\<lambda>_. {}) {} (git_clone env url ref dir)"
    and exists_law: "obeys good holds (answers (\<lambda>_. True)) (\<lambda>_. {}) {} (image_exists env tag)"
    and build_law: "obeys good holds works (\<lambda>_. {}) {} (image_build env dir dockerfile tag)"
begin

lemma db_sure:
  assumes "\<And>t. R t \<Longrightarrow> R' (snd (f t))"
  shows "sure (holding good holds R F) (db_exec env stmt f) (\<lambda>v s. (\<exists>t. R t \<and> v = fst (f t)) \<and> holding good holds R' F s)"
  unfolding sure_def db_exec_def
proof (rule hoare_bind)
  show "hoare (holding good holds R F) (call (db_fault env stmt)) (\<lambda>e s. e = None \<and> holding good holds R F s)"
    by (rule hoare_post [OF obeys_call [OF db_law]]) (auto simp: works_def)
  show "hoare (\<lambda>s. e = None \<and> holding good holds R F s) (case e of
        Some x \<Rightarrow> ret (Inl x)
      | None \<Rightarrow> State (\<lambda>s. case f (sdb s) of (r, t) \<Rightarrow> (Inr r, s\<lparr>sdb := t\<rparr>)))
      (\<lambda>r s. case r of Inl _ \<Rightarrow> False | Inr v \<Rightarrow> (\<exists>t. R t \<and> v = fst (f t)) \<and> holding good holds R' F s)" for e
  proof (rule hoareI)
    fix s r s'
    assume i: "e = None \<and> holding good holds R F s"
      and run: "run_state (case e of Some x \<Rightarrow> ret (Inl x)
        | None \<Rightarrow> State (\<lambda>s. case f (sdb s) of (r, t) \<Rightarrow> (Inr r, s\<lparr>sdb := t\<rparr>))) s = (r, s')"
    obtain v t where "f (sdb s) = (v, t)" by fastforce
    then show "case r of Inl _ \<Rightarrow> False | Inr v \<Rightarrow> (\<exists>t. R t \<and> v = fst (f t)) \<and> holding good holds R' F s'"
      using i run assms [of "sdb s"] by (force simp: holding_def)
  qed
qed

lemma sleep_sure: "hoare (holding good holds R F) (sleep env d) (\<lambda>e s. e = None \<and> holding good holds R F s)"
proof (rule hoareI)
  fix s r s'
  assume i: "holding good holds R F s" and run: "run_state (sleep env d) s = (r, s')"
  obtain c dt y where c: "ctx_done env (ext s) = (c, dt, y)" by (metis surj_pair)
  have "c = None \<and> good y \<and> (\<forall>p. holds p (ext s) \<longrightarrow> holds p y)"
    using ctx_law i c by (auto simp: obeys_def holding_def works_def)
  then show "r = None \<and> holding good holds R F s'" using run c i by (auto simp: sleep_def holding_def)
qed

section \<open>The router\<close>

abbreviation ok :: "(db \<Rightarrow> bool) \<Rightarrow> fact set \<Rightarrow> 'x sys \<Rightarrow> bool" where
  "ok \<equiv> holding good holds"

lemma simple_call: "obeys good holds works (\<lambda>_. {}) {} f \<Longrightarrow> sure (ok R F) (call_unit f) (\<lambda>_. ok R F)"
  using call_works [of good holds "{}" "{}" f F R] by simp

lemma simple_answer: "obeys good holds (answers P) (\<lambda>_. {}) {} f \<Longrightarrow> sure (ok R F) (call f) (\<lambda>v s. P v \<and> ok R F s)"
  using call_answers [of good holds P "\<lambda>_. {}" f R F] by simp

lemma postConfig_sure: "sure (ok R F) (postConfig env cf) (\<lambda>_. ok R F)"
  unfolding postConfig_def
  by (intro sure_attempts [OF simple_answer [OF load_config_law]] sure_pure sure_if sure_binds [OF keeps_inv]
      sure_binds [OF log_inv] sure_ret) (auto simp: sure_def hoare_def)

lemma applyConfig_sure: "sure (ok R F) (applyConfig env rts stg) (\<lambda>_. ok R F)"
  unfolding applyConfig_def Let_def
  by (intro sure_attempts [OF postConfig_sure] sure_attempts [OF simple_call [OF dir_law]]
      sure_attempts [OF simple_call [OF file_law]] sure_if sure_binds [OF keeps_inv] sure_ret) simp_all

lemma mutators_sure:
  "sure (ok R F) (SetRoute env r) (\<lambda>_. ok R F)" "sure (ok R F) (RemoveRoute env d) (\<lambda>_. ok R F)"
  "sure (ok R F) (SetStaging env h ups) (\<lambda>_. ok R F)" "sure (ok R F) (RemoveStaging env h) (\<lambda>_. ok R F)"
  "sure (ok R F) (Reload env) (\<lambda>_. ok R F)"
  unfolding SetRoute_def RemoveRoute_def SetStaging_def RemoveStaging_def Reload_def Let_def
  by (intro sure_binds [OF gets_inv(1)] sure_attempts [OF applyConfig_sure] applyConfig_sure sure_binds [OF keeps_inv] sure_ret; simp)+

section \<open>Waiting\<close>

lemma poll_sure:
  assumes "hoare P (probe_step env p) (\<lambda>v s. v = Stop None \<and> Q s)"
  shows "sure P (State (poll env p d)) (\<lambda>_. Q)"
proof (rule sureI)
  fix s r s'
  assume P: "P s" and run: "run_state (State (poll env p d)) s = (r, s')"
  obtain v s1 where v: "run_state (probe_step env p) s = (v, s1)" by fastforce
  have "v = Stop None" "Q s1" using hoare_run [OF assms P v] by auto
  then show "\<exists>u. r = Inr u \<and> Q s'" using run v by (simp add: poll.simps unit_res_def)
qed

lemma probe_path_sure: "sure (ok R F) (ProbeThroughCaddy env h q) (\<lambda>st s. (200 \<le> st \<and> st < 300) \<and> ok R F s)"
  unfolding ProbeThroughCaddy_def by (rule simple_answer [OF probe_law])

lemma admin_ready: "sure (ok R F) (waitForAdminReady env) (\<lambda>_. ok R F)"
proof -
  have "sure (ok R F) (pingAdmin env) (\<lambda>_. ok R F)"
    unfolding pingAdmin_def sure_def
    by (rule sure_bind [OF simple_answer [OF admin_law]]) (auto simp: hoare_def wp_def)
  then have "hoare (ok R F) (probe_step env PAdmin) (\<lambda>v s. v = Stop None \<and> ok R F s)"
    unfolding probe_step.simps by (rule sure_attempt) (rule hoare_ret, simp)
  then show ?thesis unfolding waitForAdminReady_def by (intro sure_binds [OF gets_inv(2)] poll_sure)
qed

lemma health_sure:
  assumes "Up n cid \<in> F"
  shows "sure (ok R F) (call (n_container_health (node_at env n) cid)) (\<lambda>v s. v = (''running'', word) \<and> ok R F s)"
  unfolding sure_def by (rule hoare_post [OF obeys_call [OF health_law]]) (use assms in auto)

lemma reachable_probe:
  "hoare (ok R F) (ProbeThroughCaddy env h q) (\<lambda>r s. reachable_status r \<and> ok R F s)"
  by (rule hoare_post [OF probe_path_sure [unfolded sure_def]]) (auto simp: reachable_status_def split: sum.splits)

lemma probes_sure:
  "hoare (ok R F) (probe_step env (PPath h q)) (\<lambda>v s. v = Stop None \<and> ok R F s)"
  "Up n cid \<in> F \<Longrightarrow> word = ''healthy'' \<Longrightarrow> hoare (ok R F) (probe_step env (PDocker n cid)) (\<lambda>v s. v = Stop None \<and> ok R F s)"
  "Up n cid \<in> F \<Longrightarrow> hoare (ok R F) (probe_step env (PLive n h cid)) (\<lambda>v s. v = Stop None \<and> ok R F s)"
  "hoare (ok R F) (probe_step env (PRoute h)) (\<lambda>v s. v = Stop None \<and> ok R F s)"
proof -
  show "hoare (ok R F) (probe_step env (PPath h q)) (\<lambda>v s. v = Stop None \<and> ok R F s)"
    unfolding probe_step.simps by (rule sure_attempt [OF probe_path_sure]) (auto simp: hoare_def wp_def)
  show "hoare (ok R F) (probe_step env (PDocker n cid)) (\<lambda>v s. v = Stop None \<and> ok R F s)"
    if "Up n cid \<in> F" "word = ''healthy''"
    unfolding probe_step.simps by (rule sure_attempt [OF health_sure [OF that(1)]]) (auto simp: hoare_def wp_def that(2))
  show "hoare (ok R F) (probe_step env (PLive n h cid)) (\<lambda>v s. v = Stop None \<and> ok R F s)" if "Up n cid \<in> F"
    unfolding probe_step.simps
    by (rule sure_attempt [OF health_sure [OF that]], rule hoare_pure)
       (auto intro!: hoare_bind [OF reachable_probe] hoare_pure hoare_ret)
  show "hoare (ok R F) (probe_step env (PRoute h)) (\<lambda>v s. v = Stop None \<and> ok R F s)"
    unfolding probe_step.simps by (rule hoare_bind [OF reachable_probe]) (auto intro!: hoare_pure hoare_ret)
qed

lemma settle_sure: "sure (ok R F) m (\<lambda>_. ok R F) \<Longrightarrow> sure (ok R F) (settle_then env m) (\<lambda>_. ok R F)"
  unfolding settle_then_def by (rule sure_binds [OF sleep_sure]) (auto intro: sure_pure)

lemma checkHealth_sure:
  assumes "Up n cid \<in> F"
  shows "sure (ok R F) (checkHealth env n a h cid) (\<lambda>_. ok R F)"
  unfolding checkHealth_def Let_def checkHealthPath_def checkDockerHealth_def checkLiveness_def
  using word_law
  by (intro sure_binds [OF gets_inv(2)] sure_if poll_sure probes_sure sure_attempts [OF health_sure [OF assms]])
     (auto intro!: sure_pure settle_sure poll_sure probes_sure assms)

lemma checkHealthCompose_sure: "sure (ok R F) (checkHealthCompose env a) (\<lambda>_. ok R F)"
  unfolding checkHealthCompose_def Let_def checkHealthPath_def checkLivenessThroughRoute_def
  by (intro sure_binds [OF gets_inv(2)] sure_if settle_sure poll_sure probes_sure)

section \<open>Bringing Caddy up\<close>

lemma findCaddy_sure: "sure (ok R F) (findCaddy env) (\<lambda>_. ok R F)"
  unfolding findCaddy_def by (intro sure_attempts [OF simple_answer [OF list_law]] sure_ret) simp

lemma run_fresh:
  "sure (ok R F) (RunContainer env n sp) (\<lambda>c s. Used n (c_id c) \<notin> F \<and> ok R (insert (Up n (c_id c)) F) s)"
proof -
  have "sure (ok R F) (call (n_run (node_at env n) sp)) (\<lambda>c s. Used n (c_id c) \<notin> F \<and> ok R (insert (Up n (c_id c)) F) s)"
    unfolding sure_def
    by (rule hoare_post [OF obeys_call [OF run_law]]) (auto simp: answers_def split: sum.splits)
  then show ?thesis
    unfolding RunContainer_def sure_def [of _ "call _ \<bind> _"]
    by (rule sure_bind) (rule hoare_pure, rule hoare_bind [OF log_inv], rule hoare_ret, simp)
qed

lemma run_sure: "sure (ok R F) (RunContainer env n sp) (\<lambda>c. ok R (insert (Up n (c_id c)) F))"
  by (rule sure_post [OF run_fresh]) simp

lemma remove_sure: "Up n cid \<notin> F \<Longrightarrow> sure (ok R F) (RemoveContainer env n cid) (\<lambda>_. ok R F)"
  unfolding RemoveContainer_def sure_def [of _ "call_unit _ \<bind> _"]
  using call_works [OF remove_law, of n cid F R]
  by (auto intro!: sure_bind hoare_bind [OF log_inv] hoare_ret)

lemma forget_up: "ok R (insert p F) s \<Longrightarrow> ok R F s"
  by (rule holding_weaken) auto

lemma create_caddy_sure: "sure (ok R F) (create_caddy env) (\<lambda>_. ok R F)"
  unfolding create_caddy_def by (rule sure_attempts [OF run_sure]) (rule sure_ret, erule forget_up)

lemma EnsureUp_sure: "sure (ok R {}) (EnsureUp env) (\<lambda>_. ok R {})"
proof -
  have new: "sure (ok R {}) (attempt (call_unit (n_ensure_image (node_at env LocalNode) ''caddy:2'')) h (\<lambda>_. create_caddy env)) (\<lambda>_. ok R {})" for h
    by (rule sure_attempts [OF simple_call [OF image_law] create_caddy_sure])
  have "sure (ok R {}) (case ct of
          Some c \<Rightarrow>
            if c_state c = ''running'' then ret (Inr ())
            else attempt (RemoveContainer env LocalNode (c_id c))
              (wrap_err ''router: remove stale caddy container: %w'' []) (\<lambda>_.
              attempt (call_unit (n_ensure_image (node_at env LocalNode) ''caddy:2''))
                (wrap_err ''router: ensure caddy image: %w'' []) (\<lambda>_. create_caddy env))
        | None \<Rightarrow>
            attempt (call_unit (n_ensure_image (node_at env LocalNode) ''caddy:2''))
              (wrap_err ''router: ensure caddy image: %w'' []) (\<lambda>_. create_caddy env)) (\<lambda>_. ok R {})" for ct
    by (cases ct) (simp_all add: sure_ret new sure_attempts [OF remove_sure new])
  then show ?thesis
    unfolding EnsureUp_def
    by (intro sure_attempts [OF simple_call [OF network_law]] sure_attempts [OF findCaddy_sure])
       (rule sure_attempts, assumption, intro sure_attempts [OF admin_ready] mutators_sure)
qed

section \<open>Nodes\<close>

lemma GetNode_sure: "sure (ok ((=) t) F) (GetNode env n) (\<lambda>v s. v = sql_get_node n t \<and> ok ((=) t) F s)"
  unfolding GetNode_def
  by (rule sure_attempts [OF db_sure [of "(=) t" "(=) t"]]) (auto intro!: sure_ret)

lemma ping_sure: "hoare (ok R F) (pingOK env m) (\<lambda>b s. b \<and> ok R F s)"
  unfolding pingOK_def
  by (rule hoare_bind [OF obeys_call [OF ping_law]]) (auto intro!: hoare_ret simp: works_def)

lemma transport_sure: "hoare (ok R F) (buildTransport env h u) (\<lambda>v s. (\<exists>n. fst v = Inr n) \<and> ok R F s)"
proof -
  have "hoare (ok R F) (build_ssh env h) (\<lambda>v s. (\<exists>n. fst v = Inr n) \<and> ok R F s)"
    unfolding build_ssh_def
    by (rule hoare_bind [OF obeys_call [OF ssh_law]]) (auto intro!: hoare_ret simp: works_def)
  then show ?thesis unfolding buildTransport_def
    by (auto intro!: hoare_bind [OF ping_sure] hoare_pure hoare_ret)
qed

lemma lookup_sure:
  assumes "known n t" "\<not> is_local_name n"
  shows "sure (ok ((=) t) F) (lookup_node env n) (\<lambda>v s. (\<exists>h m u. v = Some (h, m, u)) \<and> ok ((=) t) F s)"
proof -
  obtain row where "sql_get_node n t = Some row" using assms by (auto simp: known_def)
  then show ?thesis
    unfolding lookup_node_def by (intro sure_attempts [OF GetNode_sure] sure_pure sure_ret) simp
qed

lemma ResolveMeta_sure:
  assumes "known n t"
  shows "sure (ok ((=) t) F) (ResolveMeta env n) (\<lambda>_. ok ((=) t) F)"
proof (cases "is_local_name n")
  case True
  then show ?thesis by (simp add: ResolveMeta_def sure_ret)
next
  case False
  have fresh: "sure (ok ((=) t) F) (attempt (lookup_node env n) h (\<lambda>row. case row of
      None \<Rightarrow> k0
    | Some (ssh, mesh, url) \<Rightarrow> buildTransport env ssh url \<bind> (\<lambda>(r, transport). case r of
        Inl e \<Rightarrow> k1 ssh e
      | Inr m \<Rightarrow> do { modify (\<lambda>s. s\<lparr>remotes := g ssh mesh m transport (remotes s)\<rparr>); ret (Inr (k2 ssh mesh m)) })))
      (\<lambda>_. ok ((=) t) F)" for h k0 k1 k2 g
    apply (rule sure_attempts [OF lookup_sure [OF assms False]], rule sure_pure, elim exE, simp)
    apply (rule sure_binds [OF transport_sure], simp add: case_prod_beta)
    apply (rule sure_pure, elim exE, simp)
    by (intro sure_binds [OF keeps_inv] sure_ret) simp_all
  show ?thesis
    unfolding ResolveMeta_def Let_def using False
    by (simp, intro sure_binds [OF gets_inv(1)]) (auto intro!: sure_ret fresh split: option.split)
qed

lemma Resolve_sure: "known n t \<Longrightarrow> sure (ok ((=) t) F) (Resolve env n) (\<lambda>_. ok ((=) t) F)"
  unfolding Resolve_def by (intro sure_attempts [OF ResolveMeta_sure] sure_ret)

lemma reachable_sure:
  assumes "known n t"
  shows "hoare (ok ((=) t) F) (known_unreachable env n) (\<lambda>lost s. \<not> lost \<and> ok ((=) t) F s)"
proof -
  have fresh: "hoare (ok ((=) t) F) (lookup_node env n \<bind> (\<lambda>r. case r of
          Inr (Some (ssh, mesh, url)) \<Rightarrow>
            buildTransport env ssh url \<bind> (\<lambda>(n, transport). case n of
              Inl _ \<Rightarrow> ret (transport, False)
            | Inr n \<Rightarrow> pingOK env n \<bind> (\<lambda>ok. ret (transport, ok)))
        | _ \<Rightarrow> ret ([], False))) (\<lambda>v s. snd v \<and> ok ((=) t) F s)" if "\<not> is_local_name n"
    apply (rule sure_bind [OF lookup_sure [OF assms that]], rule hoare_pure, elim exE, simp)
    apply (rule hoare_bind [OF transport_sure], simp add: case_prod_beta)
    apply (rule hoare_pure, elim exE, simp)
    by (rule hoare_bind [OF ping_sure], rule hoare_ret) simp
  have "hoare (ok ((=) t) F) (Reachable env n) (\<lambda>v s. snd v \<and> ok ((=) t) F s)"
    unfolding Reachable_def
    by (auto intro!: hoare_ret fresh hoare_bind [OF gets_inv(1)] hoare_bind [OF ping_sure] split: option.split)
  then show ?thesis
    unfolding known_unreachable_def by (auto intro!: hoare_bind hoare_ret)
qed

section \<open>Placement\<close>

lemma known_row: "row \<in> set (db_nodes t) \<Longrightarrow> known (nd_name row) t"
  by (auto simp: known_def sql_get_node_def find_None_iff)

lemma placeable_known: "placeable t a n \<Longrightarrow> known n t"
  by (auto simp: placeable_def known_row) (simp add: known_def is_local_name_def)

lemma capacity_sure:
  "sure (ok R F) (capacityBounded env n) (\<lambda>c s. (\<forall>req. room req \<longrightarrow> roomy c req) \<and> ok R F s)"
  unfolding capacityBounded_def by (rule simple_answer [OF capacity_law])

lemma remote_candidate_sure:
  assumes "known (nd_name row) t"
  shows "hoare (ok ((=) t) F) (remote_candidate env row)
     (\<lambda>c s. offered room (nd_pool row) (nd_name row) (nd_schedulable row) c \<and> ok ((=) t) F s)"
  unfolding remote_candidate_def Let_def
  apply (rule hoare_bind [OF reachable_sure [OF assms]], rule hoare_pure, simp)
  apply (rule sure_bind [OF Resolve_sure [OF assms]], simp)
  by (rule sure_bind [OF capacity_sure], rule hoare_pure, rule hoare_ret) (simp add: offered_def)

lemma gather_sure:
  assumes "set ns \<subseteq> set (db_nodes t)"
  shows "hoare (ok ((=) t) F) (gather env pool ex ns)
     (\<lambda>cs s. (\<forall>row \<in> set ns. nd_pool row = pool \<and> nd_name row \<notin> set ex \<longrightarrow>
        (\<exists>c \<in> set cs. offered room pool (nd_name row) (nd_schedulable row) c)) \<and> ok ((=) t) F s)"
  using assms
proof (induction ns)
  case Nil
  then show ?case by (simp add: hoare_ret)
next
  case (Cons n ns)
  show ?case
  proof (cases "nd_pool n \<noteq> pool \<or> excludes ex (nd_name n)")
    case True
    then show ?thesis using Cons by (auto elim!: hoare_post)
  next
    case False
    then show ?thesis using Cons
      by (auto intro!: hoare_bind [OF remote_candidate_sure] known_row hoare_pure hoare_ret elim!: hoare_bind)
  qed
qed

lemma local_candidate_sure:
  "hoare (ok R F) (local_candidate env) (\<lambda>cs s. (\<exists>c \<in> set cs. offered room ''default'' ''local'' True c) \<and> ok R F s)"
proof -
  have l: "sure (ok R F) (localNode env) (\<lambda>_. ok R F)"
    unfolding localNode_def Resolve_def ResolveMeta_def
    by (auto simp: is_local_name_def intro!: sure_attempts [OF sure_ret] sure_ret)
  show ?thesis unfolding local_candidate_def
    apply (rule sure_bind [OF l], simp)
    by (rule sure_bind [OF capacity_sure], rule hoare_pure, rule hoare_ret) (simp add: offered_def)
qed

lemma candidates_sure:
  "hoare (ok ((=) t) F) (schedulableCandidates env a ex)
     (\<lambda>cs s. (\<forall>n. placeable t a n \<and> n \<notin> set ex \<longrightarrow> (\<exists>c \<in> set cs. offered room (poolOf a) n True c)) \<and> ok ((=) t) F s)"
proof -
  let ?loc = "if poolOf a = ''default'' \<and> \<not> excludes ex ''local'' then local_candidate env else ret []"
  have l: "hoare (ok ((=) t) F) ?loc (\<lambda>ls s. (poolOf a = ''default'' \<and> ''local'' \<notin> set ex \<longrightarrow>
      (\<exists>c \<in> set ls. offered room ''default'' ''local'' True c)) \<and> ok ((=) t) F s)"
    by (auto intro!: hoare_ret hoare_post [OF local_candidate_sure])
  have r: "sure (ok ((=) t) F) (ListNodes env) (\<lambda>ns s. set ns = set (db_nodes t) \<and> ok ((=) t) F s)"
    unfolding ListNodes_def sql_list_nodes_def
    by (rule sure_attempts [OF db_sure [of "(=) t" "(=) t"]]) (auto intro!: sure_ret)
  show ?thesis
    unfolding schedulableCandidates_def Let_def
    apply (rule hoare_bind [OF l], rule hoare_pure)
    apply (rule sure_bind [OF r], rule hoare_pure, simp)
    apply (rule hoare_bind [OF gather_sure], simp, rule hoare_pure, rule hoare_ret)
    by (auto simp: placeable_def) (metis Un_iff)+
qed

lemma place_offered:
  assumes "room req" "c \<in> set cs" "offered room (poolOf a) n True c"
  shows "\<exists>v. Place cs (poolOf a) req = Inr v"
proof -
  have "eligible (poolOf a) req c"
    using assms by (auto simp: eligible_def in_pool_def offered_def roomy_fits poolOf_def)
  then show ?thesis using assms(2) Place_of_eligible [of "poolOf a" req cs] by (fastforce simp: filter_empty_conv)
qed

lemma place_sure:
  assumes "room (app_req a)" "placeable t a n" "n \<notin> set ex"
  shows "sure (ok ((=) t) F) (placeExcludingSet env a ex) (\<lambda>v s. known v t \<and> ok ((=) t) F s)"
proof (rule sureI)
  fix s r s'
  assume i: "ok ((=) t) F s" and run: "run_state (placeExcludingSet env a ex) s = (r, s')"
  obtain cs where cs: "run_state (schedulableCandidates env a ex) s = (cs, s')" "r = Place cs (poolOf a) (app_req a)"
    using run by (auto simp: placeExcludingSet_def split: prod.splits)
  then obtain c where "c \<in> set cs" "offered room (poolOf a) n True c" "ok ((=) t) F s'"
    using hoare_run [OF candidates_sure i cs(1)] assms by blast
  moreover obtain v where "r = Inr v" using place_offered calculation assms(1) cs(2) by metis
  moreover have "placeable t a v"
    using placeExcludingSet_wp [of env a ex s] run calculation(4) i by (auto simp: wp_iff holding_def)
  ultimately show "\<exists>v. r = Inr v \<and> known v t \<and> ok ((=) t) F s'" using placeable_known by blast
qed

lemma resolvePlacement_sure:
  assumes "placed t a" "room (app_req a)"
  shows "sure (ok ((=) t) F) (resolvePlacement env a)
     (\<lambda>v s. (known (fst v) t \<and> (snd v \<longrightarrow> (\<exists>n. placeable t a n))) \<and> ok ((=) t) F s)"
proof (cases "a_node a = []")
  case False
  then show ?thesis using assms(1) by (simp add: resolvePlacement_def placed_def sure_ret)
next
  case True
  then obtain n where n: "placeable t a n" using assms(1) by (auto simp: placed_def)
  have eq: "resolvePlacement env a =
      placeExcludingSet env a [] \<bind> (\<lambda>r. ret (case r of Inl e \<Rightarrow> Inl e | Inr v \<Rightarrow> Inr (v, True)))"
    using True by (simp add: resolvePlacement_def placeExcludingSet_def)
  show ?thesis unfolding eq sure_def
    by (rule sure_bind [OF place_sure [OF assms(2) n]]) (use n in \<open>auto intro!: hoare_ret\<close>)
qed

lemma spread_sure:
  assumes "room (app_req a)" "placeable t a n"
  shows "sure (ok ((=) t) F) (spread_step env a used) (\<lambda>v s. known v t \<and> ok ((=) t) F s)"
proof (rule sureI)
  fix s r s'
  assume i: "ok ((=) t) F s" and run: "run_state (spread_step env a used) s = (r, s')"
  obtain r1 s1 where r1: "run_state (placeExcludingSet env a used) s = (r1, s1)" by fastforce
  have ok1: "ok ((=) t) F s1"
    using r1 hoare_run [OF candidates_sure i] by (auto simp: placeExcludingSet_def split: prod.splits)
  show "\<exists>v. r = Inr v \<and> known v t \<and> ok ((=) t) F s'"
  proof (cases r1)
    case (Inl e)
    then have "run_state (placeExcludingSet env a []) s1 = (r, s')" using run r1 by (simp add: spread_step_def)
    then show ?thesis using hoare_run [OF place_sure [OF assms, of "[]", unfolded sure_def] ok1]
      by (fastforce split: sum.splits)
  next
    case (Inr v)
    moreover have "known v t"
      using placeExcludingSet_wp [of env a used s] r1 Inr i placeable_known by (auto simp: wp_iff holding_def)
    ultimately show ?thesis using run r1 ok1 by (intro exI [of _ v]) (simp add: spread_step_def)
  qed
qed

lemma more_targets_sure:
  assumes "room (app_req a)" "known (a_node a) t" "sch \<Longrightarrow> placeable t b n" "app_req b = app_req a" "poolOf b = poolOf a"
  shows "sure (ok ((=) t) F) (more_targets env a sch k ex ts) (\<lambda>v s. length v = length ts + k \<and> ok ((=) t) F s)"
proof (induction k arbitrary: ex ts)
  case 0
  then show ?case by (simp add: sure_ret)
next
  case (Suc k)
  have n: "sch \<Longrightarrow> placeable t a n" using assms(3,5) by (simp add: placeable_def)
  have nm: "sure (ok ((=) t) F) (if sch then spread_step env a ex else ret (Inr (a_node a)))
      (\<lambda>v s. known v t \<and> ok ((=) t) F s)"
    using assms(2) by (auto intro!: sure_ret spread_sure [OF assms(1) n])
  show ?case
    unfolding more_targets.simps
    apply (rule sure_attempts [OF nm], rule sure_pure)
    apply (rule sure_attempts [OF ResolveMeta_sure], assumption)
    apply (rule sure_attempts [OF simple_call [OF network_law]])
    by (rule sure_post [OF Suc.IH]) simp
qed

section \<open>Images, secrets, backing services\<close>

lemma present_sure:
  "sure (ok R F) (call (n_present (node_at env n) ref)) (\<lambda>b s. (Has n ref \<in> F \<longrightarrow> b) \<and> ok R F s)"
  unfolding sure_def
  by (rule hoare_post [OF obeys_call [OF present_law]]) (auto simp: answers_def split: sum.splits)

lemma localNode_sure: "sure (ok R F) (localNode env) (\<lambda>_. ok R F)"
  unfolding localNode_def Resolve_def ResolveMeta_def
  by (auto simp: is_local_name_def intro!: sure_attempts [OF sure_ret] sure_ret)

lemma transfer_sure:
  "sure (ok R F) (attempt (call (n_save (node_at env loc) ref)) h1 (\<lambda>rc.
      attempt (call_unit (n_load (node_at env n) rc)) h2 (\<lambda>_.
      attempt (call (n_present (node_at env n) ref)) h3 (\<lambda>present.
      if present then ret (Inr ()) else k)))) (\<lambda>_. ok R F)"
proof -
  have ld: "sure (ok R F) (call_unit (n_load (node_at env n) rc)) (\<lambda>_. ok R (insert (Has n ref) F))" if "carries ref rc" for rc
    using call_works [where F = F and R = R, OF load_law [OF that, of n]] by simp
  show ?thesis
    apply (rule sure_attempts [OF simple_answer [OF save_law]], rule sure_pure)
    apply (rule sure_attempts [OF ld], assumption)
    apply (rule sure_attempts [OF present_sure], rule sure_pure)
    by (simp add: sure_ret forget_up)
qed

lemma image_sure: "sure (ok R F) (ensure_image env n l ref) (\<lambda>_. ok R F)"
proof -
  have pr: "sure (ok R F) (call (n_present (node_at env n) ref)) (\<lambda>_. ok R F)"
    by (rule sure_post [OF present_sure]) simp
  have first: "sure (ok R F) (if sublist ''@sha256:'' ref
      then attempt (call (n_present (node_at env n) ref)) h (\<lambda>b. ret (Inr b)) else ret (Inr False)) (\<lambda>_. ok R F)" for h
    by (auto intro!: sure_attempts [OF pr] sure_ret)
  have pull: "hoare (ok R F) (ignore (call (n_ensure_image (node_at env n) ref))) (\<lambda>_. ok R F)"
    unfolding ignore_def by (rule hoare_bind [OF call_any [OF image_law]]) (simp add: hoare_ret)
  have "sure (ok R F) (ensureImageOnNode env n ref) (\<lambda>_. ok R F)"
    unfolding ensureImageOnNode_def Let_def
    by (rule sure_attempts [OF first], rule sure_if, simp add: sure_ret, rule sure_binds [OF pull],
        rule sure_attempts [OF pr], rule sure_if, simp add: sure_ret,
        rule sure_attempts [OF localNode_sure], rule transfer_sure)
  then show ?thesis unfolding ensure_image_def by (auto intro!: simple_call [OF image_law])
qed

lemma secret_Get_sure:
  assumes "secret_value env t app k \<noteq> None"
  shows "sure (ok ((=) t) F) (secret_Get env app k) (\<lambda>v s. v \<noteq> None \<and> ok ((=) t) F s)"
proof -
  have g: "sure (ok ((=) t) F) (GetSecret env app k) (\<lambda>v s. v = sql_get_secret app k t \<and> ok ((=) t) F s)"
    unfolding GetSecret_def by (rule sure_attempts [OF db_sure [of "(=) t" "(=) t"]]) (auto intro!: sure_ret)
  obtain blob pt where "sql_get_secret app k t = Some blob" "Decrypt env blob = Inr pt"
    using assms by (auto simp: secret_value_def split: option.splits sum.splits)
  then show ?thesis
    unfolding secret_Get_def by (intro sure_attempts [OF g] sure_pure) (simp add: sure_ret)
qed

lemma Resolve_secrets_sure:
  assumes "secrets_set env t a"
  shows "sure (ok ((=) t) F) (Resolve_secrets env (a_name a) (a_secrets a)) (\<lambda>_. ok ((=) t) F)"
proof -
  have "sure (ok ((=) t) F) (resolve_from env app out ns) (\<lambda>_. ok ((=) t) F)"
    if "list_all (\<lambda>k. secret_value env t app k \<noteq> None) ns" for app out ns
    using that
  proof (induction ns arbitrary: out)
    case Nil
    then show ?case by (simp add: sure_ret)
  next
    case (Cons k ns)
    then have k: "secret_value env t app k \<noteq> None" and
      rest: "sure (ok ((=) t) F) (resolve_from env app out' ns) (\<lambda>_. ok ((=) t) F)" for out' by simp_all
    show ?case
      unfolding resolve_from.simps
      by (rule sure_attempts [OF secret_Get_sure [OF k]], rule sure_pure) (auto intro: rest)
  qed
  then show ?thesis using assms by (simp add: Resolve_secrets_def secrets_set_def)
qed

lemma with_temp_sure:
  assumes "\<And>tmp. sure (ok R F) (body tmp) Q"  "\<And>v tmp. hoare (Q v) (ignore (call (file_remove env tmp))) (\<lambda>_. Q v)"
  shows "sure (ok R F) (with_temp env what content body) Q"
  unfolding with_temp_def
  by (rule sure_attempts [OF simple_answer [OF temp_law]], rule sure_pure, rule sure_finally,
      rule sure_attempts [OF simple_call [OF temp_write_law]], rule sure_attempts [OF simple_call [OF temp_close_law]])
     (rule assms)+

lemma ignored_sure: "obeys good holds Q (\<lambda>_. {}) {} f \<Longrightarrow> hoare (ok R F) (ignore (call f)) (\<lambda>_. ok R F)"
  unfolding ignore_def by (rule hoare_bind [OF call_any]) (auto intro: hoare_ret)

lemma compose_Up_sure: "sure (ok R F) (compose_Up env p f v) (\<lambda>_. ok R F)"
  unfolding compose_Up_def
  by (intro sure_finally simple_call [OF up_law] log_inv)

lemma ensureBacking_sure: "sure (ok R F) (ensureBacking env n a vars dh) (\<lambda>_. ok R F)"
  unfolding ensureBacking_def Let_def
  by (cases "RenderBackingCompose (a_name a) (a_services a)")
     (auto intro!: sure_ret sure_attempts [OF simple_call [OF network_law]] sure_attempts [OF compose_Up_sure]
       with_temp_sure ignored_sure [OF file_remove_law])

lemma prepare_sure:
  assumes "known (a_node a) t" "secrets_set env t a"
  shows "sure (ok ((=) t) {}) (prepare env a img spec pull) (\<lambda>_. ok ((=) t) {})"
  unfolding prepare_def Let_def
  apply (rule sure_attempts [OF ResolveMeta_sure [OF assms(1)]])
  apply (rule sure_attempts [OF EnsureUp_sure])
  apply (rule sure_attempts [OF simple_call [OF network_law]])
  apply (rule sure_attempts [where Q = "\<lambda>_. ok ((=) t) {}"], simp add: image_sure sure_ret)
  apply (rule sure_attempts [OF Resolve_secrets_sure [OF assms(2)]])
  by (rule sure_attempts [OF ensureBacking_sure]) (auto intro: sure_ret)

section \<open>Starting and checking the replicas\<close>

definition ups :: "(replica_target \<times> container) list \<Rightarrow> fact set" where
  "ups ps = (\<lambda>(t, c). Up (tg_node t) (c_id c)) ` set ps"

lemma ups_simps [simp]: "ups [] = {}" "ups ((t, c) # ps) = insert (Up (tg_node t) (c_id c)) (ups ps)"
  by (auto simp: ups_def)

lemma start_one_sure:
  "hoare (ok R F) (start_one env a img vars net d cnt i t)
     (\<lambda>r s. \<exists>c rep. r = Inr (c, rep) \<and> ok R (insert (Up (tg_node t) (c_id c)) F) s)"
proof -
  have img: "sure (ok R F) (if i > 0 then ensure_image env (tg_node t) (tg_local t) img else ret (Inr ())) (\<lambda>_. ok R F)"
    by (auto intro: image_sure sure_ret)
  have net: "sure (ok R G) (if net \<noteq> [] then call_unit (n_connect (node_at env n) c net) else ret (Inr ())) (\<lambda>_. ok R G)" for n c G
    by (auto intro: simple_call [OF connect_law] sure_ret)
  show ?thesis
    unfolding start_one_def
    apply (rule sure_bind [OF img], simp only: sum.case)
    apply (rule sure_bind [OF run_sure], simp only: sum.case)
    by (rule sure_bind [OF net], rule hoare_ret) auto
qed

lemma start_all_sure:
  "hoare (ok R F) (start_all env a img vars net d cnt i ts cs reps)
     (\<lambda>(err, cs', reps') s. err = None \<and> (\<exists>ds. cs' = cs @ ds \<and> length ds = length ts \<and> ok R (F \<union> ups (zip ts ds)) s))"
proof (induction ts arbitrary: i cs reps F)
  case Nil
  then show ?case by (simp add: hoare_ret)
next
  case (Cons t ts)
  show ?case
    unfolding start_all.simps
  proof (rule hoare_bind [OF start_one_sure])
    show "hoare (\<lambda>s. \<exists>c rep. r = Inr (c, rep) \<and> ok R (insert (Up (tg_node t) (c_id c)) F) s)
      (case r of Inl (e, c) \<Rightarrow> ret (Some e, cs @ c, reps)
       | Inr (c, rep) \<Rightarrow> start_all env a img vars net d cnt (i + 1) ts (cs @ [c]) (reps @ [rep]))
      (\<lambda>(err, cs', reps') s. err = None \<and> (\<exists>ds. cs' = cs @ ds \<and> length ds = length (t # ts) \<and> ok R (F \<union> ups (zip (t # ts) ds)) s))"
      (is "hoare _ _ ?Q") for r
    proof (cases r)
      case (Inl e)
      then show ?thesis by (auto intro: hoare_False)
    next
      case (Inr p)
      obtain c rep where p: "p = (c, rep)" by fastforce
      have "hoare (ok R (insert (Up (tg_node t) (c_id c)) F))
        (start_all env a img vars net d cnt (i + 1) ts (cs @ [c]) (reps @ [rep])) ?Q"
        by (rule hoare_post [OF Cons.IH]) (auto simp: insert_commute intro!: exI [of _ "c # _"])
      then show ?thesis using Inr p by simp
    qed
  qed
qed

lemma check_all_sure:
  "ups ps \<subseteq> F \<Longrightarrow> sure (ok R F) (check_all env a h ps) (\<lambda>_. ok R F)"
proof (induction ps)
  case Nil
  then show ?case by (simp add: sure_ret)
next
  case (Cons p ps)
  then show ?case
    by (cases p) (auto intro!: sure_attempts [OF checkHealth_sure])
qed

section \<open>Retiring and going live\<close>

lemma tame_calls:
  "pres (tame good) (call (n_ping (node_at env n)))" "pres (tame good) (call (new_ssh env h))"
  "pres (tame good) (call (db_fault env stmt))" "pres (tame good) (call (n_remove (node_at env n) cid))"
  by (rule tame_call, rule ping_law ssh_law db_law remove_law)+

lemma tame_db: "pres (tame good) (db_exec env stmt f)"
  unfolding db_exec_def
  by (intro pres_rules tame_calls) (rule presI, auto simp: tame_def split: prod.splits)

lemma tame_small: "pres (tame good) (wrap_err fmt as e)" "pres (tame good) (log_event ev)"
  unfolding wrap_err_def log_event_def by (intro pres_rules tame_modify; simp)+

lemma tame_store:
  "pres (tame good) (GetNode env n)" "pres (tame good) (CurrentDeployment env n)" "pres (tame good) (SetStatus env i st)"
  unfolding GetNode_def CurrentDeployment_def SetStatus_def by (intro pres_rules tame_db tame_small)+

lemma tame_resolver:
  "pres (tame good) (lookup_node env n)" "pres (tame good) (buildTransport env h u)" "pres (tame good) (pingOK env m)"
  unfolding lookup_node_def buildTransport_def pingOK_def build_ssh_def
  by (intro pres_rules tame_store tame_calls)+

lemma tame_reach: "pres (tame good) (ResolveMeta env n)" "pres (tame good) (known_unreachable env n)"
  unfolding ResolveMeta_def Let_def known_unreachable_def Reachable_def
  by (intro pres_rules tame_resolver tame_small tame_modify; simp)+

lemma tame_removal: "pres (tame good) (ignore (RemoveContainer env n cid))"
  unfolding RemoveContainer_def call_unit_def ignore_def by (intro pres_rules tame_calls tame_small)

lemma tame_remove_old: "pres (tame good) (remove_old env olds)"
  by (induction olds) (auto simp: Let_def intro!: pres_rules tame_reach tame_removal)

lemma tame_retire: "pres (tame good) (retire_previous env name)" "pres (tame good) (retire_row env name)"
  unfolding retire_previous_def retire_row_def ignore_def
  by (intro pres_rules tame_store tame_remove_old)+

abbreviation fine :: "'x sys \<Rightarrow> bool" where
  "fine \<equiv> ok (\<lambda>_. True) {}"

lemma ok_fine: "ok R F s \<Longrightarrow> fine s"
  by (erule holding_weaken) auto

lemma record_sure: "sure fine (RecordDeployment env d) (\<lambda>_. fine)"
  unfolding RecordDeployment_def
  by (intro sure_attempts [OF db_sure [of _ "\<lambda>_. True"]] sure_pure sure_ret) simp_all

lemma resetHeal_fine: "hoare fine (resetHeal name) (\<lambda>_. fine)"
  unfolding resetHeal_def by (rule keeps_inv) simp_all

lemma go_live_sure:
  assumes "length cs = length targets"
  shows "sure (ok R (ups (zip targets cs))) (go_live env a img content spec sch h targets cs reps) (\<lambda>_. fine)"
  unfolding go_live_def Let_def
  apply (rule sure_attempts [OF mutators_sure(3)])
  apply (rule sure_attempts [OF check_all_sure], simp)
  apply (rule sure_attempts [OF mutators_sure(1)])
  apply (rule sure_binds [OF sure_ignore [OF mutators_sure(4)]])
  apply (rule sure_binds [OF tame_hoare [OF tame_retire(1)]])
  apply (rule sure_binds [OF gets_inv(2)])
  apply (rule sure_attempts [OF record_sure])
  by (rule sure_binds [OF resetHeal_fine], rule sure_ret)

lemma deployReplicaSet_sure:
  assumes "room (app_req a)" "known (a_node a) t" "sch \<Longrightarrow> placeable t b n" "app_req b = app_req a" "poolOf b = poolOf a"
  shows "sure (ok ((=) t) {}) (deployReplicaSet env m a img vars net content spec sch) (\<lambda>_. fine)"
proof -
  have id: "sure (ok ((=) t) {}) (NextDeployID env) (\<lambda>_. ok ((=) t) {})"
    unfolding NextDeployID_def
    by (rule sure_attempts [OF db_sure [of "(=) t" "(=) t"]]) (auto intro!: sure_ret)
  have live: "sure (\<lambda>s. err = None \<and> (\<exists>ds. cs = [] @ ds \<and> length ds = length ts \<and> ok ((=) t) ({} \<union> ups (zip ts ds)) s))
      (case err of Some e \<Rightarrow> k e | None \<Rightarrow> go_live env a img content spec sch h ts cs reps) (\<lambda>_. fine)" for err cs reps ts k h
  proof (cases "err = None \<and> length cs = length ts")
    case True
    then show ?thesis by (auto intro: sure_pre [OF go_live_sure])
  next
    case False
    then show ?thesis by (auto simp: sure_def intro: hoare_False)
  qed
  show ?thesis
    unfolding deployReplicaSet_def Let_def
    apply (rule sure_attempts [OF id])
    apply (rule sure_attempts [OF more_targets_sure [OF assms]], assumption, rule sure_pure)
    apply (rule sure_binds [OF start_all_sure])
    subgoal for d ts v by (cases v, hypsubst, simp (no_asm) only: prod.case, rule live)
    done
qed

section \<open>The three paths\<close>

lemma deploy_serves:
  assumes "room (app_req a)" "known (a_node a) t" "sch \<Longrightarrow> placeable t b n" "app_req b = app_req a" "poolOf b = poolOf a"
    and wf: "wf_db t" and "\<not> compose_app a"
  shows "sure (ok ((=) t) {}) (deployReplicaSet env m a img vars net content spec sch) (\<lambda>d s. served a d s \<and> fine s)"
proof (rule sure_wp [OF deployReplicaSet_sure [OF assms(1-5)]])
  fix s d s'
  assume i: "ok ((=) t) {} s"
    and run: "run_state (deployReplicaSet env m a img vars net content spec sch) s = (Inr d, s')"
  have "wf_db (sdb s)" using wf i by (simp add: holding_def)
  then show "served a d s'"
    using deploy_current [OF _ run] wp_run [OF deploy_live run] assms(7) by (simp add: served_def)
qed

lemma image_serves:
  assumes "placed t a" "room (app_req a)" "secrets_set env t a" "wf_db t" "\<not> compose_app a"
    and "ov = Some True \<Longrightarrow> \<exists>n. placeable t a n"
  shows "sure (ok ((=) t) {}) (applyImageProvenance env a ov) (\<lambda>d s. served a d s \<and> fine s)"
proof -
  have deploy: "sure (ok ((=) t) {}) (deployReplicaSet env m (a\<lparr>a_node := chosen\<rparr>) img vars net content spec
      (case ov of None \<Rightarrow> sch | Some b \<Rightarrow> b)) (\<lambda>d s. served a d s \<and> fine s)"
    if "known chosen t" "sch \<longrightarrow> (\<exists>n. placeable t a n)" for m chosen img vars net content spec sch
  proof -
    note chosen = that
    have "\<exists>n. (case ov of None \<Rightarrow> sch | Some b \<Rightarrow> b) \<longrightarrow> placeable t a n"
      using chosen(2) assms(6) by (cases sch) (auto split: option.splits)
    then obtain n where "(case ov of None \<Rightarrow> sch | Some b \<Rightarrow> b) \<Longrightarrow> placeable t a n" by blast
    from deploy_serves [of "a\<lparr>a_node := chosen\<rparr>", OF _ _ this, unfolded served_node] show ?thesis
      using chosen(1) assms by (simp add: app_req_def reqCPU_def reqMem_def poolOf_def compose_app_def)
  qed
  have sec: "secrets_set env t (a\<lparr>a_node := chosen\<rparr>)" for chosen using assms(3) by (simp add: secrets_set_def)
  show ?thesis
    unfolding applyImageProvenance_def Let_def
    apply (rule sure_attempts [OF resolvePlacement_sure [OF assms(1,2)]], rule sure_pure, clarsimp)
    by (rule sure_attempts [OF prepare_sure]) (auto intro!: deploy simp: sec)
qed

lemma git_serves:
  assumes "placed t a" "room (app_req a)" "secrets_set env t a" "wf_db t" "\<not> compose_app a"
  shows "sure (ok ((=) t) {}) (applyGit env a g) (\<lambda>d s. served a d s \<and> fine s)"
proof -
  have deploy: "sure (ok ((=) t) {}) (deployReplicaSet env m (a\<lparr>a_node := chosen\<rparr>) img vars net content spec sch)
      (\<lambda>d s. served a d s \<and> fine s)"
    if "known chosen t" "sch \<longrightarrow> (\<exists>n. placeable t a n)" for m chosen img vars net content spec sch
  proof -
    note chosen = that
    obtain n where "sch \<Longrightarrow> placeable t a n" using chosen(2) by (cases sch) auto
    from deploy_serves [of "a\<lparr>a_node := chosen\<rparr>", OF _ _ this, unfolded served_node] show ?thesis
      using chosen(1) assms by (simp add: app_req_def reqCPU_def reqMem_def poolOf_def compose_app_def)
  qed
  have clone: "sure (ok R F) (git_Clone env u rf dir) (\<lambda>_. ok R F)" for R F u rf dir
    unfolding git_Clone_def
    by (intro sure_finally sure_post [OF simple_answer [OF clone_law]] log_inv) simp
  have build: "sure (ok R F) (build_Build env c df tag) (\<lambda>_. ok R F)" for R F c df tag
    unfolding build_Build_def by (intro sure_finally simple_call [OF build_law] log_inv)
  have transfer: "sure (ok R F) (if l then ret (Inr ()) else ensureImageOnNode env n tag) (\<lambda>_. ok R F)" for R F l n tag
    using image_sure [of R F n False tag] by (simp add: ensure_image_def sure_ret)
  have built: "sure (ok R F) (if b then ret (Inr ()) else build_Build env c df tag) (\<lambda>_. ok R F)" for R F b c df tag
    by (simp add: build sure_ret)
  have work: "sure (ok ((=) t) {}) (clone_and_build env (a\<lparr>a_node := chosen\<rparr>) g m vars net content spec sch dir)
      (\<lambda>d s. served a d s \<and> fine s)"
    if "known chosen t" "sch \<longrightarrow> (\<exists>n. placeable t a n)" for m chosen vars net content spec sch dir
    unfolding clone_and_build_def Let_def
    apply (rule sure_attempts [OF clone])
    apply (rule sure_attempts [OF simple_answer [OF exists_law]], rule sure_pure)
    by (rule sure_attempts [OF built], rule sure_attempts [OF transfer], rule deploy [OF that])
  have sec: "secrets_set env t (a\<lparr>a_node := chosen\<rparr>)" for chosen using assms(3) by (simp add: secrets_set_def)
  have cleanup: "hoare (\<lambda>s. served a d s \<and> fine s) (ignore (call (remove_all env dir))) (\<lambda>_ s. served a d s \<and> fine s)" for d dir
    by (rule hoareI) (use hoare_run [OF ignored_sure [OF remove_all_law]] presD [OF pres_ignore_calm [OF pres_call]]
      served_calm in blast)
  show ?thesis
    unfolding applyGit_def Let_def
    apply (rule sure_attempts [OF resolvePlacement_sure [OF assms(1,2)]], rule sure_pure, clarsimp)
    apply (rule sure_attempts [OF prepare_sure], simp, rule sec, clarsimp)
    apply (rule sure_attempts [OF simple_answer [OF mkdir_law]], rule sure_pure)
    by (rule sure_finally [OF work cleanup]) auto
qed

lemma compose_serves:
  assumes "placed t a" "secrets_set env t a" "wf_db t" "compose_app a"
  shows "sure (ok ((=) t) {}) (applyCompose env a) (\<lambda>d s. served a d s \<and> fine s)"
proof (rule sure_wp)
  have kn: "known (a_node a) t"
    using assms(1) by (cases "a_node a = []") (auto simp: placed_def known_def is_local_name_def)
  have live: "sure fine (compose_live env a n spec content cid name) (\<lambda>_. fine)" for n spec content cid name
    unfolding compose_live_def Let_def
    apply (rule sure_attempts [OF simple_call [OF connect_law]])
    apply (rule sure_attempts [OF mutators_sure(1)])
    apply (rule sure_attempts [OF checkHealthCompose_sure])
    apply (rule sure_binds [OF tame_hoare [OF tame_retire(2)]])
    apply (rule sure_binds [OF gets_inv(2)])
    by (rule sure_attempts [OF record_sure], rule sure_ret)
  have up: "sure (ok ((=) t) {}) (attempt (Resolve_secrets env (a_name a) (a_secrets a)) h (\<lambda>sv.
      attempt (compose_Up env p f (m sv)) (h1 sv) (\<lambda>_.
      attempt (call (compose_service env p srv)) (h2 sv) (\<lambda>(cid, name). compose_live env a n spec content cid name)))) (\<lambda>_. fine)"
    for h p f m h1 srv h2 n spec content
    apply (rule sure_attempts [OF Resolve_secrets_sure [OF assms(2)]])
    apply (rule sure_attempts [OF compose_Up_sure])
    apply (rule sure_attempts [OF simple_answer [OF service_law]])
    by (auto intro: sure_pre [OF live] dest: ok_fine)
  show "sure (ok ((=) t) {}) (applyCompose env a) (\<lambda>_. fine)"
    unfolding applyCompose_def Let_def
    apply (rule sure_attempts [OF Resolve_sure [OF kn]])
    apply (rule sure_attempts [OF EnsureUp_sure])
    apply (rule sure_attempts [OF simple_call [OF network_law]])
    apply (rule sure_binds [OF simple_answer [OF read_law, unfolded sure_def]])
    subgoal for _ _ _ cf by (cases cf) (auto simp: sure_def hoare_False intro!: up [unfolded sure_def])
    done
next
  fix s d s'
  assume i: "ok ((=) t) {} s" and run: "run_state (applyCompose env a) s = (Inr d, s')"
  have "wf_db (sdb s)" using assms(3) i by (simp add: holding_def)
  moreover have "d_app d = a_name a" using applyCompose_ok [OF run] by (auto simp: stack_deployed_def)
  ultimately show "served a d s'" using wp_run [OF applyCompose_live run] assms(4) by (auto simp: served_def)
qed

lemma Apply_serves:
  assumes "Validate a = None" "placed t a" "room (app_req a)" "secrets_set env t a" "wf_db t"
  shows "sure (ok ((=) t) {}) (Apply env a) (\<lambda>d s. served a d s \<and> fine s)"
proof -
  have nudge: "hoare (\<lambda>s. served a d s \<and> fine s) (signalNudge env) (\<lambda>_ s. served a d s \<and> fine s)" for d
    by (auto simp: signalNudge_def hoare_def wp_def served_def holding_def)
  have nudged: "sure P (nudging env m) (\<lambda>d s. served a d s \<and> fine s)"
    if "sure P m (\<lambda>d s. served a d s \<and> fine s)" for P m
    unfolding nudging_def sure_def [of _ "m \<bind> _"]
    by (rule sure_bind [OF that], simp only: sum.case, rule hoare_bind [OF nudge], rule hoare_ret) simp
  show ?thesis
    unfolding Apply_def
    using assms by (auto simp: applyImage_def compose_app_def split: option.split
        intro!: nudged image_serves git_serves compose_serves)
qed

end


end
