(* ===== verification/Doubles.thy ===== *)
theory Doubles
  imports Progress
begin

text \<open>
  The in-memory doubles of the interfaces (\<open>src/internal/node/fake.go\<close>, \<open>src/internal/router/fake.go\<close>,
  \<open>src/internal/compose/fake.go\<close>, \<open>src/internal/source/fake.go\<close>, \<open>src/internal/build/fake.go\<close> and
  \<open>FakeResolver\<close> in \<open>src/internal/node/resolver.go\<close>): what the repository tests its daemon against.
  They keep the contract of \<open>Progress\<close>, and the router's double keeps the tables of the real one.
\<close>

section \<open>The node\<close>

text \<open>\<open>LastRunSpec\<close> is unset before the first run; \<open>PingFunc\<close> is the outcome of the function, if there is one.\<close>

record fake_node =
  fn_seq :: nat
  fn_items :: "(string \<times> container) list"
  fn_calls :: "string list"
  fn_last_spec :: "run_spec option"
  fn_ensure_err :: "goerr option"
  fn_health_err :: "goerr option"
  fn_run_err :: "goerr option"
  fn_save_err :: "goerr option"
  fn_load_err :: "goerr option"
  fn_ping_err :: "goerr option"
  fn_ping_func :: "goerr option option"
  fn_present_err :: "goerr option"
  fn_images :: "(string \<times> bool) list"
  fn_mesh :: string
  fn_docker_host :: string
  fn_loaded :: bool
  fn_last_loaded :: string
  fn_health_state :: string
  fn_docker_health :: string
  fn_docker_seq :: "string list"
  fn_docker_call :: nat
  fn_cap :: capacity
  fn_cap_err :: "goerr option"

definition NewFake :: fake_node where
  "NewFake = \<lparr>fn_seq = 0, fn_items = [], fn_calls = [], fn_last_spec = None, fn_ensure_err = None, fn_health_err = None,
     fn_run_err = None, fn_save_err = None, fn_load_err = None, fn_ping_err = None, fn_ping_func = None,
     fn_present_err = None, fn_images = [], fn_mesh = [], fn_docker_host = [], fn_loaded = False,
     fn_last_loaded = [], fn_health_state = [], fn_docker_health = [], fn_docker_seq = [], fn_docker_call = 0,
     fn_cap = no_capacity, fn_cap_err = None\<rparr>"

definition note_call :: "string \<Rightarrow> fake_node \<Rightarrow> fake_node" where
  "note_call name f = f\<lparr>fn_calls := fn_calls f @ [name]\<rparr>"

definition fake_Ping :: "fake_node \<Rightarrow> goerr option \<times> fake_node" where
  "fake_Ping f = (case fn_ping_func f of None \<Rightarrow> fn_ping_err f | Some r \<Rightarrow> r, note_call ''Ping'' f)"

definition fake_EnsureImage :: "string \<Rightarrow> fake_node \<Rightarrow> goerr option \<times> fake_node" where
  "fake_EnsureImage ref f = (fn_ensure_err f, note_call (''EnsureImage:'' @ ref) f)"

definition fake_EnsureNetwork :: "string \<Rightarrow> fake_node \<Rightarrow> goerr option \<times> fake_node" where
  "fake_EnsureNetwork name f = (None, note_call (''EnsureNetwork:'' @ name) f)"

text \<open>The host port: that of the surface's own mapping, else of the first; an ephemeral one for \<open>0\<close>.\<close>

definition fake_port :: "run_spec \<Rightarrow> nat \<Rightarrow> int" where
  "fake_port sp n =
     (let asked = (case List.find (\<lambda>pm. p_container_port pm = r_port sp) (r_publish sp) of
          Some pm \<Rightarrow> p_host_port pm
        | None \<Rightarrow> (case r_publish sp of [] \<Rightarrow> 0 | pm # _ \<Rightarrow> p_host_port pm))
      in if asked = 0 \<and> r_publish sp \<noteq> [] then 30000 + int n else asked)"

definition fake_id :: "nat \<Rightarrow> string" where
  "fake_id n = ''fake-'' @ show_nat n"

definition fake_container :: "run_spec \<Rightarrow> nat \<Rightarrow> container" where
  "fake_container sp n = \<lparr>c_id = fake_id n, c_name = r_name sp, c_image = r_image sp, c_state = ''running'',
     c_labels = r_labels sp, c_host_port = fake_port sp n,
     c_ip = (if r_network sp \<noteq> [] then ''10.42.0.'' @ show_nat (n mod 254 + 1) else [])\<rparr>"

definition fake_RunContainer :: "run_spec \<Rightarrow> fake_node \<Rightarrow> container res \<times> fake_node" where
  "fake_RunContainer sp f =
     (let g = (note_call (''RunContainer:'' @ r_name sp) f)\<lparr>fn_last_spec := Some sp\<rparr> in
      case fn_run_err f of
        Some e \<Rightarrow> (Inl e, g)
      | None \<Rightarrow>
          let n = fn_seq f + 1; c = fake_container sp n in
          (Inr c, g\<lparr>fn_seq := n, fn_items := AList.update (c_id c) c (fn_items g)\<rparr>))"

definition SeedContainer :: "container \<Rightarrow> fake_node \<Rightarrow> container \<times> fake_node" where
  "SeedContainer c f =
     (let n = (if c_id c = [] then fn_seq f + 1 else fn_seq f);
          d = (if c_id c = [] then c\<lparr>c_id := fake_id n\<rparr> else c) in
      (d, f\<lparr>fn_seq := n, fn_items := AList.update (c_id d) d (fn_items f)\<rparr>))"

definition fake_RemoveContainer :: "string \<Rightarrow> fake_node \<Rightarrow> goerr option \<times> fake_node" where
  "fake_RemoveContainer cid f =
     (None, (note_call (''RemoveContainer:'' @ cid) f)\<lparr>fn_items := AList.delete cid (fn_items f)\<rparr>)"

text \<open>\<open>have[k]\<close> of a missing key is the empty string.\<close>

definition label_of :: "env_map \<Rightarrow> string \<Rightarrow> string" where
  "label_of have k = (case map_of have k of None \<Rightarrow> [] | Some v \<Rightarrow> v)"

definition label_match :: "env_map \<Rightarrow> env_map \<Rightarrow> bool" where
  "label_match have want = list_all (\<lambda>(k, v). label_of have k = v) want"

text \<open>The order of the listing is that of a Go map; the model's is the order of creation.\<close>

definition fake_ListContainers :: "env_map \<Rightarrow> fake_node \<Rightarrow> container list res \<times> fake_node" where
  "fake_ListContainers labels f =
     (Inr (filter (\<lambda>c. label_match (c_labels c) labels) (map snd (fn_items f))), note_call ''ListContainers'' f)"

definition fake_ContainerLogs :: "string \<Rightarrow> fake_node \<Rightarrow> string res \<times> fake_node" where
  "fake_ContainerLogs cid f = (Inr (''fake log line'' @ [CHR 0x0A]), note_call (''ContainerLogs:'' @ cid) f)"

definition fake_Health :: "container \<Rightarrow> fake_node \<Rightarrow> goerr option \<times> fake_node" where
  "fake_Health c f = (fn_health_err f, note_call (''Health:'' @ c_id c) f)"

definition fake_ContainerHealth :: "string \<Rightarrow> fake_node \<Rightarrow> (string \<times> string) res \<times> fake_node" where
  "fake_ContainerHealth cid f =
     (let st = (if fn_health_state f = [] then (if map_of (fn_items f) cid = None then [] else ''running'')
                else fn_health_state f);
          g = note_call (''ContainerHealth:'' @ cid) f in
      if fn_docker_seq f = [] then (Inr (st, fn_docker_health f), g)
      else
        let i = fn_docker_call f; n = length (fn_docker_seq f) in
        (Inr (st, fn_docker_seq f ! (if i \<ge> n then n - 1 else i)), g\<lparr>fn_docker_call := i + 1\<rparr>))"

definition fake_Connect :: "string \<Rightarrow> string \<Rightarrow> fake_node \<Rightarrow> goerr option \<times> fake_node" where
  "fake_Connect cid net f = (None, note_call (''ConnectContainerToNetwork:'' @ cid @ '':'' @ net) f)"

definition fake_ImagePresent :: "string \<Rightarrow> fake_node \<Rightarrow> bool res \<times> fake_node" where
  "fake_ImagePresent ref f =
     (case fn_present_err f of
        Some e \<Rightarrow> Inl e
      | None \<Rightarrow> Inr (map_of (fn_images f) ref = Some True), note_call (''ImagePresent:'' @ ref) f)"

definition fakeImageTarPrefix :: string where
  "fakeImageTarPrefix = ''faketar:''"

definition fake_SaveImage :: "string \<Rightarrow> fake_node \<Rightarrow> string res \<times> fake_node" where
  "fake_SaveImage ref f =
     (case fn_save_err f of Some e \<Rightarrow> Inl e | None \<Rightarrow> Inr (fakeImageTarPrefix @ ref), note_call (''SaveImage:'' @ ref) f)"

text \<open>The stream is read whole, so its read error is the only other failure; a string has none.\<close>

definition fake_LoadImage :: "string \<Rightarrow> fake_node \<Rightarrow> goerr option \<times> fake_node" where
  "fake_LoadImage tar f =
     (let g = note_call ''LoadImage'' f in
      case fn_load_err f of
        Some e \<Rightarrow> (Some e, g)
      | None \<Rightarrow>
          let h = g\<lparr>fn_last_loaded := tar, fn_loaded := True\<rparr> in
          if prefix fakeImageTarPrefix tar
          then (None, h\<lparr>fn_images := AList.update (drop (length fakeImageTarPrefix) tar) True (fn_images h)\<rparr>)
          else (None, h))"

definition fake_Capacity :: "fake_node \<Rightarrow> capacity res \<times> fake_node" where
  "fake_Capacity f = (case fn_cap_err f of Some e \<Rightarrow> Inl e | None \<Rightarrow> Inr (fn_cap f), note_call ''Capacity'' f)"

section \<open>The resolver\<close>

text \<open>A map from names to nodes; \<open>as_fake\<close> is the type assertion \<open>n.(*Fake)\<close>.\<close>

definition FakeResolver_Resolve :: "(string \<times> 'n) list \<Rightarrow> string \<Rightarrow> 'n res" where
  "FakeResolver_Resolve fr name = (case map_of fr name of Some n \<Rightarrow> Inr n | None \<Rightarrow> Inl (Errf ''unknown node %q'' [name]))"

definition FakeResolver_ResolveMeta ::
  "('n \<Rightarrow> fake_node option) \<Rightarrow> (string \<times> 'n) list \<Rightarrow> string \<Rightarrow> ('n \<times> string \<times> string \<times> bool) res"
where
  "FakeResolver_ResolveMeta as_fake fr name =
     (case FakeResolver_Resolve fr name of
        Inl e \<Rightarrow> Inl e
      | Inr n \<Rightarrow>
          let isLocal = (name = [] \<or> name = ''local'') in
          if isLocal then Inr (n, [], [], True)
          else (case as_fake n of
              Some fk \<Rightarrow> Inr (n, fn_mesh fk, fn_docker_host fk, False)
            | None \<Rightarrow> Inr (n, [], [], False)))"

section \<open>The router\<close>

record fake_router =
  fr_routes :: "(string \<times> route) list"
  fr_staging :: "(string \<times> bool) list"
  fr_calls :: "string list"
  fr_probe_status :: int
  fr_probe_err :: "goerr option"
  fr_ensure_err :: "goerr option"
  fr_set_err :: "goerr option"
  fr_healthy :: bool

definition NewFakeRouter :: fake_router where
  "NewFakeRouter = \<lparr>fr_routes = [], fr_staging = [], fr_calls = [], fr_probe_status = 200, fr_probe_err = None,
     fr_ensure_err = None, fr_set_err = None, fr_healthy = True\<rparr>"

definition note_route :: "string \<Rightarrow> fake_router \<Rightarrow> fake_router" where
  "note_route name f = f\<lparr>fr_calls := fr_calls f @ [name]\<rparr>"

definition FakeRouter_EnsureUp :: "fake_router \<Rightarrow> goerr option \<times> fake_router" where
  "FakeRouter_EnsureUp f = (fr_ensure_err f, note_route ''EnsureUp'' f)"

definition FakeRouter_SetRoute :: "route \<Rightarrow> fake_router \<Rightarrow> goerr option \<times> fake_router" where
  "FakeRouter_SetRoute r f =
     (let g = note_route (''SetRoute:'' @ rt_domain r) f in
      case fr_set_err f of
        Some e \<Rightarrow> (Some e, g)
      | None \<Rightarrow> (None, g\<lparr>fr_routes := AList.update (rt_domain r) r (fr_routes g)\<rparr>))"

definition FakeRouter_RemoveRoute :: "string \<Rightarrow> fake_router \<Rightarrow> goerr option \<times> fake_router" where
  "FakeRouter_RemoveRoute domain f =
     (None, (note_route (''RemoveRoute:'' @ domain) f)\<lparr>fr_routes := AList.delete domain (fr_routes f)\<rparr>)"

definition FakeRouter_SetStaging :: "string \<Rightarrow> upstream list \<Rightarrow> fake_router \<Rightarrow> goerr option \<times> fake_router" where
  "FakeRouter_SetStaging host upstreams f =
     (None, (note_route (''SetStaging:'' @ host) f)\<lparr>fr_staging := AList.update host True (fr_staging f)\<rparr>)"

definition FakeRouter_RemoveStaging :: "string \<Rightarrow> fake_router \<Rightarrow> goerr option \<times> fake_router" where
  "FakeRouter_RemoveStaging host f =
     (None, (note_route (''RemoveStaging:'' @ host) f)\<lparr>fr_staging := AList.delete host (fr_staging f)\<rparr>)"

text \<open>Both of \<open>(f.ProbeStatus, f.ProbeErr)\<close> are returned.\<close>

definition FakeRouter_ProbeThroughCaddy :: "string \<Rightarrow> string \<Rightarrow> fake_router \<Rightarrow> (int \<times> goerr option) \<times> fake_router" where
  "FakeRouter_ProbeThroughCaddy host path f =
     ((fr_probe_status f, fr_probe_err f), note_route (''ProbeThroughCaddy:'' @ host) f)"

definition FakeRouter_Reload :: "fake_router \<Rightarrow> goerr option \<times> fake_router" where
  "FakeRouter_Reload f = (None, note_route ''Reload'' f)"

definition FakeRouter_Healthy :: "fake_router \<Rightarrow> bool \<times> fake_router" where
  "FakeRouter_Healthy f = (fr_healthy f, note_route ''Healthy'' f)"

definition FakeRouter_SeedRoutes :: "route list \<Rightarrow> fake_router \<Rightarrow> fake_router" where
  "FakeRouter_SeedRoutes rs f =
     (note_route ''SeedRoutes'' f)\<lparr>fr_routes := fold (\<lambda>r m. AList.update (rt_domain r) r m) rs (fr_routes f)\<rparr>"

section \<open>Compose, git and the image builder\<close>

record fake_compose =
  fc_calls :: "string list"
  fc_last_up :: "(string \<times> string \<times> env_map) option"
  fc_up_err :: "goerr option"
  fc_last_down :: "(string \<times> string \<times> env_map) option"
  fc_down_err :: "goerr option"
  fc_service_id :: string
  fc_service_name :: string
  fc_service_err :: "goerr option"

definition fake_Up :: "string \<Rightarrow> string \<Rightarrow> env_map \<Rightarrow> fake_compose \<Rightarrow> goerr option \<times> fake_compose" where
  "fake_Up project path vars f =
     (fc_up_err f, f\<lparr>fc_calls := fc_calls f @ [''Up:'' @ project], fc_last_up := Some (project, path, vars)\<rparr>)"

definition fake_Down :: "string \<Rightarrow> string \<Rightarrow> env_map \<Rightarrow> fake_compose \<Rightarrow> goerr option \<times> fake_compose" where
  "fake_Down project path vars f =
     (fc_down_err f, f\<lparr>fc_calls := fc_calls f @ [''Down:'' @ project], fc_last_down := Some (project, path, vars)\<rparr>)"

definition fake_ServiceContainer :: "string \<Rightarrow> string \<Rightarrow> fake_compose \<Rightarrow> (string \<times> string) res \<times> fake_compose" where
  "fake_ServiceContainer project service f =
     (case fc_service_err f of Some e \<Rightarrow> Inl e | None \<Rightarrow> Inr (fc_service_id f, fc_service_name f),
      f\<lparr>fc_calls := fc_calls f @ [''ServiceContainer:'' @ project @ '':'' @ service]\<rparr>)"

record fake_git =
  fg_sha :: string
  fg_err :: "goerr option"
  fg_calls :: "string list"
  fg_last :: "string \<times> string \<times> string"

definition fake_Clone :: "string \<Rightarrow> string \<Rightarrow> string \<Rightarrow> fake_git \<Rightarrow> string res \<times> fake_git" where
  "fake_Clone url ref dir f =
     (case fg_err f of Some e \<Rightarrow> Inl e | None \<Rightarrow> Inr (fg_sha f),
      f\<lparr>fg_calls := fg_calls f @ [url @ '':'' @ ref @ '':'' @ dir], fg_last := (url, ref, dir)\<rparr>)"

record fake_builder =
  fb_build_err :: "goerr option"
  fb_exists :: "(string \<times> bool) list"
  fb_exists_err :: "goerr option"
  fb_calls :: "string list"
  fb_last :: "string \<times> string \<times> string"

definition fake_Build :: "string \<Rightarrow> string \<Rightarrow> string \<Rightarrow> fake_builder \<Rightarrow> goerr option \<times> fake_builder" where
  "fake_Build contextDir dockerfile tag f =
     (fb_build_err f, f\<lparr>fb_calls := fb_calls f @ [''Build''], fb_last := (contextDir, dockerfile, tag)\<rparr>)"

definition fake_ImageExists :: "string \<Rightarrow> fake_builder \<Rightarrow> bool res \<times> fake_builder" where
  "fake_ImageExists tag f =
     (case fb_exists_err f of
        Some e \<Rightarrow> Inl e
      | None \<Rightarrow> Inr (map_of (fb_exists f) tag = Some True), f\<lparr>fb_calls := fb_calls f @ [''ImageExists'']\<rparr>)"

definition new_compose :: fake_compose where
  "new_compose = \<lparr>fc_calls = [], fc_last_up = None, fc_up_err = None, fc_last_down = None, fc_down_err = None,
     fc_service_id = [], fc_service_name = [], fc_service_err = None\<rparr>"

definition new_git :: fake_git where
  "new_git = \<lparr>fg_sha = ''abc123def456'', fg_err = None, fg_calls = [], fg_last = ([], [], [])\<rparr>"

definition new_builder :: fake_builder where
  "new_builder = \<lparr>fb_build_err = None, fb_exists = [], fb_exists_err = None, fb_calls = [], fb_last = ([], [], [])\<rparr>"

section \<open>One contract, two routers\<close>

text \<open>The operations of the interface \<open>Router\<close> that may change its tables or serve them.\<close>

datatype route_op =
    OpEnsure | OpSet route | OpRemove string | OpStage string "upstream list" | OpUnstage string | OpReload

text \<open>What one that succeeds makes of the routes, and of the set of staged hosts.\<close>

fun routes_after :: "route_op \<Rightarrow> (string \<Rightarrow> route option) \<Rightarrow> string \<Rightarrow> route option" where
  "routes_after (OpSet r) m = m(rt_domain r \<mapsto> r)"
| "routes_after (OpRemove d) m = m(d := None)"
| "routes_after _ m = m"

fun staged_after :: "route_op \<Rightarrow> string set \<Rightarrow> string set" where
  "staged_after (OpStage h _) S = insert h S"
| "staged_after (OpUnstage h) S = S - {h}"
| "staged_after _ S = S"

text \<open>A sequence of operations, and which of them succeeded.\<close>

fun runs :: "(route_op \<Rightarrow> 's \<Rightarrow> bool \<times> 's) \<Rightarrow> route_op list \<Rightarrow> 's \<Rightarrow> bool list \<times> 's" where
  "runs act [] s = ([], s)"
| "runs act (x # xs) s = (case act x s of (b, s1) \<Rightarrow> case runs act xs s1 of (bools, s2) \<Rightarrow> (b # bools, s2))"

fun succeeded :: "route_op list \<Rightarrow> bool list \<Rightarrow> route_op list" where
  "succeeded (x # xs) (b # bools) = (if b then [x] else []) @ succeeded xs bools"
| "succeeded _ _ = []"

text \<open>A router: it runs an operation, and its tables follow exactly when that succeeded.\<close>

locale router_contract =
  fixes rts :: "'s \<Rightarrow> string \<Rightarrow> route option" and stg :: "'s \<Rightarrow> string set" and act :: "route_op \<Rightarrow> 's \<Rightarrow> bool \<times> 's"
  assumes done_law: "act x s = (True, s') \<Longrightarrow> rts s' = routes_after x (rts s) \<and> stg s' = staged_after x (stg s)"
    and undone_law: "act x s = (False, s') \<Longrightarrow> rts s' = rts s \<and> stg s' = stg s"
begin

lemma runs_tables:
  "runs act xs s = (bools, s') \<Longrightarrow>
     rts s' = fold routes_after (succeeded xs bools) (rts s) \<and> stg s' = fold staged_after (succeeded xs bools) (stg s)"
proof (induction xs arbitrary: s bools)
  case Nil
  then show ?case by simp
next
  case (Cons x xs)
  obtain b s1 cs where "act x s = (b, s1)" "runs act xs s1 = (cs, s')" "bools = b # cs"
    using Cons.prems by (auto split: prod.splits)
  then show ?case using Cons.IH done_law undone_law by (cases b) auto
qed

end

definition caddy_op :: "'x env \<Rightarrow> route_op \<Rightarrow> ('x sys, unit res) state" where
  "caddy_op env x = (case x of
     OpEnsure \<Rightarrow> EnsureUp env
   | OpSet r \<Rightarrow> SetRoute env r
   | OpRemove d \<Rightarrow> RemoveRoute env d
   | OpStage h ups \<Rightarrow> SetStaging env h ups
   | OpUnstage h \<Rightarrow> RemoveStaging env h
   | OpReload \<Rightarrow> Reload env)"

definition caddy_act :: "'x env \<Rightarrow> route_op \<Rightarrow> 'x sys \<Rightarrow> bool \<times> 'x sys" where
  "caddy_act env x s = (case run_state (caddy_op env x) s of (r, s') \<Rightarrow> (\<not> is_err r, s'))"

definition fake_act :: "route_op \<Rightarrow> fake_router \<Rightarrow> bool \<times> fake_router" where
  "fake_act x f = (case (case x of
       OpEnsure \<Rightarrow> FakeRouter_EnsureUp f
     | OpSet r \<Rightarrow> FakeRouter_SetRoute r f
     | OpRemove d \<Rightarrow> FakeRouter_RemoveRoute d f
     | OpStage h ups \<Rightarrow> FakeRouter_SetStaging h ups f
     | OpUnstage h \<Rightarrow> FakeRouter_RemoveStaging h f
     | OpReload \<Rightarrow> FakeRouter_Reload f) of (e, f') \<Rightarrow> (e = None, f'))"

lemma caddy_op_tables:
  assumes run: "run_state (caddy_op env x) s = (r, s')"
  shows "(case r of
       Inl e \<Rightarrow> routes s' = routes s \<and> staging s' = staging s
     | Inr _ \<Rightarrow> map_of (routes s') = routes_after x (map_of (routes s)) \<and>
         dom (map_of (staging s')) = staged_after x (dom (map_of (staging s))))"
proof (cases x)
  case OpEnsure
  then show ?thesis using presD [OF pres_EnsureUp] run by (auto simp: caddy_op_def edge_quiet_def split: sum.splits)
next
  case OpReload
  then show ?thesis using presD [OF pres_Reload] run by (auto simp: caddy_op_def edge_quiet_def split: sum.splits)
next
  case (OpSet rt)
  then show ?thesis using commitsD [OF commits_SetRoute] run
    by (fastforce simp: caddy_op_def update_conv' split: sum.splits)
next
  case (OpRemove d)
  then show ?thesis using commitsD [OF commits_RemoveRoute] run
    by (fastforce simp: caddy_op_def delete_conv' split: sum.splits)
next
  case (OpStage h ups)
  then show ?thesis using commitsD [OF commits_SetStaging] run
    by (fastforce simp: caddy_op_def update_conv' split: sum.splits)
next
  case (OpUnstage h)
  then have "run_state (RemoveStaging env h) s = (r, s')" using run by (simp add: caddy_op_def)
  from commitsD [OF commits_RemoveStaging this] OpUnstage show ?thesis
    by (cases r) (simp_all add: delete_conv')
qed

interpretation caddy: router_contract "\<lambda>s. map_of (routes s)" "\<lambda>s. dom (map_of (staging s))" "caddy_act env" for env
proof unfold_locales
  fix x and s s' :: "'a sys" and b
  obtain r s1 where r: "run_state (caddy_op env x) s = (r, s1)" by fastforce
  note t = caddy_op_tables [OF r]
  show "map_of (routes s') = routes_after x (map_of (routes s)) \<and>
      dom (map_of (staging s')) = staged_after x (dom (map_of (staging s)))" if "caddy_act env x s = (True, s')"
    using t r that by (cases r) (simp_all add: caddy_act_def)
  show "map_of (routes s') = map_of (routes s) \<and> dom (map_of (staging s')) = dom (map_of (staging s))"
    if "caddy_act env x s = (False, s')"
    using t r that by (cases r) (simp_all add: caddy_act_def)
qed

lemma fake_act_tables:
  "fake_act x f = (b, f') \<Longrightarrow>
     (if b then map_of (fr_routes f') = routes_after x (map_of (fr_routes f)) \<and>
        dom (map_of (fr_staging f')) = staged_after x (dom (map_of (fr_staging f)))
      else map_of (fr_routes f') = map_of (fr_routes f) \<and> dom (map_of (fr_staging f')) = dom (map_of (fr_staging f)))"
  by (cases x) (auto simp: fake_act_def FakeRouter_EnsureUp_def FakeRouter_SetRoute_def FakeRouter_RemoveRoute_def
      FakeRouter_SetStaging_def FakeRouter_RemoveStaging_def FakeRouter_Reload_def note_route_def Let_def
      update_conv' delete_conv' split: option.splits if_splits)

interpretation fake_edge: router_contract "\<lambda>f. map_of (fr_routes f)" "\<lambda>f. dom (map_of (fr_staging f))" fake_act
  by unfold_locales (use fake_act_tables in \<open>metis (full_types)\<close>)+


text \<open>
  Seeding is where they part: \<open>CaddyRouter.SeedRoutes\<close> replaces the routes, as the interface says, and
  the double adds to the ones it has.
\<close>

lemma seeding_differs:
  assumes "map_of (fr_routes f) d = Some r" "d \<notin> rt_domain ` set rs"
  shows "map_of (fr_routes (FakeRouter_SeedRoutes rs f)) d = Some r \<and>
     map_of (routes (snd (run_state (SeedRoutes rs) s))) d = None"
proof -
  have "map_of (fold (\<lambda>r m. AList.update (rt_domain r) r m) rs m) d = map_of m d" for m :: "(string \<times> route) list"
    using assms(2) by (induction rs arbitrary: m) (auto simp: update_conv')
  then show ?thesis using assms(1) by (simp add: FakeRouter_SeedRoutes_def SeedRoutes_def note_route_def)
qed

section \<open>The doubles keep the contract of a deploy\<close>

text \<open>An environment of doubles: one node for each reference, one composer, one git, one builder.\<close>

record fakes =
  fk_node :: "node_ref \<Rightarrow> fake_node"
  fk_compose :: fake_compose
  fk_git :: fake_git
  fk_build :: fake_builder

definition on_node :: "node_ref \<Rightarrow> (fake_node \<Rightarrow> 'r \<times> fake_node) \<Rightarrow> (fakes, 'r) op" where
  "on_node n g w = (case g (fk_node w n) of (r, f) \<Rightarrow> (r, 0, w\<lparr>fk_node := (fk_node w)(n := f)\<rparr>))"

definition on_compose :: "(fake_compose \<Rightarrow> 'r \<times> fake_compose) \<Rightarrow> (fakes, 'r) op" where
  "on_compose g w = (case g (fk_compose w) of (r, f) \<Rightarrow> (r, 0, w\<lparr>fk_compose := f\<rparr>))"

definition on_git :: "(fake_git \<Rightarrow> 'r \<times> fake_git) \<Rightarrow> (fakes, 'r) op" where
  "on_git g w = (case g (fk_git w) of (r, f) \<Rightarrow> (r, 0, w\<lparr>fk_git := f\<rparr>))"

definition on_builder :: "(fake_builder \<Rightarrow> 'r \<times> fake_builder) \<Rightarrow> (fakes, 'r) op" where
  "on_builder g w = (case g (fk_build w) of (r, f) \<Rightarrow> (r, 0, w\<lparr>fk_build := f\<rparr>))"

definition fake_ops :: "node_ref \<Rightarrow> fakes node_ops" where
  "fake_ops n = \<lparr>n_ping = on_node n fake_Ping, n_ensure_image = (\<lambda>ref. on_node n (fake_EnsureImage ref)),
     n_ensure_network = (\<lambda>net. on_node n (fake_EnsureNetwork net)), n_run = (\<lambda>sp. on_node n (fake_RunContainer sp)),
     n_remove = (\<lambda>cid. on_node n (fake_RemoveContainer cid)), n_list = (\<lambda>ls. on_node n (fake_ListContainers ls)),
     n_container_health = (\<lambda>cid. on_node n (fake_ContainerHealth cid)),
     n_connect = (\<lambda>cid net. on_node n (fake_Connect cid net)), n_present = (\<lambda>ref. on_node n (fake_ImagePresent ref)),
     n_save = (\<lambda>ref. on_node n (fake_SaveImage ref)), n_load = (\<lambda>tar. on_node n (fake_LoadImage tar)),
     n_capacity = on_node n fake_Capacity\<rparr>"

text \<open>What no double stands for - Caddy's admin API, files, SQLite, ssh, the cipher - answers at once.\<close>

definition at_once :: "(fakes, goerr option) op" where
  "at_once w = (None, 0, w)"

definition says :: "'a \<Rightarrow> (fakes, 'a res) op" where
  "says a w = (Inr a, 0, w)"

definition fake_env :: "fakes env" where
  "fake_env = \<lparr>node_at = fake_ops, new_ssh = (\<lambda>_. at_once), caddy_load = (\<lambda>_. says 200), caddy_config = says 200,
     caddy_probe = (\<lambda>_ _. says 200), has_data_dir = True, make_data_dir = at_once, write_caddyfile = (\<lambda>_. at_once),
     db_fault = (\<lambda>_. at_once), ctx_done = at_once, has_reach = True, has_nudge = True, temp_create = says ''/tmp/x'',
     temp_write = (\<lambda>_ _. at_once), temp_close = (\<lambda>_. at_once), file_remove = (\<lambda>_. at_once),
     read_file = (\<lambda>_. says ''services:''), mkdir_temp = says ''/tmp/clone'', remove_all = (\<lambda>_. at_once),
     compose_up = (\<lambda>p f v. on_compose (fake_Up p f v)), compose_down = (\<lambda>p f v. on_compose (fake_Down p f v)),
     compose_service = (\<lambda>p srv. on_compose (fake_ServiceContainer p srv)),
     git_clone = (\<lambda>u r d. on_git (fake_Clone u r d)), image_exists = (\<lambda>t. on_builder (fake_ImageExists t)),
     image_build = (\<lambda>c d t. on_builder (fake_Build c d t)), key_read = says (Some (replicate 32 CHR ''k'')),
     key_mkdir = at_once, key_write = (\<lambda>_. at_once), rand_bytes = (\<lambda>n. says (replicate n CHR ''r'')),
     gcm_seal = (\<lambda>_ _ p. rev p), gcm_open = (\<lambda>_ _ c. Inr (rev c)), cipher_key = replicate 32 CHR ''k'',
     container_logs = (\<lambda>cid _. on_node LocalNode (fake_ContainerLogs cid)), heal_max = 5, failover_grace = 0\<rparr>"

text \<open>No test has told a double to fail.\<close>

definition obedient :: "fake_node \<Rightarrow> bool" where
  "obedient f = (fn_ensure_err f = None \<and> fn_run_err f = None \<and> fn_save_err f = None \<and> fn_load_err f = None \<and>
     fn_ping_err f = None \<and> fn_ping_func f = None \<and> fn_present_err f = None \<and> fn_cap_err f = None \<and>
     fn_health_state f \<in> {[], ''running''} \<and> fn_docker_health f = [] \<and> fn_docker_seq f = [] \<and> \<not> k_known (fn_cap f))"

definition willing :: "fakes \<Rightarrow> bool" where
  "willing w = ((\<forall>n. obedient (fk_node w n)) \<and> fc_up_err (fk_compose w) = None \<and> fc_service_err (fk_compose w) = None \<and>
     fg_err (fk_git w) = None \<and> fb_build_err (fk_build w) = None \<and> fb_exists_err (fk_build w) = None)"

fun remembers :: "fact \<Rightarrow> fakes \<Rightarrow> bool" where
  "remembers (Up n cid) w = (map_of (fn_items (fk_node w n)) cid \<noteq> None)"
| "remembers (Has n ref) w = (map_of (fn_images (fk_node w n)) ref = Some True)"
| "remembers (Used n cid) w = (\<forall>k. fn_seq (fk_node w n) < k \<longrightarrow> cid \<noteq> fake_id k)"

definition tarred :: "string \<Rightarrow> string \<Rightarrow> bool" where
  "tarred ref tar = (tar = fakeImageTarPrefix @ ref)"

text \<open>A call of one node's double: what it has to keep, for the environment to keep the contract.\<close>

lemma obeys_on_node:
  assumes "\<And>f r f'. obedient f \<Longrightarrow> g f = (r, f') \<Longrightarrow> obedient f' \<and>
      (\<forall>w. fk_node w n = f \<longrightarrow> Q w r) \<and> (\<forall>w. fk_node w n = f' \<longrightarrow> (\<forall>p \<in> A r. remembers p w)) \<and>
      (\<forall>cid. Up n cid \<notin> D \<and> map_of (fn_items f) cid \<noteq> None \<longrightarrow> map_of (fn_items f') cid \<noteq> None) \<and>
      (\<forall>ref. map_of (fn_images f) ref = Some True \<longrightarrow> map_of (fn_images f') ref = Some True) \<and> fn_seq f \<le> fn_seq f'"
  shows "obeys willing remembers Q A D (on_node n g)"
  unfolding obeys_def
proof (intro allI impI)
  fix w
  assume w: "willing w"
  obtain r f' where g: "g (fk_node w n) = (r, f')" by fastforce
  note a = assms [OF _ g]
  have ob: "obedient (fk_node w m)" for m using w by (simp add: willing_def)
  let ?v = "w\<lparr>fk_node := (fk_node w)(n := f')\<rparr>"
  have "remembers p ?v" if "p \<notin> D" "remembers p w" for p
    using a [OF ob] that by (cases p) auto
  moreover have "willing ?v" using w a [OF ob] by (simp add: willing_def)
  ultimately show "case on_node n g w of (r, dt, y) \<Rightarrow>
      willing y \<and> Q w r \<and> (\<forall>p \<in> A r. remembers p y) \<and> (\<forall>p. p \<notin> D \<and> remembers p w \<longrightarrow> remembers p y)"
    using a [OF ob] g by (simp add: on_node_def)
qed

lemma obeys_at_once: "(\<And>w. Q w None) \<Longrightarrow> obeys willing remembers Q (\<lambda>_. {}) {} at_once"
  by (simp add: obeys_def at_once_def)

lemma obeys_says: "(\<And>w. Q w (Inr a)) \<Longrightarrow> obeys willing remembers Q (\<lambda>_. {}) {} (says a)"
  by (simp add: obeys_def says_def)

lemmas node_doubles =
  fake_Ping_def fake_EnsureImage_def fake_EnsureNetwork_def fake_RemoveContainer_def fake_ListContainers_def
  fake_Connect_def fake_ImagePresent_def fake_SaveImage_def fake_Capacity_def note_call_def obedient_def

lemma obeys_run:
  "obeys willing remembers (\<lambda>x. answers (\<lambda>c. \<not> remembers (Used n (c_id c)) x) x)
     (\<lambda>r. case r of Inl _ \<Rightarrow> {} | Inr c \<Rightarrow> {Up n (c_id c)}) {} (on_node n (fake_RunContainer sp))"
  by (rule obeys_on_node)
     (auto simp: fake_RunContainer_def fake_container_def note_call_def obedient_def Let_def answers_def update_conv')

lemma obeys_load:
  "tarred ref tar \<Longrightarrow> obeys willing remembers works (\<lambda>_. {Has n ref}) {} (on_node n (fake_LoadImage tar))"
  by (rule obeys_on_node)
     (auto simp: fake_LoadImage_def note_call_def obedient_def Let_def works_def tarred_def update_conv' fakeImageTarPrefix_def)

lemma obeys_health:
  "obeys willing remembers (\<lambda>x r. remembers (Up n cid) x \<longrightarrow> r = Inr (''running'', [])) (\<lambda>_. {}) {}
     (on_node n (fake_ContainerHealth cid))"
  by (rule obeys_on_node) (auto simp: fake_ContainerHealth_def note_call_def obedient_def Let_def)

lemma obeys_simple_calls:
  "obeys willing remembers works (\<lambda>_. {}) {} (on_node n fake_Ping)"
  "obeys willing remembers works (\<lambda>_. {}) {} (on_node n (fake_EnsureImage ref))"
  "obeys willing remembers works (\<lambda>_. {}) {} (on_node n (fake_EnsureNetwork net))"
  "obeys willing remembers works (\<lambda>_. {}) {} (on_node n (fake_Connect cid net))"
  "obeys willing remembers works (\<lambda>_. {}) {Up n cid} (on_node n (fake_RemoveContainer cid))"
  "obeys willing remembers (answers (\<lambda>_. True)) (\<lambda>_. {}) {} (on_node n (fake_ListContainers ls))"
  "obeys willing remembers (answers (tarred ref)) (\<lambda>_. {}) {} (on_node n (fake_SaveImage ref))"
  "obeys willing remembers (answers (\<lambda>c. \<forall>req. True \<longrightarrow> roomy c req)) (\<lambda>_. {}) {} (on_node n fake_Capacity)"
  "obeys willing remembers (\<lambda>x. answers (\<lambda>b. remembers (Has n ref) x \<longrightarrow> b) x) (\<lambda>_. {}) {} (on_node n (fake_ImagePresent ref))"
  by (rule obeys_on_node; auto simp: node_doubles works_def answers_def tarred_def roomy_def delete_conv')+

lemma obeys_tools:
  "obeys willing remembers works (\<lambda>_. {}) {} (on_compose (fake_Up p f v))"
  "obeys willing remembers (answers (\<lambda>_. True)) (\<lambda>_. {}) {} (on_compose (fake_ServiceContainer p srv))"
  "obeys willing remembers (answers (\<lambda>_. True)) (\<lambda>_. {}) {} (on_git (fake_Clone u rf dir))"
  "obeys willing remembers (answers (\<lambda>_. True)) (\<lambda>_. {}) {} (on_builder (fake_ImageExists tag))"
  "obeys willing remembers works (\<lambda>_. {}) {} (on_builder (fake_Build c d tag))"
proof -
  have same: "fk_node w = fk_node v \<Longrightarrow> remembers p w = remembers p v" for p w v by (cases p) simp_all
  note defs = obeys_def on_compose_def on_git_def on_builder_def willing_def works_def answers_def
    fake_Up_def fake_ServiceContainer_def fake_Clone_def fake_ImageExists_def fake_Build_def
  show "obeys willing remembers works (\<lambda>_. {}) {} (on_compose (fake_Up p f v))"
    "obeys willing remembers (answers (\<lambda>_. True)) (\<lambda>_. {}) {} (on_compose (fake_ServiceContainer p srv))"
    "obeys willing remembers (answers (\<lambda>_. True)) (\<lambda>_. {}) {} (on_git (fake_Clone u rf dir))"
    "obeys willing remembers (answers (\<lambda>_. True)) (\<lambda>_. {}) {} (on_builder (fake_ImageExists tag))"
    "obeys willing remembers works (\<lambda>_. {}) {} (on_builder (fake_Build c d tag))"
    by (auto simp: defs elim: same [THEN iffD1, rotated])
qed

lemma fake_calls:
  "node_at fake_env = fake_ops" "new_ssh fake_env = (\<lambda>_. at_once)" "caddy_load fake_env = (\<lambda>_. says 200)"
  "caddy_config fake_env = says 200" "caddy_probe fake_env = (\<lambda>_ _. says 200)" "make_data_dir fake_env = at_once"
  "write_caddyfile fake_env = (\<lambda>_. at_once)" "db_fault fake_env = (\<lambda>_. at_once)" "ctx_done fake_env = at_once"
  "temp_create fake_env = says ''/tmp/x''" "temp_write fake_env = (\<lambda>_ _. at_once)" "temp_close fake_env = (\<lambda>_. at_once)"
  "file_remove fake_env = (\<lambda>_. at_once)" "read_file fake_env = (\<lambda>_. says ''services:'')"
  "mkdir_temp fake_env = says ''/tmp/clone''" "remove_all fake_env = (\<lambda>_. at_once)"
  "compose_up fake_env = (\<lambda>p f v. on_compose (fake_Up p f v))"
  "compose_service fake_env = (\<lambda>p srv. on_compose (fake_ServiceContainer p srv))"
  "git_clone fake_env = (\<lambda>u r d. on_git (fake_Clone u r d))" "image_exists fake_env = (\<lambda>t. on_builder (fake_ImageExists t))"
  "image_build fake_env = (\<lambda>c d t. on_builder (fake_Build c d t))"
  by (simp_all add: fake_env_def)

interpretation doubles: obliging fake_env willing remembers "[]" tarred "\<lambda>_. True"
  by unfold_locales
     (simp_all only: fake_calls fake_ops_def node_ops.simps,
      (rule obeys_run obeys_load obeys_health obeys_simple_calls obeys_tools obeys_at_once obeys_says
        | assumption | simp add: works_def answers_def)+)

section \<open>A deploy on the doubles\<close>

text \<open>Fresh doubles, and an app that leaves its node open, wants two replicas and has a secret.\<close>

definition new_fakes :: fakes where
  "new_fakes = \<lparr>fk_node = (\<lambda>_. NewFake), fk_compose = new_compose, fk_git = new_git, fk_build = new_builder\<rparr>"

definition trial_app :: app where
  "trial_app = \<lparr>a_name = ''shop'', a_image = ''shop:1'', a_domain = ''shop.test'', a_port = 80, a_node = [], a_pool = [],
     a_env = [], a_secrets = [''KEY''], a_health = \<lparr>h_path = [], h_timeout = 0, h_raw_timeout = []\<rparr>, a_replicas = 2, a_requirements = None,
     a_compose = [], a_service = [], a_git = None, a_services = [], a_build = None, a_surfaces = []\<rparr>"

definition trial_sys :: "fakes sys" where
  "trial_sys = \<lparr>ext = new_fakes, clock = 1000, trace = [],
     sdb = sql_set_secret ''shop'' ''KEY'' (replicate 12 CHR ''r'' @ ''t3rc3s'') empty_db, routes = [], staging = [],
     acked = None, on_disk = None, remotes = [], heals = [], unreachable_since = [],
     health_view = \<lparr>he_nodes = [], he_edge = \<lparr>eh_reachable = False, eh_updated = 0\<rparr>, he_apps = []\<rparr>,
     nudged = False\<rparr>"

lemma trial_ready:
  "willing (ext trial_sys)" "Validate trial_app = None" "placed (sdb trial_sys) trial_app"
  "secrets_set fake_env (sdb trial_sys) trial_app" "wf_db (sdb trial_sys)"
proof -
  show "willing (ext trial_sys)"
    by (simp add: trial_sys_def new_fakes_def willing_def obedient_def NewFake_def new_compose_def new_git_def new_builder_def no_capacity_def)
  show "Validate trial_app = None" by code_simp
  have "placeable (sdb trial_sys) trial_app ''local''" by (simp add: placeable_def poolOf_def trial_app_def)
  then show "placed (sdb trial_sys) trial_app" by (auto simp: placed_def trial_app_def)
  show "secrets_set fake_env (sdb trial_sys) trial_app" by code_simp
  show "wf_db (sdb trial_sys)" by (simp add: wf_db_def wf_map_def trial_sys_def empty_db_def sql_set_secret_def)
qed

lemma caddy_op_sure: "sure (holding willing remembers R {}) (caddy_op fake_env x) (\<lambda>_. holding willing remembers R {})"
  by (cases x) (simp_all add: caddy_op_def doubles.mutators_sure doubles.EnsureUp_sure)

lemma caddy_runs:
  "holding willing remembers R {} s \<Longrightarrow> fst (runs (caddy_act fake_env) xs s) = replicate (length xs) True"
proof (induction xs arbitrary: s)
  case (Cons x xs)
  obtain r s1 where r: "run_state (caddy_op fake_env x) s = (r, s1)" by fastforce
  obtain v where "r = Inr v" "holding willing remembers R {} s1"
    using hoare_run [OF caddy_op_sure [unfolded sure_def] Cons.prems r] by (auto split: sum.splits)
  then have "caddy_act fake_env x s = (True, s1)" using r by (simp add: caddy_act_def)
  moreover have "fst (runs (caddy_act fake_env) xs s1) = replicate (length xs) True"
    by (rule Cons.IH) (rule \<open>holding willing remembers R {} s1\<close>)
  ultimately show ?case by (simp add: case_prod_beta)
qed simp

definition trial_ops :: "route_op list" where
  "trial_ops = [OpEnsure, OpSet \<lparr>rt_domain = ''a.test'', rt_upstreams = [\<lparr>u_host = ''lwd-a-1'', u_port = 80\<rparr>], rt_tls_internal = False\<rparr>,
     OpStage ''stage-2.lwd.internal'' [], OpRemove ''b.test'', OpReload]"

lemma trial_length: "length trial_ops = 5"
  by (simp add: trial_ops_def)


end
