(* ===== verification/Recovery.thy ===== *)
theory Recovery
  imports Progress Healing
begin

text \<open>
  That healing heals: in the environment of \<open>Progress\<close>, an attempt that the backoff lets through
  replaces the dead replicas of a deployment (\<open>tryHealReplicas\<close>, \<open>healDeadReplicasLocked\<close>).
\<close>

section \<open>What a heal needs\<close>

text \<open>The dead replicas are in range, on registered nodes, and every container of the set has been seen before.\<close>

definition healable :: "(fact \<Rightarrow> 'x \<Rightarrow> bool) \<Rightarrow> replica list \<Rightarrow> nat list \<Rightarrow> 'x sys \<Rightarrow> bool" where
  "healable holds reps dead s = (distinct dead \<and> dead \<noteq> [] \<and>
     list_all (\<lambda>k. k < length reps \<and> known (or_local (x_node (reps ! k))) (sdb s)) dead \<and>
     list_all (\<lambda>rep. \<forall>n. holds (Used n (x_container rep)) (ext s)) reps)"

definition used_ids :: "replica list \<Rightarrow> fact set" where
  "used_ids reps = {Used n (x_container rep) | n rep. rep \<in> set reps}"

definition created_ups :: "recreated list \<Rightarrow> fact set" where
  "created_ups rcs = (\<lambda>rc. Up (rc_node rc) (rc_id rc)) ` set rcs"

context obliging
begin

section \<open>Recreating\<close>

lemma ready_sure:
  "known n t \<Longrightarrow> sure (ok ((=) t) F) (ready_node env img n) (\<lambda>_. ok ((=) t) F)"
  unfolding ready_node_def
  by (intro sure_attempts [OF ResolveMeta_sure] sure_attempts [OF simple_call [OF network_law]]
      sure_attempts [OF image_sure] sure_ret)

lemma run_replica_sure:
  "hoare (ok R F) (run_replica env a vars d cnt i tg)
     (\<lambda>r s. \<exists>c rep. r = Inr (c, rep) \<and> Used (tg_node tg) (c_id c) \<notin> F \<and> ok R (insert (Up (tg_node tg) (c_id c)) F) s)"
proof -
  have net: "sure (ok R G) (if backing_network a \<noteq> [] then call_unit (n_connect (node_at env n) c (backing_network a))
      else ret (Inr ())) (\<lambda>_. ok R G)" for n c G
    by (auto intro: simple_call [OF connect_law] sure_ret)
  show ?thesis
    unfolding run_replica_def
    apply (rule sure_bind [OF run_fresh], rule hoare_pure, simp only: sum.case)
    by (rule sure_bind [OF net], rule hoare_ret) auto
qed

lemma recreate_sure:
  assumes "i < length reps" "known (or_local (x_node (reps ! i))) t" "\<And>n. Up n (x_container (reps ! i)) \<notin> F"
  shows "hoare (ok ((=) t) F) (recreate env a name vars d reps i)
     (\<lambda>r s. \<exists>rc rep. r = Inr (rc, rep) \<and> Used (rc_node rc) (rc_id rc) \<notin> F \<and>
        ok ((=) t) (insert (Up (rc_node rc) (rc_id rc)) F) s)"
proof -
  have rm: "hoare (ok R F) (if x_container (reps ! i) \<noteq> [] then ignore (RemoveContainer env n (x_container (reps ! i))) else ret ())
      (\<lambda>_. ok R F)" for n R
    by (auto intro: hoare_ret sure_ignore [OF remove_sure [OF assms(3)]])
  show ?thesis
    unfolding recreate_def Let_def using assms(1)
    apply (simp only: not_le [symmetric] if_False)
    apply (rule sure_bind [OF ready_sure [OF assms(2)]], simp only: sum.case)
    apply (rule hoare_bind [OF rm])
    apply (rule hoare_bind [OF run_replica_sure])
    apply (rule hoareI)
    by (auto simp: target_of_def)
qed

text \<open>A container just started is none of those the set had, so no later removal of the pass takes it.\<close>

lemma recreate_all_sure:
  assumes "distinct is" "\<And>k. k \<in> set is \<Longrightarrow> k < length reps \<and> known (or_local (x_node (reps ! k))) t"
    and "\<And>k. k \<in> set is \<Longrightarrow> reps ! k \<in> set old" and "\<And>n rep. rep \<in> set old \<Longrightarrow> Up n (x_container rep) \<notin> F"
    and "used_ids old \<subseteq> F"
  shows "hoare (ok ((=) t) F) (recreate_all env a name vars d is reps created fresh)
     (\<lambda>(err, created', reps', fresh') s. err = None \<and>
        (\<exists>cs. created' = created @ cs \<and> ok ((=) t) (F \<union> created_ups cs) s))"
  using assms
proof (induction "is" arbitrary: reps created fresh F)
  case Nil
  then show ?case by (simp add: hoare_ret created_ups_def)
next
  case (Cons i ks)
  have first: "i < length reps" "known (or_local (x_node (reps ! i))) t" "\<And>n. Up n (x_container (reps ! i)) \<notin> F"
    using Cons.prems(2-4) by auto
  show ?case
    unfolding recreate_all.simps
  proof (rule hoare_bind [OF recreate_sure [OF first]])
    show "hoare (\<lambda>s. \<exists>rc rep. r = Inr (rc, rep) \<and> Used (rc_node rc) (rc_id rc) \<notin> F \<and>
          ok ((=) t) (insert (Up (rc_node rc) (rc_id rc)) F) s)
        (case r of Inl (e, cs) \<Rightarrow> ret (Some e, created @ cs, reps, fresh)
         | Inr (rc, rep) \<Rightarrow> recreate_all env a name vars d ks (reps[i := rep]) (created @ [rc]) (fresh @ [rep]))
        (\<lambda>(err, created', reps', fresh') s. err = None \<and>
          (\<exists>cs. created' = created @ cs \<and> ok ((=) t) (F \<union> created_ups cs) s))" (is "hoare ?P _ ?Q") for r
    proof (cases "\<exists>rc rep. r = Inr (rc, rep) \<and> Used (rc_node rc) (rc_id rc) \<notin> F")
      case False
      then show ?thesis by (auto intro: hoare_False)
    next
      case True
      then obtain rc rep where r: "r = Inr (rc, rep)" "Used (rc_node rc) (rc_id rc) \<notin> F" by blast
      let ?F = "insert (Up (rc_node rc) (rc_id rc)) F"
      have "hoare (ok ((=) t) ?F) (recreate_all env a name vars d ks (reps[i := rep]) (created @ [rc]) (fresh @ [rep])) ?Q"
      proof (rule hoare_post [OF Cons.IH])
        show "distinct ks" using Cons.prems(1) by simp
        show "k < length (reps[i := rep]) \<and> known (or_local (x_node (reps[i := rep] ! k))) t" if "k \<in> set ks" for k
          using Cons.prems(1,2) that by (cases "k = i") auto
        show "reps[i := rep] ! k \<in> set old" if "k \<in> set ks" for k
          using Cons.prems(1,3) that by (cases "k = i") auto
        show "Up n (x_container rp) \<notin> ?F" if "rp \<in> set old" for n rp
        proof -
          have "Used n (x_container rp) \<in> F" using Cons.prems(5) that by (fastforce simp: used_ids_def)
          then show ?thesis using Cons.prems(4) [OF that] r(2) by auto
        qed
        show "used_ids old \<subseteq> ?F" using Cons.prems(5) by blast
      qed (auto simp: created_ups_def insert_commute intro!: exI [of _ "rc # _"])
      then show ?thesis using r by simp
    qed
  qed
qed

lemma check_recreated_sure:
  "created_ups rcs \<subseteq> F \<Longrightarrow> sure (ok R F) (check_recreated env a h rcs) (\<lambda>_. ok R F)"
  by (induction rcs) (auto simp: created_ups_def intro!: sure_ret sure_attempts [OF checkHealth_sure])

lemma heal_live_sure:
  assumes "created_ups created \<subseteq> F"
  shows "sure (ok R F) (heal_live env cur a h created reps fresh) (\<lambda>_. fine)"
  unfolding heal_live_def
  apply (rule sure_attempts [OF mutators_sure(3)])
  apply (rule sure_attempts [OF check_recreated_sure [OF assms]])
  apply (rule sure_attempts [OF mutators_sure(1)])
  apply (rule sure_binds [OF sure_ignore [OF mutators_sure(4)]])
  unfolding UpdateReplicas_def
  by (intro sure_attempts [where Q = "\<lambda>_. fine"] sure_attempts [OF db_sure [of _ "\<lambda>_. True"]] sure_pure sure_ret)
     (auto elim: ok_fine)

text \<open>Seen before the heal, the old containers' ids are never given again.\<close>

lemma heal_sure:
  assumes "healable holds (d_replicas cur) dead s" "good (ext s)" "secrets_set env (sdb s) a"
    and snap: "snapshot_app ''no spec snapshot to heal %q'' ''no image recorded to heal %q'' cur = Inr a"
    and run: "run_state (healDeadReplicasLocked env cur dead) s = (r, s')"
  shows "\<exists>d. r = Inr d \<and> fine s'"
proof -
  let ?t = "sdb s" and ?F = "used_ids (d_replicas cur)"
  have start: "ok ((=) ?t) ?F s" using assms(1,2) by (auto simp: holding_def healable_def used_ids_def list_all_iff)
  have id: "sure (ok ((=) ?t) ?F) (NextDeployID env) (\<lambda>_. ok ((=) ?t) ?F)"
    unfolding NextDeployID_def by (rule sure_attempts [OF db_sure [of "(=) ?t" "(=) ?t"]]) (auto intro!: sure_ret)
  have all: "hoare (ok ((=) ?t) ?F) (recreate_all env a name vars d dead (d_replicas cur) [] [])
     (\<lambda>(err, created', reps', fresh') u. err = None \<and> (\<exists>cs. created' = [] @ cs \<and> ok ((=) ?t) (?F \<union> created_ups cs) u))"
    for name vars d
    by (rule recreate_all_sure [where old = "d_replicas cur"])
       (use assms(1) in \<open>auto simp: healable_def list_all_iff used_ids_def\<close>)
  have live: "sure (\<lambda>u. case v of (err, created', reps', fresh') \<Rightarrow> err = None \<and> (\<exists>cs. created' = [] @ cs \<and>
        ok ((=) ?t) (?F \<union> created_ups cs) u))
      (case v of (err, created, reps, fresh) \<Rightarrow> case err of
         Some e \<Rightarrow> heal_failed env h created e | None \<Rightarrow> heal_live env cur a h created reps fresh) (\<lambda>_. fine)" for v h
  proof -
    obtain err cs reps fresh where v: "v = (err, cs, reps, fresh)" by (metis prod_cases4)
    show ?thesis
      by (cases err) (auto simp: v sure_def intro: hoare_False
        intro!: sure_pre [OF heal_live_sure [of cs "?F \<union> created_ups cs"], unfolded sure_def])
  qed
  have "d_spec cur \<noteq> SpecEmpty" using snap by (auto simp: snapshot_app_def restored_app_def)
  moreover have "dead \<noteq> []" using assms(1) by (simp add: healable_def)
  ultimately have "sure (ok ((=) ?t) ?F) (healDeadReplicasLocked env cur dead) (\<lambda>_. fine)"
    unfolding healDeadReplicasLocked_def using snap
    apply (simp only: if_False sum.case)
    apply (rule sure_attempts [OF Resolve_secrets_sure [OF assms(3)]])
    apply (rule sure_attempts [OF id])
    by (rule sure_binds [OF all]) (rule sure_pre [OF live], simp add: case_prod_beta)
  from hoare_run [OF this [unfolded sure_def] start run] show ?thesis by (cases r) auto
qed


section \<open>A due attempt heals\<close>

lemma current_sure:
  assumes "current_of app t = Some f"
  shows "sure (ok ((=) t) F) (CurrentDeployment env app) (\<lambda>v s. v = Some f \<and> ok ((=) t) F s)"
proof -
  have "scan_option (sql_last_with_status app StatusRunning t) = Inr (Some f)"
    using assms by (auto simp: current_of_def split: sum.splits)
  then show ?thesis
    unfolding CurrentDeployment_def
    by (intro sure_attempts [OF db_sure [of "(=) t" "(=) t"]]) (auto intro!: sure_pure sure_ret)
qed

lemma tryHeal_heals:
  assumes "good (ext s)" "current_of app (sdb s) = Some f" "d_id f = d_id cur"
    and "heal_verdict (heal_max env) (clock s) (phase app s) = None"
    and "healable holds (d_replicas f) dead s" "secrets_set env (sdb s) a"
    and snap: "snapshot_app ''no spec snapshot to heal %q'' ''no image recorded to heal %q'' f = Inr a"
    and run: "run_state (tryHealReplicas env app cur dead) s = (r, s')"
  shows "\<exists>n vars reps. r = Some (app_report app SurfaceHealthy None 0 n) \<and> map_of (heals s') app = None \<and>
     patched (a_image a) vars (new_events s s') dead (d_replicas f) reps \<and>
     routes s' = AList.update (a_domain a) (live_route a reps) (routes s) \<and>
     sdb s' = sql_update_replicas (d_id f) (replicasJSON reps) (x_container (hd reps)) (sdb s)"
proof -
  let ?t = "sdb s" and ?F = "used_ids (d_replicas f)"
  have start: "ok ((=) ?t) ?F s" using assms(1,5) by (auto simp: holding_def healable_def used_ids_def list_all_iff)
  obtain rf s1 where s1: "run_state (CurrentDeployment env app) s = (rf, s1)" by fastforce
  have ok1: "rf = Inr (Some f)" "ok ((=) ?t) ?F s1"
    using hoare_run [OF current_sure [OF assms(2), unfolded sure_def] start s1] by (auto split: sum.splits)
  have c1: "calm s s1" by (rule presD [OF pres_store_reads(1) s1])
  obtain h s2 where s2: "run_state (heal_entry app) s1 = (h, s2)" by fastforce
  have ph: "phase app s1 = phase app s" using c1 by (simp add: phase_def calm_def aside_def kept_def)
  have h: "h = phase app s" "map_of (heals s2) app = Some h" "s2\<lparr>heals := heals s1\<rparr> = s1"
    using heal_entry_run [OF s2] ph by auto
  define s3 where "s3 = s2\<lparr>heals := AList.map_entry app (\<lambda>h'. h'\<lparr>hl_attempts := hl_attempts h + 1\<rparr>) (heals s2)\<rparr>"
  obtain r4 s4 where s4: "run_state (healDeadReplicasLocked env f dead) s3 = (r4, s4)" by fastforce
  have e2: "ext s2 = ext s1" "sdb s2 = sdb s1" "routes s2 = routes s1" "trace s2 = trace s1" "clock s2 = clock s1"
    using arg_cong [OF h(3), of ext] arg_cong [OF h(3), of sdb] arg_cong [OF h(3), of routes]
      arg_cong [OF h(3), of trace] arg_cong [OF h(3), of clock] by simp_all
  have e3: "ext s3 = ext s1" "sdb s3 = sdb s" "routes s3 = routes s" "trace s3 = trace s1" "clock s3 = clock s1"
    using e2 c1 by (simp_all add: s3_def calm_def aside_def kept_def)
  have "healable holds (d_replicas f) dead s3"
    using assms(5) ok1(2) e3 by (auto simp: healable_def holding_def used_ids_def list_all_iff)
  moreover have "good (ext s3)" using ok1(2) e3 by (simp add: holding_def)
  ultimately obtain d where d: "r4 = Inr d" using heal_sure [OF _ _ _ snap s4] assms(6) e3 by auto
  have dk: "distinct dead" "dead \<noteq> []" using assms(5) by (simp_all add: healable_def)
  have hd: "healed env f dead s3 s4 d" using wp_run [OF heal_targeted [OF dk(1)] s4] d dk(2) by simp
  have due: "hl_attempts h < heal_max env" "\<not> clock s2 < hl_next h"
    using assms(4) h(1) e2(5) c1 by (auto simp: heal_verdict_def calm_def aside_def later_def split: if_splits)
  have out: "r = Some (app_report app SurfaceHealthy None 0 (clock s2))" "s' = s4\<lparr>heals := AList.delete app (heals s4)\<rparr>"
    using run s1 ok1(1) s2 assms(3) due s4 d
    by (auto simp: tryHealReplicas_def tryHealWith_def now_def set_heal_def resetHeal_def Let_def s3_def)
  obtain vars reps where p: "patched (a_image a) vars (new_events s3 s4) dead (d_replicas f) reps" "heal_flipped f a reps s3 s4"
    using hd snap by (auto simp: healed_def)
  have sub: "set (new_events s3 s4) \<subseteq> set (new_events s s')"
    using c1 e3(4) out(2) set_drop_subset_set_drop [of "length (trace s)" "length (trace s1)" "trace s4"]
    by (auto simp: new_events_def calm_def aside_def later_def prefix_def)
  show ?thesis
    using out patched_mono [OF p(1) sub] p(2) e3 by (auto simp: heal_flipped_def delete_conv')
qed

end


end
