(* ===== verification/Example.thy ===== *)
theory Example
  imports Agent Mcp Docker Tools Programs Migrations Remote Doubles Recovery
begin

text \<open>
  A concrete daemon, on which the theorems with hypotheses are applied: \<open>demo_env\<close> is a host whose
  Docker, Caddy, git and SQLite do what they are asked at once, with a toy cipher, and
  \<open>demo_sys\<close> a daemon that has just started on an empty database.
\<close>

definition succeeds :: "(unit, goerr option) op" where
  "succeeds x = (None, 1, x)"

definition gives :: "'a \<Rightarrow> (unit, 'a res) op" where
  "gives a x = (Inr a, 1, x)"

definition demo_container :: "run_spec \<Rightarrow> container" where
  "demo_container sp = \<lparr>c_id = ''id-'' @ r_name sp, c_name = r_name sp, c_image = r_image sp,
     c_state = ''running'', c_labels = r_labels sp, c_host_port = 49153, c_ip = ''172.18.0.7''\<rparr>"

definition demo_caddy :: container where
  "demo_caddy = \<lparr>c_id = ''id-caddy'', c_name = caddyContainerName, c_image = ''caddy:2'',
     c_state = ''running'', c_labels = [], c_host_port = 0, c_ip = ''172.18.0.2''\<rparr>"

definition demo_node :: "unit node_ops" where
  "demo_node = \<lparr>n_ping = succeeds, n_ensure_image = (\<lambda>_. succeeds), n_ensure_network = (\<lambda>_. succeeds),
     n_run = (\<lambda>sp. gives (demo_container sp)), n_remove = (\<lambda>_. succeeds), n_list = (\<lambda>_. gives [demo_caddy]),
     n_container_health = (\<lambda>_. gives (''running'', [])), n_connect = (\<lambda>_ _. succeeds),
     n_present = (\<lambda>_. gives True), n_save = (\<lambda>_. gives ''tar''), n_load = (\<lambda>_. succeeds),
     n_capacity = gives no_capacity\<rparr>"

definition demo_env :: "unit env" where
  "demo_env = \<lparr>node_at = (\<lambda>_. demo_node), new_ssh = (\<lambda>_. succeeds), caddy_load = (\<lambda>_. gives 200),
     caddy_config = gives 200, caddy_probe = (\<lambda>_ _. gives 200), has_data_dir = True,
     make_data_dir = succeeds, write_caddyfile = (\<lambda>_. succeeds), db_fault = (\<lambda>_. succeeds), ctx_done = succeeds,
     has_reach = True, has_nudge = True, temp_create = gives ''/tmp/x'', temp_write = (\<lambda>_ _. succeeds),
     temp_close = (\<lambda>_. succeeds), file_remove = (\<lambda>_. succeeds), read_file = (\<lambda>_. gives ''services:''),
     mkdir_temp = gives ''/tmp/clone'', remove_all = (\<lambda>_. succeeds), compose_up = (\<lambda>_ _ _. succeeds),
     compose_down = (\<lambda>_ _ _. succeeds), compose_service = (\<lambda>_ _. gives (''c1'', ''shop-web-1'')),
     git_clone = (\<lambda>_ _ _. gives ''0123456789abcdef''), image_exists = (\<lambda>_. gives False),
     image_build = (\<lambda>_ _ _. succeeds), key_read = gives (Some (replicate 32 CHR ''k'')), key_mkdir = succeeds,
     key_write = (\<lambda>_. succeeds), rand_bytes = (\<lambda>n. gives (replicate n CHR ''r'')),
     gcm_seal = (\<lambda>_ _ p. rev p), gcm_open = (\<lambda>_ _ c. Inr (rev c)), cipher_key = replicate 32 CHR ''k'',
     container_logs = (\<lambda>_ _. gives []), heal_max = 5, failover_grace = 0\<rparr>"

definition demo_sys :: "unit sys" where
  "demo_sys = \<lparr>ext = (), clock = 1000, trace = [], sdb = empty_db, routes = [], staging = [],
     acked = None, on_disk = None, remotes = [], heals = [], unreachable_since = [],
     health_view = \<lparr>he_nodes = [], he_edge = \<lparr>eh_reachable = False, eh_updated = 0\<rparr>, he_apps = []\<rparr>,
     nudged = False\<rparr>"

definition demo_row :: node_row where
  "demo_row = \<lparr>nd_name = ''n1'', nd_ssh_host = ''root@n1'', nd_mesh_addr = ''10.0.0.2'', nd_agent_url = [],
     nd_pool = ''edge'', nd_schedulable = True, nd_created = 900\<rparr>"

lemmas demo_defs = demo_env_def demo_sys_def demo_node_def demo_caddy_def succeeds_def gives_def

lemma wf_empty: "wf_db (sdb demo_sys)"
  by (simp add: demo_sys_def empty_db_def wf_db_def)

section \<open>Placement and configuration\<close>

definition demo_nodes :: "node_info list" where
  "demo_nodes = [\<lparr>i_name = ''n1'', i_pool = ''edge'', i_reachable = True, i_schedulable = True,
     i_cap = no_capacity\<lparr>k_cores := 4, k_mem_available := 2048, k_known := True\<rparr>\<rparr>,
   \<lparr>i_name = ''n2'', i_pool = ''edge'', i_reachable = True, i_schedulable = True,
     i_cap = no_capacity\<lparr>k_cores := 8, k_mem_available := 4096, k_known := True\<rparr>\<rparr>]"

lemma demo_place: "Place demo_nodes ''edge'' \<lparr>sr_cpu = 1, sr_mem = 1024\<rparr> = Inr ''n2''"
  by (simp add: Place_def demo_nodes_def in_pool_def fits_def better_def freeMem_def no_capacity_def Let_def)

lemma Place_sound_witness: "\<exists>c. c \<in> set demo_nodes \<and> i_name c = ''n2'' \<and> freeMem c = 4096"
proof -
  from Place_sound [OF demo_place] obtain c where "c \<in> set demo_nodes" "i_name c = ''n2''" by blast
  then have "c = demo_nodes ! 1" by (auto simp: demo_nodes_def)
  then have "c \<in> set demo_nodes \<and> i_name c = ''n2'' \<and> freeMem c = 4096" by (simp add: demo_nodes_def freeMem_def)
  then show ?thesis by (rule exI)
qed

lemma Place_order_independent_witness:
  "Place (rev demo_nodes) ''edge'' \<lparr>sr_cpu = 1, sr_mem = 1024\<rparr> = Inr ''n2''"
proof -
  have "mset demo_nodes = mset (rev demo_nodes)" "distinct (map i_name demo_nodes)"
    by (simp_all add: demo_nodes_def)
  from Place_order_independent [OF this] show ?thesis using demo_place by simp
qed

definition demo_routes :: "route list" where
  "demo_routes =
     [\<lparr>rt_domain = ''b.test'', rt_upstreams = [\<lparr>u_host = ''lwd-b-2'', u_port = 80\<rparr>], rt_tls_internal = False\<rparr>,
      \<lparr>rt_domain = ''a.test'', rt_upstreams = [\<lparr>u_host = ''10.0.0.2'', u_port = 49153\<rparr>,
         \<lparr>u_host = ''10.0.0.3'', u_port = 49154\<rparr>], rt_tls_internal = True\<rparr>]"

lemma GenerateCaddyfile_deterministic_witness:
  "GenerateCaddyfile adminAddr demo_routes = GenerateCaddyfile adminAddr (rev demo_routes)"
  by (rule GenerateCaddyfile_deterministic) (simp_all add: demo_routes_def)


section \<open>The database\<close>

definition demo_dep :: deployment where
  "demo_dep = \<lparr>d_id = 0, d_app = ''shop'', d_image = ''shop:1'', d_container = ''c1'', d_status = StatusRunning,
     d_created = 1000, d_spec = SpecEmpty, d_compose = [], d_scheduled = False, d_replicas = []\<rparr>"

lemma demo_record: "fst (run_state (RecordDeployment demo_env demo_dep) demo_sys) = Inr 1"
  by code_simp

lemma record_becomes_current_witness:
  "scan_option (sql_last_with_status ''shop'' StatusRunning
     (sdb (snd (run_state (RecordDeployment demo_env demo_dep) demo_sys)))) = Inr (Some (stored (demo_dep\<lparr>d_id := 1\<rparr>)))"
proof -
  have "run_state (RecordDeployment demo_env demo_dep) demo_sys =
      (Inr 1, snd (run_state (RecordDeployment demo_env demo_dep) demo_sys))"
    using demo_record by (metis prod.collapse)
  from record_becomes_current [OF wf_empty _ this] show ?thesis by (simp add: demo_dep_def)
qed

lemma AddNode_keeps_cordon_witness:
  "map_option nd_schedulable (sql_get_node ''n1'' (sdb (snd (run_state (AddNode demo_env demo_row) demo_sys)))) = Some True"
proof -
  have "fst (run_state (AddNode demo_env demo_row) demo_sys) = Inr ()" by code_simp
  then have "run_state (AddNode demo_env demo_row) demo_sys = (Inr (), snd (run_state (AddNode demo_env demo_row) demo_sys))"
    by (metis prod.collapse)
  from AddNode_keeps_cordon [OF this] show ?thesis
    by (simp add: demo_row_def demo_sys_def empty_db_def sql_get_node_def split: option.splits)
qed

definition demo_mig :: mig_env where
  "demo_mig = \<lparr>mq = (\<lambda>_. None), mx = (\<lambda>_. None), mr = (\<lambda>_ f. f)\<rparr>"

text \<open>A database file of the first release.\<close>

definition demo_file :: sqlite where
  "demo_file = [(''deployments'', \<lparr>t_cols = [''id'', ''app'', ''status''],
     t_rows = [[(''id'', SInt 1), (''app'', SText ''shop''), (''status'', SText ''running'')]]\<rparr>)]"

lemma demo_calm: "Migrations.calm demo_mig"
  by (simp add: Migrations.calm_def demo_mig_def)

lemma Open_upgrades_witness:
  "map_of (snd (run_state (Open demo_mig) demo_file)) ''deployments'' =
     Some (Migrations.extend dep_defaults (the (map_of demo_file ''deployments'')))"
proof -
  have "distinct (map fst demo_file)" by (simp add: demo_file_def)
  from Open_upgrades [OF demo_calm this] show ?thesis
    by (elim exE conjE) (simp add: table_or_new_def demo_file_def)
qed

lemma Open_twice_witness:
  "fst (run_state (Open demo_mig) (snd (run_state (Open demo_mig) demo_file))) = Inr ()"
  using Open_twice [OF demo_calm, of demo_file] by (simp add: demo_file_def)

section \<open>Secrets, nodes and containers\<close>

lemma demo_cipher: "aead_ok demo_env" "rand_ok demo_env"
  by (simp_all add: aead_ok_def rand_ok_def demo_env_def gives_def)

lemma secret_roundtrip_witness:
  "secret_value demo_env (sdb (snd (run_state (secret_Set demo_env ''shop'' ''KEY'' ''s3cret'') demo_sys))) ''shop'' ''KEY''
     = Some ''s3cret''"
proof -
  have "fst (run_state (secret_Set demo_env ''shop'' ''KEY'' ''s3cret'') demo_sys) = Inr ()" by code_simp
  then have "run_state (secret_Set demo_env ''shop'' ''KEY'' ''s3cret'') demo_sys =
      (Inr (), snd (run_state (secret_Set demo_env ''shop'' ''KEY'' ''s3cret'') demo_sys))"
    by (metis prod.collapse)
  from secret_roundtrip [OF demo_cipher wf_empty this] show ?thesis by simp
qed

definition demo_fleet :: "unit sys" where
  "demo_fleet = demo_sys\<lparr>sdb := empty_db\<lparr>db_nodes := [demo_row]\<rparr>\<rparr>"

definition demo_remote :: resolved where
  "demo_remote = \<lparr>rm_node = SSHNode ''root@n1'', rm_mesh = ''10.0.0.2'', rm_docker_host = ''ssh://root@n1'', rm_local = False\<rparr>"

lemma demo_resolve: "fst (run_state (ResolveMeta demo_env ''n1'') demo_fleet) = Inr demo_remote"
  by code_simp

lemma demo_resolved:
  "run_state (ResolveMeta demo_env ''n1'') demo_fleet = (Inr demo_remote, snd (run_state (ResolveMeta demo_env ''n1'') demo_fleet))"
  using demo_resolve by (metis prod.collapse)

lemma ResolveMeta_local_iff_witness: "\<not> rm_local demo_remote \<and> rm_node demo_remote \<noteq> LocalNode"
proof -
  have "wf_cache demo_fleet" by (simp add: wf_cache_def demo_fleet_def demo_sys_def)
  from ResolveMeta_local_iff [OF this demo_resolved] show ?thesis by (simp add: is_local_name_def)
qed

lemma ResolveMeta_again_witness:
  "fst (run_state (ResolveMeta (demo_env\<lparr>new_ssh := \<lambda>_ x. (Some (Errf ''down'' []), 1, x)\<rparr>) ''n1'')
     (snd (run_state (ResolveMeta demo_env ''n1'') demo_fleet))) = Inr demo_remote"
  using ResolveMeta_again [OF demo_resolved] by simp

lemma Invalidate_refreshes_witness: "fresh_for demo_row demo_remote"
proof -
  let ?m = "do { Invalidate ''n1''; ResolveMeta demo_env ''n1'' }"
  have "fst (run_state ?m demo_fleet) = Inr demo_remote" by code_simp
  then have run: "run_state ?m demo_fleet = (Inr demo_remote, snd (run_state ?m demo_fleet))" by (metis prod.collapse)
  have "\<not> is_local_name ''n1''" by (simp add: is_local_name_def)
  from Invalidate_refreshes [OF this run] show ?thesis
    by (simp add: demo_fleet_def empty_db_def sql_get_node_def demo_row_def)
qed

definition demo_services :: "svc list" where
  "demo_services = [\<lparr>v_name = ''db'', v_image = ''postgres:16'', v_command = [], v_env = [], v_secrets = [''PGPASSWORD''], v_volume = []\<rparr>,
     \<lparr>v_name = ''cache'', v_image = ''redis:7'', v_command = [], v_env = [], v_secrets = [], v_volume = []\<rparr>]"

lemma RenderBackingCompose_order_independent_witness:
  "RenderBackingCompose ''shop'' demo_services = RenderBackingCompose ''shop'' (rev demo_services)"
  by (rule RenderBackingCompose_order_independent) (simp_all add: demo_services_def)

lemma EnsureUp_adopts_witness:
  "list_all (\<lambda>e. \<not> beyond_config e) (new_events demo_sys (snd (run_state (EnsureUp demo_env) demo_sys)))"
proof -
  let ?net = "call_unit (n_ensure_network (node_at demo_env LocalNode) lwdNetwork) :: (unit sys, unit res) state"
  let ?s1 = "snd (run_state ?net demo_sys)"
  have net: "run_state ?net demo_sys = (Inr (), ?s1)"
    by (simp add: call_unit_def call_def unit_res_def demo_defs)
  have found: "run_state (findCaddy demo_env) ?s1 = (Inr (Some demo_caddy), snd (run_state (findCaddy demo_env) ?s1))"
    by (simp add: findCaddy_def call_unit_def call_def unit_res_def demo_defs)
  have "c_state demo_caddy = ''running''" by (simp add: demo_caddy_def)
  from EnsureUp_adopts [OF net found this] show ?thesis by (metis prod.collapse)
qed


section \<open>The daemon\<close>

definition demo_app :: app where
  "demo_app = \<lparr>a_name = ''shop'', a_image = ''shop:1'', a_domain = ''shop.test'', a_port = 80, a_node = ''local'', a_pool = [],
     a_env = [], a_secrets = [], a_health = \<lparr>h_path = [], h_timeout = 0, h_raw_timeout = []\<rparr>, a_replicas = 2,
     a_requirements = None, a_compose = [], a_service = [], a_git = None, a_services = [], a_build = None, a_surfaces = []\<rparr>"

definition demo_cur :: deployment where
  "demo_cur = \<lparr>d_id = 1, d_app = ''shop'', d_image = ''shop:1'', d_container = ''c1'', d_status = StatusRunning,
     d_created = 0, d_spec = SpecJSON demo_app, d_compose = [], d_scheduled = False,
     d_replicas = [\<lparr>x_container = ''c1'', x_node = ''local'', x_upstream = ''lwd-shop-1'', x_port = 80\<rparr>,
       \<lparr>x_container = ''c2'', x_node = ''local'', x_upstream = ''lwd-shop-1-1'', x_port = 80\<rparr>]\<rparr>"

text \<open>A database with \<open>demo_cur\<close> in it, and no process yet.\<close>

definition demo_live :: "unit sys" where
  "demo_live = demo_sys\<lparr>sdb := empty_db\<lparr>db_deps := [row_of demo_cur], db_seq := 1\<rparr>\<rparr>"

lemma demo_current: "current_of ''shop'' (sdb demo_live) = Some demo_cur"
  by code_simp

text \<open>The same on fresh doubles.\<close>

definition demo_ward :: "fakes sys" where
  "demo_ward = trial_sys\<lparr>sdb := empty_db\<lparr>db_deps := [row_of demo_cur], db_seq := 1\<rparr>\<rparr>"
lemma ward_current: "current_of ''shop'' (sdb demo_ward) = Some demo_cur" by code_simp




lemma demo_start: "fst (run_state (start_daemon demo_env) demo_sys) = Inr ()"
  by code_simp



text \<open>A login at time 0 on a dashboard whose HMAC is a toy.\<close>

definition demo_web :: authenticator where
  "demo_web = NewAuthenticator ''0123456789abcdef'' ''hunter2''"

definition demo_login_req :: http_req where
  "demo_login_req = \<lparr>hq_path = ''/login'', hq_auth = [], hq_session = None, hq_tls = True, hq_forwarded = []\<rparr>"

definition demo_cookie :: set_cookie where
  "demo_cookie = \<lparr>ck_value = signSession (\<lambda>k m. rev m) (au_key demo_web) (0 + au_ttl demo_web),
     ck_expires = Some (0 + au_ttl demo_web), ck_delete = False, ck_secure = True\<rparr>"

lemma login_lasts_witness:
  "Middleware (\<lambda>k m. rev m) demo_web 1000000000
     (demo_login_req\<lparr>hq_path := ''/api/apps'', hq_session := Some (ck_value demo_cookie)\<rparr>) = Next"
  using login_lasts [of 0 demo_web "\<lambda>k m. rev m" demo_login_req "Inr ''hunter2''" demo_cookie
      "demo_login_req\<lparr>hq_path := ''/api/apps'', hq_session := Some (ck_value demo_cookie)\<rparr>" 1000000000]
  by (simp add: demo_web_def demo_login_req_def demo_cookie_def NewAuthenticator_def defaultTTL_def Login_def checkPassword_def
      ConstantTimeCompare_def isSecureRequest_def unix_def)

text \<open>The command line on the machine of the daemon.\<close>

lemma client_exact_witness:
  "dc_scale (http_client (daemon_dial demo_env (\<lambda>_. True) (\<lambda>_. Inr (''http'', [])) []) (\<lambda>_. True) (New ''/run/lwd.sock''))
       ''shop'' 3
     = handled_if True demo_env (\<lambda>_. True) (\<lambda>_. Inr (''http'', [])) 200 as_deployment (PostScale ''shop'' (Inr 3))"
proof -
  have "base_at (\<lambda>_. True) (New ''/run/lwd.sock'') ''lwd''" by (simp add: base_at_def New_def control_char_def)
  moreover have "plain_seg ''shop''" "plain_seg ''KEY''" by code_simp+
  ultimately show ?thesis
    using client_exact [of "\<lambda>_. True" "New ''/run/lwd.sock''" "''lwd''" "''shop''" "''KEY''", where token = "[]" and env = demo_env
      and ip = "\<lambda>_. True" and url = "\<lambda>_. Inr (''http'', [])" and n = 3]
    by (simp add: Let_def direct_client_def)
qed

lemma lastLines_exact_witness: "line_count (lastLines (''one'' @ [line_end] @ ''two'' @ [line_end] @ ''three'') 2) = 2"
proof -
  have "line_count (''one'' @ [line_end] @ ''two'' @ [line_end] @ ''three'') = 3" by code_simp
  then show ?thesis using lastLines_exact [of 2 "''one'' @ [line_end] @ ''two'' @ [line_end] @ ''three''"] by simp
qed

definition demo_cli :: "unit sys cli_world" where
  "demo_cli = \<lparr>cw_daemon = finish 0 [], cw_stdin = Inr ''v'', cw_read = (\<lambda>_. Inr []),
     cw_toml = (\<lambda>_. Inr demo_app), cw_date = (\<lambda>_. [])\<rparr>"

lemma Run_exit_codes_witness:
  "wp (Run demo_cli (direct_client True demo_env (\<lambda>_. True) (\<lambda>_. Inr (''http'', []))) [''scale'', ''shop'', ''none''])
     (\<lambda>r s'. case r of None \<Rightarrow> True | Some (code, ps) \<Rightarrow> code \<in> {0, 1} \<or> code = 2 \<and> s' = demo_sys) demo_sys"
  by (rule Run_exit_codes) simp


lemma Run_without_token_witness:
  "wp (Run demo_cli (http_client (daemon_dial demo_env (\<lambda>_. True) (\<lambda>_. Inr (''http'', [])) ''s3cret'') (\<lambda>_. True)
      (NewHTTP ''host:8443'' ''guess'')) [''rm'', ''shop''])
    (\<lambda>r s'. s' = demo_sys \<and> (case r of None \<Rightarrow> True | Some (code, ps) \<Rightarrow> code \<in> {1, 2})) demo_sys"
  by (rule Run_without_token) (simp_all add: NewHTTP_def Let_def)

text \<open>The status of an app whose name leads to another route.\<close>

lemma read_only_tools_read_witness:
  "wp (call_tool (http_client (daemon_dial demo_env (\<lambda>_. True) (\<lambda>_. Inr (''http'', [])) []) (\<lambda>_. True) (New ''/run/lwd.sock''))
      (\<lambda>_. Inl (Errf ''no file'' [])) (\<lambda>_. Inr no_app) (CallHistory ''../nodes/edge/drain?''))
    (\<lambda>r s'. kept s' = kept demo_sys \<and> remotes s' = remotes demo_sys \<and> trace s' = trace demo_sys) demo_sys"
  by (rule read_only_tools_read) (simp add: lwd_history_tool_def)

section \<open>A Docker host and a shell\<close>

text \<open>A Docker whose state is the list of its containers, on which no container starts.\<close>

definition does :: "'b \<Rightarrow> ('a, 'b) op" where
  "does b x = (b, 1, x)"

definition new_id :: "string list \<Rightarrow> string" where
  "new_id ids = CHR ''c'' # concat ids"

definition demo_docker :: "string list docker" where
  "demo_docker = \<lparr>dk_ping = does None, dk_image = (\<lambda>_. does None), dk_pull = (\<lambda>_. does (Inl (Errf ''offline'' []))),
     dk_network = (\<lambda>_. does None), dk_network_create = (\<lambda>_ _. does None),
     dk_create = (\<lambda>_ _ _ _ ids. (Inr (new_id ids), 1, new_id ids # ids)),
     dk_start = (\<lambda>_. does (Some (Errf ''no such command'' []))), dk_stop = (\<lambda>_ _. does None),
     dk_remove = (\<lambda>i _ ids. (None, 1, filter (\<lambda>j. j \<noteq> i) ids)), dk_inspect = (\<lambda>_. does (Inl (Errf ''no such container'' []))),
     dk_list = (\<lambda>_ _. does (Inr [])), dk_logs = (\<lambda>_ _ _. does (Inr [])), dk_connect = (\<lambda>_ _. does None),
     dk_save = (\<lambda>_. does (Inr [])), dk_load = (\<lambda>_ _. does (Inr [])), dk_info = does (Inr (4, 8000)),
     dk_not_found = (\<lambda>_. True), dk_message = (\<lambda>_. [])\<rparr>"

definition demo_host :: "string list host" where
  "demo_host = \<lparr>h_meminfo = does (Inr []), h_loadavg = does (Inr ''0.5 0.4''), h_statfs = does (Inr (10, 4096, 5)), h_cpus = 4,
     h_get = (\<lambda>_. does (Inr 200)), h_connect = (\<lambda>_. does None), h_ctx = does None\<rparr>"

lemma new_id_fresh: "new_id ids \<notin> set ids"
proof
  assume "new_id ids \<in> set ids"
  then obtain us vs where "ids = us @ new_id ids # vs" by (meson split_list)
  then have "length (concat ids) = length (concat us) + length (new_id ids) + length (concat vs)"
    by (metis concat.simps(2) concat_append length_append add.assoc)
  then show False by (simp add: new_id_def)
qed

lemma demo_docker_keeps: "docker_keeps demo_docker set"
  by (auto simp: docker_keeps_def demo_docker_def does_def new_id_fresh)

lemma RunContainer_leaves_none_witness:
  "case Local_RunContainer demo_docker caddy_spec [''web''] of (r, dt, ids) \<Rightarrow> set ids = {''web''}"
proof -
  have "case Local_RunContainer demo_docker caddy_spec [''web''] of (r, dt, ids) \<Rightarrow> \<exists>e. r = Inl e"
    by (simp add: Local_RunContainer_def demo_docker_def does_def try_op_def and_then_def answer_def)
  moreover have "fst (dk_remove demo_docker i True y) = None" for i y by (simp add: demo_docker_def)
  ultimately show ?thesis
    using RunContainer_leaves_none [OF demo_docker_keeps, where sp = caddy_spec and x = "[''web'']"] by (auto split: sum.splits)
qed

lemma EnsureImage_offline_witness: "fst (n_ensure_image (local_node demo_docker demo_host False) ''web:1'' []) = None"
  using EnsureImage_offline [of demo_docker "''web:1''" "[]" 1 "[]"] by (simp add: demo_docker_def does_def)

lemma Local_Health_sound_witness:
  "\<exists>y dp. probe_container demo_host (demo_caddy\<lparr>c_host_port := 8080\<rparr>) \<lparr>hs_path = [], hs_timeout = 1000\<rparr> y = (None, dp, [])"
proof -
  have "n_health (local_node demo_docker demo_host False) (demo_caddy\<lparr>c_host_port := 8080\<rparr>) \<lparr>hs_path = [], hs_timeout = 1000\<rparr> []
      = (None, 2, [])"
    by (simp add: local_node_def Local_Health_def health_loop.simps probe_container_def probeTCP_def demo_host_def does_def)
  then show ?thesis
    using Local_Health_sound [of "demo_caddy\<lparr>c_host_port := 8080\<rparr>" demo_docker demo_host False] by (simp add: demo_caddy_def)
qed

lemma parseMeminfo_exact_witness:
  "parseMeminfo (join_with [CHR 0x0A] [mem_line ''MemTotal:'' 7 16384, ''MemFree:  100 kB'', mem_line ''MemAvailable:'' 3 8192])
     = Inr (16777216, 8388608)"
proof -
  have "other_line ''MemFree:  100 kB''" by (simp add: other_line_def max_line_def)
  then show ?thesis using parseMeminfo_exact [of "[]" "[''MemFree:  100 kB'']" "[]" 7 3 16384 8192] by simp
qed

definition demo_shell :: "unit shell" where
  "demo_shell = \<lparr>sh_environ = [''PATH=/bin''], sh_exec = (\<lambda>_ _. does (Ran ''0123abcd''))\<rparr>"

lemma Clone_contained_witness:
  "case Clone (logged demo_shell) ''https://git.test/shop'' ''main'' ''/tmp/clone'' ((), []) of (r, dt, x, ps) \<Rightarrow> list_all contained ps"
  using Clone_contained [where dir = "''/tmp/clone''" and sh = demo_shell and url = "''https://git.test/shop''" and ref = "''main''" and x = "()"] by (simp split: prod.splits)

lemma Clone_resolves_witness:
  "case Clone (logged demo_shell) ''https://git.test/shop'' ''main'' ''/tmp/clone'' ((), []) of (r, dt, x, ps) \<Rightarrow>
     \<exists>vars raw. last ps = (vars, [''git'', ''-C'', ''/tmp/clone'', ''rev-parse'', ''HEAD''], Ran raw) \<and> r = Inr (TrimSpace raw)"
proof -
  obtain sha dt x ps where c: "Clone (logged demo_shell) ''https://git.test/shop'' ''main'' ''/tmp/clone'' ((), []) = (Inr sha, dt, x, ps)"
    by (simp add: Clone_def run_then_def run_git_def run_in_def give_def logged_def demo_shell_def does_def Let_def)
  show ?thesis using Clone_resolves [OF c] by (auto simp: c)
qed


end
