(* ===== verification/Spec2Isabelle.thy ===== *)
theory Spec2Isabelle
  imports Example
begin

text \<open>
  A model of \<open>lwd\<close>, a lightweight deployment daemon (\<open>src/\<close>, Go), and what makes it correct.

  \<^bold>\<open>The program.\<close> A daemon deploys apps, each described by an \<open>lwd.toml\<close>, as containers on the host's
  Docker or on registered remote nodes, behind one Caddy that it configures. Its core is the
  \<open>Reconciler\<close> (\<open>src/internal/reconciler\<close>): it places the replicas of an app (\<open>schedule.go\<close> with
  \<open>src/internal/scheduler\<close>), starts them, stages and health-checks them, flips the route
  (\<open>src/internal/router\<close>), retires the old set and records the deployment in SQLite
  (\<open>src/internal/store\<close>). Secrets are kept encrypted (\<open>src/internal/secrets\<close>), nodes are resolved by
  name (\<open>src/internal/node/resolver.go\<close>), backing services become a compose file
  (\<open>reconciler/backing.go\<close>). A loop (\<open>reconcile.go\<close>, \<open>loop.go\<close>) watches the apps, heals dead replicas under a
  backoff (\<open>replicaheal.go\<close>) and moves apps off nodes that are lost (\<open>evacuate.go\<close>). Requests come in
  over HTTP (\<open>src/internal/api/api.go\<close>); \<open>src/internal/cli/cli.go\<close> starts it all. Around it stand the adapters
  to Docker, git and compose, an agent that serves a node to a remote controller (\<open>src/internal/agent\<close>),
  and three front ends over one HTTP client (\<open>src/internal/client\<close>): the command line, a web interface
  (\<open>src/internal/web\<close>) and a set of MCP tools (\<open>src/internal/mcp\<close>).

  \<^bold>\<open>How it is modelled.\<close> An operation is a program of the state monad over \<open>'x sys\<close> (\<open>World\<close>), the
  state the daemon itself keeps: database, route tables, resolver cache, heal bookkeeping, clock and a
  ghost log of the effects in the order they were made. What the daemon talks to (Docker,
  Caddy's admin API, \<open>docker compose\<close>, git, files, the random source, SQLite statements, AES-GCM) is a
  record \<open>'x env\<close> of operations on a hidden state \<open>'x\<close>, of which the theorems assume nothing unless
  they say so: each may fail, and each takes the time it likes. Go errors are values (\<open>goerr\<close>), a result
  is \<open>goerr + 'a\<close>, \<open>attempt\<close> is \<open>if err != nil\<close>. The reconciler serializes its operations with a mutex, so
  an operation runs from the state it finds to its end. \<open>wp m Q s\<close> says that running \<open>m\<close> from \<open>s\<close> ends
  in a result and a state that satisfy \<open>Q\<close>: all programs here are total functions, so every
  theorem of this form includes that the operation returns.

  \<^bold>\<open>The theories.\<close>
  \<^item> \<open>Prelude\<close>: errors, the monad, its weakest preconditions (\<open>wp_rules\<close>) and frames (\<open>pres_rules\<close>, locale
    \<open>frame\<close>), Go maps, strings, stable sorting (locale \<open>weak_order\<close>).
  \<^item> \<open>AppSpec\<close> (\<open>spec/spec.go\<close>): the app, \<open>Validate\<close>, \<open>ParseSize\<close>, the gates on git URLs and paths;
    \<open>Durations\<close>: \<open>time.ParseDuration\<close> and \<open>Parse\<close>.
  \<^item> \<open>NodeTypes\<close>, \<open>Scheduler\<close> (\<open>node/node.go\<close>, \<open>node/capacity.go\<close>, \<open>scheduler/scheduler.go\<close>): node data,
    \<open>Place\<close>.
  \<^item> \<open>StoreDb\<close>, \<open>Store\<close>, \<open>Migrations\<close> (\<open>store/store.go\<close>): the tables, their statements and invariant, the
    methods of \<open>Store\<close>, and the migrations of \<open>Open\<close>.
  \<^item> \<open>Caddyfile\<close>, \<open>Router\<close> (\<open>router/caddyfile.go\<close>, \<open>router.go\<close>): the generated configuration and a
    reader of it, the committed route tables, \<open>EnsureUp\<close>.
  \<^item> \<open>World\<close>, \<open>Poll\<close>: environment and state, and the polling loops of the health checks.
  \<^item> \<open>Secrets\<close> (\<open>secrets/cipher.go\<close>, \<open>store.go\<close>), \<open>Resolver\<close> (\<open>node/resolver.go\<close>), \<open>Placement\<close>
    (\<open>reconciler/schedule.go\<close>), \<open>Backing\<close> (\<open>reconciler/backing.go\<close>).
  \<^item> \<open>Isolation\<close>, \<open>Deploy\<close>, \<open>Apply\<close>, \<open>Remove\<close> (\<open>reconciler/reconciler.go\<close>): what a failed operation leaves
    alone, the blue-green deploy of a replica set, \<open>Apply\<close>, \<open>Rollback\<close>, \<open>Remove\<close>.
  \<^item> \<open>Heal\<close>, \<open>Evacuate\<close> (\<open>reconciler/replicaheal.go\<close>, \<open>evacuate.go\<close>): recreating dead replicas in place, moving
    replicas and apps off a node.
  \<^item> \<open>Loop\<close>, \<open>Healing\<close>, \<open>Failover\<close> (\<open>reconciler/reconcile.go\<close>, \<open>loop.go\<close>): a pass of the loop, the backoff
    machine it refines (locale \<open>healer\<close>), and when a lost node is evacuated.
  \<^item> \<open>Frames\<close>: locales \<open>daemon_frame\<close> and \<open>loop_frame\<close>, by which a relation on states that the few writing
    operations keep to is kept to by every operation.
  \<^item> \<open>Progress\<close>, \<open>Recovery\<close>: the contract of an environment that does what it is asked (locale \<open>obliging\<close>), and a
    calculus (\<open>hoare\<close>, \<open>sure\<close>) in which deploys and heals succeed there.
  \<^item> \<open>Doubles\<close> (the \<open>fake.go\<close> of \<open>node\<close>, \<open>router\<close>, \<open>compose\<close>, \<open>source\<close>, \<open>build\<close>, and \<open>FakeResolver\<close>): the
    in-memory doubles that the repository tests with; they keep the contract of \<open>Progress\<close>, and the router's
    double keeps the tables of the real one (locale \<open>router_contract\<close>, with both as interpretations).
  \<^item> \<open>Api\<close> (\<open>api/api.go\<close>): the handlers, from a decoded body to a status and a body.
  \<^item> \<open>Daemon\<close> (\<open>cli/cli.go\<close>): the start from an existing database, the steps of the running daemon as the
    relation \<open>daemon_step\<close>, its reachable states and their invariant.
  \<^item> \<open>Access\<close> (\<open>cli/apiauth.go\<close>, \<open>agent/auth.go\<close>, \<open>web/auth.go\<close>): bearer tokens, the guard of the TCP listener,
    passwords and signed sessions.
  \<^item> \<open>Agent\<close> (\<open>agent/server.go\<close>, \<open>node/agent.go\<close>, \<open>node/wire.go\<close>): the server of a node, its wire format, and the
    node that the controller makes of it (locale for the link between the two).
  \<^item> \<open>Docker\<close> (\<open>node/local.go\<close>, \<open>node/capacity.go\<close>): a node over the calls of the Docker SDK, \<open>local_node\<close>.
  \<^item> \<open>Tools\<close> (\<open>source/git.go\<close>, \<open>build/build.go\<close>, \<open>compose/compose.go\<close>): the processes that are started.
  \<^item> \<open>Config\<close> (\<open>config/config.go\<close>, \<open>spec.Load\<close>): the settings and their defaults.
  \<^item> \<open>Client\<close> (\<open>client/client.go\<close>, the routes of \<open>api/api.go\<close>): a method of the client, the request it becomes, and
    the handler that the request reaches (locale \<open>daemon_link\<close>). \<open>daemon_client\<close> is the interface of the front ends.
  \<^item> \<open>Web\<close> (\<open>web/\<close>), \<open>Mcp\<close> (\<open>mcp/tools.go\<close>, \<open>server.go\<close>), \<open>Cli\<close> (\<open>cli/cli.go\<close>): the front ends over \<open>daemon_client\<close>;
    \<open>Mcp\<close> also has the tools as they are announced, and that the read-only ones only read (locale \<open>reading_client\<close>).
  \<^item> \<open>Remote\<close>: the command line over the network, \<open>Cli\<close>, \<open>Client\<close>, \<open>Access\<close> and \<open>Api\<close> composed (locales \<open>client_pair\<close>
    and \<open>barred_client\<close>, what a command needs of the client it is given).
  \<^item> \<open>Programs\<close> (\<open>src/cmd\<close>, \<open>runDaemon\<close>): what the programs read, where they listen and whom they let in.
  \<^item> \<open>Example\<close>: a concrete daemon, on which the theorems with hypotheses are applied.

  \<^bold>\<open>What is shown.\<close> A failed deploy is isolated (no live route, current deployment or container of
  others is touched), a successful one serves what it reports, gated on health, with the flip
  before the first removal, and becomes the current deployment; rollback restores the recorded
  app; where the environment obliges, a valid app with room and secrets does deploy, and a heal that is due does
  heal; a heal, an evacuation and a failover touch only what is dead or on the node, not before their
  time, and gated on health; a refused request changes nothing; the daemon keeps its invariant over any
  sequence of requests, passes and restarts, and a restart gives apps their routes back; secrets fail
  closed and round-trip; a placement is on an eligible node and provenance is
  kept; routes change transactionally; migrations preserve data; the generated Caddyfile and
  compose file say exactly what they were given. A node behind an agent is the agent's node, and the
  daemon behind its client is the daemon, when the tokens agree, and neither is touched when they do not; so \<open>lwd\<close> over HTTP does what it does on the
  daemon's own handlers, and without the token nothing, and a tool announced to an agent as read-only changes nothing;
  the daemon opens no listener that is not local or guarded by its token, and without a session nothing
  gets past the web interface; containers that do not start are removed, host
  ports are bound where they should be, and git is run with no option but the program's own.

  \<^bold>\<open>Bounds.\<close> There is no fuel (the ten requests of a redirected call are the code's own): the polling loop is a total function, its measure is the time left to its
  deadline, which shrinks because every further round sleeps (\<open>poll_terminates\<close> bounds its rounds). The
  loop of the daemon itself does not end, and is a step relation.

  \<^bold>\<open>Abstractions.\<close> Numbers in error messages are left out. A JSON column is the value it encodes, the
  empty text, or a text that does not parse; \<open>json.Marshal\<close> of an app does not fail. \<open>float64\<close>
  CPU amounts are rationals, except in \<open>ParseSize\<close>, where rounding is modelled. Times are
  nanoseconds, kept as whole seconds in the tables. Contexts appear where they are waited on.

  \<^bold>\<open>Concurrency.\<close> Operations that hold the reconciler's mutex run from start to end. A pass of the loop
  observes without the mutex; it is modelled as one run, and \<open>daemon_step\<close> besides lets a heal start from
  any row, however old. \<open>ParseIP\<close> and \<open>Parse\<close> of Go's net packages are arguments of the handlers.

  \<^bold>\<open>Wire formats.\<close> A JSON body is the value it encodes; a body of another type than the one expected does
  not decode. A stream (a log, an image) is all of it at once. The syntax of a host in a URL, the decoders of TOML
  and forms, HMAC and time formats are arguments. White space and numerals of the files of \<open>/proc\<close> are ASCII.

  \<^bold>\<open>Not modelled.\<close> The time between the start of the servers and a signal is an argument of \<open>runDaemon\<close>, and what
  happens in it is \<open>daemon_step\<close>. The construction of SDK clients, the schemas, descriptions and transport of the MCP SDK, streams that break off,
  recovery from panics of the loop, and the mutexes of the doubles.
\<close>

end
